(* ===== verification/Prelude.thy ===== *)
theory Prelude
  imports Main "HOL-Library.Word" "HOL-Library.Product_Lexorder"
begin

unbundle bit_operations_syntax

text \<open>
  The vocabulary every component shares: machine integers and byte strings, the
  slice operations of the Rust standard library that the sources use, network and
  host byte order, IP and hardware addresses, and the collections of simplification
  rules the component theories fill.
\<close>

section \<open>Collections of rules\<close>

named_theorems byte_simps \<open>reading and writing integers as bytes\<close>
named_theorems slice_simps \<open>the slice operations of the standard library\<close>
named_theorems machine_simps \<open>definitions of the operations of the state machines\<close>

section \<open>Machine integers\<close>

type_synonym byte = "8 word"
type_synonym u16 = "16 word"
type_synonym u32 = "32 word"
type_synonym u64 = "64 word"

text \<open>A \<open>Result\<close> of the source is a sum with the error on the left.\<close>

type_synonym ('a, 'e) result = "'e + 'a"

text \<open>
  Durations and instants are counted in nanoseconds. Where the source narrows a
  count to \<open>u64\<close> (an \<open>as u64\<close> cast), the wrap-around is written out with
  \<open>as_u64\<close>.
\<close>

type_synonym duration = nat
type_synonym instant = nat

definition as_u64 :: "nat \<Rightarrow> nat" where
  "as_u64 n = n mod 2 ^ 64"

definition millis :: "nat \<Rightarrow> duration" where
  "millis n = n * 1000000"

definition secs :: "nat \<Rightarrow> duration" where
  "secs n = n * 1000000000"

lemma as_u64_id [simp]: "n < 2 ^ 64 \<Longrightarrow> as_u64 n = n"
  by (simp add: as_u64_def)

lemma as_u64_le: "as_u64 n \<le> n"
  by (simp add: as_u64_def)

lemma unat_byte_less [simp]: "unat (b :: byte) < 256"
  using unsigned_less [where ?'b = 8, of b] by simp

lemma unat_u16_less [simp]: "unat (w :: u16) < 65536"
  using unsigned_less [where ?'b = 16, of w] by simp

lemma unat_u32_less [simp]: "unat (w :: u32) < 4294967296"
  using unsigned_less [where ?'b = 32, of w] by simp

lemma unat_byte_of_nat: "n < 256 \<Longrightarrow> unat (of_nat n :: byte) = n"
  by (simp add: unat_of_nat)

lemma unat_u16_of_nat: "n < 65536 \<Longrightarrow> unat (of_nat n :: u16) = n"
  by (simp add: unat_of_nat)

lemma unat_u32_of_nat: "n < 4294967296 \<Longrightarrow> unat (of_nat n :: u32) = n"
  by (simp add: unat_of_nat)

lemma of_nat_eq_byte: "of_nat (unat b) = (b :: byte)"
  by simp

section \<open>Integers as bytes\<close>

text \<open>\<open>u16::from_be_bytes\<close> and \<open>u16::to_be_bytes\<close>.\<close>

definition u16_from_be :: "byte \<Rightarrow> byte \<Rightarrow> u16" where
  "u16_from_be hi lo = of_nat (256 * unat hi + unat lo)"

definition u16_to_be :: "u16 \<Rightarrow> byte list" where
  "u16_to_be w = [of_nat (unat w div 256), of_nat (unat w mod 256)]"

text \<open>
  Host byte order is a parameter: netlink speaks whatever order the machine has, and
  the sources use \<open>to_ne_bytes\<close> and \<open>from_ne_bytes\<close>.
\<close>

datatype endian = Little | Big

definition u16_from_ne :: "endian \<Rightarrow> byte \<Rightarrow> byte \<Rightarrow> u16" where
  "u16_from_ne e a b = (case e of Big \<Rightarrow> u16_from_be a b | Little \<Rightarrow> u16_from_be b a)"

definition u16_to_ne :: "endian \<Rightarrow> u16 \<Rightarrow> byte list" where
  "u16_to_ne e w = (case e of Big \<Rightarrow> u16_to_be w | Little \<Rightarrow> rev (u16_to_be w))"

definition u32_from_be :: "byte \<Rightarrow> byte \<Rightarrow> byte \<Rightarrow> byte \<Rightarrow> u32" where
  "u32_from_be a b c d = of_nat (((unat a * 256 + unat b) * 256 + unat c) * 256 + unat d)"

definition u32_to_be :: "u32 \<Rightarrow> byte list" where
  "u32_to_be w = [of_nat (unat w div 16777216), of_nat (unat w div 65536 mod 256),
     of_nat (unat w div 256 mod 256), of_nat (unat w mod 256)]"

definition u32_from_ne :: "endian \<Rightarrow> byte \<Rightarrow> byte \<Rightarrow> byte \<Rightarrow> byte \<Rightarrow> u32" where
  "u32_from_ne e a b c d =
     (case e of Big \<Rightarrow> u32_from_be a b c d | Little \<Rightarrow> u32_from_be d c b a)"

definition u32_to_ne :: "endian \<Rightarrow> u32 \<Rightarrow> byte list" where
  "u32_to_ne e w = (case e of Big \<Rightarrow> u32_to_be w | Little \<Rightarrow> rev (u32_to_be w))"

lemma unat_u16_from_be [byte_simps]: "unat (u16_from_be a b) = 256 * unat a + unat b"
proof -
  have "unat a < 256" "unat b < 256" by simp_all
  then have "256 * unat a + unat b < 65536" by linarith
  then show ?thesis unfolding u16_from_be_def by (rule unat_u16_of_nat)
qed

lemma length_u16_to_be [byte_simps]: "length (u16_to_be w) = 2"
  by (simp add: u16_to_be_def)

lemma length_u16_to_ne [byte_simps]: "length (u16_to_ne e w) = 2"
  by (cases e) (simp_all add: u16_to_ne_def length_u16_to_be)

lemma length_u32_to_be [byte_simps]: "length (u32_to_be w) = 4"
  by (simp add: u32_to_be_def)

lemma length_u32_to_ne [byte_simps]: "length (u32_to_ne e w) = 4"
  by (cases e) (simp_all add: u32_to_ne_def length_u32_to_be)

lemma u16_to_be_elems:
  obtains a b where "u16_to_be w = [a, b]" "u16_from_be a b = w"
proof
  show "u16_to_be w = [of_nat (unat w div 256), of_nat (unat w mod 256)]"
    by (simp add: u16_to_be_def)
  have "unat w div 256 < 256"
    using unat_u16_less [of w] by (simp add: less_mult_imp_div_less)
  then have "unat (of_nat (unat w div 256) :: byte) = unat w div 256"
    by (rule unat_byte_of_nat)
  moreover have "unat (of_nat (unat w mod 256) :: byte) = unat w mod 256"
    by (rule unat_byte_of_nat) simp
  ultimately show "u16_from_be (of_nat (unat w div 256)) (of_nat (unat w mod 256)) = w"
    by (simp add: u16_from_be_def)
qed

lemma u16_ne_roundtrip:
  obtains a b where "u16_to_ne e w = [a, b]" "u16_from_ne e a b = w"
proof -
  obtain a b where ab: "u16_to_be w = [a, b]" "u16_from_be a b = w"
    by (rule u16_to_be_elems)
  show ?thesis
    by (cases e) (use ab that in \<open>auto simp: u16_to_ne_def u16_from_ne_def\<close>)
qed

lemma u32_to_be_elems:
  obtains a b c d where "u32_to_be w = [a, b, c, d]" "u32_from_be a b c d = w"
proof
  let ?n = "unat w"
  show "u32_to_be w = [of_nat (?n div 16777216), of_nat (?n div 65536 mod 256),
     of_nat (?n div 256 mod 256), of_nat (?n mod 256)]"
    by (simp add: u32_to_be_def)
  have "?n div 16777216 < 256"
    using unat_u32_less [of w] by (simp add: less_mult_imp_div_less)
  then have "unat (of_nat (?n div 16777216) :: byte) = ?n div 16777216"
    by (rule unat_byte_of_nat)
  moreover have "unat (of_nat (m mod 256) :: byte) = m mod 256" for m
    by (rule unat_byte_of_nat) simp
  moreover have "((?n div 16777216 * 256 + ?n div 65536 mod 256) * 256 + ?n div 256 mod 256) * 256
      + ?n mod 256 = ?n"
  proof -
    have "?n div 65536 = ?n div 256 div 256" "?n div 16777216 = ?n div 256 div 256 div 256"
      by (simp_all flip: div_mult2_eq)
    then show ?thesis by (simp add: div_mult_mod_eq)
  qed
  ultimately show "u32_from_be (of_nat (?n div 16777216)) (of_nat (?n div 65536 mod 256))
      (of_nat (?n div 256 mod 256)) (of_nat (?n mod 256)) = w"
    by (simp add: u32_from_be_def)
qed

lemma u32_ne_roundtrip:
  obtains a b c d where "u32_to_ne e w = [a, b, c, d]" "u32_from_ne e a b c d = w"
proof -
  obtain a b c d where ab: "u32_to_be w = [a, b, c, d]" "u32_from_be a b c d = w"
    by (rule u32_to_be_elems)
  show ?thesis
    by (cases e) (use ab that in \<open>auto simp: u32_to_ne_def u32_from_ne_def\<close>)
qed

section \<open>Slices\<close>

text \<open>
  \<open>slice.get(i)\<close>, \<open>slice.get(a..b)\<close> and \<open>slice.get(a..)\<close>: nothing when the
  index or the range is outside the slice.
\<close>

definition get_at :: "nat \<Rightarrow> 'a list \<Rightarrow> 'a option" where
  "get_at i xs = (if i < length xs then Some (xs ! i) else None)"

definition get_range :: "nat \<Rightarrow> nat \<Rightarrow> 'a list \<Rightarrow> 'a list option" where
  "get_range a b xs = (if a \<le> b \<and> b \<le> length xs then Some (take (b - a) (drop a xs)) else None)"

definition get_from :: "nat \<Rightarrow> 'a list \<Rightarrow> 'a list option" where
  "get_from a xs = (if a \<le> length xs then Some (drop a xs) else None)"

text \<open>\<open>Iterator::find_map\<close>.\<close>

fun find_map :: "('a \<Rightarrow> 'b option) \<Rightarrow> 'a list \<Rightarrow> 'b option" where
  "find_map f [] = None"
| "find_map f (x # xs) = (case f x of Some y \<Rightarrow> Some y | None \<Rightarrow> find_map f xs)"

text \<open>\<open>Iterator::min_by_key\<close>: the first of the smallest elements.\<close>

fun min_by_key :: "('a \<Rightarrow> 'k :: linorder) \<Rightarrow> 'a list \<Rightarrow> 'a option" where
  "min_by_key f [] = None"
| "min_by_key f (x # xs) =
     (case min_by_key f xs of None \<Rightarrow> Some x | Some y \<Rightarrow> if f y < f x then Some y else Some x)"

text \<open>\<open>usize::next_multiple_of(4)\<close>.\<close>

definition next_multiple_of_4 :: "nat \<Rightarrow> nat" where
  "next_multiple_of_4 n = (if n mod 4 = 0 then n else n + (4 - n mod 4))"

lemma get_at_Some [slice_simps]: "get_at i xs = Some x \<longleftrightarrow> i < length xs \<and> xs ! i = x"
  by (auto simp: get_at_def)

lemma get_at_None [slice_simps]: "get_at i xs = None \<longleftrightarrow> length xs \<le> i"
  by (auto simp: get_at_def)

lemma get_range_Some [slice_simps]:
  "get_range a b xs = Some ys \<longleftrightarrow> a \<le> b \<and> b \<le> length xs \<and> ys = take (b - a) (drop a xs)"
  by (auto simp: get_range_def)

lemma get_from_Some [slice_simps]:
  "get_from a xs = Some ys \<longleftrightarrow> a \<le> length xs \<and> ys = drop a xs"
  by (auto simp: get_from_def)

lemma get_from_None [slice_simps]: "get_from a xs = None \<longleftrightarrow> length xs < a"
  by (auto simp: get_from_def)

lemma find_map_Some:
  "find_map f xs = Some y \<Longrightarrow> \<exists>x \<in> set xs. f x = Some y"
  by (induction xs) (auto split: option.splits)

lemma find_map_None [simp]: "find_map f xs = None \<longleftrightarrow> (\<forall>x \<in> set xs. f x = None)"
  by (induction xs) (simp_all split: option.splits)

lemma find_map_unique:
  assumes "x \<in> set xs" "f x = Some y" "\<And>z w. z \<in> set xs \<Longrightarrow> f z = Some w \<Longrightarrow> w = y"
  shows "find_map f xs = Some y"
proof (cases "find_map f xs")
  case None
  with assms(1,2) show ?thesis by simp
next
  case (Some w)
  then obtain z where "z \<in> set xs" "f z = Some w" using find_map_Some by fast
  with Some show ?thesis using assms(3) by simp
qed

lemma min_by_key_None [simp]: "min_by_key f xs = None \<longleftrightarrow> xs = []"
  by (cases xs) (auto split: option.splits)

lemma min_by_key_Some:
  "min_by_key f xs = Some x \<Longrightarrow> x \<in> set xs \<and> (\<forall>y \<in> set xs. f x \<le> f y)"
proof (induction xs arbitrary: x)
  case (Cons z zs)
  then show ?case by (fastforce split: option.splits if_splits)
qed simp

lemma next_multiple_of_4_ge [simp]: "n \<le> next_multiple_of_4 n"
  unfolding next_multiple_of_4_def by (rule if_split [THEN iffD2]) linarith

lemma walk_decreases:
  "0 < len \<Longrightarrow> at + len \<le> n \<Longrightarrow> n - (at + next_multiple_of_4 len) < n - at"
  using next_multiple_of_4_ge [of len] by linarith

lemma next_multiple_of_4_dvd: "next_multiple_of_4 n mod 4 = 0"
  unfolding next_multiple_of_4_def by (split if_split) presburger

lemma next_multiple_of_4_id: "n mod 4 = 0 \<Longrightarrow> next_multiple_of_4 n = n"
  by (simp add: next_multiple_of_4_def)

section \<open>Addresses\<close>

datatype ipv4 = Ipv4 byte byte byte byte

fun octets_v4 :: "ipv4 \<Rightarrow> byte list" where
  "octets_v4 (Ipv4 a b c d) = [a, b, c, d]"

fun key_v4 :: "ipv4 \<Rightarrow> byte \<times> byte \<times> byte \<times> byte" where
  "key_v4 (Ipv4 a b c d) = (a, b, c, d)"

datatype ipv6 = Ipv6 byte byte byte byte byte byte byte byte byte byte byte byte byte byte byte byte

fun octets_v6 :: "ipv6 \<Rightarrow> byte list" where
  "octets_v6 (Ipv6 a b c d e f g h i j k l m n p q) = [a, b, c, d, e, f, g, h, i, j, k, l, m, n, p, q]"

datatype mac = Mac byte byte byte byte byte byte

fun octets_mac :: "mac \<Rightarrow> byte list" where
  "octets_mac (Mac a b c d e f) = [a, b, c, d, e, f]"

datatype ip_addr = V4 ipv4 | V6 ipv6

text \<open>
  \<open><[u8; 4]>::try_from(slice)\<close> and its sixteen byte sibling: exactly that many bytes,
  or nothing.
\<close>

fun ipv4_of_octets :: "byte list \<Rightarrow> ipv4 option" where
  "ipv4_of_octets [a, b, c, d] = Some (Ipv4 a b c d)"
| "ipv4_of_octets _ = None"

fun ipv6_of_octets :: "byte list \<Rightarrow> ipv6 option" where
  "ipv6_of_octets [a, b, c, d, e, f, g, h, i, j, k, l, m, n, p, q] =
     Some (Ipv6 a b c d e f g h i j k l m n p q)"
| "ipv6_of_octets _ = None"

lemma length_octets_v4 [simp]: "length (octets_v4 a) = 4"
  by (cases a) simp

lemma length_octets_v6 [simp]: "length (octets_v6 a) = 16"
  by (cases a) simp

lemma length_octets_mac [simp]: "length (octets_mac a) = 6"
  by (cases a) simp

lemma ipv4_octets_roundtrip [simp]: "ipv4_of_octets (octets_v4 a) = Some a"
  by (cases a) simp

lemma ipv6_octets_roundtrip [simp]: "ipv6_of_octets (octets_v6 a) = Some a"
  by (cases a) simp

text \<open>
  Two IPv4 addresses are compared octet by octet, the most significant first, which is
  how the standard library orders them and how a tie between two nodes is settled.
\<close>

lemma key_v4_inject [simp]: "key_v4 a = key_v4 b \<longleftrightarrow> a = b"
  by (cases a; cases b) simp

instantiation ipv4 :: linorder
begin

definition less_eq_ipv4 :: "ipv4 \<Rightarrow> ipv4 \<Rightarrow> bool" where
  "less_eq_ipv4 a b \<longleftrightarrow> key_v4 a \<le> key_v4 b"

definition less_ipv4 :: "ipv4 \<Rightarrow> ipv4 \<Rightarrow> bool" where
  "less_ipv4 a b \<longleftrightarrow> key_v4 a < key_v4 b"

instance
proof
  fix a b c :: ipv4
  show "(a < b) = (a \<le> b \<and> \<not> b \<le> a)"
    by (simp add: less_eq_ipv4_def less_ipv4_def less_le_not_le)
  show "a \<le> a" by (simp add: less_eq_ipv4_def)
  show "a \<le> b \<Longrightarrow> b \<le> c \<Longrightarrow> a \<le> c" by (simp add: less_eq_ipv4_def)
  show "a \<le> b \<Longrightarrow> b \<le> a \<Longrightarrow> a = b" by (simp add: less_eq_ipv4_def)
  show "a \<le> b \<or> b \<le> a" by (auto simp: less_eq_ipv4_def)
qed

end

section \<open>Errors of the operating system\<close>

text \<open>
  An \<open>io::Error\<close> as the sources look at it: whether it says the call would block, and
  the error number it was made from, if any.
\<close>

datatype io_error = WouldBlock | OsError int | OtherError string

fun raw_os_error :: "io_error \<Rightarrow> int option" where
  "raw_os_error (OsError code) = Some code"
| "raw_os_error _ = None"

section \<open>Saturating counters\<close>

definition saturating_inc :: "u32 \<Rightarrow> u32" where
  "saturating_inc n = (if n = 0xFFFFFFFF then n else n + 1)"

lemma unat_saturating_inc:
  "unat (saturating_inc n) = (if unat n = 4294967295 then unat n else Suc (unat n))"
proof -
  have "n = 0xFFFFFFFF \<longleftrightarrow> unat n = 4294967295" by (simp add: word_unat_eq_iff)
  moreover have "unat (n + 1) = Suc (unat n)" if "unat n \<noteq> 4294967295"
  proof -
    have "Suc (unat n) < 4294967296" using that unat_u32_less [of n] by linarith
    then show ?thesis by (simp add: unat_word_ariths)
  qed
  ultimately show ?thesis by (simp add: saturating_inc_def)
qed

lemma saturating_inc_ge: "n \<le> saturating_inc n"
  by (simp add: word_le_nat_alt unat_saturating_inc)

end
