(* ===== verification/Checksum.thy ===== *)
theory Checksum
  imports Prelude
begin

text \<open>
  The one's complement sum of RFC 1071. Three modules of the VRRP crate compute it, each
  over its own pseudo header: \<open>packet.rs\<close> (VRRPv3 over IPv4), \<open>announce.rs\<close> (ICMPv6)
  and \<open>echo.rs\<close> (ICMP, no pseudo header). They share two loops, modelled here at the
  width the code runs them at: the sum of big-endian pairs in a \<open>u32\<close>, and the folding
  of the carries. The locale states what a checksum built from them promises: writing it
  over a zeroed field makes the whole message sum to zero, and one changed pair is
  noticed. Each module's own function interprets it.
\<close>

section \<open>The loops of the code\<close>

text \<open>\<open>for pair in message.chunks_exact(2) { sum += ... }\<close> and the padded remainder.\<close>

fun add_pairs :: "u32 \<Rightarrow> byte list \<Rightarrow> u32" where
  "add_pairs acc (a # b # rest) = add_pairs (acc + ucast (u16_from_be a b)) rest"
| "add_pairs acc [a] = acc + ucast (u16_from_be a 0)"
| "add_pairs acc [] = acc"

text \<open>\<open>while sum >> 16 != 0 { sum = (sum & 0xFFFF) + (sum >> 16); }\<close>\<close>

lemma unat_low16: "unat ((s :: u32) AND 0xFFFF) = unat s mod 65536"
proof -
  have "(0xFFFF :: u32) = mask 16" by (simp add: mask_eq_exp_minus_1)
  then have "s AND 0xFFFF = take_bit 16 s" by (simp add: take_bit_eq_mask)
  then show ?thesis by (simp add: take_bit_eq_mod unat_mod)
qed

lemma unat_high16: "unat (drop_bit 16 (s :: u32)) = unat s div 65536"
  by (simp add: drop_bit_eq_div unat_div)

lemma unat_fold_step:
  "unat (((s :: u32) AND 0xFFFF) + drop_bit 16 s) = unat s mod 65536 + unat s div 65536"
proof -
  have "unat s div 65536 < 65536"
    using unat_u32_less [of s] by (simp add: less_mult_imp_div_less)
  moreover have "unat s mod 65536 < 65536" by simp
  ultimately have "unat s mod 65536 + unat s div 65536 < 4294967296" by linarith
  then show ?thesis
    by (simp add: unat_word_ariths unat_low16 unat_high16)
qed

lemma high16_nonzero: "drop_bit 16 (s :: u32) \<noteq> 0 \<longleftrightarrow> 65536 \<le> unat s"
proof -
  have "drop_bit 16 s \<noteq> 0 \<longleftrightarrow> unat s div 65536 \<noteq> 0"
    by (metis unat_high16 unat_eq_zero)
  then show ?thesis by auto
qed

function fold_sum :: "u32 \<Rightarrow> u32" where
  "fold_sum acc = (if drop_bit 16 acc \<noteq> 0 then fold_sum ((acc AND 0xFFFF) + drop_bit 16 acc) else acc)"
  by pat_completeness auto
termination
proof (relation "measure unat")
  fix s :: u32
  assume "drop_bit 16 s \<noteq> 0"
  then have "65536 \<le> unat s" by (simp only: high16_nonzero)
  then have "unat s div 65536 \<ge> 1" by linarith
  then have "unat s mod 65536 + unat s div 65536 < unat s"
    using div_mult_mod_eq [of "unat s" 65536] by linarith
  then show "((s AND 0xFFFF) + drop_bit 16 s, s) \<in> measure unat"
    by (simp add: unat_fold_step)
qed simp

declare fold_sum.simps [simp del]

text \<open>\<open>!u16::try_from(sum & 0xFFFF).unwrap_or(0)\<close>\<close>

definition complement_sum :: "u32 \<Rightarrow> u16" where
  "complement_sum acc = NOT (ucast (acc AND 0xFFFF))"

section \<open>What the loops compute\<close>

text \<open>
  The abstract sum: pairs added without a width, and the representative of a sum modulo
  65535 in which only an empty sum is zero.
\<close>

fun sum16 :: "byte list \<Rightarrow> nat" where
  "sum16 (a # b # rest) = 256 * unat a + unat b + sum16 rest"
| "sum16 [a] = 256 * unat a"
| "sum16 [] = 0"

definition ones_complement :: "nat \<Rightarrow> nat" where
  "ones_complement n = (if n = 0 then 0 else (n - 1) mod 65535 + 1)"

lemma pair_le: "256 * unat (a :: byte) + unat (b :: byte) \<le> 65535"
  using unat_byte_less [of a] unat_byte_less [of b] by linarith

lemma sum16_bound: "sum16 m \<le> 65535 * ((length m + 1) div 2)"
proof (induction m rule: sum16.induct)
  case (1 a b rest)
  then show ?case using pair_le [of a b] by simp
next
  case (2 a)
  then show ?case using pair_le [of a 0] by simp
qed simp

lemma unat_ucast_pair: "unat (ucast (u16_from_be a b) :: u32) = 256 * unat a + unat b"
  by (simp add: unsigned_ucast_eq take_bit_eq_mod unat_u16_from_be
      order.strict_trans [OF unat_u16_less [of "u16_from_be a b", unfolded unat_u16_from_be]])

lemma unat_add_pairs:
  "unat s + sum16 m < 4294967296 \<Longrightarrow> unat (add_pairs s m) = unat s + sum16 m"
proof (induction s m rule: add_pairs.induct)
  case (1 s a b rest)
  have "unat (s + ucast (u16_from_be a b)) = unat s + (256 * unat a + unat b)"
    using 1(2) by (simp add: unat_word_ariths unat_ucast_pair)
  with 1 show ?case by simp
next
  case (2 s a)
  then show ?case by (simp add: unat_word_ariths unat_ucast_pair)
qed simp

lemma ones_complement_fold:
  "ones_complement (n mod 65536 + n div 65536) = ones_complement n"
proof (cases "n = 0")
  case False
  let ?k = "n mod 65536 + n div 65536"
  have split: "n = 65536 * (n div 65536) + n mod 65536" by simp
  then have "n = ?k + 65535 * (n div 65536)" by linarith
  moreover have "?k \<noteq> 0" using False split by auto
  ultimately have "n - 1 = (?k - 1) + 65535 * (n div 65536)" by linarith
  then have "(n - 1) mod 65535 = (?k - 1) mod 65535" by simp
  then show ?thesis using False \<open>?k \<noteq> 0\<close> by (simp add: ones_complement_def)
qed simp

lemma unat_fold_sum: "unat (fold_sum s) = ones_complement (unat s)"
proof (induction s rule: fold_sum.induct)
  case (1 s)
  show ?case
  proof (cases "65536 \<le> unat s")
    case True
    then have "drop_bit 16 s \<noteq> 0" by (simp only: high16_nonzero)
    with 1 have "unat (fold_sum s) = ones_complement (unat ((s AND 0xFFFF) + drop_bit 16 s))"
      by (simp add: fold_sum.simps [of s])
    then show ?thesis by (simp only: unat_fold_step ones_complement_fold)
  next
    case False
    then have "drop_bit 16 s = 0" using high16_nonzero by blast
    then show ?thesis using False by (auto simp: fold_sum.simps [of s] ones_complement_def)
  qed
qed

lemma ones_complement_le: "ones_complement n \<le> 65535"
proof -
  have "(n - 1) mod 65535 < 65535" by simp
  then show ?thesis unfolding ones_complement_def by (split if_split) linarith
qed

lemma unat_not_u16: "unat (NOT (w :: u16)) = 65535 - unat w"
proof -
  have "NOT w = - 1 - w" by (simp add: not_eq_complement)
  moreover have "w \<le> - 1" by simp
  moreover have "unat (- 1 :: u16) = 65535"
    by (simp add: unsigned_minus_1_eq_mask mask_eq_exp_minus_1)
  ultimately show ?thesis by (simp add: unat_sub)
qed

lemma unat_complement_sum: "unat (complement_sum (fold_sum s)) = 65535 - ones_complement (unat s)"
proof -
  let ?n = "ones_complement (unat s)"
  have n: "?n < 65536" using ones_complement_le [of "unat s"] by simp
  then have "unat (fold_sum s AND 0xFFFF) = ?n"
    by (simp add: unat_low16 unat_fold_sum)
  then have "unat (ucast (fold_sum s AND 0xFFFF) :: u16) = ?n"
    using n by (simp add: unsigned_ucast_eq take_bit_eq_mod)
  then show ?thesis
    unfolding complement_sum_def by (simp add: unat_not_u16)
qed

lemma ones_complement_top: "ones_complement n = 65535 \<longleftrightarrow> n \<noteq> 0 \<and> 65535 dvd n"
proof (cases n)
  case (Suc m)
  have "m mod 65535 = 65534 \<longleftrightarrow> Suc m mod 65535 = 0"
    by (simp add: mod_Suc)
  then show ?thesis using Suc by (auto simp: ones_complement_def dvd_eq_mod_eq_0)
qed (simp add: ones_complement_def)

lemma ones_complement_mod: "ones_complement n mod 65535 = n mod 65535"
  by (cases n) (simp_all add: ones_complement_def mod_Suc_eq)

section \<open>Writing a pair\<close>

lemma sum16_update:
  assumes "even i" "Suc i < length m"
  shows "sum16 (m[i := a, Suc i := b]) + (256 * unat (m ! i) + unat (m ! Suc i)) =
         sum16 m + (256 * unat a + unat b)"
  using assms
proof (induction m arbitrary: i rule: sum16.induct)
  case (1 x y rest)
  show ?case
  proof (cases "i = 0")
    case False
    with 1(2) obtain j where i: "i = Suc (Suc j)" and j: "even j"
      by (cases i; cases "i - 1") auto
    with 1(1) [of j] 1(3) show ?thesis by simp
  qed simp
qed simp_all

lemma dvd_shift_mod:
  assumes "k dvd s" "k dvd t" "t + a = s + (b :: nat)"
  shows "a mod k = b mod k"
proof -
  have "(t + a) mod k = a mod k" "(s + b) mod k = b mod k"
    using assms(1,2) by (simp_all add: mod_add_eq dvd_add_right_iff mod_0_imp_dvd
        flip: mod_add_left_eq)
  then show ?thesis using assms(3) by simp
qed

lemma dvd_add_same_mod:
  assumes "k dvd a + (r :: nat)"
  shows "k dvd b + r \<longleftrightarrow> a mod k = b mod k"
proof
  assume "k dvd b + r"
  with assms show "a mod k = b mod k"
    by (intro dvd_shift_mod [of k "a + r" "b + r"]) simp_all
next
  assume "a mod k = b mod k"
  then have "(a + r) mod k = (b + r) mod k" by (rule mod_add_cong) simp
  with assms show "k dvd b + r" by (simp add: dvd_eq_mod_eq_0)
qed

section \<open>The contract\<close>

text \<open>
  A checksum over messages whose length fits sixteen bits, with a pseudo header that
  depends on the length only.
\<close>

locale internet_checksum =
  fixes ck :: "byte list \<Rightarrow> u16" and pseudo :: "nat \<Rightarrow> nat"
  assumes ck_spec: "length m < 65536 \<Longrightarrow>
    unat (ck m) = 65535 - ones_complement (pseudo (length m) + sum16 m)"
begin

lemma ck_zero_iff:
  assumes "length m < 65536"
  shows "ck m = 0 \<longleftrightarrow> pseudo (length m) + sum16 m \<noteq> 0 \<and> 65535 dvd pseudo (length m) + sum16 m"
proof -
  let ?n = "ones_complement (pseudo (length m) + sum16 m)"
  have "?n \<le> 65535" by (rule ones_complement_le)
  then have "ck m = 0 \<longleftrightarrow> ?n = 65535"
    using ck_spec [OF assms] by (auto simp flip: unat_eq_zero)
  then show ?thesis by (simp add: ones_complement_top)
qed

lemma sealed:
  assumes len: "length m < 65536" and i: "even i" "Suc i < length m"
    and zero: "m ! i = 0" "m ! Suc i = 0"
    and ab: "u16_from_be a b = ck m"
  shows "ck (m[i := a, Suc i := b]) = 0"
proof -
  let ?s = "pseudo (length m) + sum16 m"
  let ?m = "m[i := a, Suc i := b]"
  have "256 * unat a + unat b = unat (ck m)"
    using ab by (simp flip: unat_u16_from_be)
  then have "256 * unat a + unat b = 65535 - ones_complement ?s"
    using ck_spec [OF len] by simp
  then have sum: "pseudo (length ?m) + sum16 ?m = ?s + (65535 - ones_complement ?s)"
    using sum16_update [OF i, of a b] zero by simp
  have "(?s + (65535 - ones_complement ?s)) mod 65535 =
      (ones_complement ?s + (65535 - ones_complement ?s)) mod 65535"
    by (metis mod_add_left_eq ones_complement_mod)
  then have "65535 dvd ?s + (65535 - ones_complement ?s)"
    using ones_complement_le [of ?s] by (simp add: dvd_eq_mod_eq_0)
  moreover have "?s + (65535 - ones_complement ?s) \<noteq> 0"
    by (cases "?s = 0") (simp_all add: ones_complement_def)
  ultimately have "pseudo (length ?m) + sum16 ?m \<noteq> 0" "65535 dvd pseudo (length ?m) + sum16 ?m"
    unfolding sum by simp_all
  then show ?thesis using ck_zero_iff [of ?m] len by simp
qed

lemma one_pair_noticed:
  assumes len: "length m < 65536" and i: "even i" "Suc i < length m"
    and before: "ck m = 0" and after: "ck (m[i := a, Suc i := b]) = 0"
  shows "u16_from_be a b = u16_from_be (m ! i) (m ! Suc i) \<or>
         {u16_from_be a b, u16_from_be (m ! i) (m ! Suc i)} = {0, 0xFFFF}"
proof -
  let ?old = "unat (u16_from_be (m ! i) (m ! Suc i))"
  let ?new = "unat (u16_from_be a b)"
  let ?s = "pseudo (length m) + sum16 m"
  have "65535 dvd ?s" using ck_zero_iff [OF len] before by simp
  moreover have "65535 dvd pseudo (length m) + sum16 (m[i := a, Suc i := b])"
    using ck_zero_iff [of "m[i := a, Suc i := b]"] after len by simp
  moreover have "pseudo (length m) + sum16 (m[i := a, Suc i := b]) + ?old = ?s + ?new"
    using sum16_update [OF i, of a b] by (simp add: unat_u16_from_be)
  ultimately have "?old mod 65535 = ?new mod 65535"
    by (rule dvd_shift_mod)
  moreover have "?old < 65536" "?new < 65536" by simp_all
  ultimately consider "?old = ?new" | "?old = 0" "?new = 65535" | "?old = 65535" "?new = 0"
    by (cases "?old = 65535"; cases "?new = 65535") auto
  then show ?thesis
  proof cases
    case 1
    then show ?thesis by (auto simp: word_unat_eq_iff)
  next
    case 2
    then have "u16_from_be (m ! i) (m ! Suc i) = 0" "u16_from_be a b = 0xFFFF"
      by (simp_all add: word_unat_eq_iff)
    then show ?thesis by auto
  next
    case 3
    then have "u16_from_be (m ! i) (m ! Suc i) = 0xFFFF" "u16_from_be a b = 0"
      by (simp_all add: word_unat_eq_iff)
    then show ?thesis by auto
  qed
qed

end

end
