(* ===== verification/Packet.thy ===== *)
theory Packet
  imports Checksum
begin

text \<open>
  \<open>packet.rs\<close>: the VRRPv3 advertisement, written for one destination and read back.
  The lemmas show that what a node writes its peer reads, that the checksum is judged
  over both ends, and exactly which packets are refused and why.
\<close>

section \<open>Data\<close>

definition PROTOCOL :: byte where "PROTOCOL = 112"
definition VERSION :: byte where "VERSION = 3"
definition ADVERTISEMENT :: byte where "ADVERTISEMENT = 1"
definition PACKET_HEADER :: nat where "PACKET_HEADER = 8"
definition ADDRESS :: nat where "ADDRESS = 4"
definition GIVING_UP :: byte where "GIVING_UP = 0"

lemmas packet_consts [simp] =
  PROTOCOL_def VERSION_def ADVERTISEMENT_def PACKET_HEADER_def ADDRESS_def

datatype malformed = TooShort | BadVersion byte | BadType byte | AddressCount | BadChecksum

record advertisement =
  adv_vrid :: byte
  adv_priority :: byte
  adv_interval :: u16
  adv_addresses :: "ipv4 list"

section \<open>Operations\<close>

text \<open>The halves of an address, as the pseudo header adds them.\<close>

fun add_address_v4 :: "u32 \<Rightarrow> ipv4 \<Rightarrow> u32" where
  "add_address_v4 acc (Ipv4 a b c d) = acc + ucast (u16_from_be a b) + ucast (u16_from_be c d)"

definition u32_try_from :: "nat \<Rightarrow> u32" where
  "u32_try_from n = (if n < 2 ^ 32 then of_nat n else 0xFFFFFFFF)"

definition checksum_packet :: "byte list \<Rightarrow> ipv4 \<Rightarrow> ipv4 \<Rightarrow> u16" where
  "checksum_packet message src dst =
     (let acc = add_address_v4 (add_address_v4 0 src) dst;
          len = u32_try_from (length message);
          acc = acc + drop_bit 16 len;
          acc = acc + (len AND 0xFFFF);
          acc = acc + ucast PROTOCOL
      in complement_sum (fold_sum (add_pairs acc message)))"

definition count_byte :: "nat \<Rightarrow> byte" where
  "count_byte n = (if n < 256 then of_nat n else 255)"

definition clamp_interval :: "u16 \<Rightarrow> u16" where
  "clamp_interval w = (if w > 0x0FFF then 0x0FFF else w)"

definition encode_body :: "advertisement \<Rightarrow> byte list" where
  "encode_body adv =
     (let interval = clamp_interval (adv_interval adv)
      in [push_bit 4 VERSION OR ADVERTISEMENT, adv_vrid adv, adv_priority adv,
          count_byte (length (adv_addresses adv)),
          ucast (drop_bit 8 interval), ucast (interval AND 0xFF), 0, 0]
         @ concat (map octets_v4 (adv_addresses adv)))"

definition encode :: "advertisement \<Rightarrow> ipv4 \<Rightarrow> ipv4 \<Rightarrow> byte list" where
  "encode adv src dst =
     (let bytes = encode_body adv;
          sum = checksum_packet bytes src dst
      in bytes[6 := ucast (drop_bit 8 sum), 7 := ucast (sum AND 0xFF)])"

text \<open>\<open>chunks_exact(ADDRESS)\<close> read as addresses; a shorter remainder is left out.\<close>

fun address_chunks :: "byte list \<Rightarrow> ipv4 list" where
  "address_chunks (a # b # c # d # rest) = Ipv4 a b c d # address_chunks rest"
| "address_chunks _ = []"

definition decode :: "byte list \<Rightarrow> ipv4 \<Rightarrow> ipv4 \<Rightarrow> (advertisement, malformed) result" where
  "decode bytes src dst =
     (if length bytes < PACKET_HEADER then Inl TooShort
      else let version = drop_bit 4 (bytes ! 0) in
      if version \<noteq> VERSION then Inl (BadVersion version)
      else let kind = bytes ! 0 AND 0x0F in
      if kind \<noteq> ADVERTISEMENT then Inl (BadType kind)
      else let count = unat (bytes ! 3); expected = PACKET_HEADER + count * ADDRESS in
      if length bytes \<noteq> expected then Inl AddressCount
      else if checksum_packet bytes src dst \<noteq> 0 then Inl BadChecksum
      else Inr \<lparr>adv_vrid = bytes ! 1, adv_priority = bytes ! 2,
        adv_interval = push_bit 8 (ucast (bytes ! 4 AND 0x0F)) OR ucast (bytes ! 5),
        adv_addresses = address_chunks (drop PACKET_HEADER bytes)\<rparr>)"

section \<open>The checksum keeps its contract\<close>

fun address_sum :: "ipv4 \<Rightarrow> nat" where
  "address_sum (Ipv4 a b c d) = (256 * unat a + unat b) + (256 * unat c + unat d)"

definition pseudo_v4 :: "ipv4 \<Rightarrow> ipv4 \<Rightarrow> nat \<Rightarrow> nat" where
  "pseudo_v4 src dst n = address_sum src + address_sum dst + n + 112"

lemma address_sum_le: "address_sum a \<le> 131070"
proof (cases a)
  case (Ipv4 p q r s)
  then show ?thesis using pair_le [of p q] pair_le [of r s] by simp
qed

lemma unat_add_address:
  assumes "unat acc + address_sum a < 4294967296"
  shows "unat (add_address_v4 acc a) = unat acc + address_sum a"
proof (cases a)
  case (Ipv4 p q r s)
  with assms show ?thesis by (simp add: unat_word_ariths unat_ucast_pair)
qed

lemma unat_length_parts:
  assumes "n < 65536"
  shows "unat (drop_bit 16 (u32_try_from n)) = 0" "unat (u32_try_from n AND 0xFFFF) = n"
proof -
  have "unat (u32_try_from n) = n"
    using assms by (simp add: u32_try_from_def unat_of_nat)
  then show "unat (drop_bit 16 (u32_try_from n)) = 0" "unat (u32_try_from n AND 0xFFFF) = n"
    using assms unat_high16 [of "u32_try_from n"] unat_low16 [of "u32_try_from n"] by simp_all
qed

lemma unat_checksum_packet:
  assumes "length m < 65536"
  shows "unat (checksum_packet m src dst) =
    65535 - ones_complement (pseudo_v4 src dst (length m) + sum16 m)"
proof -
  define acc where "acc = add_address_v4 (add_address_v4 0 src) dst"
  have acc: "unat acc = address_sum src + address_sum dst"
    using address_sum_le [of src] address_sum_le [of dst]
    by (simp add: acc_def unat_add_address)
  define acc' where "acc' = acc + drop_bit 16 (u32_try_from (length m))
    + (u32_try_from (length m) AND 0xFFFF) + ucast PROTOCOL"
  have small: "unat acc + length m + 112 < 4294967296"
    using address_sum_le [of src] address_sum_le [of dst] acc assms by linarith
  then have acc': "unat acc' = unat acc + length m + 112"
    by (simp add: acc'_def unat_word_ariths unat_length_parts [OF assms])
  have "(length m + 1) div 2 \<le> 32768" using assms by linarith
  then have "sum16 m \<le> 65535 * 32768"
    using sum16_bound [of m] mult_le_mono2 [of "(length m + 1) div 2" 32768 65535] by linarith
  then have "unat (add_pairs acc' m) = unat acc' + sum16 m"
    using acc' acc address_sum_le [of src] address_sum_le [of dst] assms
    by (intro unat_add_pairs) linarith
  moreover have "checksum_packet m src dst = complement_sum (fold_sum (add_pairs acc' m))"
    by (simp only: checksum_packet_def Let_def acc_def acc'_def)
  ultimately show ?thesis
    by (simp add: unat_complement_sum acc' acc pseudo_v4_def add_ac)
qed

interpretation packet_ck: internet_checksum "\<lambda>m. checksum_packet m src dst" "pseudo_v4 src dst"
  for src dst
  by unfold_locales (rule unat_checksum_packet)

section \<open>What is written is read back\<close>

lemma unat_high_byte: "unat (ucast (drop_bit 8 (w :: u16)) :: byte) = unat w div 256"
proof -
  have "unat w div 256 < 256"
    using unat_u16_less [of w] by (simp add: less_mult_imp_div_less)
  then show ?thesis
    by (simp add: unsigned_ucast_eq drop_bit_eq_div unat_div take_bit_eq_mod)
qed

lemma unat_low_byte: "unat (ucast ((w :: u16) AND 0xFF) :: byte) = unat w mod 256"
proof -
  have "(0xFF :: u16) = mask 8" by (simp add: mask_eq_exp_minus_1)
  then have "w AND 0xFF = take_bit 8 w" by (simp add: take_bit_eq_mask)
  then show ?thesis by (simp add: unsigned_ucast_eq take_bit_eq_mod unat_mod)
qed

lemma halves_of_sum: "u16_from_be (ucast (drop_bit 8 w)) (ucast (w AND 0xFF)) = w"
  by (simp add: word_unat_eq_iff unat_u16_from_be unat_high_byte unat_low_byte)

lemma clamp_le: "clamp_interval w \<le> 0x0FFF"
  by (auto simp: clamp_interval_def not_less)

lemma join_interval:
  assumes "i \<le> 0x0FFF"
  shows "push_bit 8 (ucast ((ucast (drop_bit 8 i) :: byte) AND 0x0F)) OR
    ucast (ucast (i AND 0xFF) :: byte) = (i :: u16)"
proof -
  have masks: "(0xFF :: u16) = mask 8" "(0x0F :: byte) = mask 4"
    by (simp_all add: mask_eq_exp_minus_1)
  have "unat i < 2 ^ 12" using assms by (simp add: word_le_nat_alt)
  then have "take_bit 12 i = i" by (simp add: word_unat_eq_iff take_bit_eq_mod unat_mod)
  then have "bit i n \<Longrightarrow> n < 12" for n by (metis bit_take_bit_iff)
  then have "bit i n \<Longrightarrow> \<not> n < 8 \<Longrightarrow> n - 8 < 4" for n by fastforce
  then show ?thesis unfolding masks by (intro bit_word_eqI) (auto simp: bit_simps)
qed

lemma address_chunks_concat [simp]: "address_chunks (concat (map octets_v4 as)) = as"
proof (induction as)
  case (Cons a as)
  then show ?case by (cases a) simp
qed simp

lemma length_concat_octets [simp]: "length (concat (map octets_v4 as)) = 4 * length as"
  by (induction as) simp_all

lemma length_encode_body [simp]: "length (encode_body adv) = 8 + 4 * length (adv_addresses adv)"
  by (simp add: encode_body_def Let_def)

lemma length_encode [simp]: "length (encode adv src dst) = 8 + 4 * length (adv_addresses adv)"
  by (simp add: encode_def Let_def)

lemma encode_body_nth:
  "encode_body adv ! 0 = 0x31" "encode_body adv ! Suc 0 = adv_vrid adv"
  "encode_body adv ! 2 = adv_priority adv"
  "encode_body adv ! 3 = count_byte (length (adv_addresses adv))"
  "encode_body adv ! 4 = ucast (drop_bit 8 (clamp_interval (adv_interval adv)))"
  "encode_body adv ! 5 = ucast (clamp_interval (adv_interval adv) AND 0xFF)"
  "encode_body adv ! 6 = 0" "encode_body adv ! 7 = 0"
  "drop 8 (encode_body adv) = concat (map octets_v4 (adv_addresses adv))"
  by (simp_all add: encode_body_def Let_def)

lemma encode_nth:
  "n < 6 \<Longrightarrow> encode adv src dst ! n = encode_body adv ! n"
  "drop 8 (encode adv src dst) = concat (map octets_v4 (adv_addresses adv))"
  by (simp_all add: encode_def Let_def encode_body_nth)

lemma encode_sealed:
  assumes "length (adv_addresses adv) < 16382"
  shows "checksum_packet (encode adv src dst) src dst = 0"
proof -
  let ?m = "encode_body adv"
  have "checksum_packet (?m[6 := ucast (drop_bit 8 (checksum_packet ?m src dst)),
      Suc 6 := ucast (checksum_packet ?m src dst AND 0xFF)]) src dst = 0"
    using assms by (intro packet_ck.sealed) (simp_all add: encode_body_nth halves_of_sum)
  then show ?thesis by (simp add: encode_def Let_def)
qed

lemma header_byte: "drop_bit 4 (0x31 :: byte) = 3" "(0x31 :: byte) AND 0x0F = 1"
  by simp_all

lemma decode_encode_clamped:
  assumes "length (adv_addresses adv) < 256"
  shows "decode (encode adv src dst) src dst =
    Inr (adv\<lparr>adv_interval := clamp_interval (adv_interval adv)\<rparr>)"
proof -
  have count: "unat (count_byte (length (adv_addresses adv))) = length (adv_addresses adv)"
    using assms by (simp add: count_byte_def unat_byte_of_nat)
  show ?thesis
    using assms encode_sealed [of adv src dst] count
    by (cases adv) (simp add: decode_def Let_def encode_nth encode_body_nth join_interval
        clamp_le del: push_bit_eq_mult drop_bit_eq_div)
qed

section \<open>Which packets are taken\<close>

lemma decode_Inr:
  "decode bytes src dst = Inr adv \<longleftrightarrow>
     8 \<le> length bytes \<and> drop_bit 4 (bytes ! 0) = 3 \<and> bytes ! 0 AND 0x0F = 1 \<and>
     length bytes = 8 + 4 * unat (bytes ! 3) \<and> checksum_packet bytes src dst = 0 \<and>
     adv = \<lparr>adv_vrid = bytes ! 1, adv_priority = bytes ! 2,
        adv_interval = push_bit 8 (ucast (bytes ! 4 AND 0x0F)) OR ucast (bytes ! 5),
        adv_addresses = address_chunks (drop 8 bytes)\<rparr>"
  unfolding decode_def Let_def by (auto simp: mult.commute)

lemma decode_contents:
  "decode bytes src dst = Inr adv \<Longrightarrow> decode bytes src' dst' = Inr adv' \<Longrightarrow> adv' = adv"
  by (simp add: decode_Inr)

lemma decode_length: "decode bytes src dst = Inr adv \<Longrightarrow> length bytes < 65536"
  using order.strict_trans2 [OF unat_byte_less [of "bytes ! 3"], of 16382] by (simp add: decode_Inr)

lemma length_address_chunks [simp]: "length (address_chunks bs) = length bs div 4"
  by (induction bs rule: address_chunks.induct) simp_all

lemma decode_addresses_count:
  "decode bytes src dst = Inr adv \<Longrightarrow> length (adv_addresses adv) = unat (bytes ! 3)"
  by (simp add: decode_Inr)

lemma checksum_other_destination:
  assumes "length m < 65536" "checksum_packet m src dst = 0"
  shows "checksum_packet m src dst' = 0 \<longleftrightarrow> address_sum dst mod 65535 = address_sum dst' mod 65535"
proof -
  let ?rest = "address_sum src + length m + 112 + sum16 m"
  have "65535 dvd address_sum dst + ?rest"
    using packet_ck.ck_zero_iff [OF assms(1), of src dst] assms(2)
    by (simp add: pseudo_v4_def ac_simps)
  moreover have "checksum_packet m src dst' = 0 \<longleftrightarrow> 65535 dvd address_sum dst' + ?rest"
    using packet_ck.ck_zero_iff [OF assms(1), of src dst']
    by (simp add: pseudo_v4_def ac_simps)
  ultimately show ?thesis by (simp add: dvd_add_same_mod)
qed

end
