(* ===== verification/Header.thy ===== *)
theory Header
  imports Prelude
begin

text \<open>
  \<open>header.rs\<close>: stepping over the IPv4 header a raw socket hands back. Every byte comes
  from the network, so both readers are total and say nothing when the bytes run out.
\<close>

definition SHORTEST :: nat where "SHORTEST = 20"

definition sender :: "byte list \<Rightarrow> ipv4 option" where
  "sender bytes = (case get_range 12 16 bytes of
     None \<Rightarrow> None
   | Some octets \<Rightarrow> Some (Ipv4 (octets ! 0) (octets ! 1) (octets ! 2) (octets ! 3)))"

definition payload :: "byte list \<Rightarrow> byte list option" where
  "payload bytes = (case get_at 0 bytes of
     None \<Rightarrow> None
   | Some first \<Rightarrow>
       let header = unat (first AND 0x0F) * 4 in
       if header < SHORTEST then None else get_from header bytes)"

lemma low_nibble_unat: "unat ((b :: byte) AND 0x0F) = unat b mod 16"
proof -
  have "(0x0F :: byte) = mask 4" by (simp add: mask_eq_exp_minus_1)
  then have "b AND 0x0F = take_bit 4 b" by (simp add: take_bit_eq_mask)
  then show ?thesis by (simp add: take_bit_eq_mod unat_mod)
qed

lemma sender_Some:
  "sender bytes = Some a \<longleftrightarrow>
     16 \<le> length bytes \<and> a = Ipv4 (bytes ! 12) (bytes ! 13) (bytes ! 14) (bytes ! 15)"
  by (auto simp: sender_def get_range_def split: if_splits)

lemma sender_None: "sender bytes = None \<longleftrightarrow> length bytes < 16"
  by (auto simp: sender_def get_range_def split: if_splits)

lemma payload_Some:
  "payload bytes = Some body \<longleftrightarrow>
     (\<exists>words. words = unat (bytes ! 0) mod 16 \<and> 5 \<le> words \<and> 4 * words \<le> length bytes \<and>
        bytes \<noteq> [] \<and> body = drop (4 * words) bytes)"
  by (auto simp: payload_def get_at_def get_from_def SHORTEST_def low_nibble_unat Let_def
      mult.commute)

text \<open>
  A packet built with a header of the length it claims is read back whole: the sender
  from its field, the payload from the first byte after the header.
\<close>

lemma header_split:
  assumes "unat first = 64 + words" "5 \<le> words" "words < 16"
    and "length hs = 11" "length rest = 4 * words - 16"
  shows "payload (first # hs @ octets_v4 src @ rest @ body) = Some body"
    and "sender (first # hs @ octets_v4 src @ rest @ body) = Some src"
proof -
  have "unat first mod 16 = words"
    using assms(1,3) by presburger
  moreover have "drop (4 * words) ((first # hs @ octets_v4 src @ rest) @ body) = body"
    using assms(2,4,5) by (subst drop_append) simp
  ultimately show "payload (first # hs @ octets_v4 src @ rest @ body) = Some body"
    using assms by (auto simp: payload_Some)
  show "sender (first # hs @ octets_v4 src @ rest @ body) = Some src"
    using assms by (cases src) (auto simp: sender_Some nth_append)
qed

end
