(* ===== verification/Echo.thy ===== *)
theory Echo
  imports Checksum Header
begin

text \<open>
  \<open>echo.rs\<close> and \<open>ping.rs\<close>: the ICMP echo request that asks the gateway, the reply that
  answers it, and the asker that numbers its questions and reads what came back. The
  checksum interprets the contract of \<open>internet_checksum\<close> with an empty pseudo
  header.
\<close>

section \<open>The message\<close>

definition REQUEST_ECHO :: byte where "REQUEST_ECHO = 8"
definition REPLY_ECHO :: byte where "REPLY_ECHO = 0"
definition ECHO_HEADER :: nat where "ECHO_HEADER = 8"

lemmas echo_consts [simp] = REQUEST_ECHO_def REPLY_ECHO_def ECHO_HEADER_def

record echo =
  echo_identifier :: u16
  echo_sequence :: u16

definition checksum_echo :: "byte list \<Rightarrow> u16" where
  "checksum_echo message = complement_sum (fold_sum (add_pairs 0 message))"

definition echo_message :: "byte \<Rightarrow> u16 \<Rightarrow> u16 \<Rightarrow> byte list \<Rightarrow> byte list" where
  "echo_message kind ident seq body =
     [kind, 0] @ u16_to_be 0 @ u16_to_be ident @ u16_to_be seq @ body"

definition request :: "u16 \<Rightarrow> u16 \<Rightarrow> byte list \<Rightarrow> byte list" where
  "request ident seq body =
     (let bytes = echo_message REQUEST_ECHO ident seq body;
          sum = u16_to_be (checksum_echo bytes)
      in bytes[2 := sum ! 0, 3 := sum ! 1])"

definition reply :: "byte list \<Rightarrow> echo option" where
  "reply bytes = (case get_at 0 bytes of
     None \<Rightarrow> None
   | Some kind \<Rightarrow>
       if kind \<noteq> REPLY_ECHO then None
       else if length bytes < ECHO_HEADER then None
       else if checksum_echo bytes \<noteq> 0 then None
       else Some \<lparr>echo_identifier = u16_from_be (bytes ! 4) (bytes ! 5),
                  echo_sequence = u16_from_be (bytes ! 6) (bytes ! 7)\<rparr>)"

definition answers :: "byte list \<Rightarrow> u16 \<Rightarrow> u16 \<Rightarrow> bool" where
  "answers bytes ident seq = (case reply bytes of
     None \<Rightarrow> False
   | Some e \<Rightarrow> echo_identifier e = ident \<and> echo_sequence e = seq)"

section \<open>The asker\<close>

text \<open>
  A raw ICMP socket, less the socket itself: the identifier of this process and the
  number of the last question. What the socket does is a parameter: whether the send
  worked, and which datagram a read found. One read takes at most \<open>PING_MOST\<close> bytes.
\<close>

record pinger =
  ping_identifier :: u16
  ping_sequence :: u16

definition PING_PAYLOAD :: "byte list" where
  "PING_PAYLOAD = [0x65, 0x6B, 0x2D, 0x65, 0x6B]"

definition PING_MOST :: nat where "PING_MOST = 1500"

definition open_pinger :: "u32 \<Rightarrow> pinger" where
  "open_pinger process_id = \<lparr>ping_identifier = ucast (process_id AND 0xFFFF), ping_sequence = 0\<rparr>"

text \<open>The bytes of the next question; the number wraps on purpose.\<close>

definition question :: "pinger \<Rightarrow> byte list" where
  "question p = request (ping_identifier p) (ping_sequence p + 1) PING_PAYLOAD"

definition ask :: "pinger \<Rightarrow> (nat, io_error) result \<Rightarrow> pinger \<times> (u16, io_error) result" where
  "ask p sent =
     (let p' = p\<lparr>ping_sequence := ping_sequence p + 1\<rparr> in
      case sent of
        Inl error \<Rightarrow> (p', Inl error)
      | Inr _ \<Rightarrow> (p', Inr (ping_sequence p')))"

definition collect :: "pinger \<Rightarrow> (byte list, io_error) result \<Rightarrow> ((ipv4 \<times> echo) option, io_error) result" where
  "collect p got = (case got of
     Inl WouldBlock \<Rightarrow> Inr None
   | Inl error \<Rightarrow> Inl error
   | Inr datagram \<Rightarrow>
       let packet = take PING_MOST datagram in
       (case (sender packet, payload packet) of
          (Some origin, Some body) \<Rightarrow>
            (case reply body of
               None \<Rightarrow> Inr None
             | Some e \<Rightarrow> if echo_identifier e \<noteq> ping_identifier p then Inr None else Inr (Some (origin, e)))
        | _ \<Rightarrow> Inr None))"

section \<open>The checksum keeps its contract\<close>

lemma unat_checksum_echo:
  assumes "length m < 65536"
  shows "unat (checksum_echo m) = 65535 - ones_complement (0 + sum16 m)"
proof -
  have "(length m + 1) div 2 \<le> 32768" using assms by linarith
  then have "sum16 m \<le> 65535 * 32768"
    using sum16_bound [of m] mult_le_mono2 [of "(length m + 1) div 2" 32768 65535] by linarith
  then have "unat (add_pairs 0 m) = sum16 m"
    using unat_add_pairs [of 0 m] by simp
  then show ?thesis by (simp add: checksum_echo_def unat_complement_sum)
qed

interpretation echo_ck: internet_checksum checksum_echo "\<lambda>_. 0"
  by unfold_locales (rule unat_checksum_echo)

section \<open>Questions and answers\<close>

text \<open>
  The message another machine sends in answer: the same identifier, number and payload
  under the reply type, sealed with its own sum.
\<close>

definition sealed_message :: "byte \<Rightarrow> u16 \<Rightarrow> u16 \<Rightarrow> byte list \<Rightarrow> byte list" where
  "sealed_message kind ident seq body =
     (let bytes = echo_message kind ident seq body;
          sum = u16_to_be (checksum_echo bytes)
      in bytes[2 := sum ! 0, 3 := sum ! 1])"

lemma request_sealed_message: "request ident seq body = sealed_message 8 ident seq body"
  by (simp add: request_def sealed_message_def)

lemma length_echo_message [simp]: "length (echo_message kind ident seq body) = 8 + length body"
  by (simp add: echo_message_def length_u16_to_be)

lemma length_sealed_message [simp]:
  "length (sealed_message kind ident seq body) = 8 + length body"
  by (simp add: sealed_message_def Let_def)

lemma echo_message_fields:
  "echo_message kind ident seq body ! 0 = kind" "echo_message kind ident seq body ! 2 = 0"
  "echo_message kind ident seq body ! 3 = 0"
  "u16_from_be (echo_message kind ident seq body ! 4) (echo_message kind ident seq body ! 5) = ident"
  "u16_from_be (echo_message kind ident seq body ! 6) (echo_message kind ident seq body ! 7) = seq"
proof -
  obtain a b where ab: "u16_to_be ident = [a, b]" "u16_from_be a b = ident"
    by (rule u16_to_be_elems)
  obtain c d where cd: "u16_to_be seq = [c, d]" "u16_from_be c d = seq"
    by (rule u16_to_be_elems)
  have zero: "u16_to_be 0 = [0, 0]" by (simp add: u16_to_be_def)
  show "echo_message kind ident seq body ! 0 = kind" "echo_message kind ident seq body ! 2 = 0"
    "echo_message kind ident seq body ! 3 = 0"
    "u16_from_be (echo_message kind ident seq body ! 4) (echo_message kind ident seq body ! 5) = ident"
    "u16_from_be (echo_message kind ident seq body ! 6) (echo_message kind ident seq body ! 7) = seq"
    using ab cd by (simp_all add: echo_message_def zero)
qed

lemma sealed_message_sum:
  assumes "length body < 65528"
  shows "checksum_echo (sealed_message kind ident seq body) = 0"
proof -
  let ?m = "echo_message kind ident seq body"
  obtain a b where ab: "u16_to_be (checksum_echo ?m) = [a, b]" "u16_from_be a b = checksum_echo ?m"
    by (rule u16_to_be_elems)
  have "checksum_echo (?m[2 := a, Suc 2 := b]) = 0"
    by (rule echo_ck.sealed) (use assms ab echo_message_fields [of kind ident seq body] in simp_all)
  then show ?thesis by (simp add: sealed_message_def Let_def ab)
qed

lemma reply_Some:
  "reply bytes = Some e \<longleftrightarrow> 8 \<le> length bytes \<and> bytes ! 0 = 0 \<and> checksum_echo bytes = 0 \<and>
     e = \<lparr>echo_identifier = u16_from_be (bytes ! 4) (bytes ! 5), echo_sequence = u16_from_be (bytes ! 6) (bytes ! 7)\<rparr>"
  by (auto simp: reply_def get_at_def)

lemma reply_sealed:
  assumes "length body < 65528"
  shows "reply (sealed_message 0 ident seq body) = Some \<lparr>echo_identifier = ident, echo_sequence = seq\<rparr>"
proof -
  let ?s = "sealed_message 0 ident seq body" and ?m = "echo_message 0 ident seq body"
  have "?s ! n = ?m ! n" if "n \<noteq> 2" "n \<noteq> 3" for n
    using that by (simp add: sealed_message_def Let_def)
  then show ?thesis
    using sealed_message_sum [OF assms, of 0 ident seq] echo_message_fields [of 0 ident seq body]
    by (simp add: reply_Some)
qed

lemma reply_of_request: "reply (request ident seq body) = None"
proof -
  have "request ident seq body ! 0 = 8"
    by (simp add: request_def Let_def echo_message_def)
  moreover have "request ident seq body \<noteq> []"
    by (metis length_sealed_message request_sealed_message add_is_0 list.size(3) zero_neq_numeral)
  ultimately show ?thesis by (simp add: reply_def get_at_def)
qed

end
