(* ===== verification/Announce.thy ===== *)
theory Announce
  imports Packet
begin

text \<open>
  \<open>announce.rs\<close>: the frames that tell a segment an address has moved, a gratuitous ARP
  for IPv4 and an unsolicited neighbor advertisement for IPv6, ethernet header included.
\<close>

section \<open>Data\<close>

definition ETHERTYPE_ARP :: u16 where "ETHERTYPE_ARP = 0x0806"
definition ETHERTYPE_IPV6 :: u16 where "ETHERTYPE_IPV6 = 0x86DD"
definition HARDWARE_ETHERNET :: u16 where "HARDWARE_ETHERNET = 1"
definition PROTOCOL_IPV4 :: u16 where "PROTOCOL_IPV4 = 0x0800"
definition ICMPV6 :: byte where "ICMPV6 = 58"
definition NEIGHBOR_ADVERTISEMENT :: byte where "NEIGHBOR_ADVERTISEMENT = 136"
definition TARGET_LINK_ADDRESS :: byte where "TARGET_LINK_ADDRESS = 2"
definition BROADCAST :: mac where "BROADCAST = Mac 0xFF 0xFF 0xFF 0xFF 0xFF 0xFF"
definition NOBODY :: mac where "NOBODY = Mac 0 0 0 0 0 0"
definition ALL_NODES_MAC :: mac where "ALL_NODES_MAC = Mac 0x33 0x33 0 0 0 1"
definition ALL_NODES :: ipv6 where "ALL_NODES = Ipv6 0xFF 0x02 0 0 0 0 0 0 0 0 0 0 0 0 0 1"

lemmas announce_consts =
  ETHERTYPE_ARP_def ETHERTYPE_IPV6_def HARDWARE_ETHERNET_def PROTOCOL_IPV4_def ICMPV6_def
  NEIGHBOR_ADVERTISEMENT_def TARGET_LINK_ADDRESS_def BROADCAST_def NOBODY_def
  ALL_NODES_MAC_def ALL_NODES_def

datatype arp_kind = ArpRequest | ArpReply

fun operation :: "arp_kind \<Rightarrow> u16" where
  "operation ArpRequest = 1"
| "operation ArpReply = 2"

fun target :: "arp_kind \<Rightarrow> mac \<Rightarrow> mac" where
  "target ArpRequest from_mac = NOBODY"
| "target ArpReply from_mac = from_mac"

section \<open>Operations\<close>

definition arp :: "arp_kind \<Rightarrow> ipv4 \<Rightarrow> mac \<Rightarrow> byte list" where
  "arp kind virtual_address from_mac =
     octets_mac BROADCAST @ octets_mac from_mac @ u16_to_be ETHERTYPE_ARP
     @ u16_to_be HARDWARE_ETHERNET @ u16_to_be PROTOCOL_IPV4 @ [6] @ [4]
     @ u16_to_be (operation kind)
     @ octets_mac from_mac @ octets_v4 virtual_address
     @ octets_mac (target kind from_mac) @ octets_v4 virtual_address"

definition checksum_icmpv6 :: "byte list \<Rightarrow> ipv6 \<Rightarrow> ipv6 \<Rightarrow> u16" where
  "checksum_icmpv6 message src dst =
     (let acc = add_pairs (add_pairs 0 (octets_v6 src)) (octets_v6 dst);
          len = u32_try_from (length message);
          acc = acc + drop_bit 16 len;
          acc = acc + (len AND 0xFFFF);
          acc = acc + ucast ICMPV6
      in complement_sum (fold_sum (add_pairs acc message)))"

definition neighbor_body :: "ipv6 \<Rightarrow> mac \<Rightarrow> byte list" where
  "neighbor_body virtual_address from_mac =
     [NEIGHBOR_ADVERTISEMENT, 0] @ [0, 0] @ u32_to_be 0x20000000 @ octets_v6 virtual_address
     @ [TARGET_LINK_ADDRESS, 1] @ octets_mac from_mac"

definition neighbor_message :: "ipv6 \<Rightarrow> mac \<Rightarrow> byte list" where
  "neighbor_message virtual_address from_mac =
     (let message = neighbor_body virtual_address from_mac;
          sum = u16_to_be (checksum_icmpv6 message virtual_address ALL_NODES)
      in message[2 := sum ! 0, 3 := sum ! 1])"

definition u16_try_from :: "nat \<Rightarrow> u16" where
  "u16_try_from n = (if n < 65536 then of_nat n else 0)"

definition neighbor :: "ipv6 \<Rightarrow> mac \<Rightarrow> byte list" where
  "neighbor virtual_address from_mac =
     (let message = neighbor_message virtual_address from_mac
      in octets_mac ALL_NODES_MAC @ octets_mac from_mac @ u16_to_be ETHERTYPE_IPV6
         @ u32_to_be 0x60000000 @ u16_to_be (u16_try_from (length message)) @ [ICMPV6] @ [255]
         @ octets_v6 virtual_address @ octets_v6 ALL_NODES @ message)"

section \<open>The checksum keeps its contract\<close>

definition pseudo_v6 :: "ipv6 \<Rightarrow> ipv6 \<Rightarrow> nat \<Rightarrow> nat" where
  "pseudo_v6 src dst n = sum16 (octets_v6 src) + sum16 (octets_v6 dst) + n + 58"

lemma sum16_octets_le: "sum16 (octets_v6 a) \<le> 524280"
  using sum16_bound [of "octets_v6 a"] by simp

lemma unat_checksum_icmpv6:
  assumes "length m < 65536"
  shows "unat (checksum_icmpv6 m src dst) =
    65535 - ones_complement (pseudo_v6 src dst (length m) + sum16 m)"
proof -
  note small = sum16_octets_le [of src] sum16_octets_le [of dst]
  define acc where "acc = add_pairs (add_pairs 0 (octets_v6 src)) (octets_v6 dst)"
  have "unat (add_pairs 0 (octets_v6 src)) = sum16 (octets_v6 src)"
    using small by (simp add: unat_add_pairs)
  then have acc: "unat acc = sum16 (octets_v6 src) + sum16 (octets_v6 dst)"
    using small by (simp add: acc_def unat_add_pairs)
  define acc' where "acc' = acc + drop_bit 16 (u32_try_from (length m))
    + (u32_try_from (length m) AND 0xFFFF) + ucast ICMPV6"
  have "unat acc + length m + 58 < 4294967296"
    using small acc assms by linarith
  then have acc': "unat acc' = unat acc + length m + 58"
    by (simp add: acc'_def unat_word_ariths unat_length_parts [OF assms] ICMPV6_def)
  have "(length m + 1) div 2 \<le> 32768" using assms by linarith
  then have "sum16 m \<le> 65535 * 32768"
    using sum16_bound [of m] mult_le_mono2 [of "(length m + 1) div 2" 32768 65535] by linarith
  then have "unat (add_pairs acc' m) = unat acc' + sum16 m"
    using acc' acc small assms by (intro unat_add_pairs) linarith
  moreover have "checksum_icmpv6 m src dst = complement_sum (fold_sum (add_pairs acc' m))"
    by (simp only: checksum_icmpv6_def Let_def acc_def acc'_def)
  ultimately show ?thesis
    by (simp add: unat_complement_sum acc' acc pseudo_v6_def add_ac)
qed

interpretation icmpv6_ck: internet_checksum "\<lambda>m. checksum_icmpv6 m src dst" "pseudo_v6 src dst"
  for src dst
  by unfold_locales (rule unat_checksum_icmpv6)

section \<open>What goes on the wire\<close>

lemma length_neighbor_message: "length (neighbor_message a m) = 32"
  by (simp add: neighbor_message_def neighbor_body_def Let_def length_u32_to_be)

lemma neighbor_message_sum:
  "checksum_icmpv6 (neighbor_message a m) a ALL_NODES = 0"
proof -
  let ?b = "neighbor_body a m"
  obtain x y where xy: "u16_to_be (checksum_icmpv6 ?b a ALL_NODES) = [x, y]"
    "u16_from_be x y = checksum_icmpv6 ?b a ALL_NODES"
    by (rule u16_to_be_elems)
  have "checksum_icmpv6 (?b[2 := x, Suc 2 := y]) a ALL_NODES = 0"
    by (rule icmpv6_ck.sealed) (use xy in \<open>simp_all add: neighbor_body_def length_u32_to_be\<close>)
  then show ?thesis by (simp add: neighbor_message_def Let_def xy)
qed

lemma arp_fields:
  "length (arp kind a m) = 42"
  "take 6 (arp kind a m) = octets_mac BROADCAST"
  "take 6 (drop 6 (arp kind a m)) = octets_mac m"
  "take 2 (drop 12 (arp kind a m)) = [0x08, 0x06]"
  "take 2 (drop 20 (arp kind a m)) = u16_to_be (operation kind)"
  "take 6 (drop 22 (arp kind a m)) = octets_mac m"
  "take 4 (drop 28 (arp kind a m)) = octets_v4 a"
  "take 4 (drop 38 (arp kind a m)) = octets_v4 a"
  by (simp_all add: arp_def length_u16_to_be u16_to_be_def ETHERTYPE_ARP_def)

lemma neighbor_fields:
  "length (neighbor a m) = 86"
  "take 6 (neighbor a m) = [0x33, 0x33, 0, 0, 0, 1]"
  "take 6 (drop 6 (neighbor a m)) = octets_mac m"
  "take 2 (drop 12 (neighbor a m)) = [0x86, 0xDD]"
  "take 4 (drop 18 (neighbor a m)) = [0, 32, 58, 255]"
  "take 16 (drop 22 (neighbor a m)) = octets_v6 a"
  "drop 54 (neighbor a m) = neighbor_message a m"
  by (simp_all add: neighbor_def Let_def length_u16_to_be length_u32_to_be length_neighbor_message
      u16_to_be_def u16_try_from_def announce_consts)

end
