(* ===== verification/Netlink.thy ===== *)
theory Netlink
  imports Prelude
begin

text \<open>
  \<open>address.rs\<close>, \<open>route.rs\<close> and \<open>netlink.rs\<close>: the rtnetlink messages that move an
  address on and off an interface, the walk over what the kernel answers, and the choice
  of the gateway to watch. Host byte order is the parameter \<open>e\<close>. The socket is the record
  \<open>netlink_io\<close>, whose fields are what the operating system does with a write and a read.
\<close>

section \<open>address.rs: data\<close>

definition NEW_ADDRESS :: u16 where "NEW_ADDRESS = 20"
definition DELETE_ADDRESS :: u16 where "DELETE_ADDRESS = 21"
definition GET_ADDRESS :: u16 where "GET_ADDRESS = 22"
definition NLMSG_ERROR :: u16 where "NLMSG_ERROR = 2"
definition NLMSG_DONE :: u16 where "NLMSG_DONE = 3"
definition NLM_REQUEST :: u16 where "NLM_REQUEST = 0x0001"
definition NLM_ACK :: u16 where "NLM_ACK = 0x0004"
definition NLM_CREATE :: u16 where "NLM_CREATE = 0x0400"
definition NLM_REPLACE :: u16 where "NLM_REPLACE = 0x0100"
definition NLM_DUMP :: u16 where "NLM_DUMP = 0x0300"
definition IFA_ADDRESS :: u16 where "IFA_ADDRESS = 1"
definition IFA_LOCAL :: u16 where "IFA_LOCAL = 2"
definition NL_HEADER :: nat where "NL_HEADER = 16"
definition IFADDRMSG :: nat where "IFADDRMSG = 8"
definition ATTRIBUTE :: nat where "ATTRIBUTE = 4"
definition INET :: byte where "INET = 2"
definition INET6 :: byte where "INET6 = 10"
definition UNIVERSE :: byte where "UNIVERSE = 0"

lemmas netlink_consts [simp] =
  NEW_ADDRESS_def DELETE_ADDRESS_def GET_ADDRESS_def NLMSG_ERROR_def NLMSG_DONE_def
  NL_HEADER_def IFADDRMSG_def ATTRIBUTE_def INET_def INET6_def UNIVERSE_def IFA_LOCAL_def
  IFA_ADDRESS_def

datatype address_change = Add | Remove

fun change_kind :: "address_change \<Rightarrow> u16" where
  "change_kind Add = NEW_ADDRESS"
| "change_kind Remove = DELETE_ADDRESS"

fun change_flags :: "address_change \<Rightarrow> u16" where
  "change_flags Add = NLM_REQUEST OR NLM_ACK OR NLM_CREATE OR NLM_REPLACE"
| "change_flags Remove = NLM_REQUEST OR NLM_ACK"

record address =
  addr_address :: ip_addr
  addr_prefix_length :: byte
  addr_interface :: u32

definition addr_family :: "address \<Rightarrow> byte" where
  "addr_family a = (case addr_address a of V4 _ \<Rightarrow> INET | V6 _ \<Rightarrow> INET6)"

definition addr_octets :: "address \<Rightarrow> byte list" where
  "addr_octets a = (case addr_address a of V4 x \<Rightarrow> octets_v4 x | V6 x \<Rightarrow> octets_v6 x)"

datatype family = FamilyV4 | FamilyV6

fun family_byte :: "family \<Rightarrow> byte" where
  "family_byte FamilyV4 = INET"
| "family_byte FamilyV6 = INET6"

section \<open>address.rs: writing\<close>

definition attribute_length :: "nat \<Rightarrow> u16" where
  "attribute_length n = (if n < 65536 then of_nat n else 0xFFFF)"

definition attribute :: "endian \<Rightarrow> byte list \<Rightarrow> u16 \<Rightarrow> byte list \<Rightarrow> byte list" where
  "attribute e bytes kind value =
     bytes @ u16_to_ne e (attribute_length (ATTRIBUTE + length value)) @ u16_to_ne e kind @ value"

definition message_length :: "nat \<Rightarrow> u32" where
  "message_length n = (if n < 2 ^ 32 then of_nat n else 0xFFFFFFFF)"

definition change :: "endian \<Rightarrow> address \<Rightarrow> address_change \<Rightarrow> u32 \<Rightarrow> byte list" where
  "change e what how seq =
     (let value = addr_octets what;
          bytes = u32_to_ne e 0 @ u16_to_ne e (change_kind how) @ u16_to_ne e (change_flags how)
            @ u32_to_ne e seq @ u32_to_ne e 0
            @ [addr_family what, addr_prefix_length what, 0, UNIVERSE]
            @ u32_to_ne e (addr_interface what);
          bytes = attribute e bytes IFA_LOCAL value;
          bytes = attribute e bytes IFA_ADDRESS value
      in u32_to_ne e (message_length (length bytes)) @ drop 4 bytes)"

definition list_addresses :: "endian \<Rightarrow> family \<Rightarrow> u32 \<Rightarrow> byte list" where
  "list_addresses e fam seq =
     u32_to_ne e (message_length (NL_HEADER + IFADDRMSG)) @ u16_to_ne e GET_ADDRESS
     @ u16_to_ne e (NLM_REQUEST OR NLM_DUMP) @ u32_to_ne e seq @ u32_to_ne e 0
     @ [family_byte fam] @ [0, 0, 0] @ u32_to_ne e 0"

section \<open>address.rs: reading\<close>

datatype answer = Accepted | Refused int | Other u16

text \<open>
  The code of an error message is an \<open>i32\<close>. It is negated at its width, so the one value
  without a positive counterpart stays as it is.
\<close>

definition answer :: "endian \<Rightarrow> byte list \<Rightarrow> answer option" where
  "answer e bytes =
     (case (get_at 4 bytes, get_at 5 bytes) of
        (Some k0, Some k1) \<Rightarrow>
          let kind = u16_from_ne e k0 k1 in
          if kind \<noteq> NLMSG_ERROR then Some (Other kind)
          else (case (get_at NL_HEADER bytes, get_at (NL_HEADER + 1) bytes,
                      get_at (NL_HEADER + 2) bytes, get_at (NL_HEADER + 3) bytes) of
                  (Some a, Some b, Some c, Some d) \<Rightarrow>
                    let code = u32_from_ne e a b c d in
                    if code = 0 then Some Accepted else Some (Refused (sint (- code)))
                | _ \<Rightarrow> None)
      | _ \<Rightarrow> None)"

definition u32_at :: "endian \<Rightarrow> byte list \<Rightarrow> nat \<Rightarrow> u32" where
  "u32_at e bytes i = u32_from_ne e (bytes ! i) (bytes ! (i + 1)) (bytes ! (i + 2)) (bytes ! (i + 3))"

definition u16_at :: "endian \<Rightarrow> byte list \<Rightarrow> nat \<Rightarrow> u16" where
  "u16_at e bytes i = u16_from_ne e (bytes ! i) (bytes ! (i + 1))"

function messages_from :: "endian \<Rightarrow> byte list \<Rightarrow> nat \<Rightarrow> byte list list" where
  "messages_from e bytes at =
     (if at + NL_HEADER \<le> length bytes then
        let len = unat (u32_at e bytes at) in
        if len < NL_HEADER \<or> at + len > length bytes then []
        else take len (drop at bytes) # messages_from e bytes (at + next_multiple_of_4 len)
      else [])"
  by pat_completeness auto
termination
proof (relation "measure (\<lambda>(e, bytes, at). length bytes - at)", goal_cases)
  case (2 e bytes at len)
  then show ?case by (simp add: walk_decreases)
qed simp

declare messages_from.simps [simp del]

definition messages :: "endian \<Rightarrow> byte list \<Rightarrow> byte list list" where
  "messages e bytes = messages_from e bytes 0"

definition address_value :: "byte list \<Rightarrow> byte \<Rightarrow> ip_addr option" where
  "address_value bytes fam =
     (if fam = INET then map_option V4 (ipv4_of_octets bytes)
      else if fam = INET6 then map_option V6 (ipv6_of_octets bytes)
      else None)"

function local_from :: "endian \<Rightarrow> byte list \<Rightarrow> byte \<Rightarrow> nat \<Rightarrow> ip_addr option" where
  "local_from e bytes fam at =
     (if at + ATTRIBUTE \<le> length bytes then
        let len = unat (u16_at e bytes at); kind = u16_at e bytes (at + 2) in
        if len < ATTRIBUTE \<or> at + len > length bytes then None
        else if kind = IFA_LOCAL then
          address_value (take (len - ATTRIBUTE) (drop (at + ATTRIBUTE) bytes)) fam
        else local_from e bytes fam (at + next_multiple_of_4 len)
      else None)"
  by pat_completeness auto
termination
proof (relation "measure (\<lambda>(e, bytes, fam, at). length bytes - at)", goal_cases)
  case (2 e bytes fam at len kind)
  then show ?case by (simp add: walk_decreases)
qed simp

declare local_from.simps [simp del]

definition message_address :: "endian \<Rightarrow> byte list \<Rightarrow> (ip_addr \<times> u32) option" where
  "message_address e message =
     (if u16_at e message 4 \<noteq> NEW_ADDRESS then None
      else case get_from NL_HEADER message of
        None \<Rightarrow> None
      | Some body \<Rightarrow>
          (case (get_at 0 body, get_range 4 8 body, get_from IFADDRMSG body) of
             (Some fam, Some index, Some attributes) \<Rightarrow>
               map_option (\<lambda>a. (a, u32_at e index 0)) (local_from e attributes fam 0)
           | _ \<Rightarrow> None))"

definition addresses :: "endian \<Rightarrow> byte list \<Rightarrow> (ip_addr \<times> u32) list" where
  "addresses e bytes = List.map_filter (message_address e) (messages e bytes)"

section \<open>route.rs\<close>

definition NEW_ROUTE :: u16 where "NEW_ROUTE = 24"
definition GET_ROUTE :: u16 where "GET_ROUTE = 26"
definition RTMSG :: nat where "RTMSG = 12"
definition RTA_GATEWAY :: u16 where "RTA_GATEWAY = 5"
definition RTA_OIF :: u16 where "RTA_OIF = 4"
definition RTA_PRIORITY :: u16 where "RTA_PRIORITY = 6"

lemmas route_consts [simp] =
  NEW_ROUTE_def GET_ROUTE_def RTMSG_def RTA_GATEWAY_def RTA_OIF_def RTA_PRIORITY_def

record route =
  route_gateway :: ip_addr
  route_interface :: u32
  route_metric :: u32

definition list_routes :: "endian \<Rightarrow> family \<Rightarrow> u32 \<Rightarrow> byte list" where
  "list_routes e fam seq =
     u32_to_ne e (message_length (NL_HEADER + RTMSG)) @ u16_to_ne e GET_ROUTE
     @ u16_to_ne e (NLM_REQUEST OR NLM_DUMP) @ u32_to_ne e seq @ u32_to_ne e 0
     @ [family_byte fam] @ replicate (RTMSG - 1) 0"

fun number :: "endian \<Rightarrow> byte list \<Rightarrow> u32 option" where
  "number e [a, b, c, d] = Some (u32_from_ne e a b c d)"
| "number e _ = None"

text \<open>
  The attributes of one route, read into the three variables of the loop. An attribute
  that overruns the message, and an interface or metric that is not four bytes, give the
  whole route up; an unreadable gateway only clears the gateway.
\<close>

function read_from ::
  "endian \<Rightarrow> byte list \<Rightarrow> byte \<Rightarrow> nat \<Rightarrow> ip_addr option \<Rightarrow> u32 \<Rightarrow> u32 \<Rightarrow> route option" where
  "read_from e bytes fam at gw oif metric =
     (if at + ATTRIBUTE \<le> length bytes then
        let len = unat (u16_at e bytes at); kind = u16_at e bytes (at + 2) in
        if len < ATTRIBUTE \<or> at + len > length bytes then None
        else let value = take (len - ATTRIBUTE) (drop (at + ATTRIBUTE) bytes);
                 next = at + next_multiple_of_4 len in
          if kind = RTA_GATEWAY then read_from e bytes fam next (address_value value fam) oif metric
          else if kind = RTA_OIF then
            (case number e value of None \<Rightarrow> None | Some n \<Rightarrow> read_from e bytes fam next gw n metric)
          else if kind = RTA_PRIORITY then
            (case number e value of None \<Rightarrow> None | Some n \<Rightarrow> read_from e bytes fam next gw oif n)
          else read_from e bytes fam next gw oif metric
      else map_option (\<lambda>g. \<lparr>route_gateway = g, route_interface = oif, route_metric = metric\<rparr>) gw)"
  by pat_completeness auto
termination
  by (relation "measure (\<lambda>(e, bytes, fam, at, gw, oif, metric). length bytes - at)")
    (auto simp: walk_decreases not_less)

declare read_from.simps [simp del]

definition message_default :: "endian \<Rightarrow> byte list \<Rightarrow> route option" where
  "message_default e message =
     (if u16_at e message 4 \<noteq> NEW_ROUTE then None
      else case get_from NL_HEADER message of
        None \<Rightarrow> None
      | Some body \<Rightarrow>
          (case (get_at 0 body, get_at 1 body) of
             (Some fam, Some destination) \<Rightarrow>
               if destination \<noteq> 0 then None
               else (case get_from RTMSG body of
                 None \<Rightarrow> None
               | Some attributes \<Rightarrow> read_from e attributes fam 0 None 0 0)
           | _ \<Rightarrow> None))"

definition defaults :: "endian \<Rightarrow> byte list \<Rightarrow> route list" where
  "defaults e bytes = List.map_filter (message_default e) (messages e bytes)"

definition cheapest :: "route list \<Rightarrow> u32 option \<Rightarrow> ip_addr option" where
  "cheapest routes interface =
     map_option route_gateway
       (min_by_key route_metric
         (filter (\<lambda>r. case interface of None \<Rightarrow> True | Some wanted \<Rightarrow> route_interface r = wanted) routes))"

definition gateway_of :: "endian \<Rightarrow> byte list \<Rightarrow> u32 option \<Rightarrow> ip_addr option" where
  "gateway_of e bytes interface = cheapest (defaults e bytes) interface"

section \<open>netlink.rs\<close>

record 'w netlink_io =
  nl_write :: "byte list \<Rightarrow> 'w \<Rightarrow> (nat, io_error) result \<times> 'w"
  nl_read :: "'w \<Rightarrow> (byte list, io_error) result \<times> 'w"

definition NL_MOST :: nat where "NL_MOST = 32 * 1024"

text \<open>The counter the sequence numbers come from: every use advances it, and it wraps.\<close>

definition next_sequence :: "u32 \<Rightarrow> u32 \<times> u32" where
  "next_sequence counter = (counter, counter + 1)"

definition netlink_say ::
  "'w netlink_io \<Rightarrow> byte list \<Rightarrow> 'w \<Rightarrow> (unit, io_error) result \<times> 'w" where
  "netlink_say io bytes w =
     (case nl_write io bytes w of
        (Inl error, w') \<Rightarrow> (Inl error, w')
      | (Inr written, w') \<Rightarrow>
          if written = length bytes then (Inr (), w')
          else (Inl (OtherError ''the message was cut in half''), w'))"

definition read_most :: "'w netlink_io \<Rightarrow> 'w \<Rightarrow> (byte list, io_error) result \<times> 'w" where
  "read_most io w = (case nl_read io w of (got, w') \<Rightarrow> (map_sum id (take NL_MOST) got, w'))"

definition netlink_change ::
  "endian \<Rightarrow> 'w netlink_io \<Rightarrow> address \<Rightarrow> address_change \<Rightarrow> u32 \<times> 'w
     \<Rightarrow> (unit, io_error) result \<times> (u32 \<times> 'w)" where
  "netlink_change e io what how st =
     (case st of (counter, w) \<Rightarrow>
      case next_sequence counter of (seq, counter') \<Rightarrow>
      case netlink_say io (change e what how seq) w of
        (Inl error, w1) \<Rightarrow> (Inl error, (counter', w1))
      | (Inr _, w1) \<Rightarrow>
          (case read_most io w1 of
             (Inl error, w2) \<Rightarrow> (Inl error, (counter', w2))
           | (Inr said, w2) \<Rightarrow>
               ((case answer e said of
                   Some Accepted \<Rightarrow> Inr ()
                 | Some (Refused code) \<Rightarrow> Inl (OsError code)
                 | Some (Other kind) \<Rightarrow> Inl (OtherError ''answered with another message type'')
                 | None \<Rightarrow> Inl (OtherError ''too short to hold an acknowledgement'')),
                (counter', w2))))"

definition finished :: "endian \<Rightarrow> byte list \<Rightarrow> bool" where
  "finished e bytes \<longleftrightarrow>
     (\<exists>message \<in> set (messages e bytes).
        u16_at e message 4 = NLMSG_DONE \<or> u16_at e message 4 = NLMSG_ERROR)"

text \<open>
  A dump is read until the message that ends it. Nothing bounds the number of reads, so
  the loops return nothing when the end never arrives.
\<close>

partial_function (option) dump_loop ::
  "endian \<Rightarrow> 'w netlink_io \<Rightarrow> (byte list \<Rightarrow> 'a list) \<Rightarrow> 'a list \<Rightarrow> 'w
     \<Rightarrow> (('a list, io_error) result \<times> 'w) option" where
  "dump_loop e io parse found w =
     (case read_most io w of (got, w') \<Rightarrow>
      case got of
        Inl error \<Rightarrow> Some (Inl error, w')
      | Inr said \<Rightarrow>
          if finished e said then Some (Inr (found @ parse said), w')
          else dump_loop e io parse (found @ parse said) w')"

definition netlink_addresses ::
  "endian \<Rightarrow> 'w netlink_io \<Rightarrow> family \<Rightarrow> u32 \<times> 'w
     \<Rightarrow> (((ip_addr \<times> u32) list, io_error) result \<times> (u32 \<times> 'w)) option" where
  "netlink_addresses e io fam st =
     (case st of (counter, w) \<Rightarrow>
      case next_sequence counter of (seq, counter') \<Rightarrow>
      case netlink_say io (list_addresses e fam seq) w of
        (Inl error, w1) \<Rightarrow> Some (Inl error, (counter', w1))
      | (Inr _, w1) \<Rightarrow>
          map_option (\<lambda>(r, w2). (r, (counter', w2))) (dump_loop e io (addresses e) [] w1))"

definition netlink_gateway ::
  "endian \<Rightarrow> 'w netlink_io \<Rightarrow> family \<Rightarrow> u32 option \<Rightarrow> u32 \<times> 'w
     \<Rightarrow> ((ip_addr option, io_error) result \<times> (u32 \<times> 'w)) option" where
  "netlink_gateway e io fam interface st =
     (case st of (counter, w) \<Rightarrow>
      case next_sequence counter of (seq, counter') \<Rightarrow>
      case netlink_say io (list_routes e fam seq) w of
        (Inl error, w1) \<Rightarrow> Some (Inl error, (counter', w1))
      | (Inr _, w1) \<Rightarrow>
          map_option (\<lambda>(r, w2). (map_sum id (\<lambda>found. cheapest found interface) r, (counter', w2)))
            (dump_loop e io (defaults e) [] w1))"

section \<open>Reading back a field\<close>

lemma u16_at_append:
  assumes "length xs = i"
  shows "u16_at e (xs @ u16_to_ne e w @ ys) i = w"
proof -
  obtain a b where "u16_to_ne e w = [a, b]" "u16_from_ne e a b = w"
    by (rule u16_ne_roundtrip)
  then show ?thesis using assms by (simp add: u16_at_def nth_append)
qed

lemma u32_at_append:
  assumes "length xs = i"
  shows "u32_at e (xs @ u32_to_ne e w @ ys) i = w"
proof -
  obtain a b c d where "u32_to_ne e w = [a, b, c, d]" "u32_from_ne e a b c d = w"
    by (rule u32_ne_roundtrip)
  then show ?thesis using assms by (simp add: u32_at_def nth_append)
qed

lemmas u16_at_0 = u16_at_append [of "[]" 0, simplified]
lemmas u32_at_0 = u32_at_append [of "[]" 0, simplified]

lemma u16_at_skip: "length xs \<le> i \<Longrightarrow> u16_at e (xs @ ys) i = u16_at e ys (i - length xs)"
  by (simp add: u16_at_def nth_append Suc_diff_le)

lemma u32_at_skip: "length xs \<le> i \<Longrightarrow> u32_at e (xs @ ys) i = u32_at e ys (i - length xs)"
  by (simp add: u32_at_def nth_append Suc_diff_le)

lemma u16_at_take: "Suc i < n \<Longrightarrow> u16_at e (take n bytes) i = u16_at e bytes i"
  by (simp add: u16_at_def)

lemma u32_at_take: "i + 3 < n \<Longrightarrow> u32_at e (take n bytes) i = u32_at e bytes i"
  by (simp add: u32_at_def)

lemma u32_at_drop: "k \<le> length bytes \<Longrightarrow> u32_at e (drop k bytes) i = u32_at e bytes (k + i)"
  by (simp add: u32_at_def add.assoc)

section \<open>The walk over messages\<close>

lemma messages_from_sound:
  "m \<in> set (messages_from e bytes at) \<Longrightarrow>
     16 \<le> length m \<and> (\<exists>k. k + length m \<le> length bytes \<and> m = take (length m) (drop k bytes))"
proof (induction e bytes at rule: messages_from.induct)
  case (1 e bytes at)
  let ?len = "unat (u32_at e bytes at)"
  show ?case
  proof (cases "at + 16 \<le> length bytes \<and> 16 \<le> ?len \<and> at + ?len \<le> length bytes")
    case True
    with 1(2) consider "m = take ?len (drop at bytes)"
      | "m \<in> set (messages_from e bytes (at + next_multiple_of_4 ?len))"
      by (auto simp: messages_from.simps [of e bytes at] Let_def)
    then show ?thesis
    proof cases
      case 1
      then show ?thesis using True by (intro conjI exI [of _ at]) auto
    next
      case 2
      then show ?thesis using 1(1) [of ?len] True by simp
    qed
  next
    case False
    then show ?thesis using 1(2) by (auto simp: messages_from.simps [of e bytes at] Let_def split: if_splits)
  qed
qed

text \<open>A message the walk steps over whole: aligned, and as long as it says.\<close>

definition wf_message :: "endian \<Rightarrow> byte list \<Rightarrow> bool" where
  "wf_message e m \<longleftrightarrow> 16 \<le> length m \<and> length m mod 4 = 0 \<and> unat (u32_at e m 0) = length m"

lemma messages_from_append:
  assumes "wf_message e m"
  shows "messages_from e (pre @ m @ post) (length pre) =
    m # messages_from e (pre @ m @ post) (length (pre @ m))"
proof -
  have "u32_at e (pre @ m @ post) (length pre) = u32_at e m 0"
    using assms by (simp add: u32_at_skip) (auto simp: u32_at_def nth_append wf_message_def)
  with assms show ?thesis
    by (simp add: messages_from.simps [of e "pre @ m @ post" "length pre"] wf_message_def
        next_multiple_of_4_id)
qed

lemma messages_from_concat:
  "list_all (wf_message e) ms \<Longrightarrow> messages_from e (pre @ concat ms) (length pre) = ms"
proof (induction ms arbitrary: pre)
  case Nil
  then show ?case by (simp add: messages_from.simps)
next
  case (Cons m ms)
  then show ?case
    using messages_from_append [of e m pre "concat ms"] Cons.IH [of "pre @ m"] by simp
qed

lemma messages_concat: "list_all (wf_message e) ms \<Longrightarrow> messages e (concat ms) = ms"
  using messages_from_concat [of e ms "[]"] by (simp add: messages_def)

section \<open>The request is one message and names the address\<close>

lemma length_addr_octets: "length (addr_octets a) = (case addr_address a of V4 _ \<Rightarrow> 4 | V6 _ \<Rightarrow> 16)"
  by (simp add: addr_octets_def split: ip_addr.split)

lemma address_value_octets: "address_value (addr_octets a) (addr_family a) = Some (addr_address a)"
  by (simp add: address_value_def addr_octets_def addr_family_def split: ip_addr.split)

lemma change_layout:
  "change e what how seq =
     u32_to_ne e (message_length (32 + 2 * length (addr_octets what)))
     @ u16_to_ne e (change_kind how) @ u16_to_ne e (change_flags how)
     @ u32_to_ne e seq @ u32_to_ne e 0
     @ [addr_family what, addr_prefix_length what, 0, 0] @ u32_to_ne e (addr_interface what)
     @ u16_to_ne e (attribute_length (4 + length (addr_octets what))) @ u16_to_ne e 2 @ addr_octets what
     @ u16_to_ne e (attribute_length (4 + length (addr_octets what))) @ u16_to_ne e 1 @ addr_octets what"
  by (simp add: change_def attribute_def Let_def length_u16_to_ne length_u32_to_ne)

lemma length_change: "length (change e what how seq) = 32 + 2 * length (addr_octets what)"
  by (simp add: change_layout length_u16_to_ne length_u32_to_ne)

lemma unat_message_length: "n < 4294967296 \<Longrightarrow> unat (message_length n) = n"
  by (simp add: message_length_def unat_of_nat)

lemma unat_attribute_length: "n < 65536 \<Longrightarrow> unat (attribute_length n) = n"
  by (simp add: attribute_length_def unat_of_nat)

lemma change_wf: "wf_message e (change e what how seq)"
proof -
  have "u32_at e (change e what how seq) 0 = message_length (32 + 2 * length (addr_octets what))"
    by (simp only: change_layout u32_at_0)
  then show ?thesis
    by (cases "addr_address what")
      (simp_all add: wf_message_def length_change length_addr_octets unat_message_length)
qed

lemma local_from_attributes:
  assumes "length value mod 4 = 0" "length value < 65532"
  shows "local_from e (u16_to_ne e (attribute_length (4 + length value)) @ u16_to_ne e 2 @ value @ rest) fam 0
    = address_value value fam"
proof -
  let ?bs = "u16_to_ne e (attribute_length (4 + length value)) @ u16_to_ne e 2 @ value @ rest"
  have "u16_at e ?bs 0 = attribute_length (4 + length value)" by (rule u16_at_0)
  moreover have "u16_at e ?bs 2 = 2"
    using u16_at_append [of "u16_to_ne e (attribute_length (4 + length value))" 2 e 2 "value @ rest"]
    by (simp add: length_u16_to_ne)
  ultimately show ?thesis
    using assms by (simp add: local_from.simps [of e ?bs] unat_attribute_length length_u16_to_ne
        numeral_2_eq_2 [symmetric] del: One_nat_def)
qed

text \<open>The address a message names, whatever its type.\<close>

definition named_address :: "endian \<Rightarrow> byte list \<Rightarrow> (ip_addr \<times> u32) option" where
  "named_address e message = (case get_from NL_HEADER message of
     None \<Rightarrow> None
   | Some body \<Rightarrow>
       (case (get_at 0 body, get_range 4 8 body, get_from IFADDRMSG body) of
          (Some fam, Some index, Some attributes) \<Rightarrow>
            map_option (\<lambda>a. (a, u32_at e index 0)) (local_from e attributes fam 0)
        | _ \<Rightarrow> None))"

lemma message_address_named:
  "message_address e message =
     (if u16_at e message 4 = NEW_ADDRESS then named_address e message else None)"
  by (simp add: message_address_def named_address_def)

lemma change_type: "u16_at e (change e what how seq) 4 = change_kind how"
  unfolding change_layout by (rule u16_at_append) (simp add: length_u32_to_ne)

lemma named_change:
  "named_address e (change e what how seq) = Some (addr_address what, addr_interface what)"
proof -
  let ?v = "addr_octets what"
  let ?attr = "u16_to_ne e (attribute_length (4 + length ?v)) @ u16_to_ne e 2 @ ?v
     @ u16_to_ne e (attribute_length (4 + length ?v)) @ u16_to_ne e 1 @ ?v"
  let ?m = "change e what how seq"
  let ?body = "[addr_family what, addr_prefix_length what, 0, 0] @ u32_to_ne e (addr_interface what) @ ?attr"
  have body: "get_from NL_HEADER ?m = Some ?body"
    by (simp add: get_from_def length_change)
      (simp add: change_layout length_u16_to_ne length_u32_to_ne)
  have fields: "get_at 0 ?body = Some (addr_family what)"
    "get_range 4 8 ?body = Some (u32_to_ne e (addr_interface what))" "get_from IFADDRMSG ?body = Some ?attr"
    by (simp_all add: get_at_def get_range_def get_from_def length_u32_to_ne)
  have index: "u32_at e (u32_to_ne e (addr_interface what)) 0 = addr_interface what"
    using u32_at_0 [of e "addr_interface what" "[]"] by simp
  have "local_from e ?attr (addr_family what) 0 = Some (addr_address what)"
    using local_from_attributes [of ?v e] address_value_octets [of what]
    by (cases "addr_address what") (simp_all add: length_addr_octets)
  with index show ?thesis
    unfolding named_address_def body option.case fields prod.case by simp
qed

lemma message_address_change:
  "message_address e (change e what Add seq) = Some (addr_address what, addr_interface what)"
  by (simp add: message_address_named change_type named_change)

lemma addresses_change:
  "addresses e (change e what Add seq) = [(addr_address what, addr_interface what)]"
  using messages_concat [of e "[change e what Add seq]"]
  by (simp add: addresses_def change_wf message_address_change List.map_filter_simps)

section \<open>Choosing a gateway\<close>

lemma cheapest_Some:
  assumes "cheapest routes interface = Some gw"
  obtains r where "r \<in> set routes" "route_gateway r = gw"
    "\<And>i. interface = Some i \<Longrightarrow> route_interface r = i"
    "\<And>r'. r' \<in> set routes \<Longrightarrow> (\<And>i. interface = Some i \<Longrightarrow> route_interface r' = i)
       \<Longrightarrow> route_metric r \<le> route_metric r'"
proof -
  from assms obtain r where r: "route_gateway r = gw"
    "min_by_key route_metric (filter (\<lambda>r. case interface of None \<Rightarrow> True
       | Some wanted \<Rightarrow> route_interface r = wanted) routes) = Some r"
    by (auto simp: cheapest_def)
  from min_by_key_Some [OF r(2)] show ?thesis
    by (intro that [of r]) (auto simp: r(1) split: option.splits)
qed

lemma cheapest_None:
  "cheapest routes interface = None \<longleftrightarrow>
     (\<forall>r \<in> set routes. \<exists>i. interface = Some i \<and> route_interface r \<noteq> i)"
  by (auto simp: cheapest_def filter_empty_conv split: option.splits)

section \<open>A dump in as many reads as it needs\<close>

fun delivers :: "'w netlink_io \<Rightarrow> 'w \<Rightarrow> byte list list \<Rightarrow> 'w \<Rightarrow> bool" where
  "delivers io w [] w' \<longleftrightarrow> w' = w"
| "delivers io w (r # rs) w' \<longleftrightarrow> (case read_most io w of
     (Inr got, w1) \<Rightarrow> got = r \<and> delivers io w1 rs w' | _ \<Rightarrow> False)"

lemma dump_loop_delivers:
  assumes "delivers io w (rs @ [final]) w'" "\<not> list_ex (finished e) rs" "finished e final"
  shows "dump_loop e io parse found w = Some (Inr (found @ concat (map parse (rs @ [final]))), w')"
  using assms
proof (induction rs arbitrary: w found)
  case Nil
  then show ?case by (auto simp: dump_loop.simps [of e io parse found w] split: prod.splits sum.splits)
next
  case (Cons r rs)
  then obtain w1 where w1: "read_most io w = (Inr r, w1)" "delivers io w1 (rs @ [final]) w'"
    by (auto split: prod.splits sum.splits)
  with Cons show ?case by (simp add: dump_loop.simps [of e io parse found w])
qed

lemma defaults_concat:
  "list_all (wf_message e) ms \<Longrightarrow> defaults e (concat ms) = List.map_filter (message_default e) ms"
  by (simp add: defaults_def messages_concat)

section \<open>What the kernel answered\<close>

lemma answer_short: "length bytes < 6 \<Longrightarrow> answer e bytes = None"
  by (auto simp: answer_def get_at_def)

lemma answer_error:
  assumes "20 \<le> length bytes" "u16_at e bytes 4 = 2"
  shows "answer e bytes =
    Some (if u32_at e bytes 16 = 0 then Accepted else Refused (sint (- u32_at e bytes 16)))"
  using assms by (auto simp: answer_def get_at_def u16_at_def u32_at_def Let_def)

lemma netlink_change_Inr:
  assumes "netlink_change e io what how (counter, w) = (Inr (), st')"
  shows "\<exists>said w1 w2. netlink_say io (change e what how counter) w = (Inr (), w1) \<and>
    read_most io w1 = (Inr said, w2) \<and> answer e said = Some Accepted \<and> st' = (counter + 1, w2)"
  using assms
  by (auto simp: netlink_change_def next_sequence_def split: prod.splits sum.splits option.splits
      answer.splits)

end
