(* ===== verification/Vrrp_State.thy ===== *)
theory Vrrp_State
  imports Packet
begin

text \<open>
  \<open>state.rs\<close>: who holds the virtual router, and when that changes. The machine reads no
  clock and owns no socket: every operation takes the moment it is called at and returns
  what to do about it, so each is a function from a machine to actions and a machine.
\<close>

section \<open>Data\<close>

datatype state = Initialize | Backup | Master

fun state_name :: "state \<Rightarrow> string" where
  "state_name Initialize = ''initialize''"
| "state_name Backup = ''backup''"
| "state_name Master = ''master''"

datatype reason =
  Started | NobodyElseAnswered | StrongerPeer | Stopped | AddressRefused | GatewayLost

fun reason_name :: "reason \<Rightarrow> string" where
  "reason_name Started = ''started''"
| "reason_name NobodyElseAnswered = ''nobody_else_answered''"
| "reason_name StrongerPeer = ''stronger_peer''"
| "reason_name Stopped = ''stopped''"
| "reason_name AddressRefused = ''address_refused''"
| "reason_name GatewayLost = ''gateway_lost''"

record transition =
  tr_from :: state
  tr_to :: state
  tr_reason :: reason

datatype action = Advertise advertisement | Record transition | TakeAddresses | DropAddresses

datatype ignored = UnknownPeer | Broken malformed | OtherRouter byte

record settings =
  vrid :: byte
  priority :: byte
  interval :: duration
  preempt :: bool
  own_address :: ipv4
  virtual_addresses :: "ipv4 list"
  peers :: "ipv4 list"

text \<open>\<open>hundredths\<close> is the interval in centiseconds, clamped to the twelve bits of the field.\<close>

definition interval_centiseconds :: "settings \<Rightarrow> u16" where
  "interval_centiseconds s =
     (let hundredths = interval s div 1000000 div 10
      in if hundredths > 0x0FFF then 0x0FFF else of_nat hundredths)"

definition skew_time :: "settings \<Rightarrow> duration" where
  "skew_time s = as_u64 ((256 - unat (priority s)) * interval s div 256)"

definition master_down_interval :: "settings \<Rightarrow> duration" where
  "master_down_interval s = as_u64 (as_u64 (interval s * 3) + as_u64 (skew_time s))"

record machine =
  m_settings :: settings
  m_configured :: byte
  m_state :: state
  m_advertise_at :: "instant option"
  m_claim_at :: "instant option"
  m_accepted :: u64
  m_ignored :: u64

section \<open>Operations\<close>

definition new_machine :: "settings \<Rightarrow> machine" where
  "new_machine s = \<lparr>m_settings = s, m_configured = priority s, m_state = Initialize,
     m_advertise_at = None, m_claim_at = None, m_accepted = 0, m_ignored = 0\<rparr>"

definition own_advertisement :: "machine \<Rightarrow> byte \<Rightarrow> advertisement" where
  "own_advertisement m p = \<lparr>adv_vrid = vrid (m_settings m), adv_priority = p,
     adv_interval = interval_centiseconds (m_settings m),
     adv_addresses = virtual_addresses (m_settings m)\<rparr>"

definition become_master :: "machine \<Rightarrow> instant \<Rightarrow> reason \<Rightarrow> action list \<times> machine" where
  "become_master m now why =
     (let m' = m\<lparr>m_state := Master, m_claim_at := None,
                 m_advertise_at := Some (now + interval (m_settings m))\<rparr>
      in ([Record \<lparr>tr_from = m_state m, tr_to = Master, tr_reason = why\<rparr>, TakeAddresses,
           Advertise (own_advertisement m' (priority (m_settings m')))], m'))"

definition become_backup :: "machine \<Rightarrow> instant \<Rightarrow> reason \<Rightarrow> action list \<times> machine" where
  "become_backup m now why =
     (let m' = m\<lparr>m_state := Backup, m_advertise_at := None,
                 m_claim_at := Some (now + master_down_interval (m_settings m))\<rparr>
      in ([Record \<lparr>tr_from = m_state m, tr_to = Backup, tr_reason = why\<rparr>, DropAddresses], m'))"

definition outranked_by :: "machine \<Rightarrow> ipv4 \<Rightarrow> byte \<Rightarrow> bool" where
  "outranked_by m src p \<longleftrightarrow> p > priority (m_settings m) \<or>
     (p = priority (m_settings m) \<and> src > own_address (m_settings m))"

definition outranks :: "machine \<Rightarrow> ipv4 \<Rightarrow> byte \<Rightarrow> bool" where
  "outranks m src p \<longleftrightarrow> priority (m_settings m) > p \<or>
     (p = priority (m_settings m) \<and> own_address (m_settings m) > src)"

definition start :: "machine \<Rightarrow> instant \<Rightarrow> action list \<times> machine" where
  "start m now =
     (if priority (m_settings m) = 255 then
        (case become_master m now Started of (acts, m') \<Rightarrow> (DropAddresses # acts, m'))
      else
        ([DropAddresses, Record \<lparr>tr_from = m_state m, tr_to = Backup, tr_reason = Started\<rparr>],
         m\<lparr>m_state := Backup, m_advertise_at := None,
           m_claim_at := Some (now + master_down_interval (m_settings m))\<rparr>))"

definition due :: "instant option \<Rightarrow> instant \<Rightarrow> bool" where
  "due at now = (case at of None \<Rightarrow> False | Some t \<Rightarrow> now \<ge> t)"

definition tick :: "machine \<Rightarrow> instant \<Rightarrow> action list \<times> machine" where
  "tick m now = (case m_state m of
     Master \<Rightarrow>
       if due (m_advertise_at m) now then
         ([Advertise (own_advertisement m (priority (m_settings m)))],
          m\<lparr>m_advertise_at := Some (now + interval (m_settings m))\<rparr>)
       else ([], m)
   | Backup \<Rightarrow>
       if due (m_claim_at m) now then become_master m now NobodyElseAnswered else ([], m)
   | Initialize \<Rightarrow> ([], m))"

definition master_heard :: "machine \<Rightarrow> ipv4 \<Rightarrow> advertisement \<Rightarrow> instant \<Rightarrow> action list \<times> machine" where
  "master_heard m src heard now =
     (if adv_priority heard = GIVING_UP then
        ([Advertise (own_advertisement m (priority (m_settings m)))],
         m\<lparr>m_advertise_at := Some (now + interval (m_settings m))\<rparr>)
      else if outranked_by m src (adv_priority heard) then become_backup m now StrongerPeer
      else ([], m))"

definition backup_heard :: "machine \<Rightarrow> ipv4 \<Rightarrow> advertisement \<Rightarrow> instant \<Rightarrow> action list \<times> machine" where
  "backup_heard m src heard now =
     (if adv_priority heard = GIVING_UP then
        ([], m\<lparr>m_claim_at := Some (now + skew_time (m_settings m))\<rparr>)
      else if \<not> preempt (m_settings m) \<or> \<not> outranks m src (adv_priority heard) then
        ([], m\<lparr>m_claim_at := Some (now + master_down_interval (m_settings m))\<rparr>)
      else ([], m))"

text \<open>Every address of the router is tried as the destination the checksum covers.\<close>

definition read_advertisement :: "machine \<Rightarrow> ipv4 \<Rightarrow> byte list \<Rightarrow> advertisement option" where
  "read_advertisement m src bytes =
     find_map (\<lambda>dst. case decode bytes src dst of Inl _ \<Rightarrow> None | Inr adv \<Rightarrow> Some adv)
       (virtual_addresses (m_settings m) @ [own_address (m_settings m)])"

definition judge ::
  "machine \<Rightarrow> ipv4 \<Rightarrow> byte list \<Rightarrow> instant \<Rightarrow> (action list, ignored) result \<times> machine" where
  "judge m src bytes now =
     (if src \<notin> set (peers (m_settings m)) then (Inl UnknownPeer, m\<lparr>m_ignored := m_ignored m + 1\<rparr>)
      else case read_advertisement m src bytes of
        None \<Rightarrow>
          (Inl (Broken (case decode bytes src (own_address (m_settings m)) of
              Inl why \<Rightarrow> why | Inr _ \<Rightarrow> BadChecksum)),
           m\<lparr>m_ignored := m_ignored m + 1\<rparr>)
      | Some adv \<Rightarrow>
          if adv_vrid adv \<noteq> vrid (m_settings m) then
            (Inl (OtherRouter (adv_vrid adv)), m\<lparr>m_ignored := m_ignored m + 1\<rparr>)
          else
            let m' = m\<lparr>m_accepted := m_accepted m + 1\<rparr> in
            (case m_state m' of
               Master \<Rightarrow> apfst Inr (master_heard m' src adv now)
             | Backup \<Rightarrow> apfst Inr (backup_heard m' src adv now)
             | Initialize \<Rightarrow> (Inr [], m')))"

definition receive :: "machine \<Rightarrow> ipv4 \<Rightarrow> byte list \<Rightarrow> instant \<Rightarrow> action list \<times> machine" where
  "receive m src bytes now = (case judge m src bytes now of
     (Inl _, m') \<Rightarrow> ([], m') | (Inr acts, m') \<Rightarrow> (acts, m'))"

definition stop :: "machine \<Rightarrow> instant \<Rightarrow> action list \<times> machine" where
  "stop m now =
     (let m' = m\<lparr>m_state := Initialize, m_advertise_at := None, m_claim_at := None\<rparr>
      in ((if m_state m = Master then [Advertise (own_advertisement m' GIVING_UP)] else [])
          @ [DropAddresses, Record \<lparr>tr_from = m_state m, tr_to = Initialize, tr_reason = Stopped\<rparr>], m'))"

definition renounce :: "machine \<Rightarrow> instant \<Rightarrow> action list \<times> machine" where
  "renounce m now = (if m_state m \<noteq> Master then ([], m) else become_backup m now AddressRefused)"

definition demote :: "machine \<Rightarrow> byte \<Rightarrow> instant \<Rightarrow> action list \<times> machine" where
  "demote m to now =
     (if priority (m_settings m) = to then ([], m)
      else let m' = m\<lparr>m_settings := (m_settings m)\<lparr>priority := to\<rparr>\<rparr> in
        if m_state m' \<noteq> Master then ([], m') else become_backup m' now GatewayLost)"

definition restore :: "machine \<Rightarrow> instant \<Rightarrow> action list \<times> machine" where
  "restore m now = ([], m\<lparr>m_settings := (m_settings m)\<lparr>priority := m_configured m\<rparr>\<rparr>)"

lemmas operation_defs [machine_simps] =
  become_master_def become_backup_def start_def due_def tick_def master_heard_def backup_heard_def
  judge_def receive_def stop_def renounce_def demote_def restore_def Let_def

section \<open>Runs\<close>

text \<open>What can happen to a machine, and the actions a run of such events asked for.\<close>

datatype event =
    Start instant | Tick instant | Receive ipv4 "byte list" instant | Stop instant
  | Renounce instant | Demote byte instant | Restore instant

fun apply_event :: "machine \<Rightarrow> event \<Rightarrow> action list \<times> machine" where
  "apply_event m (Start now) = start m now"
| "apply_event m (Tick now) = tick m now"
| "apply_event m (Receive src bytes now) = receive m src bytes now"
| "apply_event m (Stop now) = stop m now"
| "apply_event m (Renounce now) = renounce m now"
| "apply_event m (Demote to now) = demote m to now"
| "apply_event m (Restore now) = restore m now"

fun run :: "machine \<Rightarrow> event list \<Rightarrow> action list \<times> machine" where
  "run m [] = ([], m)"
| "run m (ev # evs) =
     (case apply_event m ev of (acts, m1) \<Rightarrow>
      case run m1 evs of (acts', m2) \<Rightarrow> (acts @ acts', m2))"

inductive reachable :: "settings \<Rightarrow> machine \<Rightarrow> bool" for s where
  reachable_new: "reachable s (new_machine s)"
| reachable_step: "reachable s m \<Longrightarrow> apply_event m ev = (acts, m') \<Longrightarrow> reachable s m'"

inductive_cases reachable_elim: "reachable s m"

section \<open>What a packet can do\<close>

text \<open>
  A packet is either dropped, and then only the counter moves, or taken: from a listed
  peer, decoded, and for this router.
\<close>

lemma judge_dropped:
  "judge m src bytes now = (Inl why, m') \<Longrightarrow> m' = m\<lparr>m_ignored := m_ignored m + 1\<rparr>"
  by (auto simp: judge_def Let_def apfst_def map_prod_def
      split: if_splits option.splits state.splits prod.splits)

lemma judge_taken:
  assumes "judge m src bytes now = (Inr acts, m')"
  obtains adv where "src \<in> set (peers (m_settings m))" "read_advertisement m src bytes = Some adv"
    "adv_vrid adv = vrid (m_settings m)"
    "(case m_state m of
       Master \<Rightarrow> master_heard (m\<lparr>m_accepted := m_accepted m + 1\<rparr>) src adv now
     | Backup \<Rightarrow> backup_heard (m\<lparr>m_accepted := m_accepted m + 1\<rparr>) src adv now
     | Initialize \<Rightarrow> ([], m\<lparr>m_accepted := m_accepted m + 1\<rparr>)) = (acts, m')"
  using assms
  by (auto simp: judge_def Let_def apfst_def map_prod_def
      split: if_splits option.splits state.splits prod.splits)

lemma receive_cases:
  assumes "receive m src bytes now = (acts, m')"
  obtains (dropped) "acts = []" "m' = m\<lparr>m_ignored := m_ignored m + 1\<rparr>"
  | (taken) adv where "src \<in> set (peers (m_settings m))" "read_advertisement m src bytes = Some adv"
    "adv_vrid adv = vrid (m_settings m)"
    "(case m_state m of
       Master \<Rightarrow> master_heard (m\<lparr>m_accepted := m_accepted m + 1\<rparr>) src adv now
     | Backup \<Rightarrow> backup_heard (m\<lparr>m_accepted := m_accepted m + 1\<rparr>) src adv now
     | Initialize \<Rightarrow> ([], m\<lparr>m_accepted := m_accepted m + 1\<rparr>)) = (acts, m')"
proof (cases "judge m src bytes now")
  case (Pair r mm)
  show ?thesis
  proof (cases r)
    case (Inl why)
    then show ?thesis
      using Pair assms judge_dropped [of m src bytes now why mm] dropped by (auto simp: receive_def)
  next
    case (Inr as)
    with Pair assms have "judge m src bytes now = (Inr acts, m')" by (simp add: receive_def)
    then show ?thesis by (rule judge_taken) (rule taken)
  qed
qed

section \<open>Invariants of a run\<close>

text \<open>Which deadlines are set is decided by the state alone.\<close>

definition timers_inv :: "machine \<Rightarrow> bool" where
  "timers_inv m = (case m_state m of
     Master \<Rightarrow> m_advertise_at m \<noteq> None \<and> m_claim_at m = None
   | Backup \<Rightarrow> m_advertise_at m = None \<and> m_claim_at m \<noteq> None
   | Initialize \<Rightarrow> m_advertise_at m = None \<and> m_claim_at m = None)"

lemma heard_timers:
  "m_state m = Master \<Longrightarrow> master_heard m src adv now = (acts, m') \<Longrightarrow> timers_inv m \<Longrightarrow> timers_inv m'"
  "m_state m = Backup \<Longrightarrow> backup_heard m src adv now = (acts, m') \<Longrightarrow> timers_inv m \<Longrightarrow> timers_inv m'"
  by (auto simp: master_heard_def backup_heard_def become_backup_def timers_inv_def split: if_splits)

lemma timers_inv_counter [simp]:
  "timers_inv (m\<lparr>m_accepted := n\<rparr>) = timers_inv m" "timers_inv (m\<lparr>m_ignored := n\<rparr>) = timers_inv m"
  by (simp_all add: timers_inv_def split: state.split)

lemma receive_timers:
  assumes "receive m src bytes now = (acts, m')" "timers_inv m"
  shows "timers_inv m'"
  using assms(1)
proof (cases rule: receive_cases)
  case dropped
  with assms(2) show ?thesis by simp
next
  case (taken adv)
  with assms(2) show ?thesis
    by (cases "m_state m") (auto dest: heard_timers [rotated])
qed

lemma apply_event_timers: "apply_event m ev = (acts, m') \<Longrightarrow> timers_inv m \<Longrightarrow> timers_inv m'"
  by (cases ev)
    (auto simp: start_def tick_def due_def stop_def renounce_def demote_def restore_def
      become_master_def become_backup_def Let_def timers_inv_def
      dest: receive_timers [unfolded timers_inv_def] split: if_splits state.splits)

lemma reachable_timers: "reachable s m \<Longrightarrow> timers_inv m"
  by (induction rule: reachable.induct)
    (auto simp: new_machine_def timers_inv_def [of "new_machine s"] dest: apply_event_timers,
      simp add: timers_inv_def)

text \<open>Nothing but the claim is ever written, and what was asked for is never forgotten.\<close>

definition same_setup :: "machine \<Rightarrow> machine \<Rightarrow> bool" where
  "same_setup m m' \<longleftrightarrow> m_configured m' = m_configured m \<and>
     (m_settings m')\<lparr>priority := 0\<rparr> = (m_settings m)\<lparr>priority := 0\<rparr>"

lemma heard_setup:
  "master_heard m src adv now = (acts, m') \<Longrightarrow> m_settings m' = m_settings m \<and> m_configured m' = m_configured m"
  "backup_heard m src adv now = (acts, m') \<Longrightarrow> m_settings m' = m_settings m \<and> m_configured m' = m_configured m"
  by (auto simp: master_heard_def backup_heard_def become_backup_def Let_def split: if_splits)

lemma receive_setup:
  assumes "receive m src bytes now = (acts, m')"
  shows "m_settings m' = m_settings m \<and> m_configured m' = m_configured m"
  using assms
proof (cases rule: receive_cases)
  case (taken adv)
  then show ?thesis by (cases "m_state m") (auto dest: heard_setup)
qed simp

lemma apply_event_setup: "apply_event m ev = (acts, m') \<Longrightarrow> same_setup m m'"
  by (cases ev)
    (auto simp: start_def tick_def due_def stop_def renounce_def demote_def restore_def
      become_master_def become_backup_def Let_def same_setup_def
      dest: receive_setup split: if_splits state.splits)

lemma reachable_setup:
  "reachable s m \<Longrightarrow> m_configured m = priority s \<and> (m_settings m)\<lparr>priority := 0\<rparr> = s\<lparr>priority := 0\<rparr>"
  by (induction rule: reachable.induct)
    (auto simp: new_machine_def same_setup_def dest: apply_event_setup)

section \<open>Holding the addresses\<close>

text \<open>
  Whether the node carries the virtual addresses after doing what it was asked, when every
  request is granted. The flag before a run is whatever a killed process left behind.
\<close>

fun carries :: "bool \<Rightarrow> action list \<Rightarrow> bool" where
  "carries held [] = held"
| "carries held (TakeAddresses # acts) = carries True acts"
| "carries held (DropAddresses # acts) = carries False acts"
| "carries held (_ # acts) = carries held acts"

text \<open>Every advertisement leaves while the addresses are carried.\<close>

fun speaks_for :: "bool \<Rightarrow> action list \<Rightarrow> bool" where
  "speaks_for held [] = True"
| "speaks_for held (TakeAddresses # acts) = speaks_for True acts"
| "speaks_for held (DropAddresses # acts) = speaks_for False acts"
| "speaks_for held (Advertise _ # acts) = (held \<and> speaks_for held acts)"
| "speaks_for held (Record _ # acts) = speaks_for held acts"

lemma carries_append: "carries held (xs @ ys) = carries (carries held xs) ys"
  by (induction held xs rule: carries.induct) simp_all

lemma speaks_for_append:
  "speaks_for held (xs @ ys) \<longleftrightarrow> speaks_for held xs \<and> speaks_for (carries held xs) ys"
  by (induction held xs rule: speaks_for.induct) simp_all

definition carries_role :: "bool \<Rightarrow> action list \<Rightarrow> machine \<Rightarrow> bool" where
  "carries_role held acts m \<longleftrightarrow>
     carries held acts = (m_state m = Master) \<and> speaks_for held acts"

lemma heard_carries:
  "m_state m = Master \<Longrightarrow> master_heard m src adv now = (acts, m') \<Longrightarrow> carries_role True acts m'"
  "m_state m = Backup \<Longrightarrow> backup_heard m src adv now = (acts, m') \<Longrightarrow> carries_role False acts m'"
  by (auto simp: master_heard_def backup_heard_def become_backup_def Let_def carries_role_def
      split: if_splits)

lemma receive_carries:
  assumes "receive m src bytes now = (acts, m')"
  shows "carries_role (m_state m = Master) acts m'"
  using assms
proof (cases rule: receive_cases)
  case dropped
  then show ?thesis by (simp add: carries_role_def)
next
  case (taken adv)
  then show ?thesis
    by (cases "m_state m") (auto dest: heard_carries [rotated] simp: carries_role_def [of _ "[]"])
qed

lemma apply_event_carries:
  "apply_event m ev = (acts, m') \<Longrightarrow> carries_role (m_state m = Master) acts m'"
  by (cases ev)
    (auto simp: start_def tick_def due_def stop_def renounce_def demote_def restore_def
      become_master_def become_backup_def Let_def carries_role_def
      dest: receive_carries [unfolded carries_role_def] split: if_splits state.splits)

lemma run_carries:
  "run m evs = (acts, m') \<Longrightarrow> carries_role (m_state m = Master) acts m'"
proof (induction evs arbitrary: m acts)
  case Nil
  then show ?case by (simp add: carries_role_def)
next
  case (Cons ev evs)
  then obtain acts1 m1 acts2 where
    step: "apply_event m ev = (acts1, m1)" "run m1 evs = (acts2, m')" "acts = acts1 @ acts2"
    by (auto split: prod.splits)
  from apply_event_carries [OF step(1)] Cons.IH [OF step(2)] step(3) show ?case
    by (simp add: carries_role_def carries_append speaks_for_append)
qed

lemma start_carries: "start m now = (acts, m') \<Longrightarrow> carries_role held acts m'"
  by (auto simp: start_def become_master_def Let_def carries_role_def split: if_splits)

section \<open>Waiting times\<close>

lemma skew_time_exact:
  assumes "interval s < 2 ^ 64"
  shows "skew_time s = (256 - unat (priority s)) * interval s div 256" and "skew_time s \<le> interval s"
proof -
  have "(256 - unat (priority s)) * interval s \<le> 256 * interval s" by (intro mult_le_mono1) simp
  from div_le_mono [OF this, of 256]
  have le: "(256 - unat (priority s)) * interval s div 256 \<le> interval s" by simp
  with assms have "(256 - unat (priority s)) * interval s div 256 < 2 ^ 64" by linarith
  then show "skew_time s = (256 - unat (priority s)) * interval s div 256"
    by (simp add: skew_time_def)
  with le show "skew_time s \<le> interval s" by simp
qed

lemma master_down_exact:
  assumes "interval s < 2 ^ 62"
  shows "master_down_interval s = 3 * interval s + skew_time s"
proof -
  have "skew_time s \<le> interval s" using assms by (intro skew_time_exact) simp
  then have "interval s * 3 < 2 ^ 64" "skew_time s < 2 ^ 64" "interval s * 3 + skew_time s < 2 ^ 64"
    using assms by simp_all
  then show ?thesis by (simp add: master_down_interval_def)
qed

lemma skew_time_order:
  assumes "interval s < 2 ^ 64" "interval t = interval s" "priority s < priority t" "256 \<le> interval s"
  shows "skew_time t < skew_time s"
proof -
  let ?p = "unat (priority s)" and ?q = "unat (priority t)"
  have "?p < ?q" using assms(3) by (simp add: word_less_nat_alt)
  moreover have "?q < 256" by simp
  ultimately have "256 - ?q + 1 \<le> 256 - ?p" by linarith
  then have "(256 - ?q + 1) * interval s \<le> (256 - ?p) * interval s" by (rule mult_le_mono1)
  then have "(256 - ?q) * interval s + 256 \<le> (256 - ?p) * interval s"
    using assms(4) by (simp add: algebra_simps)
  then have "((256 - ?q) * interval s + 256) div 256 \<le> (256 - ?p) * interval s div 256"
    by (rule div_le_mono)
  then show ?thesis using assms by (simp add: skew_time_exact)
qed

lemma interval_centiseconds_le: "interval_centiseconds s \<le> 0x0FFF"
  by (auto simp: interval_centiseconds_def Let_def word_le_nat_alt unat_of_nat)

section \<open>Hearing a peer\<close>

lemma read_encoded:
  assumes "dst \<in> set (virtual_addresses (m_settings m) @ [own_address (m_settings m)])"
    and "length (adv_addresses adv) < 256" "adv_interval adv \<le> 0x0FFF"
  shows "read_advertisement m src (encode adv src dst) = Some adv"
proof -
  have "clamp_interval (adv_interval adv) = adv_interval adv"
    using assms(3) by (auto simp: clamp_interval_def dest: leD)
  then have "decode (encode adv src dst) src dst = Inr adv"
    using decode_encode_clamped [OF assms(2), of src dst] by simp
  then show ?thesis
    unfolding read_advertisement_def
    by (intro find_map_unique [OF assms(1)])
      (auto split: sum.splits dest: decode_contents [of "encode adv src dst" src dst])
qed

text \<open>The packet \<open>peer\<close> sends to \<open>m\<close> while it claims the role, as \<open>m\<close> takes it.\<close>

definition claim_packet :: "machine \<Rightarrow> machine \<Rightarrow> byte list" where
  "claim_packet peer m =
     encode (own_advertisement peer (priority (m_settings peer)))
       (own_address (m_settings peer)) (own_address (m_settings m))"

definition hears :: "machine \<Rightarrow> machine \<Rightarrow> instant \<Rightarrow> action list \<times> machine" where
  "hears m peer now = receive m (own_address (m_settings peer)) (claim_packet peer m) now"

text \<open>Two nodes of one virtual router that list each other and can write their addresses.\<close>

definition paired :: "machine \<Rightarrow> machine \<Rightarrow> bool" where
  "paired m peer \<longleftrightarrow> own_address (m_settings peer) \<in> set (peers (m_settings m)) \<and>
     vrid (m_settings peer) = vrid (m_settings m) \<and> priority (m_settings peer) \<noteq> 0 \<and>
     length (virtual_addresses (m_settings peer)) < 256"

lemma receive_paired:
  assumes "paired m peer"
  shows "hears m peer now =
    (let m' = m\<lparr>m_accepted := m_accepted m + 1\<rparr>;
         adv = own_advertisement peer (priority (m_settings peer));
         src = own_address (m_settings peer)
     in case m_state m of
          Master \<Rightarrow> master_heard m' src adv now
        | Backup \<Rightarrow> backup_heard m' src adv now
        | Initialize \<Rightarrow> ([], m'))"
proof -
  have "read_advertisement m (own_address (m_settings peer)) (claim_packet peer m) =
      Some (own_advertisement peer (priority (m_settings peer)))"
    using assms unfolding claim_packet_def
    by (intro read_encoded)
      (simp_all add: own_advertisement_def interval_centiseconds_le paired_def)
  with assms show ?thesis
    by (simp add: hears_def receive_def judge_def paired_def own_advertisement_def Let_def
        apfst_def map_prod_def split: state.split prod.split)
qed

section \<open>The order of claims\<close>

text \<open>
  Claims are compared by priority, then by address. The contract is what an election
  needs of such a comparison: it never calls a node stronger than itself, it is
  transitive, and it decides between any two different claims.
\<close>

locale claim_order =
  fixes beats :: "'c \<Rightarrow> 'c \<Rightarrow> bool"
  assumes beats_irrefl: "\<not> beats x x"
    and beats_trans: "beats x y \<Longrightarrow> beats y z \<Longrightarrow> beats x z"
    and beats_total: "x \<noteq> y \<Longrightarrow> beats x y \<or> beats y x"
begin

lemma beats_asym: "beats x y \<Longrightarrow> \<not> beats y x"
  using beats_irrefl beats_trans by blast

lemma strongest_exists: "finite A \<Longrightarrow> A \<noteq> {} \<Longrightarrow> \<exists>x \<in> A. \<forall>y \<in> A. y \<noteq> x \<longrightarrow> beats x y"
proof (induction rule: finite_ne_induct)
  case (insert z F)
  then obtain x where x: "x \<in> F" "\<forall>y \<in> F. y \<noteq> x \<longrightarrow> beats x y" by blast
  show ?case
  proof (cases "beats x z")
    case True
    with x show ?thesis by blast
  next
    case False
    then have "z = x \<or> beats z x" using beats_total by blast
    then show ?thesis using x beats_trans by (metis insert_iff)
  qed
qed simp

lemma strongest_unique:
  assumes "finite A" "A \<noteq> {}"
  shows "\<exists>!x. x \<in> A \<and> (\<forall>y \<in> A. y \<noteq> x \<longrightarrow> beats x y)"
proof -
  obtain x where x: "x \<in> A" "\<forall>y \<in> A. y \<noteq> x \<longrightarrow> beats x y"
    using strongest_exists [OF assms] by blast
  show ?thesis
  proof (rule ex1I [of _ x])
    show "x \<in> A \<and> (\<forall>y \<in> A. y \<noteq> x \<longrightarrow> beats x y)" using x by simp
    fix z
    assume "z \<in> A \<and> (\<forall>y \<in> A. y \<noteq> z \<longrightarrow> beats z y)"
    then show "z = x" using x beats_asym [of x z] by metis
  qed
qed

end

definition claim_of :: "machine \<Rightarrow> byte \<times> ipv4" where
  "claim_of m = (priority (m_settings m), own_address (m_settings m))"

definition beats :: "byte \<times> ipv4 \<Rightarrow> byte \<times> ipv4 \<Rightarrow> bool" where
  "beats c d \<longleftrightarrow> fst c > fst d \<or> (fst c = fst d \<and> snd c > snd d)"

interpretation claims: claim_order beats
proof
  fix x y z :: "byte \<times> ipv4"
  show "\<not> beats x x" by (simp add: beats_def)
  show "beats x y \<Longrightarrow> beats y z \<Longrightarrow> beats x z"
    unfolding beats_def by (elim disjE conjE) (simp_all add: order.strict_trans)
  show "x \<noteq> y \<Longrightarrow> beats x y \<or> beats y x"
    unfolding beats_def prod_eq_iff by (metis linorder_neq_iff)
qed

lemma outranked_by_claim: "outranked_by m src p \<longleftrightarrow> beats (p, src) (claim_of m)"
  by (auto simp: outranked_by_def beats_def claim_of_def)

lemma outranks_claim: "outranks m src p \<longleftrightarrow> beats (claim_of m) (p, src)"
  by (auto simp: outranks_def beats_def claim_of_def)

lemma hears_setup: "m_settings (snd (hears m peer now)) = m_settings m"
  using receive_setup [of m] by (metis hears_def prod.collapse)

lemma hears_state:
  assumes "paired m peer" "own_address (m_settings peer) \<noteq> own_address (m_settings m)"
  shows "m_state (snd (hears m peer now)) = Master \<longleftrightarrow>
    m_state m = Master \<and> beats (claim_of m) (claim_of peer)"
proof -
  have "claim_of peer \<noteq> claim_of m" using assms(2) by (simp add: claim_of_def)
  then have "\<not> beats (claim_of peer) (claim_of m) \<longleftrightarrow> beats (claim_of m) (claim_of peer)"
    using claims.beats_asym claims.beats_total by blast
  moreover have "outranked_by (m\<lparr>m_accepted := n\<rparr>) (own_address (m_settings peer))
      (priority (m_settings peer)) \<longleftrightarrow> beats (claim_of peer) (claim_of m)" for n
    by (auto simp: outranked_by_def beats_def claim_of_def)
  ultimately show ?thesis
    using assms(1)
    by (cases "m_state m")
      (auto simp: receive_paired Let_def master_heard_def backup_heard_def become_backup_def
        own_advertisement_def paired_def GIVING_UP_def)
qed

text \<open>A node that hears a list of peers, one after the other.\<close>

fun hears_all :: "machine \<Rightarrow> machine list \<Rightarrow> instant \<Rightarrow> machine" where
  "hears_all m [] now = m"
| "hears_all m (peer # rest) now = hears_all (snd (hears m peer now)) rest now"

lemma paired_cong: "m_settings m' = m_settings m \<Longrightarrow> paired m' peer = paired m peer"
  by (simp add: paired_def)

lemma claim_of_cong: "m_settings m' = m_settings m \<Longrightarrow> claim_of m' = claim_of m"
  by (simp add: claim_of_def)

lemma hears_all_state:
  assumes "\<forall>peer \<in> set others. paired m peer \<and> own_address (m_settings peer) \<noteq> own_address (m_settings m)"
  shows "m_state (hears_all m others now) = Master \<longleftrightarrow>
    m_state m = Master \<and> (\<forall>peer \<in> set others. beats (claim_of m) (claim_of peer))"
  using assms
proof (induction others arbitrary: m)
  case (Cons peer rest)
  let ?m = "snd (hears m peer now)"
  note same = hears_setup [of m peer now]
  have "\<forall>p \<in> set rest. paired ?m p \<and> own_address (m_settings p) \<noteq> own_address (m_settings ?m)"
    using Cons.prems by (simp add: same paired_cong [OF same])
  from Cons.IH [OF this] show ?case
    using Cons.prems hears_state [of m peer now] by (auto simp: claim_of_cong [OF same])
qed simp

end
