(* ===== verification/Gateway.thy ===== *)
theory Gateway
  imports Prelude
begin

text \<open>
  \<open>gateway.rs\<close>: whether this node can still reach the way out. The watch is told the
  moment and what came back; it says whom to ask and when to lower or restore the claim.
\<close>

section \<open>Data\<close>

definition GATEWAY_INTERVAL :: duration where "GATEWAY_INTERVAL = secs 2"
definition THRESHOLD :: u32 where "THRESHOLD = 3"

datatype gateway_health = NoGateway | Unconfirmed | Reachable | Lost

fun gateway_health_name :: "gateway_health \<Rightarrow> string" where
  "gateway_health_name NoGateway = ''no_gateway''"
| "gateway_health_name Unconfirmed = ''unconfirmed''"
| "gateway_health_name Reachable = ''reachable''"
| "gateway_health_name Lost = ''lost''"

datatype effect = DemoteClaim | RestoreClaim

record watch =
  w_gateway :: "ip_addr option"
  w_interval :: duration
  w_threshold :: u32
  w_answered_once :: bool
  w_missing :: u32
  w_lowered :: bool
  w_due_at :: "instant option"

section \<open>Operations\<close>

definition new_watch :: "ip_addr option \<Rightarrow> duration \<Rightarrow> u32 \<Rightarrow> watch" where
  "new_watch gateway step threshold = \<lparr>w_gateway = gateway, w_interval = step,
     w_threshold = threshold, w_answered_once = False, w_missing = 0, w_lowered = False,
     w_due_at = None\<rparr>"

definition watch_health :: "watch \<Rightarrow> gateway_health" where
  "watch_health w =
     (if w_gateway w = None then NoGateway
      else if \<not> w_answered_once w then Unconfirmed
      else if w_lowered w then Lost
      else Reachable)"

definition watch_due :: "watch \<Rightarrow> instant \<Rightarrow> ip_addr option \<times> watch" where
  "watch_due w now = (case w_gateway w of
     None \<Rightarrow> (None, w)
   | Some gateway \<Rightarrow>
       (case w_due_at w of
          None \<Rightarrow> (Some gateway, w\<lparr>w_due_at := Some (now + w_interval w)\<rparr>)
        | Some at \<Rightarrow>
            if now \<ge> at then (Some gateway, w\<lparr>w_due_at := Some (now + w_interval w)\<rparr>)
            else (None, w)))"

definition watch_answered :: "watch \<Rightarrow> effect option \<times> watch" where
  "watch_answered w =
     (let w' = w\<lparr>w_answered_once := True, w_missing := 0\<rparr> in
      if w_lowered w' then (Some RestoreClaim, w'\<lparr>w_lowered := False\<rparr>) else (None, w'))"

definition watch_missed :: "watch \<Rightarrow> effect option \<times> watch" where
  "watch_missed w =
     (if w_gateway w = None \<or> \<not> w_answered_once w then (None, w)
      else let w' = w\<lparr>w_missing := saturating_inc (w_missing w)\<rparr> in
        if w_lowered w' \<or> w_missing w' < w_threshold w' then (None, w')
        else (Some DemoteClaim, w'\<lparr>w_lowered := True\<rparr>))"

section \<open>A run of answers\<close>

text \<open>
  Each entry is one question: answered or not. The result is every effect the watch asked
  for, in order, and the watch it ends in.
\<close>

fun watch_run :: "watch \<Rightarrow> bool list \<Rightarrow> effect list \<times> watch" where
  "watch_run w [] = ([], w)"
| "watch_run w (good # rest) =
     (case (if good then watch_answered w else watch_missed w) of (eff, w1) \<Rightarrow>
      case watch_run w1 rest of (effs, w2) \<Rightarrow>
        (case eff of None \<Rightarrow> effs | Some x \<Rightarrow> x # effs, w2))"

text \<open>
  What is always true of a watch: a claim is lowered only after the gateway answered once
  and at least a threshold of answers went missing since, and nothing is ever counted
  before the first answer.
\<close>

definition watch_inv :: "watch \<Rightarrow> bool" where
  "watch_inv w \<longleftrightarrow>
     (w_lowered w \<longrightarrow> w_gateway w \<noteq> None \<and> w_answered_once w \<and> w_threshold w \<le> w_missing w) \<and>
     (\<not> w_answered_once w \<longrightarrow> w_missing w = 0) \<and>
     (w_answered_once w \<and> \<not> w_lowered w \<longrightarrow> w_missing w = 0 \<or> w_missing w < w_threshold w \<or> w_gateway w = None)"

lemma new_watch_inv: "watch_inv (new_watch gateway step threshold)"
  by (simp add: new_watch_def watch_inv_def)

lemma answered_inv: "watch_inv (snd (watch_answered w))"
  by (simp add: watch_answered_def Let_def watch_inv_def)

lemma missed_inv: "watch_inv w \<Longrightarrow> watch_inv (snd (watch_missed w))"
  using saturating_inc_ge [of "w_missing w"]
  by (auto simp: watch_missed_def Let_def watch_inv_def not_less)

lemma due_inv: "watch_inv w \<Longrightarrow> watch_inv (snd (watch_due w now))"
  by (auto simp: watch_due_def watch_inv_def split: option.splits)

lemma watch_run_inv: "watch_inv w \<Longrightarrow> watch_inv (snd (watch_run w answers))"
proof (induction answers arbitrary: w)
  case (Cons good rest)
  let ?w = "snd (if good then watch_answered w else watch_missed w)"
  have "watch_inv ?w" using answered_inv [of w] missed_inv [OF Cons.prems] by simp
  then have "watch_inv (snd (watch_run ?w rest))" by (rule Cons.IH)
  moreover have "snd (watch_run w (good # rest)) = snd (watch_run ?w rest)"
    by (simp add: case_prod_unfold)
  ultimately show ?case by simp
qed simp

text \<open>A network that never answers never moves the claim.\<close>

lemma never_answered:
  "\<not> w_answered_once w \<Longrightarrow> watch_run w (replicate n False) = ([], w)"
  by (induction n) (simp_all add: watch_missed_def)

lemma no_gateway_silent:
  "w_gateway w = None \<Longrightarrow> \<not> w_lowered w \<Longrightarrow> fst (watch_run w answers) = []"
proof (induction answers arbitrary: w)
  case (Cons good rest)
  have "watch_missed w = (None, w)" using Cons.prems by (simp add: watch_missed_def)
  then show ?case
    using Cons by (cases good) (auto simp: watch_answered_def Let_def split: prod.splits)
qed simp

text \<open>Missing answers in a row, from a watch that heard the last question.\<close>

lemma missed_run:
  assumes "w_gateway w \<noteq> None" "w_answered_once w" "\<not> w_lowered w" "unat (w_missing w) = k"
    "k + n < unat (w_threshold w)"
  shows "\<exists>w'. watch_run w (replicate n False) = ([], w') \<and> w_gateway w' = w_gateway w \<and>
    w_answered_once w' \<and> \<not> w_lowered w' \<and> unat (w_missing w') = k + n \<and> w_threshold w' = w_threshold w"
  using assms
proof (induction n arbitrary: w k)
  case (Suc n)
  let ?w = "w\<lparr>w_missing := saturating_inc (w_missing w)\<rparr>"
  have "unat (saturating_inc (w_missing w)) = Suc k"
  proof -
    have "k < 4294967295" using Suc.prems unat_u32_less [of "w_threshold w"] by linarith
    then show ?thesis using Suc.prems by (simp add: unat_saturating_inc)
  qed
  moreover have "watch_missed w = (None, ?w)"
    using Suc.prems calculation
    by (auto simp: watch_missed_def Let_def word_less_nat_alt)
  ultimately show ?case using Suc.IH [of ?w "Suc k"] Suc.prems by (auto simp: Let_def)
qed auto

lemma watch_run_append:
  "watch_run w (xs @ ys) =
     (let (effs, w1) = watch_run w xs; (effs', w2) = watch_run w1 ys in (effs @ effs', w2))"
  by (induction xs arbitrary: w) (simp_all add: Let_def split: prod.split option.split)

lemma missed_lowered:
  "w_lowered w \<Longrightarrow> w_answered_once w \<Longrightarrow> w_gateway w \<noteq> None \<Longrightarrow>
     \<exists>w'. watch_run w (replicate n False) = ([], w') \<and> w_lowered w'"
proof (induction n arbitrary: w)
  case (Suc n)
  then show ?case
    using Suc.IH [of "w\<lparr>w_missing := saturating_inc (w_missing w)\<rparr>"]
    by (auto simp: watch_missed_def Let_def)
qed simp

text \<open>The run of misses that reaches the threshold lowers the claim once.\<close>

lemma missed_total:
  assumes "w_gateway w \<noteq> None" "w_answered_once w" "\<not> w_lowered w" "w_missing w = 0"
    "0 < unat (w_threshold w)"
  shows "\<exists>w'. watch_run w (replicate n False) = (if n < unat (w_threshold w) then [] else [DemoteClaim], w') \<and>
    (w_lowered w' \<longleftrightarrow> unat (w_threshold w) \<le> n)"
proof (cases "n < unat (w_threshold w)")
  case True
  with missed_run [OF assms(1-3), of 0 n] assms(4) show ?thesis by auto
next
  case False
  define t where "t = unat (w_threshold w) - 1"
  obtain w1 where w1: "watch_run w (replicate t False) = ([], w1)" "w_gateway w1 = w_gateway w"
    "w_answered_once w1" "\<not> w_lowered w1" "unat (w_missing w1) = t" "w_threshold w1 = w_threshold w"
    using missed_run [OF assms(1-3), of 0 t] assms(4,5) by (auto simp: t_def)
  let ?w2 = "w1\<lparr>w_missing := saturating_inc (w_missing w1), w_lowered := True\<rparr>"
  have "t < 4294967295" unfolding t_def using assms(5) unat_u32_less [of "w_threshold w"] by linarith
  then have "unat (saturating_inc (w_missing w1)) = unat (w_threshold w)"
    using w1(5) assms(5) by (simp add: unat_saturating_inc t_def)
  then have step: "watch_missed w1 = (Some DemoteClaim, ?w2)"
    using w1 assms(1) by (simp add: watch_missed_def Let_def word_less_nat_alt)
  obtain w3 where w3: "watch_run ?w2 (replicate (n - Suc t) False) = ([], w3)" "w_lowered w3"
    using missed_lowered [of ?w2 "n - Suc t"] w1 assms(1) by auto
  have "n = t + Suc (n - Suc t)" using False assms(5) by (simp add: t_def)
  then have "replicate n False = replicate t False @ False # replicate (n - Suc t) False"
    by (metis replicate_Suc replicate_add)
  with w1(1) step w3 False show ?thesis by (auto simp: watch_run_append)
qed

end
