(* ===== verification/Text.thy ===== *)
theory Text
  imports Prelude
begin

text \<open>
  The part of the standard library's text handling the code uses. A string is the list of
  its bytes in UTF-8, so a separator that is one ASCII character splits it where the code
  does; white space and digits are the ASCII ones.
\<close>

section \<open>Bytes\<close>

definition byte_of :: "char \<Rightarrow> byte" where
  "byte_of c = of_nat (of_char c)"

definition as_bytes :: "string \<Rightarrow> byte list" where
  "as_bytes s = map byte_of s"

lemma unat_byte_of [simp]: "unat (byte_of c) = of_char c"
  using nat_of_char_less_256 [of c] by (simp add: byte_of_def unat_of_nat)

lemma byte_of_inject [simp]: "byte_of a = byte_of b \<longleftrightarrow> a = b"
  by (metis char_of_char unat_byte_of)

section \<open>Splitting and numbers\<close>

definition is_space :: "char \<Rightarrow> bool" where
  "is_space c = (let n = of_char c :: nat in (9 \<le> n \<and> n \<le> 13) \<or> n = 32)"

text \<open>\<open>str::trim\<close>\<close>

definition trim :: "string \<Rightarrow> string" where
  "trim s = rev (dropWhile is_space (rev (dropWhile is_space s)))"

text \<open>\<open>str::split(c)\<close>: always at least one part.\<close>

fun split_on :: "char \<Rightarrow> string \<Rightarrow> string list" where
  "split_on sep [] = [[]]"
| "split_on sep (c # cs) =
     (if c = sep then [] # split_on sep cs
      else case split_on sep cs of p # ps \<Rightarrow> (c # p) # ps | [] \<Rightarrow> [[c]])"

definition digit_value :: "nat \<Rightarrow> char \<Rightarrow> nat option" where
  "digit_value radix c =
     (let n = of_char c :: nat;
          v = (if 48 \<le> n \<and> n \<le> 57 then Some (n - 48)
               else if 97 \<le> n \<and> n \<le> 122 then Some (n - 87)
               else if 65 \<le> n \<and> n \<le> 90 then Some (n - 55)
               else None)
      in case v of None \<Rightarrow> None | Some d \<Rightarrow> if d < radix then Some d else None)"

fun digits_value :: "nat \<Rightarrow> nat \<Rightarrow> nat \<Rightarrow> string \<Rightarrow> nat option" where
  "digits_value radix bound acc [] = Some acc"
| "digits_value radix bound acc (c # cs) =
     (case digit_value radix c of
        None \<Rightarrow> None
      | Some d \<Rightarrow>
          let acc' = acc * radix + d in
          if acc' < bound then digits_value radix bound acc' cs else None)"

text \<open>
  \<open>from_str_radix\<close> on an unsigned integer below \<open>bound\<close>: an optional plus sign, then at
  least one digit; overflow is an error.
\<close>

definition parse_radix :: "nat \<Rightarrow> nat \<Rightarrow> string \<Rightarrow> nat option" where
  "parse_radix radix bound s = (case s of
     [] \<Rightarrow> None
   | c # cs \<Rightarrow>
       if c = CHR ''+'' then (if cs = [] then None else digits_value radix bound 0 cs)
       else digits_value radix bound 0 s)"

section \<open>Cutting\<close>

text \<open>\<open>str::split_once\<close> at the first character a predicate takes.\<close>

definition split_once_by :: "(char \<Rightarrow> bool) \<Rightarrow> string \<Rightarrow> (string \<times> string) option" where
  "split_once_by at s = (case dropWhile (\<lambda>c. \<not> at c) s of
     [] \<Rightarrow> None
   | _ # rest \<Rightarrow> Some (takeWhile (\<lambda>c. \<not> at c) s, rest))"

abbreviation split_once :: "char \<Rightarrow> string \<Rightarrow> (string \<times> string) option" where
  "split_once c \<equiv> split_once_by (\<lambda>x. x = c)"

text \<open>\<open>str::strip_prefix\<close>\<close>

fun strip_prefix :: "'a list \<Rightarrow> 'a list \<Rightarrow> 'a list option" where
  "strip_prefix [] s = Some s"
| "strip_prefix (p # ps) [] = None"
| "strip_prefix (p # ps) (c # cs) = (if p = c then strip_prefix ps cs else None)"

definition ends_with :: "char \<Rightarrow> string \<Rightarrow> bool" where
  "ends_with c s \<longleftrightarrow> s \<noteq> [] \<and> last s = c"

definition starts_with :: "char \<Rightarrow> string \<Rightarrow> bool" where
  "starts_with c s \<longleftrightarrow> s \<noteq> [] \<and> hd s = c"

text \<open>\<open>String::from_utf8\<close> accepts exactly the well-formed byte sequences of UTF-8.\<close>

definition byte_in :: "nat \<Rightarrow> nat \<Rightarrow> char \<Rightarrow> bool" where
  "byte_in low high c \<longleftrightarrow> low \<le> of_char c \<and> of_char c \<le> high"

abbreviation continues :: "char \<Rightarrow> bool" where
  "continues \<equiv> byte_in 128 191"

fun utf8_valid :: "string \<Rightarrow> bool" where
  "utf8_valid [] = True"
| "utf8_valid (a # rest) =
     (if byte_in 0 127 a then utf8_valid rest
      else if byte_in 194 223 a then (case rest of b # r \<Rightarrow> continues b \<and> utf8_valid r | _ \<Rightarrow> False)
      else if byte_in 224 239 a then (case rest of b # c # r \<Rightarrow>
          (if of_char a = (224::nat) then byte_in 160 191 b
           else if of_char a = (237::nat) then byte_in 128 159 b else continues b) \<and> continues c \<and> utf8_valid r
        | _ \<Rightarrow> False)
      else if byte_in 240 244 a then (case rest of b # c # d # r \<Rightarrow>
          (if of_char a = (240::nat) then byte_in 144 191 b
           else if of_char a = (244::nat) then byte_in 128 143 b else continues b)
          \<and> continues c \<and> continues d \<and> utf8_valid r
        | _ \<Rightarrow> False)
      else False)"

text \<open>
  \<open>String::from_utf8_lossy\<close>: every longest start of a sequence that goes wrong is replaced by
  the replacement character.
\<close>

definition replacement :: string where
  "replacement = [CHR 0xEF, CHR 0xBF, CHR 0xBD]"

definition second_ok :: "char \<Rightarrow> char \<Rightarrow> bool" where
  "second_ok a b \<longleftrightarrow> (let n = of_char a :: nat in
     if n = 224 then byte_in 160 191 b else if n = 237 then byte_in 128 159 b
     else if n = 240 then byte_in 144 191 b else if n = 244 then byte_in 128 143 b else continues b)"

fun utf8_lossy :: "string \<Rightarrow> string" where
  "utf8_lossy [] = []"
| "utf8_lossy (a # rest) =
     (if byte_in 0 127 a then a # utf8_lossy rest
      else if byte_in 194 223 a then (case rest of
          b # r \<Rightarrow> if continues b then a # b # utf8_lossy r else replacement @ utf8_lossy rest
        | [] \<Rightarrow> replacement)
      else if byte_in 224 239 a then (case rest of
          b # r \<Rightarrow> if second_ok a b
            then (case r of
                c # r' \<Rightarrow> if continues c then a # b # c # utf8_lossy r' else replacement @ utf8_lossy r
              | [] \<Rightarrow> replacement)
            else replacement @ utf8_lossy rest
        | [] \<Rightarrow> replacement)
      else if byte_in 240 244 a then (case rest of
          b # r \<Rightarrow> if second_ok a b
            then (case r of
                c # r' \<Rightarrow> if continues c
                  then (case r' of
                      d # r'' \<Rightarrow> if continues d then a # b # c # d # utf8_lossy r'' else replacement @ utf8_lossy r'
                    | [] \<Rightarrow> replacement)
                  else replacement @ utf8_lossy r
              | [] \<Rightarrow> replacement)
            else replacement @ utf8_lossy rest
        | [] \<Rightarrow> replacement)
      else replacement @ utf8_lossy rest)"

declare utf8_lossy.simps(2) [simp del]

text \<open>The four kinds of a first byte exclude each other.\<close>

lemma lead_kinds:
  "byte_in 194 223 a \<Longrightarrow> \<not> byte_in 0 127 a"
  "byte_in 224 239 a \<Longrightarrow> \<not> byte_in 0 127 a \<and> \<not> byte_in 194 223 a"
  "byte_in 240 244 a \<Longrightarrow> \<not> byte_in 0 127 a \<and> \<not> byte_in 194 223 a \<and> \<not> byte_in 224 239 a"
  by (auto simp: byte_in_def)

lemma second_ok_simps:
  "byte_in 224 239 a \<Longrightarrow> second_ok a b = (if of_char a = (224::nat) then byte_in 160 191 b
     else if of_char a = (237::nat) then byte_in 128 159 b else continues b)"
  "byte_in 240 244 a \<Longrightarrow> second_ok a b = (if of_char a = (240::nat) then byte_in 144 191 b
     else if of_char a = (244::nat) then byte_in 128 143 b else continues b)"
  by (auto simp: second_ok_def byte_in_def)

lemma utf8_valid_Cons:
  "utf8_valid (a # rest) \<longleftrightarrow> byte_in 0 127 a \<and> utf8_valid rest
     \<or> byte_in 194 223 a \<and> (\<exists>b r. rest = b # r \<and> continues b \<and> utf8_valid r)
     \<or> byte_in 224 239 a \<and> (\<exists>b c r. rest = b # c # r \<and> second_ok a b \<and> continues c \<and> utf8_valid r)
     \<or> byte_in 240 244 a \<and> (\<exists>b c d r. rest = b # c # d # r \<and> second_ok a b \<and> continues c \<and> continues d \<and> utf8_valid r)"
proof -
  consider "byte_in 0 127 a" | "byte_in 194 223 a" | "byte_in 224 239 a" | "byte_in 240 244 a"
    | "\<not> byte_in 0 127 a" "\<not> byte_in 194 223 a" "\<not> byte_in 224 239 a" "\<not> byte_in 240 244 a" by blast
  then show ?thesis
  proof cases
    case 1
    then show ?thesis using lead_kinds [of a] by auto
  next
    case 2
    then show ?thesis using lead_kinds [of a] by (auto split: list.split)
  next
    case 3
    then show ?thesis using lead_kinds [of a] second_ok_simps(1) [OF 3] by (auto split: list.split)
  next
    case 4
    then show ?thesis using lead_kinds [of a] second_ok_simps(2) [OF 4] by (auto split: list.split)
  qed simp
qed

declare utf8_valid.simps(2) [simp del]

lemma utf8_lossy_valid: "utf8_valid s \<Longrightarrow> utf8_lossy s = s"
proof (induction s rule: length_induct)
  case (1 s)
  show ?case
  proof (cases s)
    case (Cons a rest)
    have IH: "utf8_valid r \<Longrightarrow> length r < length s \<Longrightarrow> utf8_lossy r = r" for r using 1(1) by blast
    from 1(2) [unfolded Cons utf8_valid_Cons] lead_kinds [of a] IH Cons show ?thesis
      by (auto simp: utf8_lossy.simps)
  qed simp
qed

lemma utf8_valid_ascii: "list_all (byte_in 0 127) s \<Longrightarrow> utf8_valid s"
  by (induction s) (simp_all add: utf8_valid_Cons)

text \<open>A string cut at an ASCII character is cut between characters.\<close>

lemma utf8_valid_cut:
  assumes "byte_in 0 127 c"
  shows "utf8_valid (xs @ c # ys) \<longleftrightarrow> utf8_valid xs \<and> utf8_valid ys"
proof (induction xs rule: length_induct)
  case (1 xs)
  have other: "\<not> continues c" "\<not> second_ok a c" for a using assms by (auto simp: byte_in_def second_ok_def)
  show ?case
  proof (cases xs)
    case Nil
    then show ?thesis using assms lead_kinds [of c] by (auto simp: utf8_valid_Cons)
  next
    case (Cons a rest)
    have IH: "length r < length xs \<Longrightarrow> utf8_valid (r @ c # ys) \<longleftrightarrow> utf8_valid r \<and> utf8_valid ys" for r using 1 by blast
    show ?thesis
      unfolding Cons append_Cons utf8_valid_Cons
      using IH [of rest] IH [of "tl rest"] IH [of "drop 2 rest"] IH [of "drop 3 rest"] other Cons
      by (cases rest rule: list.exhaust; cases "tl rest"; cases "drop 2 rest") (auto simp: Cons_eq_append_conv)
  qed
qed

text \<open>The text of bytes and \<open>str::trim_end_matches\<close>.\<close>

definition text_of :: "byte list \<Rightarrow> string" where
  "text_of bytes = map (\<lambda>b. char_of (unat b)) bytes"

lemma text_of_as_bytes [simp]: "text_of (as_bytes s) = s"
  by (simp add: text_of_def as_bytes_def comp_def)

lemma length_as_bytes [simp]: "length (as_bytes s) = length s"
  by (simp add: as_bytes_def)

definition trim_end :: "(char \<Rightarrow> bool) \<Rightarrow> string \<Rightarrow> string" where
  "trim_end p s = rev (dropWhile p (rev s))"

lemma trim_end_stop: "s = [] \<or> \<not> p (last s) \<Longrightarrow> trim_end p s = s"
  by (cases s rule: rev_cases) (simp_all add: trim_end_def)

lemma trim_end_snoc: "p x \<Longrightarrow> trim_end p (s @ [x]) = trim_end p s"
  by (simp add: trim_end_def)

lemma trim_end_prefix: "\<exists>t. s = trim_end p s @ t"
  by (metis trim_end_def rev_append rev_rev_ident takeWhile_dropWhile_id)

section \<open>Printing\<close>

text \<open>\<open>{}\<close> and \<open>{:x}\<close> of an unsigned integer.\<close>

fun in_base :: "nat \<Rightarrow> nat \<Rightarrow> string" where
  "in_base base n =
     (if n < base \<or> base < 2 then [if n < 10 then char_of (48 + n) else char_of (87 + n)]
      else in_base base (n div base) @ [let d = n mod base in if d < 10 then char_of (48 + d) else char_of (87 + d)])"

declare in_base.simps [simp del]

definition decimal :: "nat \<Rightarrow> string" where "decimal n = in_base 10 n"
definition hexadecimal :: "nat \<Rightarrow> string" where "hexadecimal n = in_base 16 n"

fun join :: "string \<Rightarrow> string list \<Rightarrow> string" where
  "join sep [] = []"
| "join sep [x] = x"
| "join sep (x # xs) = x @ sep @ join sep xs"

definition display_v4 :: "ipv4 \<Rightarrow> string" where
  "display_v4 a = join ''.'' (map (\<lambda>b. decimal (unat b)) (octets_v4 a))"

fun segments :: "byte list \<Rightarrow> nat list" where
  "segments (a # b # rest) = (unat a * 256 + unat b) # segments rest"
| "segments _ = []"

text \<open>The longest run of zero segments, the first of those as long, as start and length.\<close>

fun zero_span :: "nat \<Rightarrow> nat \<times> nat \<Rightarrow> nat \<times> nat \<Rightarrow> nat list \<Rightarrow> nat \<times> nat" where
  "zero_span i current longest [] = longest"
| "zero_span i (start, len) longest (x # xs) =
     (if x = 0 then
        let current = (if len = 0 then i else start, len + 1)
        in zero_span (i + 1) current (if snd current > snd longest then current else longest) xs
      else zero_span (i + 1) (0, 0) longest xs)"

definition display_v6 :: "ipv6 \<Rightarrow> string" where
  "display_v6 a =
     (let segs = segments (octets_v6 a); hexes = map hexadecimal segs in
      if take 6 segs = [0, 0, 0, 0, 0, 0xFFFF] then
        (case ipv4_of_octets (drop 12 (octets_v6 a)) of
           Some v4 \<Rightarrow> ''::ffff:'' @ display_v4 v4 | None \<Rightarrow> [])
      else case zero_span 0 (0, 0) (0, 0) segs of (start, len) \<Rightarrow>
        if len > 1 then join '':'' (take start hexes) @ ''::'' @ join '':'' (drop (start + len) hexes)
        else join '':'' hexes)"

fun display_ip :: "ip_addr \<Rightarrow> string" where
  "display_ip (V4 a) = display_v4 a"
| "display_ip (V6 a) = display_v6 a"

section \<open>Lemmas\<close>

lemma strip_prefix_Some: "strip_prefix p s = Some rest \<longleftrightarrow> s = p @ rest"
  by (induction p s rule: strip_prefix.induct) auto

lemma split_once_by_Some:
  "split_once_by at s = Some (before, after) \<longleftrightarrow>
     (\<exists>c. at c \<and> s = before @ c # after \<and> (\<forall>x \<in> set before. \<not> at x))"
proof
  assume "split_once_by at s = Some (before, after)"
  then obtain c where c: "dropWhile (\<lambda>c. \<not> at c) s = c # after" "before = takeWhile (\<lambda>c. \<not> at c) s"
    by (auto simp: split_once_by_def split: list.splits)
  moreover have "at c" using hd_dropWhile [of "\<lambda>c. \<not> at c" s] c(1) by simp
  moreover have "s = before @ c # after" using takeWhile_dropWhile_id [of "\<lambda>c. \<not> at c" s] c by simp
  ultimately show "\<exists>c. at c \<and> s = before @ c # after \<and> (\<forall>x \<in> set before. \<not> at x)"
    using set_takeWhileD by fastforce
next
  assume "\<exists>c. at c \<and> s = before @ c # after \<and> (\<forall>x \<in> set before. \<not> at x)"
  then show "split_once_by at s = Some (before, after)" by (auto simp: split_once_by_def)
qed

lemma split_once_by_None: "split_once_by at s = None \<longleftrightarrow> (\<forall>x \<in> set s. \<not> at x)"
  by (auto simp: split_once_by_def split: list.split) (metis dropWhile_eq_Nil_conv list.distinct(1))+

lemma split_on_nonempty [simp]: "split_on sep s \<noteq> []"
  by (induction s) (auto split: list.split)

lemma split_on_parts: "p \<in> set (split_on sep s) \<Longrightarrow> sep \<notin> set p"
  by (induction s arbitrary: p) (auto split: if_splits list.splits)

lemma split_on_clean: "sep \<notin> set s \<Longrightarrow> split_on sep s = [s]"
  by (induction s) auto

lemma split_on_append: "sep \<notin> set p \<Longrightarrow> split_on sep (p @ sep # rest) = p # split_on sep rest"
  by (induction p) auto

lemma split_on_join:
  "list_all (\<lambda>p. sep \<notin> set p) ps \<Longrightarrow> ps \<noteq> [] \<Longrightarrow> split_on sep (join [sep] ps) = ps"
  by (induction "[sep]" ps rule: join.induct) (simp_all add: split_on_clean split_on_append)

lemma join_Cons: "xs \<noteq> [] \<Longrightarrow> join sep (x # xs) = x @ sep @ join sep xs"
  by (cases xs) simp_all

lemma split_on_cases:
  obtains "sep \<notin> set s" "split_on sep s = [s]"
  | p r where "s = p @ sep # r" "sep \<notin> set p" "split_on sep s = p # split_on sep r"
proof (cases "sep \<in> set s")
  case True
  then obtain p r where "s = p @ sep # r" "sep \<notin> set p" by (meson split_list_first)
  with that(2) split_on_append show ?thesis by metis
qed (use that(1) split_on_clean in metis)

lemma join_split_on: "join [sep] (split_on sep s) = s"
proof (induction s rule: length_induct)
  case (1 s)
  show ?case
  proof (cases rule: split_on_cases [of sep s])
    case (2 p r)
    then have "join [sep] (split_on sep r) = r" using 1 by simp
    with 2 show ?thesis by (simp add: join_Cons)
  qed simp
qed

lemma split_on_valid: "byte_in 0 127 sep \<Longrightarrow> utf8_valid s \<Longrightarrow> list_all utf8_valid (split_on sep s)"
proof (induction s rule: length_induct)
  case (1 s)
  show ?case
  proof (cases rule: split_on_cases [of sep s])
    case (2 p r)
    then have "utf8_valid p" "utf8_valid r" using utf8_valid_cut [OF 1(2), of p r] 1(3) by simp_all
    with 1 2 show ?thesis by simp
  qed (use 1 in simp)
qed

lemma trim_end_valid:
  assumes "\<And>c. p c \<Longrightarrow> byte_in 0 127 c" "utf8_valid s"
  shows "utf8_valid (trim_end p s)"
proof -
  have "s = trim_end p s @ rev (takeWhile p (rev s))"
    by (metis trim_end_def rev_append rev_rev_ident takeWhile_dropWhile_id)
  moreover have "\<forall>c \<in> set (rev (takeWhile p (rev s))). p c" by (auto dest: set_takeWhileD)
  ultimately obtain t where t: "s = trim_end p s @ t" "\<forall>c \<in> set t. p c" by blast
  show ?thesis
  proof (cases t)
    case (Cons c r)
    with t assms utf8_valid_cut [of c "trim_end p s" r] show ?thesis by simp
  qed (use t assms in simp)
qed

end
