(* ===== verification/Interface.thy ===== *)
theory Interface
  imports Text
begin

text \<open>
  \<open>interface.rs\<close>: the index and the hardware address out of what the kernel publishes
  about an interface. The text is ASCII, as sysfs writes it.
\<close>

section \<open>The two readers\<close>

record interface =
  if_name :: string
  if_index :: u32
  if_mac :: mac

definition index_of :: "string \<Rightarrow> u32 option" where
  "index_of s = (case parse_radix 10 (2 ^ 32) (trim s) of
     None \<Rightarrow> None
   | Some n \<Rightarrow> if n = 0 then None else Some (of_nat n))"

fun parse_octets :: "string list \<Rightarrow> byte list option" where
  "parse_octets [] = Some []"
| "parse_octets (p # ps) = (case parse_radix 16 256 p of
     None \<Rightarrow> None
   | Some n \<Rightarrow> map_option (\<lambda>bs. of_nat n # bs) (parse_octets ps))"

text \<open>
  The loop refuses a seventh part before it reads it, and an unreadable one as it reaches
  it; both refuse the text.
\<close>

definition mac_of :: "string \<Rightarrow> mac option" where
  "mac_of s = (let parts = split_on (CHR '':'') (trim s) in
     if length parts > 6 then None
     else case parse_octets parts of
       Some [a, b, c, d, e, f] \<Rightarrow>
         if a = 0 \<and> b = 0 \<and> c = 0 \<and> d = 0 \<and> e = 0 \<and> f = 0 then None else Some (Mac a b c d e f)
     | _ \<Rightarrow> None)"

definition read_interface ::
  "string \<Rightarrow> (string, io_error) result \<Rightarrow> (string, io_error) result \<Rightarrow> (interface, io_error) result" where
  "read_interface name ifindex address =
     (case ifindex of
        Inl error \<Rightarrow> Inl error
      | Inr index_text \<Rightarrow>
          (case address of
             Inl error \<Rightarrow> Inl error
           | Inr address_text \<Rightarrow>
               (case index_of index_text of
                  None \<Rightarrow> Inl (OtherError ''ifindex is not readable'')
                | Some index \<Rightarrow>
                    (case mac_of address_text of
                       None \<Rightarrow> Inl (OtherError ''address is not readable'')
                     | Some m \<Rightarrow> Inr \<lparr>if_name = name, if_index = index, if_mac = m\<rparr>))))"

section \<open>What they accept\<close>

lemma digits_value_bound: "digits_value radix bound acc s = Some n \<Longrightarrow> acc < bound \<Longrightarrow> n < bound"
  by (induction radix bound acc s rule: digits_value.induct)
    (auto simp: Let_def split: option.splits if_splits)

lemma parse_radix_bound: "parse_radix radix bound s = Some n \<Longrightarrow> 0 < bound \<Longrightarrow> n < bound"
  unfolding parse_radix_def
  by (auto dest!: digits_value_bound simp del: digits_value.simps split: list.splits if_splits)

lemma index_of_nonzero: "index_of s = Some i \<Longrightarrow> i \<noteq> 0"
proof -
  assume "index_of s = Some i"
  then obtain n where "parse_radix 10 (2 ^ 32) (trim s) = Some n" "n \<noteq> 0" "i = of_nat n"
    by (auto simp: index_of_def split: option.splits if_splits)
  moreover from this(1) have "n < 2 ^ 32" by (rule parse_radix_bound) simp
  ultimately show "i \<noteq> 0" by (simp add: word_of_nat_eq_0_iff) (metis dvd_imp_le leD neq0_conv)
qed

lemma mac_of_nonzero: "mac_of s = Some m \<Longrightarrow> m \<noteq> Mac 0 0 0 0 0 0"
  by (auto simp: mac_of_def Let_def split: option.splits if_splits list.splits)

lemmas text_simps = trim_def is_space_def parse_radix_def digit_value_def Let_def

text \<open>The examples the module's own tests fix.\<close>

lemma index_of_examples:
  "index_of ''2\<newline>'' = Some 2" "index_of ''  17  '' = Some 17" "index_of ''0\<newline>'' = None"
  "index_of '''' = None" "index_of ''eth0'' = None" "index_of ''-1'' = None"
  by (simp_all add: index_of_def text_simps)

lemma mac_of_examples:
  "mac_of ''02:42:ac:1c:00:0b\<newline>'' = Some (Mac 0x02 0x42 0xAC 0x1C 0x00 0x0B)"
  "mac_of ''00:00:00:00:00:00'' = None" "mac_of ''02:42:ac:1c:00'' = None"
  "mac_of ''02:42:ac:1c:00:0b:0c'' = None" "mac_of ''02:42:ac:1c:00:zz'' = None" "mac_of '''' = None"
  by (simp_all add: mac_of_def text_simps)

end
