(* ===== verification/Carrier.thy ===== *)
theory Carrier
  imports Netlink Announce Interface
begin

text \<open>
  \<open>carrier.rs\<close> and the send of \<open>frame.rs\<close>: putting the virtual addresses on the
  interface, announcing them, and taking them off. The operating system is the record
  \<open>carrier_io\<close>: the netlink socket of \<open>Netlink\<close> and the packet socket frames leave by.
  The state threaded through is the netlink sequence counter and the world.
\<close>

section \<open>Data\<close>

record 'w carrier_io = "'w netlink_io" +
  fr_send :: "byte list \<Rightarrow> 'w \<Rightarrow> (nat, io_error) result \<times> 'w"

definition NOT_THERE :: int where "NOT_THERE = 99"
definition ANNOUNCEMENTS :: u32 where "ANNOUNCEMENTS = 5"
definition GAP :: duration where "GAP = millis 100"

record carried =
  carried_address :: ip_addr
  carried_prefix :: byte

record carrier =
  c_interface :: interface
  c_addresses :: "carried list"
  c_due :: "(instant \<times> u32) option"
  c_silent :: bool

section \<open>Operations\<close>

definition new_carrier :: "interface \<Rightarrow> carried list \<Rightarrow> bool \<Rightarrow> carrier" where
  "new_carrier ifc addrs silent =
     \<lparr>c_interface = ifc, c_addresses = addrs, c_due = None, c_silent = silent\<rparr>"

definition carried_as :: "carrier \<Rightarrow> carried \<Rightarrow> address" where
  "carried_as c x = \<lparr>addr_address = carried_address x, addr_prefix_length = carried_prefix x,
     addr_interface = if_index (c_interface c)\<rparr>"

definition frame_send ::
  "('w, 'x) carrier_io_scheme \<Rightarrow> byte list \<Rightarrow> 'w \<Rightarrow> (unit, io_error) result \<times> 'w" where
  "frame_send io frame w = (case fr_send io frame w of
     (Inl error, w') \<Rightarrow> (Inl error, w')
   | (Inr sent, w') \<Rightarrow>
       if sent = length frame then (Inr (), w')
       else (Inl (OtherError ''the frame left cut in half''), w'))"

fun send_frames ::
  "('w, 'x) carrier_io_scheme \<Rightarrow> byte list list \<Rightarrow> 'w \<Rightarrow> (unit, io_error) result \<times> 'w" where
  "send_frames io [] w = (Inr (), w)"
| "send_frames io (f # fs) w = (case frame_send io f w of
     (Inl error, w') \<Rightarrow> (Inl error, w')
   | (Inr _, w') \<Rightarrow> send_frames io fs w')"

text \<open>Both ARP forms for an IPv4 address, one advertisement for an IPv6 one.\<close>

definition announcement :: "mac \<Rightarrow> carried \<Rightarrow> byte list list" where
  "announcement m x = (case carried_address x of
     V4 a \<Rightarrow> [arp ArpRequest a m, arp ArpReply a m]
   | V6 a \<Rightarrow> [neighbor a m])"

definition announce_frames :: "carrier \<Rightarrow> byte list list" where
  "announce_frames c = concat (map (announcement (if_mac (c_interface c))) (c_addresses c))"

definition announce ::
  "('w, 'x) carrier_io_scheme \<Rightarrow> carrier \<Rightarrow> 'w \<Rightarrow> (unit, io_error) result \<times> 'w" where
  "announce io c w = (if c_silent c then (Inr (), w) else send_frames io (announce_frames c) w)"

text \<open>A netlink change over the carrier's own socket.\<close>

definition nl_part :: "('w, 'x) carrier_io_scheme \<Rightarrow> 'w netlink_io" where
  "nl_part io = \<lparr>nl_write = nl_write io, nl_read = nl_read io\<rparr>"

fun add_all ::
  "endian \<Rightarrow> ('w, 'x) carrier_io_scheme \<Rightarrow> carrier \<Rightarrow> carried list \<Rightarrow> u32 \<times> 'w
     \<Rightarrow> (unit, io_error) result \<times> (u32 \<times> 'w)" where
  "add_all e io c [] st = (Inr (), st)"
| "add_all e io c (x # xs) st = (case netlink_change e (nl_part io) (carried_as c x) Add st of
     (Inl error, st') \<Rightarrow> (Inl error, st')
   | (Inr _, st') \<Rightarrow> add_all e io c xs st')"

fun remove_all ::
  "endian \<Rightarrow> ('w, 'x) carrier_io_scheme \<Rightarrow> carrier \<Rightarrow> carried list \<Rightarrow> u32 \<times> 'w
     \<Rightarrow> (unit, io_error) result \<times> (u32 \<times> 'w)" where
  "remove_all e io c [] st = (Inr (), st)"
| "remove_all e io c (x # xs) st = (case netlink_change e (nl_part io) (carried_as c x) Remove st of
     (Inr _, st') \<Rightarrow> remove_all e io c xs st'
   | (Inl error, st') \<Rightarrow>
       if raw_os_error error = Some NOT_THERE then remove_all e io c xs st' else (Inl error, st'))"

definition carrier_take ::
  "endian \<Rightarrow> ('w, 'x) carrier_io_scheme \<Rightarrow> carrier \<Rightarrow> instant \<Rightarrow> u32 \<times> 'w
     \<Rightarrow> (unit, io_error) result \<times> carrier \<times> (u32 \<times> 'w)" where
  "carrier_take e io c now st = (case add_all e io c (c_addresses c) st of
     (Inl error, st1) \<Rightarrow> (Inl error, c, st1)
   | (Inr _, (counter, w)) \<Rightarrow>
       (case announce io c w of
          (Inl error, w') \<Rightarrow> (Inl error, c, (counter, w'))
        | (Inr _, w') \<Rightarrow>
            (Inr (), c\<lparr>c_due := Some (now + GAP, ANNOUNCEMENTS - 1)\<rparr>, (counter, w'))))"

definition drop_all ::
  "endian \<Rightarrow> ('w, 'x) carrier_io_scheme \<Rightarrow> carrier \<Rightarrow> u32 \<times> 'w
     \<Rightarrow> (unit, io_error) result \<times> carrier \<times> (u32 \<times> 'w)" where
  "drop_all e io c st =
     (let c' = c\<lparr>c_due := None\<rparr> in
      case remove_all e io c' (c_addresses c') st of (r, st') \<Rightarrow> (r, c', st'))"

definition carrier_tick ::
  "('w, 'x) carrier_io_scheme \<Rightarrow> carrier \<Rightarrow> instant \<Rightarrow> 'w
     \<Rightarrow> (unit, io_error) result \<times> carrier \<times> 'w" where
  "carrier_tick io c now w = (case c_due c of
     None \<Rightarrow> (Inr (), c, w)
   | Some (at, left) \<Rightarrow>
       if now < at then (Inr (), c, w)
       else (case announce io c w of
          (Inl error, w') \<Rightarrow> (Inl error, c, w')
        | (Inr _, w') \<Rightarrow>
            (Inr (), c\<lparr>c_due := (if left > 1 then Some (now + GAP, left - 1) else None)\<rparr>, w')))"

section \<open>The kernel's promise\<close>

text \<open>
  What rtnetlink documents of an address change, over a view \<open>held\<close> of the addresses the
  kernel has on each interface: a change it acknowledges is made, an address it says is
  not there is not there, a change with no acknowledgement touches at most the address it
  names, and a frame touches none.
\<close>

definition kernel_ok ::
  "endian \<Rightarrow> ('w, 'x) carrier_io_scheme \<Rightarrow> ('w \<Rightarrow> (ip_addr \<times> u32) set) \<Rightarrow> bool" where
  "kernel_ok e io held \<longleftrightarrow>
     (\<forall>a counter w r counter' w'. netlink_change e (nl_part io) a Add (counter, w) = (r, (counter', w')) \<longrightarrow>
        held w \<subseteq> held w' \<and> held w' \<subseteq> insert (addr_address a, addr_interface a) (held w) \<and>
        (r = Inr () \<longrightarrow> (addr_address a, addr_interface a) \<in> held w')) \<and>
     (\<forall>a counter w r counter' w'. netlink_change e (nl_part io) a Remove (counter, w) = (r, (counter', w')) \<longrightarrow>
        held w - {(addr_address a, addr_interface a)} \<subseteq> held w' \<and> held w' \<subseteq> held w \<and>
        (case r of
           Inr _ \<Rightarrow> (addr_address a, addr_interface a) \<notin> held w'
         | Inl error \<Rightarrow>
             raw_os_error error = Some NOT_THERE \<longrightarrow> (addr_address a, addr_interface a) \<notin> held w')) \<and>
     (\<forall>f w r w'. fr_send io f w = (r, w') \<longrightarrow> held w' = held w)"

definition on_interface :: "carrier \<Rightarrow> (ip_addr \<times> u32) set" where
  "on_interface c = (\<lambda>x. (carried_address x, if_index (c_interface c))) ` set (c_addresses c)"

lemma kernel_add:
  "kernel_ok e io held \<Longrightarrow> netlink_change e (nl_part io) a Add (counter, w) = (r, (counter', w')) \<Longrightarrow>
     held w \<subseteq> held w' \<and> held w' \<subseteq> insert (addr_address a, addr_interface a) (held w) \<and>
     (r = Inr () \<longrightarrow> (addr_address a, addr_interface a) \<in> held w')"
  unfolding kernel_ok_def by blast

lemma kernel_remove:
  "kernel_ok e io held \<Longrightarrow> netlink_change e (nl_part io) a Remove (counter, w) = (r, (counter', w')) \<Longrightarrow>
     held w - {(addr_address a, addr_interface a)} \<subseteq> held w' \<and> held w' \<subseteq> held w \<and>
     (case r of
        Inr _ \<Rightarrow> (addr_address a, addr_interface a) \<notin> held w'
      | Inl error \<Rightarrow>
          raw_os_error error = Some NOT_THERE \<longrightarrow> (addr_address a, addr_interface a) \<notin> held w')"
  unfolding kernel_ok_def by blast

lemma kernel_frame: "kernel_ok e io held \<Longrightarrow> fr_send io f w = (r, w') \<Longrightarrow> held w' = held w"
  unfolding kernel_ok_def by blast

lemma send_frames_held:
  "kernel_ok e io held \<Longrightarrow> send_frames io fs w = (r, w') \<Longrightarrow> held w' = held w"
proof (induction fs arbitrary: w)
  case (Cons f fs)
  obtain r1 w1 where one: "fr_send io f w = (r1, w1)" by fastforce
  have "held w1 = held w" using kernel_frame [OF Cons.prems(1) one] .
  with Cons one show ?case
    by (cases r1) (auto simp: frame_send_def split: if_splits)
qed simp

lemma announce_held: "kernel_ok e io held \<Longrightarrow> announce io c w = (r, w') \<Longrightarrow> held w' = held w"
  by (auto simp: announce_def split: if_splits dest: send_frames_held)

lemma add_all_held:
  assumes "kernel_ok e io held"
  shows "add_all e io c xs (counter, w) = (r, (counter', w')) \<Longrightarrow>
    held w \<subseteq> held w' \<and> held w' \<subseteq> held w \<union> (\<lambda>x. (carried_address x, if_index (c_interface c))) ` set xs \<and>
    (r = Inr () \<longrightarrow> (\<lambda>x. (carried_address x, if_index (c_interface c))) ` set xs \<subseteq> held w')"
proof (induction xs arbitrary: counter w)
  case (Cons x xs)
  obtain r1 counter1 w1 where
    one: "netlink_change e (nl_part io) (carried_as c x) Add (counter, w) = (r1, (counter1, w1))"
    using prod_cases3 by blast
  note held1 = kernel_add [OF assms one]
  show ?case
  proof (cases r1)
    case (Inl error)
    with Cons.prems one have "r = Inl error" "w' = w1" by simp_all
    with held1 Inl show ?thesis by (auto simp: carried_as_def)
  next
    case (Inr u)
    with Cons.prems one have "add_all e io c xs (counter1, w1) = (r, (counter', w'))" by simp
    from Cons.IH [OF this] held1 Inr show ?thesis by (auto simp: carried_as_def)
  qed
qed simp

lemma remove_all_held:
  assumes "kernel_ok e io held"
  shows "remove_all e io c xs (counter, w) = (r, (counter', w')) \<Longrightarrow> held w' \<subseteq> held w \<and>
    (r = Inr () \<longrightarrow> (\<lambda>x. (carried_address x, if_index (c_interface c))) ` set xs \<inter> held w' = {})"
proof (induction xs arbitrary: counter w)
  case (Cons x xs)
  obtain r1 counter1 w1 where
    one: "netlink_change e (nl_part io) (carried_as c x) Remove (counter, w) = (r1, (counter1, w1))"
    using prod_cases3 by blast
  note held1 = kernel_remove [OF assms one]
  consider (stops) error where "r1 = Inl error" "raw_os_error error \<noteq> Some NOT_THERE"
    | (goes_on) "remove_all e io c xs (counter1, w1) = (r, (counter', w'))"
      "held w1 \<subseteq> held w" "(carried_address x, if_index (c_interface c)) \<notin> held w1"
    using Cons.prems one held1
    by (cases r1) (auto simp: carried_as_def split: if_splits)
  then show ?case
  proof cases
    case stops
    with Cons.prems one have "r = Inl error" "w' = w1" by simp_all
    with held1 stops show ?thesis by auto
  next
    case goes_on
    from Cons.IH [OF goes_on(1)] goes_on(2,3) show ?thesis by auto
  qed
qed simp

lemma carrier_take_held:
  assumes "kernel_ok e io held" "carrier_take e io c now (counter, w) = (r, c', (counter', w'))"
  shows "held w \<subseteq> held w'" "held w' \<subseteq> held w \<union> on_interface c" "r = Inr () \<Longrightarrow> on_interface c \<subseteq> held w'"
    "c_addresses c' = c_addresses c" "c_interface c' = c_interface c"
  using assms(2) add_all_held [OF assms(1), of c "c_addresses c" counter w] announce_held [OF assms(1)]
  unfolding carrier_take_def on_interface_def
  by (auto split: prod.splits sum.splits)

lemma drop_all_held:
  assumes "kernel_ok e io held" "drop_all e io c (counter, w) = (r, c', (counter', w'))"
  shows "held w' \<subseteq> held w" "r = Inr () \<Longrightarrow> on_interface c \<inter> held w' = {}"
    "c' = c\<lparr>c_due := None\<rparr>"
  using assms(2) remove_all_held [OF assms(1), of "c\<lparr>c_due := None\<rparr>" "c_addresses c" counter w]
  unfolding drop_all_def on_interface_def Let_def
  by (auto split: prod.splits)

section \<open>The number of announcements\<close>

lemma send_frames_all_go:
  assumes "\<And>f w. fst (fr_send io f w) = Inr (length f)"
  shows "fst (send_frames io fs w) = Inr ()"
proof (induction fs arbitrary: w)
  case (Cons f fs)
  obtain w' where "fr_send io f w = (Inr (length f), w')"
    using assms [of f w] by (metis prod.collapse)
  then show ?case using Cons.IH by (simp add: frame_send_def)
qed simp

lemma announce_goes:
  "(\<And>f w. fst (fr_send io f w) = Inr (length f)) \<Longrightarrow> fst (announce io c w) = Inr ()"
  by (simp add: announce_def send_frames_all_go)

lemma carrier_tick_due:
  assumes "\<And>f w. fst (fr_send io f w) = Inr (length f)" "c_due c = Some (at, left)" "at \<le> now"
  shows "carrier_tick io c now w =
    (Inr (), c\<lparr>c_due := (if left > 1 then Some (now + GAP, left - 1) else None)\<rparr>, snd (announce io c w))"
  using announce_goes [OF assms(1), of c w] assms(2,3)
  by (auto simp: carrier_tick_def split: prod.splits)

end
