(* ===== verification/Router.thy ===== *)
theory Router
  imports Vrrp_State Gateway Carrier Echo
begin

text \<open>
  \<open>router.rs\<close>, with the receiving half of \<open>socket.rs\<close>: one virtual router, driven a tick
  at a time. It owns the state machine, the carrier and the gateway check, and does what
  the machine asks. The operating system is the record \<open>router_io\<close>, which extends the
  carrier's with the transport, the ICMP socket, the wall clock and the output stream.
  Records written to the stream are modelled by their fields, without their time stamps.
\<close>

section \<open>Data\<close>

datatype said =
    SayWatching gateway_health "ip_addr option"
  | SaySocketUnreadable io_error
  | SayAnnouncementFailed io_error
  | SayDemoted string byte
  | SayRestored string byte
  | SayNotSent ipv4 io_error
  | SayTransition nat byte transition ipv4
  | SayTaken "carried list"
  | SayTakeFailed io_error "carried list"
  | SayDropped "carried list"
  | SayDropFailed io_error "carried list"
  | SayConfirmed gateway_health ipv4
  | SayIcmpUnreadable io_error
  | SayBack gateway_health byte
  | SayNotAsked io_error
  | SayMissed gateway_health u32
  | SayLost gateway_health byte

record 'w router_io = "'w carrier_io" +
  tr_send :: "ipv4 \<Rightarrow> byte list \<Rightarrow> 'w \<Rightarrow> (unit, io_error) result \<times> 'w"
  tr_receive :: "'w \<Rightarrow> ((ipv4 \<times> byte list) option, io_error) result \<times> 'w"
  icmp_send :: "ipv4 \<Rightarrow> byte list \<Rightarrow> 'w \<Rightarrow> (nat, io_error) result \<times> 'w"
  icmp_read :: "'w \<Rightarrow> (byte list, io_error) result \<times> 'w"
  wall_clock :: "'w \<Rightarrow> nat \<times> 'w"
  os_say :: "said \<Rightarrow> 'w \<Rightarrow> 'w"

record plan =
  p_settings :: settings
  p_interface :: string
  p_carried :: "carried list"
  p_silent :: bool
  p_watch_gateway :: bool
  p_check_interval :: duration
  p_threshold :: u32
  p_demoted_priority :: byte

record check =
  ck_watch :: watch
  ck_pinger :: pinger
  ck_waiting :: "u16 option"

record router =
  r_machine :: machine
  r_carrier :: carrier
  r_checker :: "check option"
  r_peers :: "ipv4 list"
  r_demoted_priority :: byte
  r_heard_at :: nat

section \<open>socket.rs: receiving\<close>

definition SOCKET_MOST :: nat where "SOCKET_MOST = 1500"

definition raw_receive ::
  "(byte list, io_error) result \<Rightarrow> ((ipv4 \<times> byte list) option, io_error) result" where
  "raw_receive got = (case got of
     Inl WouldBlock \<Rightarrow> Inr None
   | Inl error \<Rightarrow> Inl error
   | Inr datagram \<Rightarrow>
       let packet = take SOCKET_MOST datagram in
       (case sender packet of
          None \<Rightarrow> Inr None
        | Some origin \<Rightarrow> Inr (map_option (\<lambda>body. (origin, body)) (payload packet))))"

section \<open>Doing what the machine asked\<close>

fun advertise_to ::
  "'w router_io \<Rightarrow> ipv4 \<Rightarrow> advertisement \<Rightarrow> ipv4 list \<Rightarrow> 'w \<Rightarrow> 'w" where
  "advertise_to io self adv [] w = w"
| "advertise_to io self adv (peer # rest) w =
     (case tr_send io peer (encode adv self peer) w of
        (Inr _, w') \<Rightarrow> advertise_to io self adv rest w'
      | (Inl error, w') \<Rightarrow> advertise_to io self adv rest (os_say io (SayNotSent peer error) w'))"

definition action_weight :: "action \<Rightarrow> nat" where
  "action_weight a = (if a = TakeAddresses then 4 else 1)"

lemma renounce_weight:
  "sum_list (map action_weight (fst (renounce m now))) \<le> 2"
  by (simp add: renounce_def become_backup_def Let_def action_weight_def)

text \<open>
  The queue of \<open>carry_out\<close>. A refused take makes the machine stand down, which adds to the
  queue; standing down never asks to take again, so the queue empties.
\<close>

function carry_out ::
  "endian \<Rightarrow> 'w router_io \<Rightarrow> instant \<Rightarrow> router \<Rightarrow> action list \<Rightarrow> u32 \<times> 'w \<Rightarrow> router \<times> (u32 \<times> 'w)" where
  "carry_out e io now r [] st = (r, st)"
| "carry_out e io now r (Advertise adv # queue) st =
     (case st of (n, w) \<Rightarrow>
        carry_out e io now r queue
          (n, advertise_to io (own_address (m_settings (r_machine r))) adv (r_peers r) w))"
| "carry_out e io now r (Record t # queue) st =
     (case st of (n, w) \<Rightarrow>
        carry_out e io now r queue
          (n, os_say io (SayTransition (r_heard_at r) (vrid (m_settings (r_machine r))) t
                (own_address (m_settings (r_machine r)))) w))"
| "carry_out e io now r (TakeAddresses # queue) st =
     (case carrier_take e io (r_carrier r) now st of
        (Inr _, c, (n, w)) \<Rightarrow>
          carry_out e io now (r\<lparr>r_carrier := c\<rparr>) queue (n, os_say io (SayTaken (c_addresses c)) w)
      | (Inl error, c, (n, w)) \<Rightarrow>
          carry_out e io now
            (r\<lparr>r_carrier := c, r_machine := snd (renounce (r_machine r) now)\<rparr>)
            (queue @ fst (renounce (r_machine r) now))
            (n, os_say io (SayTakeFailed error (c_addresses c)) w))"
| "carry_out e io now r (DropAddresses # queue) st =
     (case drop_all e io (r_carrier r) st of
        (Inr _, c, (n, w)) \<Rightarrow>
          carry_out e io now (r\<lparr>r_carrier := c\<rparr>) queue (n, os_say io (SayDropped (c_addresses c)) w)
      | (Inl error, c, (n, w)) \<Rightarrow>
          carry_out e io now (r\<lparr>r_carrier := c\<rparr>) queue
            (n, os_say io (SayDropFailed error (c_addresses c)) w))"
  by pat_completeness auto
termination
  by (relation "measure (\<lambda>(e, io, now, r, queue, st). sum_list (map action_weight queue))")
    (simp_all add: action_weight_def le_less_trans [OF renounce_weight])

section \<open>Starting\<close>

definition carrier_open ::
  "string \<Rightarrow> (string, io_error) result \<Rightarrow> (string, io_error) result \<Rightarrow> (unit, io_error) result
     \<Rightarrow> (unit, io_error) result \<Rightarrow> carried list \<Rightarrow> bool \<Rightarrow> (carrier, io_error) result" where
  "carrier_open name ifindex address frames netlink addrs silent =
     (case read_interface name ifindex address of
        Inl error \<Rightarrow> Inl error
      | Inr ifc \<Rightarrow>
          (case frames of
             Inl error \<Rightarrow> Inl error
           | Inr _ \<Rightarrow>
               (case netlink of
                  Inl error \<Rightarrow> Inl error
                | Inr _ \<Rightarrow> Inr (new_carrier ifc addrs silent))))"

definition open_check ::
  "endian \<Rightarrow> 'w router_io \<Rightarrow> (interface, io_error) result \<Rightarrow> (unit, io_error) result
     \<Rightarrow> (u32, io_error) result \<Rightarrow> duration \<Rightarrow> u32 \<Rightarrow> u32 \<times> 'w
     \<Rightarrow> ((check, io_error) result \<times> (u32 \<times> 'w)) option" where
  "open_check e io ifc netlink pid step threshold st =
     (let index = (case ifc of Inl _ \<Rightarrow> None | Inr found \<Rightarrow> Some (if_index found)) in
      case netlink of
        Inl error \<Rightarrow> Some (Inl error, st)
      | Inr _ \<Rightarrow>
          (case netlink_gateway e (nl_part io) FamilyV4 index st of
             None \<Rightarrow> None
           | Some (Inl error, st') \<Rightarrow> Some (Inl error, st')
           | Some (Inr gw, st') \<Rightarrow>
               (case pid of
                  Inl error \<Rightarrow> Some (Inl error, st')
                | Inr process_id \<Rightarrow>
                    Some (Inr \<lparr>ck_watch = new_watch gw step threshold,
                               ck_pinger = open_pinger process_id, ck_waiting = None\<rparr>, st'))))"

text \<open>
  Starting once the carrier and the check are open; \<open>opened\<close> and \<open>checked\<close> are what
  opening them gave, and the check is opened only when the plan watches the gateway.
\<close>

definition router_start ::
  "endian \<Rightarrow> 'w router_io \<Rightarrow> plan \<Rightarrow> (carrier, io_error) result \<Rightarrow> (check, io_error) result
     \<Rightarrow> instant \<Rightarrow> u32 \<times> 'w \<Rightarrow> (router, io_error) result \<times> (u32 \<times> 'w)" where
  "router_start e io plan opened checked now st =
     (case opened of
        Inl error \<Rightarrow> (Inl error, st)
      | Inr c \<Rightarrow>
          (case (if p_watch_gateway plan then map_sum id Some checked else Inr None) of
             Inl error \<Rightarrow> (Inl error, st)
           | Inr checker \<Rightarrow>
               let st1 = (case checker of
                     None \<Rightarrow> st
                   | Some ck \<Rightarrow> apsnd (os_say io (SayWatching (watch_health (ck_watch ck))
                         (w_gateway (ck_watch ck)))) st);
                   (acts, m) = start (new_machine (p_settings plan)) now;
                   r = \<lparr>r_machine = m, r_carrier = c, r_checker = checker,
                        r_peers = peers (p_settings plan),
                        r_demoted_priority = p_demoted_priority plan, r_heard_at = 0\<rparr>;
                   (r', st2) = carry_out e io now r acts st1
               in (Inr r', st2)))"

section \<open>One round\<close>

text \<open>
  The receive loop runs until the transport says nothing is waiting, or fails. A
  transport that never does would hold the loop for ever; then there is no result.
\<close>

partial_function (option) receive_loop ::
  "endian \<Rightarrow> 'w router_io \<Rightarrow> instant \<Rightarrow> router \<Rightarrow> u32 \<times> 'w \<Rightarrow> (router \<times> (u32 \<times> 'w)) option" where
  "receive_loop e io now r st =
     (case st of (n, w) \<Rightarrow>
      case tr_receive io w of (got, w1) \<Rightarrow>
      case got of
        Inl error \<Rightarrow> Some (r, (n, os_say io (SaySocketUnreadable error) w1))
      | Inr None \<Rightarrow> Some (r, (n, w1))
      | Inr (Some (src, bytes)) \<Rightarrow>
          let (acts, m) = receive (r_machine r) src bytes now;
              (r1, w2) =
                (if m_accepted m > m_accepted (r_machine r)
                 then (case wall_clock io w1 of (ms, w2) \<Rightarrow> (r\<lparr>r_machine := m, r_heard_at := ms\<rparr>, w2))
                 else (r\<lparr>r_machine := m\<rparr>, w1));
              (r2, st2) = carry_out e io now r1 acts (n, w2)
          in receive_loop e io now r2 st2)"

partial_function (option) answer_loop ::
  "'w router_io \<Rightarrow> check \<Rightarrow> bool \<Rightarrow> 'w \<Rightarrow> (check \<times> bool \<times> 'w) option" where
  "answer_loop io ck restored w =
     (case icmp_read io w of (got, w1) \<Rightarrow>
      case collect (ck_pinger ck) got of
        Inl error \<Rightarrow> Some (ck, restored, os_say io (SayIcmpUnreadable error) w1)
      | Inr None \<Rightarrow> Some (ck, restored, w1)
      | Inr (Some (src, e)) \<Rightarrow>
          if w_gateway (ck_watch ck) \<noteq> Some (V4 src) \<or> ck_waiting ck \<noteq> Some (echo_sequence e)
          then answer_loop io ck restored w1
          else
            let before = watch_health (ck_watch ck);
                (eff, wat) = watch_answered (ck_watch ck);
                ck' = ck\<lparr>ck_waiting := None, ck_watch := wat\<rparr>;
                w2 = (if before = Unconfirmed
                      then os_say io (SayConfirmed (watch_health wat) src) w1 else w1)
            in answer_loop io ck' (restored \<or> eff = Some RestoreClaim) w2)"

text \<open>One question nobody answered.\<close>

definition note_missed ::
  "'w router_io \<Rightarrow> instant \<Rightarrow> router \<Rightarrow> 'w \<Rightarrow> action list \<times> router \<times> 'w" where
  "note_missed io now r w = (case r_checker r of
     None \<Rightarrow> ([], r, w)
   | Some ck \<Rightarrow>
       let (eff, wat) = watch_missed (ck_watch ck);
           r1 = r\<lparr>r_checker := Some (ck\<lparr>ck_watch := wat\<rparr>)\<rparr>;
           w1 = os_say io (SayMissed (watch_health wat) (w_missing wat)) w
       in if eff \<noteq> Some DemoteClaim then ([], r1, w1)
          else
            let w2 = os_say io (SayLost Lost (r_demoted_priority r)) w1;
                (acts, m) = demote (r_machine r1) (r_demoted_priority r) now
            in (acts, r1\<lparr>r_machine := m\<rparr>, w2))"

text \<open>Asking, once the answers have been read and a question is due.\<close>

definition ask_gateway ::
  "'w router_io \<Rightarrow> instant \<Rightarrow> router \<Rightarrow> check \<Rightarrow> 'w \<Rightarrow> action list \<times> router \<times> 'w" where
  "ask_gateway io now r ck w =
     (case watch_due (ck_watch ck) now of
        (None, wat) \<Rightarrow> ([], r\<lparr>r_checker := Some (ck\<lparr>ck_watch := wat\<rparr>)\<rparr>, w)
      | (Some gateway, wat) \<Rightarrow>
          let r1 = r\<lparr>r_checker := Some (ck\<lparr>ck_watch := wat, ck_waiting := None\<rparr>)\<rparr>;
              (acts1, r2, w1) = (if ck_waiting ck \<noteq> None then note_missed io now r1 w else ([], r1, w))
          in (case gateway of
                V6 _ \<Rightarrow> (acts1, r2, w1)
              | V4 gw \<Rightarrow>
                  (case r_checker r2 of
                     None \<Rightarrow> (acts1, r2, w1)
                   | Some ck2 \<Rightarrow>
                       (case icmp_send io gw (question (ck_pinger ck2)) w1 of (sent, w2) \<Rightarrow>
                        case ask (ck_pinger ck2) sent of
                          (ping, Inr seq) \<Rightarrow>
                            (acts1, r2\<lparr>r_checker := Some (ck2\<lparr>ck_pinger := ping, ck_waiting := Some seq\<rparr>)\<rparr>, w2)
                        | (ping, Inl error) \<Rightarrow>
                            (case note_missed io now (r2\<lparr>r_checker := Some (ck2\<lparr>ck_pinger := ping\<rparr>)\<rparr>)
                                    (os_say io (SayNotAsked error) w2) of
                               (acts2, r3, w3) \<Rightarrow> (acts1 @ acts2, r3, w3))))))"

definition check_gateway ::
  "'w router_io \<Rightarrow> instant \<Rightarrow> router \<Rightarrow> 'w \<Rightarrow> (action list \<times> router \<times> 'w) option" where
  "check_gateway io now r w = (case r_checker r of
     None \<Rightarrow> Some ([], r, w)
   | Some ck \<Rightarrow>
       (case answer_loop io ck False w of
          None \<Rightarrow> None
        | Some (ck1, restored, w1) \<Rightarrow>
            let (acts0, m, w2) =
                  (if restored
                   then (let w2 = os_say io (SayBack Reachable (m_configured (r_machine r))) w1;
                             (acts0, m) = restore (r_machine r) now
                         in (acts0, m, w2))
                   else ([], r_machine r, w1));
                (acts1, r1, w3) = ask_gateway io now (r\<lparr>r_machine := m, r_checker := Some ck1\<rparr>) ck1 w2
            in Some (acts0 @ acts1, r1, w3)))"

definition router_tick ::
  "endian \<Rightarrow> 'w router_io \<Rightarrow> instant \<Rightarrow> router \<Rightarrow> u32 \<times> 'w \<Rightarrow> (router \<times> (u32 \<times> 'w)) option" where
  "router_tick e io now r st =
     (case receive_loop e io now r st of
        None \<Rightarrow> None
      | Some (r1, st1) \<Rightarrow>
          let (acts, m) = tick (r_machine r1) now;
              (r2, (n2, w2)) = carry_out e io now (r1\<lparr>r_machine := m\<rparr>) acts st1
          in case (if r_checker r2 = None then Some ([], r2, w2) else check_gateway io now r2 w2) of
               None \<Rightarrow> None
             | Some (acts3, r3, w3) \<Rightarrow>
                 let (r4, (n4, w4)) = carry_out e io now r3 acts3 (n2, w3) in
                 (case carrier_tick io (r_carrier r4) now w4 of
                    (Inr _, c, w5) \<Rightarrow> Some (r4\<lparr>r_carrier := c\<rparr>, (n4, w5))
                  | (Inl error, c, w5) \<Rightarrow>
                      Some (r4\<lparr>r_carrier := c\<rparr>, (n4, os_say io (SayAnnouncementFailed error) w5))))"

section \<open>Requests from outside\<close>

definition router_demote ::
  "endian \<Rightarrow> 'w router_io \<Rightarrow> string \<Rightarrow> instant \<Rightarrow> router \<Rightarrow> u32 \<times> 'w \<Rightarrow> router \<times> (u32 \<times> 'w)" where
  "router_demote e io why now r st =
     (if priority (m_settings (r_machine r)) = r_demoted_priority r then (r, st)
      else case st of (n, w) \<Rightarrow>
        let w1 = os_say io (SayDemoted why (r_demoted_priority r)) w;
            (acts, m) = demote (r_machine r) (r_demoted_priority r) now
        in carry_out e io now (r\<lparr>r_machine := m\<rparr>) acts (n, w1))"

definition router_restore ::
  "endian \<Rightarrow> 'w router_io \<Rightarrow> string \<Rightarrow> instant \<Rightarrow> router \<Rightarrow> u32 \<times> 'w \<Rightarrow> router \<times> (u32 \<times> 'w)" where
  "router_restore e io why now r st =
     (if priority (m_settings (r_machine r)) = m_configured (r_machine r) then (r, st)
      else case st of (n, w) \<Rightarrow>
        let w1 = os_say io (SayRestored why (m_configured (r_machine r))) w;
            (acts, m) = restore (r_machine r) now
        in carry_out e io now (r\<lparr>r_machine := m\<rparr>) acts (n, w1))"

definition router_stop ::
  "endian \<Rightarrow> 'w router_io \<Rightarrow> instant \<Rightarrow> router \<Rightarrow> u32 \<times> 'w \<Rightarrow> router \<times> (u32 \<times> 'w)" where
  "router_stop e io now r st =
     (let (acts, m) = stop (r_machine r) now in carry_out e io now (r\<lparr>r_machine := m\<rparr>) acts st)"

text \<open>The two characters JSON refuses inside a string, escaped one after the other.\<close>

definition replace_char :: "char \<Rightarrow> string \<Rightarrow> string \<Rightarrow> string" where
  "replace_char c by_text s = concat (map (\<lambda>x. if x = c then by_text else [x]) s)"

definition escaped :: "string \<Rightarrow> string" where
  "escaped s = replace_char (CHR 0x22) [CHR 0x5C, CHR 0x22] (replace_char (CHR 0x5C) [CHR 0x5C, CHR 0x5C] s)"

section \<open>A master carries its addresses\<close>

text \<open>
  What the rest of the operating system does to the addresses on the interfaces: nothing.
\<close>

definition quiet_ok :: "'w router_io \<Rightarrow> ('w \<Rightarrow> (ip_addr \<times> u32) set) \<Rightarrow> bool" where
  "quiet_ok io held \<longleftrightarrow>
     (\<forall>peer bytes w. held (snd (tr_send io peer bytes w)) = held w) \<and>
     (\<forall>w. held (snd (tr_receive io w)) = held w) \<and>
     (\<forall>peer bytes w. held (snd (icmp_send io peer bytes w)) = held w) \<and>
     (\<forall>w. held (snd (icmp_read io w)) = held w) \<and>
     (\<forall>w. held (snd (wall_clock io w)) = held w) \<and>
     (\<forall>what w. held (os_say io what w) = held w)"

definition os_ok :: "endian \<Rightarrow> 'w router_io \<Rightarrow> ('w \<Rightarrow> (ip_addr \<times> u32) set) \<Rightarrow> bool" where
  "os_ok e io held \<longleftrightarrow> kernel_ok e io held \<and> quiet_ok io held"

text \<open>The node that holds the role carries every address it answers for.\<close>

definition role_ok :: "('w \<Rightarrow> (ip_addr \<times> u32) set) \<Rightarrow> router \<Rightarrow> 'w \<Rightarrow> bool" where
  "role_ok held r w \<longleftrightarrow>
     (m_state (r_machine r) = Master \<longrightarrow> on_interface (r_carrier r) \<subseteq> held w)"

text \<open>What is left to do ends with the addresses carried, if the node is master.\<close>

definition queue_ok :: "('w \<Rightarrow> (ip_addr \<times> u32) set) \<Rightarrow> router \<Rightarrow> action list \<Rightarrow> 'w \<Rightarrow> bool" where
  "queue_ok held r queue w \<longleftrightarrow>
     (m_state (r_machine r) = Master \<longrightarrow> carries (on_interface (r_carrier r) \<subseteq> held w) queue)"

lemma carries_mono: "carries False queue \<Longrightarrow> carries held queue"
proof (induction queue)
  case (Cons a queue)
  then show ?case by (cases a) simp_all
qed simp

lemma queue_ok_Nil [simp]: "queue_ok held r [] w = role_ok held r w"
  by (simp add: queue_ok_def role_ok_def)

lemma quiet_simps:
  assumes "os_ok e io held"
  shows "held (os_say io what w) = held w" "held (snd (tr_send io peer bytes w)) = held w"
    "held (snd (tr_receive io w)) = held w" "held (snd (icmp_send io peer bytes w)) = held w"
    "held (snd (icmp_read io w)) = held w" "held (snd (wall_clock io w)) = held w"
  using assms by (simp_all add: os_ok_def quiet_ok_def)

lemma os_ok_kernel: "os_ok e io held \<Longrightarrow> kernel_ok e io held"
  by (simp add: os_ok_def)

lemma advertise_to_held:
  assumes "os_ok e io held"
  shows "held (advertise_to io self adv ps w) = held w"
proof (induction ps arbitrary: w)
  case (Cons peer ps)
  show ?case
  proof (cases "tr_send io peer (encode adv self peer) w")
    case (Pair r w')
    then have "held w' = held w" using quiet_simps(2) [OF assms] by (metis snd_conv)
    with Pair Cons show ?thesis by (cases r) (simp_all add: quiet_simps [OF assms])
  qed
qed simp

lemma renounce_state: "m_state (snd (renounce m now)) \<noteq> Master"
  by (simp add: renounce_def become_backup_def Let_def)

abbreviation weight :: "action list \<Rightarrow> nat" where
  "weight queue \<equiv> sum_list (map action_weight queue)"

text \<open>
  One turn of the queue: what remains is lighter, and still ends with the addresses
  carried if the node is master.
\<close>

lemma take_turn:
  assumes os: "os_ok e io held" and ok: "queue_ok held r (TakeAddresses # rest) w"
  obtains r1 rest1 n1 w1 where
    "carry_out e io now r (TakeAddresses # rest) (n, w) = carry_out e io now r1 rest1 (n1, w1)"
    "queue_ok held r1 rest1 w1" "weight rest1 < weight (TakeAddresses # rest)"
proof -
  obtain res c n1 w1 where taken: "carrier_take e io (r_carrier r) now (n, w) = (res, c, (n1, w1))"
    using prod_cases4 by blast
  note held1 = carrier_take_held [OF os_ok_kernel [OF os] taken]
  have same: "on_interface c = on_interface (r_carrier r)" by (simp add: on_interface_def held1)
  show ?thesis
  proof (cases res)
    case (Inl error)
    with taken show ?thesis
      using renounce_weight [of "r_machine r" now]
      by (intro that [of "r\<lparr>r_carrier := c, r_machine := snd (renounce (r_machine r) now)\<rparr>"
            "rest @ fst (renounce (r_machine r) now)" n1 "os_say io (SayTakeFailed error (c_addresses c)) w1"])
        (simp_all add: queue_ok_def renounce_state action_weight_def)
  next
    case (Inr u)
    with held1 have "on_interface (r_carrier r) \<subseteq> held w1" by simp
    with Inr taken ok show ?thesis
      by (intro that [of "r\<lparr>r_carrier := c\<rparr>" rest n1 "os_say io (SayTaken (c_addresses c)) w1"])
        (simp_all add: queue_ok_def same quiet_simps [OF os] action_weight_def)
  qed
qed

lemma drop_turn:
  assumes os: "os_ok e io held" and ok: "queue_ok held r (DropAddresses # rest) w"
  obtains r1 n1 w1 where
    "carry_out e io now r (DropAddresses # rest) (n, w) = carry_out e io now r1 rest (n1, w1)"
    "queue_ok held r1 rest w1"
proof -
  obtain res c n1 w1 where drop: "drop_all e io (r_carrier r) (n, w) = (res, c, (n1, w1))"
    using prod_cases4 by blast
  from drop_all_held(3) [OF os_ok_kernel [OF os] drop]
  have "on_interface c = on_interface (r_carrier r)" by (simp add: on_interface_def)
  with ok have "queue_ok held (r\<lparr>r_carrier := c\<rparr>) rest w2" for w2
    by (auto simp: queue_ok_def intro: carries_mono)
  with drop show ?thesis by (cases res) (auto intro: that)
qed

lemma queue_turn:
  assumes os: "os_ok e io held" and ok: "queue_ok held r (a # rest) w"
  obtains r1 rest1 n1 w1 where
    "carry_out e io now r (a # rest) (n, w) = carry_out e io now r1 rest1 (n1, w1)"
    "queue_ok held r1 rest1 w1" "weight rest1 < weight (a # rest)"
proof (cases a)
  case (Advertise adv)
  with ok show ?thesis
    by (intro that [of r rest n "advertise_to io (own_address (m_settings (r_machine r))) adv (r_peers r) w"])
      (simp_all add: queue_ok_def action_weight_def advertise_to_held [OF os])
next
  case (Record t)
  with ok show ?thesis
    by (intro that [of r rest n "os_say io (SayTransition (r_heard_at r) (vrid (m_settings (r_machine r))) t
          (own_address (m_settings (r_machine r)))) w"])
      (simp_all add: queue_ok_def action_weight_def quiet_simps [OF os])
next
  case TakeAddresses
  show ?thesis by (rule take_turn [OF os ok [unfolded TakeAddresses], where now = now and n = n])
      (rule that [unfolded TakeAddresses])
next
  case DropAddresses
  obtain r1 n1 w1 where
    "carry_out e io now r (DropAddresses # rest) (n, w) = carry_out e io now r1 rest (n1, w1)"
    "queue_ok held r1 rest w1"
    by (rule drop_turn [OF os ok [unfolded DropAddresses], where now = now and n = n])
  then show ?thesis by (intro that [of r1 rest n1 w1]) (simp_all add: DropAddresses action_weight_def)
qed

lemma carry_out_role:
  assumes "os_ok e io held"
  shows "queue_ok held r queue w \<Longrightarrow> carry_out e io now r queue (n, w) = (r', (n', w')) \<Longrightarrow>
    role_ok held r' w'"
proof (induction "weight queue" arbitrary: r queue n w rule: less_induct)
  case less
  show ?case
  proof (cases queue)
    case Nil
    with less.prems show ?thesis by simp
  next
    case (Cons a rest)
    obtain r1 rest1 n1 w1 where
      "carry_out e io now r (a # rest) (n, w) = carry_out e io now r1 rest1 (n1, w1)"
      "queue_ok held r1 rest1 w1" "weight rest1 < weight (a # rest)"
      using queue_turn [OF assms] less.prems(1) Cons by blast
    with less.hyps [of rest1 r1 w1 n1] less.prems(2) Cons show ?thesis by simp
  qed
qed

end
