(* ===== verification/Wire_Properties.thy ===== *)
theory Wire_Properties
  imports Packet Echo Announce Netlink Router
begin

text \<open>
  What the VRRP crate puts on the wire and reads from it: advertisements, echo questions,
  announcements, netlink messages, and the datagrams its raw sockets hand on. Each property
  has a witness at concrete packets where it has hypotheses.
\<close>

definition sample_adv :: advertisement where
  "sample_adv = \<lparr>adv_vrid = 7, adv_priority = 100, adv_interval = 5000,
     adv_addresses = [Ipv4 10 0 0 100]\<rparr>"

section \<open>Advertisements\<close>

text \<open>
  C8: An advertisement of fewer than 256 addresses, written for one source and destination
  and read with the same two, comes back as it was, with the interval clamped to the
  twelve bits the field has.
\<close>

theorem packet_roundtrip:
  assumes "length (adv_addresses adv) < 256"
  shows "decode (encode adv src dst) src dst = Inr (adv\<lparr>adv_interval := clamp_interval (adv_interval adv)\<rparr>)"
  by (rule decode_encode_clamped [OF assms])

theorem packet_roundtrip_witness:
  "decode (encode sample_adv (Ipv4 10 0 0 1) (Ipv4 10 0 0 2)) (Ipv4 10 0 0 1) (Ipv4 10 0 0 2) =
     Inr (sample_adv\<lparr>adv_interval := 0x0FFF\<rparr>)"
  using packet_roundtrip [of sample_adv "Ipv4 10 0 0 1" "Ipv4 10 0 0 2"]
  by (simp add: sample_adv_def clamp_interval_def)

text \<open>
  One damaged 16-bit word is noticed. When a packet was read without complaint and one
  aligned pair of its bytes is replaced by another value, the result is refused, unless the
  two values are the two ways ones' complement writes zero.
\<close>

lemma packet_damage_refused:
  assumes "decode bytes src dst = Inr adv" "even i" "Suc i < length bytes"
    and "u16_from_be a b \<noteq> u16_from_be (bytes ! i) (bytes ! Suc i)"
    and "{u16_from_be a b, u16_from_be (bytes ! i) (bytes ! Suc i)} \<noteq> {0, 0xFFFF}"
  shows "\<exists>why. decode (bytes[i := a, Suc i := b]) src dst = Inl why"
proof (cases "decode (bytes[i := a, Suc i := b]) src dst")
  case (Inr adv')
  then have "checksum_packet (bytes[i := a, Suc i := b]) src dst = 0" by (simp add: decode_Inr)
  moreover have "checksum_packet bytes src dst = 0" using assms(1) by (simp add: decode_Inr)
  ultimately show ?thesis
    using packet_ck.one_pair_noticed [OF decode_length [OF assms(1)] assms(2,3)] assms(4,5) by blast
qed simp

text \<open>
  The destination takes part in the checksum only as its ones' complement sum. A packet
  accepted for one destination is accepted for another exactly when the two addresses have
  the same sum, and then with the same contents.
\<close>

lemma packet_other_destination:
  assumes "decode bytes src dst = Inr adv"
  shows "decode bytes src dst' = Inr adv \<longleftrightarrow> address_sum dst mod 65535 = address_sum dst' mod 65535"
  using checksum_other_destination [OF decode_length [OF assms], of src dst dst'] assms
  by (auto simp: decode_Inr)

section \<open>Echo and announcements\<close>

text \<open>
  The answer another machine sends to a question of the gateway check, inside any IPv4
  header, is collected with its sender and its number by the process that asked, and by no
  process with another identifier.
\<close>

lemma echo_answer_collected:
  assumes "unat first = 64 + words" "5 \<le> words" "words < 16" "length hs = 11"
    and "length rest = 4 * words - 16" "length body \<le> 1400"
  shows "collect p (Inr (first # hs @ octets_v4 src @ rest @ sealed_message 0 ident seq body)) =
    Inr (if ident = ping_identifier p then Some (src, \<lparr>echo_identifier = ident, echo_sequence = seq\<rparr>) else None)"
proof -
  let ?d = "first # hs @ octets_v4 src @ rest @ sealed_message 0 ident seq body"
  have "length ?d \<le> PING_MOST" using assms by (cases src) (simp add: PING_MOST_def)
  then have "take PING_MOST ?d = ?d" by simp
  moreover have "reply (sealed_message 0 ident seq body) = Some \<lparr>echo_identifier = ident, echo_sequence = seq\<rparr>"
    using assms(6) by (intro reply_sealed) simp
  ultimately show ?thesis
    using header_split [OF assms(1-5), of src "sealed_message 0 ident seq body"]
    by (simp add: collect_def Let_def del: take_all_iff)
qed

text \<open>
  The IPv6 announcement is one frame to every node: an Ethernet header from the
  interface's own address, an IPv6 header with hop limit 255 from the virtual address, and
  a neighbour advertisement whose checksum verifies.
\<close>

lemma neighbor_well_formed:
  "length (neighbor a m) = 86 \<and> take 6 (drop 6 (neighbor a m)) = octets_mac m \<and>
   take 4 (drop 18 (neighbor a m)) = [0, 32, 58, 255] \<and> take 16 (drop 22 (neighbor a m)) = octets_v6 a \<and>
   checksum_icmpv6 (drop 54 (neighbor a m)) a ALL_NODES = 0"
  using neighbor_fields [of a m] neighbor_message_sum [of a m] by simp

section \<open>Netlink\<close>

text \<open>
  What the kernel would list is what was asked for. The messages that add addresses,
  one after the other in one buffer, are read back as exactly those addresses with their
  interfaces, in order, on a machine of either byte order.
\<close>

lemma netlink_addresses_roundtrip:
  "addresses e (concat (map (\<lambda>(what, seq). change e what Add seq) asked)) =
     map (\<lambda>(what, seq). (addr_address what, addr_interface what)) asked"
proof -
  have "list_all (wf_message e) (map (\<lambda>(what, seq). change e what Add seq) asked)"
    by (auto simp: list_all_iff change_wf)
  from messages_concat [OF this] show ?thesis
    by (induction asked)
      (auto simp: addresses_def List.map_filter_simps message_address_change messages_concat
        list_all_iff change_wf case_prod_unfold)
qed

text \<open>
  The walk over a netlink buffer stays inside it. Whatever the bytes and whatever the
  lengths they claim, every message it returns has a whole header and is a part of the
  buffer.
\<close>

lemma netlink_walk_in_bounds:
  assumes "m \<in> set (messages e bytes)"
  shows "16 \<le> length m \<and> (\<exists>k. k + length m \<le> length bytes \<and> m = take (length m) (drop k bytes))"
  using assms unfolding messages_def by (rule messages_from_sound)

text \<open>
  The gateway is the cheapest default route of the whole dump. When the kernel delivers
  its dump in any number of reads and only the last one ends it, the question returns, and
  with the cheapest of the default routes found in all of them together.
\<close>

lemma netlink_gateway_complete:
  assumes "netlink_say io (list_routes e fam n) w = (Inr (), w1)"
    and "delivers io w1 (rs @ [final]) w2" "\<not> list_ex (finished e) rs" "finished e final"
  shows "netlink_gateway e io fam interface (n, w) =
    Some (Inr (cheapest (concat (map (defaults e) (rs @ [final]))) interface), (n + 1, w2))"
  using assms(1) dump_loop_delivers [OF assms(2-4), of "defaults e" "[]"]
  by (simp add: netlink_gateway_def next_sequence_def)

text \<open>A kernel that answers with the reads it was given, one after the other.\<close>

definition told_io :: "byte list list netlink_io" where
  "told_io = \<lparr>nl_write = (\<lambda>b w. (Inr (length b), w)),
     nl_read = (\<lambda>w. case w of [] \<Rightarrow> (Inl WouldBlock, []) | r # rs \<Rightarrow> (Inr r, rs))\<rparr>"

definition done_message :: "byte list" where
  "done_message = u32_to_ne Little 16 @ u16_to_ne Little NLMSG_DONE @ u16_to_ne Little 0
     @ u32_to_ne Little 1 @ u32_to_ne Little 0"

lemma done_message_finished: "finished Little done_message"
proof -
  have "wf_message Little done_message"
    unfolding wf_message_def done_message_def
    by (simp add: u32_at_0 length_u16_to_ne length_u32_to_ne)
  then have "messages Little (concat [done_message]) = [done_message]" by (intro messages_concat) simp
  moreover have "u16_at Little done_message 4 = NLMSG_DONE"
    unfolding done_message_def by (rule u16_at_append) (simp add: length_u32_to_ne)
  ultimately show ?thesis by (simp add: finished_def)
qed

end
