(* ===== verification/Vrrp_Properties.thy ===== *)
theory Vrrp_Properties
  imports Vrrp_State Gateway Router
begin

text \<open>
  What makes the VRRP state machine, the gateway watch and the receiving socket correct:
  who ends up with the role, when, and what a packet or a silence can do to a node. The
  sample settings below serve the witnesses.
\<close>

definition sample_settings :: "byte \<Rightarrow> byte \<Rightarrow> settings" where
  "sample_settings host prio = \<lparr>vrid = 7, priority = prio, interval = secs 1, preempt = True,
     own_address = Ipv4 10 0 0 host, virtual_addresses = [Ipv4 10 0 0 100],
     peers = [Ipv4 10 0 0 1, Ipv4 10 0 0 2, Ipv4 10 0 0 3]\<rparr>"

definition sample_master :: "byte \<Rightarrow> byte \<Rightarrow> machine" where
  "sample_master host prio = snd (become_master (new_machine (sample_settings host prio)) 0 Started)"

definition sample_backup :: "byte \<Rightarrow> byte \<Rightarrow> machine" where
  "sample_backup host prio = snd (become_backup (new_machine (sample_settings host prio)) 0 Started)"

lemmas sample_simps = sample_master_def sample_backup_def sample_settings_def become_master_def
  become_backup_def new_machine_def Let_def

section \<open>Who holds the role\<close>

text \<open>
  C1: One master remains. When several nodes of one virtual router all hold the role, list
  each other as peers and each hears an advertisement of every other, exactly one of them
  still holds it, whatever order each heard the others in.
\<close>

theorem one_master_remains:
  assumes "nodes \<noteq> []" "distinct (map (\<lambda>m. own_address (m_settings m)) nodes)"
    and "\<forall>m \<in> set nodes. m_state m = Master"
    and "\<forall>m \<in> set nodes. \<forall>peer \<in> set nodes. peer \<noteq> m \<longrightarrow> paired m peer"
    and "\<forall>m \<in> set nodes. set (heard m) = set nodes - {m}"
  shows "\<exists>!m. m \<in> set nodes \<and> m_state (hears_all m (heard m) now) = Master"
proof -
  have inj: "inj_on (\<lambda>m. own_address (m_settings m)) (set nodes)" using assms(2) by (simp add: distinct_map)
  then have inj': "inj_on claim_of (set nodes)" by (auto simp: inj_on_def claim_of_def)
  have keeps: "m_state (hears_all m (heard m) now) = Master \<longleftrightarrow>
      (\<forall>peer \<in> set nodes. peer \<noteq> m \<longrightarrow> beats (claim_of m) (claim_of peer))" if "m \<in> set nodes" for m
  proof -
    have heard: "set (heard m) = set nodes - {m}" and master: "m_state m = Master" using assms(3,5) that by auto
    have "\<forall>peer \<in> set (heard m). paired m peer \<and> own_address (m_settings peer) \<noteq> own_address (m_settings m)"
      using that assms(4) inj by (auto simp: heard inj_on_def)
    from hears_all_state [OF this, of now] show ?thesis by (auto simp: heard master)
  qed
  have "\<exists>!c. c \<in> claim_of ` set nodes \<and> (\<forall>d \<in> claim_of ` set nodes. d \<noteq> c \<longrightarrow> beats c d)"
    using assms(1) by (intro claims.strongest_unique) simp_all
  then obtain c where c: "c \<in> claim_of ` set nodes \<and> (\<forall>d \<in> claim_of ` set nodes. d \<noteq> c \<longrightarrow> beats c d)"
    and only: "\<forall>c'. c' \<in> claim_of ` set nodes \<and> (\<forall>d \<in> claim_of ` set nodes. d \<noteq> c' \<longrightarrow> beats c' d) \<longrightarrow> c' = c"
    by (elim ex1E) (rule that)
  from c obtain m where m: "m \<in> set nodes" "c = claim_of m" by auto
  show ?thesis
  proof (rule ex1I [of _ m])
    show "m \<in> set nodes \<and> m_state (hears_all m (heard m) now) = Master"
      using m c keeps inj' by (auto simp: inj_on_def)
  next
    fix m'
    assume "m' \<in> set nodes \<and> m_state (hears_all m' (heard m') now) = Master"
    then have m': "m' \<in> set nodes" "\<forall>d \<in> claim_of ` set nodes. d \<noteq> claim_of m' \<longrightarrow> beats (claim_of m') d"
      using keeps [of m'] by auto
    then have "claim_of m' = c" using only by blast
    then show "m' = m" using m m'(1) inj' by (auto simp: inj_on_def)
  qed
qed

theorem one_master_remains_witness:
  "\<exists>!m. m \<in> set [sample_master 1 100, sample_master 2 100, sample_master 3 90] \<and>
     m_state (hears_all m (filter (\<lambda>x. x \<noteq> m) [sample_master 1 100, sample_master 2 100, sample_master 3 90]) 5) = Master"
  by (rule one_master_remains) (auto simp: sample_simps paired_def)

text \<open>
  C2: The addresses follow the role. Whatever was left on the interface before, after a
  start and any sequence of ticks, packets, stops, demotions and restorations the actions
  the machine asked for leave the addresses carried exactly when it is master, and every
  advertisement it asked for leaves while they are.
\<close>

theorem addresses_follow_role:
  "case run m (Start now # evs) of (acts, m') \<Rightarrow>
     carries held acts = (m_state m' = Master) \<and> speaks_for held acts"
proof -
  obtain acts1 m1 where one: "start m now = (acts1, m1)" by fastforce
  obtain acts2 m2 where two: "run m1 evs = (acts2, m2)" by fastforce
  from start_carries [OF one, of held] run_carries [OF two] one two show ?thesis
    by (simp add: carries_role_def carries_append speaks_for_append)
qed

text \<open>
  Which timers run is decided by the state alone, and no event changes the settings a
  machine was built with, apart from the priority, which it can always return to.
\<close>

lemma reachable_machine:
  assumes "reachable s m"
  shows "timers_inv m \<and> m_configured m = priority s \<and> (m_settings m)\<lparr>priority := 0\<rparr> = s\<lparr>priority := 0\<rparr>"
  using reachable_timers [OF assms] reachable_setup [OF assms] by simp

section \<open>When it moves\<close>

text \<open>
  C6: The strongest backup claims first. When two backups with the same interval hear the
  master give the role up at one moment, the one with the higher priority is due strictly
  earlier, and every backup is due within one interval.
\<close>

theorem strongest_backup_first:
  assumes "m_state m = Backup" "m_state m' = Backup" "paired m peer" "paired m' peer"
    and "interval (m_settings m') = interval (m_settings m)"
    and "256 \<le> interval (m_settings m)" "interval (m_settings m) < 2 ^ 64"
    and "priority (m_settings m) < priority (m_settings m')"
  defines "gone \<equiv> (\<lambda>x. encode (own_advertisement peer GIVING_UP) (own_address (m_settings peer))
    (own_address (m_settings x)))"
  shows "\<exists>early late.
    m_claim_at (snd (receive m' (own_address (m_settings peer)) (gone m') now)) = Some early \<and>
    m_claim_at (snd (receive m (own_address (m_settings peer)) (gone m) now)) = Some late \<and>
    early < late \<and> late \<le> now + interval (m_settings m)"
proof -
  have heard: "m_claim_at (snd (receive x (own_address (m_settings peer)) (gone x) now)) =
      Some (now + skew_time (m_settings x))" if "m_state x = Backup" "paired x peer" for x
  proof -
    have "read_advertisement x (own_address (m_settings peer)) (gone x) =
        Some (own_advertisement peer GIVING_UP)"
      using that(2) unfolding gone_def
      by (intro read_encoded) (simp_all add: own_advertisement_def interval_centiseconds_le paired_def)
    with that show ?thesis
      by (simp add: receive_def judge_def paired_def own_advertisement_def backup_heard_def GIVING_UP_def
          Let_def)
  qed
  have "skew_time (m_settings m') < skew_time (m_settings m)"
    using assms(5-8) by (intro skew_time_order) simp_all
  moreover have "skew_time (m_settings m) \<le> interval (m_settings m)"
    using assms(7) by (rule skew_time_exact(2))
  ultimately show ?thesis using heard [OF assms(1,3)] heard [OF assms(2,4)] by simp
qed

theorem strongest_backup_first_witness:
  "\<exists>early late.
     m_claim_at (snd (receive (sample_backup 2 200) (Ipv4 10 0 0 1)
       (encode (own_advertisement (sample_master 1 250) GIVING_UP) (Ipv4 10 0 0 1) (Ipv4 10 0 0 2)) 9)) = Some early \<and>
     m_claim_at (snd (receive (sample_backup 3 100) (Ipv4 10 0 0 1)
       (encode (own_advertisement (sample_master 1 250) GIVING_UP) (Ipv4 10 0 0 1) (Ipv4 10 0 0 3)) 9)) = Some late \<and>
     early < late \<and> late \<le> 9 + secs 1"
proof -
  have eqs: "own_address (m_settings (sample_master 1 250)) = Ipv4 10 0 0 1"
    "own_address (m_settings (sample_backup 2 200)) = Ipv4 10 0 0 2"
    "own_address (m_settings (sample_backup 3 100)) = Ipv4 10 0 0 3"
    "interval (m_settings (sample_backup 3 100)) = secs 1"
    by (simp_all add: sample_simps)
  show ?thesis
    using strongest_backup_first [of "sample_backup 3 100" "sample_backup 2 200" "sample_master 1 250" 9]
    unfolding eqs by (simp add: sample_simps paired_def secs_def)
qed

text \<open>
  C7: A silent master is replaced. A backup that hears nothing takes the role at the first
  tick that is at least three intervals and its skew after it last heard, and at no earlier
  tick.
\<close>

theorem silent_master_replaced:
  assumes "m_state m = Backup" "interval (m_settings m) < 2 ^ 62"
    and "m_claim_at m = Some (heard + master_down_interval (m_settings m))"
  shows "m_state (snd (tick m now)) = Master \<longleftrightarrow>
    heard + 3 * interval (m_settings m) + skew_time (m_settings m) \<le> now"
  using assms master_down_exact [OF assms(2)]
  by (simp add: tick_def due_def become_master_def Let_def add.assoc)

theorem silent_master_replaced_witness:
  "m_state (snd (tick (sample_backup 2 0) (secs 4))) = Master"
proof -
  have "m_state (snd (tick (sample_backup 2 0) (secs 4))) = Master \<longleftrightarrow>
      0 + 3 * interval (m_settings (sample_backup 2 0)) + skew_time (m_settings (sample_backup 2 0)) \<le> secs 4"
    by (rule silent_master_replaced) (simp_all add: sample_simps secs_def)
  then show ?thesis by (simp add: sample_simps secs_def skew_time_def)
qed



section \<open>The gateway\<close>

text \<open>
  The claim moves once, and only after the gateway was seen to answer. Misses before
  the first answer are not counted; after it the claim comes down at exactly the threshold
  of misses in a row, is not lowered again however long the silence lasts, and goes back up
  with the next answer.
\<close>

lemma gateway_moves_claim_once:
  assumes "threshold \<noteq> 0"
  shows "fst (watch_run (new_watch (Some gw) step threshold)
      (replicate early False @ True # replicate missed False @ [True])) =
    (if missed < unat threshold then [] else [DemoteClaim, RestoreClaim])"
proof -
  let ?w = "new_watch (Some gw) step threshold" and ?w1 = "(new_watch (Some gw) step threshold)\<lparr>w_answered_once := True\<rparr>"
  have first: "watch_run ?w (replicate early False @ [True]) = ([], ?w1)"
    using never_answered [of ?w early] by (simp add: watch_run_append new_watch_def watch_answered_def Let_def)
  obtain w2 where w2: "watch_run ?w1 (replicate missed False) = (if missed < unat threshold then [] else [DemoteClaim], w2)"
    "w_lowered w2 \<longleftrightarrow> unat threshold \<le> missed"
    using missed_total [of ?w1 missed] assms by (auto simp: new_watch_def unat_gt_0)
  have "watch_run ?w ((replicate early False @ [True]) @ replicate missed False @ [True]) =
      (if missed < unat threshold then [] else [DemoteClaim, RestoreClaim], snd (watch_answered w2))"
    unfolding watch_run_append [of ?w "replicate early False @ [True]"] watch_run_append [of ?w1 "replicate missed False"]
      first prod.case Let_def w2(1)
    using w2(2) by (simp add: watch_answered_def Let_def)
  then show ?thesis by simp
qed

end
