(* ===== verification/Router_Role.thy ===== *)
theory Router_Role
  imports Router
begin

text \<open>
  The role and the addresses, over whole rounds of \<open>router.rs\<close>: every operation of the
  router ends with the addresses on the interface whenever the node ends as master, and a
  round ends whenever the sockets run dry.
\<close>

section \<open>The queue and the machine\<close>

lemma queue_ok_cong:
  assumes "queue_ok held r queue w" "m_state (r_machine r') = m_state (r_machine r)"
    "on_interface (r_carrier r') = on_interface (r_carrier r)" "held w' = held w"
  shows "queue_ok held r' queue w'"
  using assms by (simp add: queue_ok_def)

lemma queue_step:
  assumes "queue_ok held r queue w" "apply_event (r_machine r) ev = (acts, m')"
  shows "queue_ok held (r\<lparr>r_machine := m'\<rparr>) (queue @ acts) w"
proof -
  have "carries (m_state (r_machine r) = Master) acts = (m_state m' = Master)"
    using apply_event_carries [OF assms(2)] by (simp add: carries_role_def)
  with assms(1) show ?thesis
    by (cases "m_state (r_machine r) = Master")
      (auto simp: queue_ok_def carries_append intro: carries_mono)
qed

lemma queue_start:
  "role_ok held r w \<Longrightarrow> apply_event (r_machine r) ev = (acts, m') \<Longrightarrow>
     queue_ok held (r\<lparr>r_machine := m'\<rparr>) acts w"
  using queue_step [of held r "[]" w ev acts m'] by simp

lemma carry_out_event:
  assumes "os_ok e io held" "role_ok held r w" "apply_event (r_machine r) ev = (acts, m')"
    "carry_out e io now (r\<lparr>r_machine := m'\<rparr>) acts (n, w) = (r', (n', w'))"
  shows "role_ok held r' w'"
  using carry_out_role [OF assms(1) queue_start [OF assms(2,3)] assms(4)] .

section \<open>Requests from outside\<close>

lemma router_demote_role:
  assumes "os_ok e io held" "role_ok held r w"
    "router_demote e io why now r (n, w) = (r', (n', w'))"
  shows "role_ok held r' w'"
proof (cases "priority (m_settings (r_machine r)) = r_demoted_priority r")
  case False
  obtain acts m where d: "demote (r_machine r) (r_demoted_priority r) now = (acts, m)" by fastforce
  have "role_ok held r (os_say io (SayDemoted why (r_demoted_priority r)) w)"
    using assms(2) by (simp add: role_ok_def quiet_simps [OF assms(1)])
  from carry_out_event [OF assms(1) this, of "Demote (r_demoted_priority r) now"] show ?thesis
    using d False assms(3) by (simp add: router_demote_def Let_def)
qed (use assms in \<open>simp add: router_demote_def\<close>)

lemma router_restore_role:
  assumes "os_ok e io held" "role_ok held r w"
    "router_restore e io why now r (n, w) = (r', (n', w'))"
  shows "role_ok held r' w'"
proof (cases "priority (m_settings (r_machine r)) = m_configured (r_machine r)")
  case False
  obtain acts m where d: "restore (r_machine r) now = (acts, m)" by fastforce
  have "role_ok held r (os_say io (SayRestored why (m_configured (r_machine r))) w)"
    using assms(2) by (simp add: role_ok_def quiet_simps [OF assms(1)])
  from carry_out_event [OF assms(1) this, of "Restore now"] show ?thesis
    using d False assms(3) by (simp add: router_restore_def Let_def)
qed (use assms in \<open>simp add: router_restore_def\<close>)

lemma router_stop_role:
  assumes "os_ok e io held" "role_ok held r w" "router_stop e io now r (n, w) = (r', (n', w'))"
  shows "role_ok held r' w'"
  using carry_out_event [OF assms(1,2), of "Stop now"] assms(3)
  by (auto simp: router_stop_def split: prod.splits)

lemma router_start_role:
  assumes "os_ok e io held" "router_start e io plan opened checked now (n, w) = (Inr r', (n', w'))"
  shows "role_ok held r' w'"
proof -
  obtain acts m where s: "start (new_machine (p_settings plan)) now = (acts, m)" by fastforce
  from assms(2) s obtain c checker n1 w1 where
    "carry_out e io now \<lparr>r_machine = m, r_carrier = c, r_checker = checker,
        r_peers = peers (p_settings plan), r_demoted_priority = p_demoted_priority plan,
        r_heard_at = 0\<rparr> acts (n1, w1) = (r', (n', w'))"
    by (auto simp: router_start_def Let_def split: sum.splits prod.splits option.splits if_splits)
  moreover have "queue_ok held \<lparr>r_machine = m, r_carrier = c, r_checker = checker,
        r_peers = peers (p_settings plan), r_demoted_priority = p_demoted_priority plan,
        r_heard_at = 0\<rparr> acts w1"
    using start_carries [OF s] by (simp add: queue_ok_def carries_role_def)
  ultimately show ?thesis using carry_out_role [OF assms(1)] by blast
qed

section \<open>One round\<close>

text \<open>One datagram of the receive loop, from the machine's answer to the queue's end.\<close>

lemma heard_turn:
  assumes "os_ok e io held" "role_ok held r w" "tr_receive io w = (got, w1)"
    "receive (r_machine r) src bytes now = (acts, m)"
    "m_state (r_machine r1) = m_state m" "r_carrier r1 = r_carrier r" "held w2 = held w1"
    "carry_out e io now r1 acts (n, w2) = (r2, (n3, w3))"
  shows "role_ok held r2 w3"
proof -
  have "queue_ok held (r\<lparr>r_machine := m\<rparr>) acts w"
    using queue_start [OF assms(2), of "Receive src bytes now"] assms(4) by simp
  moreover have "held w1 = held w" using quiet_simps(3) [OF assms(1), of w] assms(3) by simp
  ultimately have "queue_ok held r1 acts w2" using assms(5-7) by (simp add: queue_ok_def)
  then show ?thesis using carry_out_role [OF assms(1)] assms(8) by blast
qed

lemma got_cases:
  obtains (failed) error where "got = Inl error" | (dry) "got = Inr None"
  | (heard) src bytes where "got = Inr (Some (src, bytes))"
proof (cases got)
  case (Inr maybe)
  then show ?thesis using dry heard by (cases maybe) auto
qed (use failed in blast)

lemma receive_loop_role:
  "receive_loop e io now r st = Some y \<Longrightarrow> os_ok e io held \<Longrightarrow> role_ok held r (snd st) \<Longrightarrow>
     role_ok held (fst y) (snd (snd y))"
proof (induction rule: receive_loop.raw_induct [rotated, consumes 1, case_names step])
  case (step loop e io now r st y)
  obtain n w where st: "st = (n, w)" by fastforce
  obtain got w1 where got: "tr_receive io w = (got, w1)" by fastforce
  have held1: "held w1 = held w" using quiet_simps(3) [OF step(3), of w] got by simp
  show ?case
  proof (cases got rule: got_cases)
    case (failed error)
    have "y = (r, n, os_say io (SaySocketUnreadable error) w1)"
      using step(2) unfolding st prod.case got failed sum.case by (rule option.inject [THEN iffD1, symmetric])
    then have "fst y = r" "held (snd (snd y)) = held w" by (simp_all add: quiet_simps(1) [OF step(3)] held1)
    with step(4) show ?thesis by (simp add: role_ok_def st)
  next
    case dry
    have "y = (r, n, w1)"
      using step(2) unfolding st prod.case got dry sum.case option.case
      by (rule option.inject [THEN iffD1, symmetric])
    then have "fst y = r" "held (snd (snd y)) = held w" by (simp_all add: held1)
    with step(4) show ?thesis by (simp add: role_ok_def st)
  next
    case (heard src bytes)
    obtain acts m where rec: "receive (r_machine r) src bytes now = (acts, m)" by fastforce
    obtain r1 w2 where r1: "(if m_accepted m > m_accepted (r_machine r)
        then (case wall_clock io w1 of (ms, w2) \<Rightarrow> (r\<lparr>r_machine := m, r_heard_at := ms\<rparr>, w2))
        else (r\<lparr>r_machine := m\<rparr>, w1)) = (r1, w2)" by fastforce
    obtain r2 n3 w3 where out: "carry_out e io now r1 acts (n, w2) = (r2, (n3, w3))"
      using prod_cases3 by blast
    have "held w2 = held w1" "m_state (r_machine r1) = m_state m" "r_carrier r1 = r_carrier r"
      using r1 quiet_simps(6) [OF step(3), of w1]
      by (auto split: if_splits prod.splits)
    then have "role_ok held r2 w3"
      using heard_turn [OF step(3) _ got rec] out step(4) by (simp add: st)
    moreover have "loop e io now r2 (n3, w3) = Some y"
      using step(2) unfolding st prod.case got heard sum.case option.case Let_def rec r1 out .
    ultimately show ?thesis using step(1) step(3) by simp
  qed
qed

section \<open>The gateway check\<close>

lemma answer_loop_held:
  "answer_loop io ck restored w = Some y \<Longrightarrow> os_ok e io held \<Longrightarrow> held (snd (snd y)) = held w"
proof (induction rule: answer_loop.raw_induct [rotated, consumes 1, case_names step])
  case (step loop io ck restored w y)
  obtain raw w1 where raw: "icmp_read io w = (raw, w1)" by fastforce
  have held1: "held w1 = held w" using quiet_simps(5) [OF step(3), of w] raw by simp
  obtain got where got: "collect (ck_pinger ck) raw = got" by simp
  show ?case
  proof (cases got rule: got_cases)
    case (failed error)
    have "y = (ck, restored, os_say io (SayIcmpUnreadable error) w1)"
      using step(2) unfolding prod.case raw got failed sum.case
      by (rule option.inject [THEN iffD1, symmetric])
    then show ?thesis by (simp add: quiet_simps(1) [OF step(3)] held1)
  next
    case dry
    have "y = (ck, restored, w1)"
      using step(2) unfolding prod.case raw got dry sum.case option.case
      by (rule option.inject [THEN iffD1, symmetric])
    then show ?thesis by (simp add: held1)
  next
    case (heard src reply)
    have "\<exists>ck' restored' w'. loop io ck' restored' w' = Some y \<and> held w' = held w1"
      using step(2) unfolding prod.case raw got heard sum.case option.case Let_def
      by (auto split: if_splits prod.splits) (metis quiet_simps(1) [OF step(3)])
    with step(1,3) held1 show ?thesis by metis
  qed
qed

lemma note_missed_queue:
  assumes "os_ok e io held" "queue_ok held r queue w" "note_missed io now r w = (acts, r', w')"
  shows "queue_ok held r' (queue @ acts) w'"
proof (cases "r_checker r")
  case None
  with assms show ?thesis by (simp add: note_missed_def)
next
  case (Some ck)
  obtain eff wat where miss: "watch_missed (ck_watch ck) = (eff, wat)" by fastforce
  obtain acts' m where dem: "demote (r_machine r) (r_demoted_priority r) now = (acts', m)" by fastforce
  have "queue_ok held (r\<lparr>r_machine := m\<rparr>) (queue @ acts') w"
    using queue_step [OF assms(2), of "Demote (r_demoted_priority r) now"] dem by simp
  with assms(2,3) Some miss dem show ?thesis
    by (auto simp: note_missed_def Let_def queue_ok_def quiet_simps [OF assms(1)] split: if_splits)
qed

lemma not_asked_queue:
  assumes os: "os_ok e io held" and ok: "queue_ok held r queue w" and same: "held w2 = held w"
  shows "queue_ok held (r\<lparr>r_checker := ck'\<rparr>) queue w2"
    and "note_missed io now (r\<lparr>r_checker := ck'\<rparr>) (os_say io what w2) = (acts, r', w') \<Longrightarrow>
      queue_ok held r' (queue @ acts) w'"
proof -
  show "queue_ok held (r\<lparr>r_checker := ck'\<rparr>) queue w2" using ok same by (simp add: queue_ok_def)
  have "queue_ok held (r\<lparr>r_checker := ck'\<rparr>) queue (os_say io what w2)"
    using ok same by (simp add: queue_ok_def quiet_simps(1) [OF os])
  from note_missed_queue [OF os this]
  show "note_missed io now (r\<lparr>r_checker := ck'\<rparr>) (os_say io what w2) = (acts, r', w') \<Longrightarrow>
      queue_ok held r' (queue @ acts) w'" .
qed

lemma ask_gateway_queue:
  assumes os: "os_ok e io held" and ok: "queue_ok held r queue w"
    and asked: "ask_gateway io now r ck w = (acts, r', w')"
  shows "queue_ok held r' (queue @ acts) w'"
proof (cases "watch_due (ck_watch ck) now")
  case (Pair gw wat)
  show ?thesis
  proof (cases gw)
    case None
    with Pair asked ok show ?thesis by (auto simp: ask_gateway_def queue_ok_def)
  next
    case (Some gateway)
    let ?r1 = "r\<lparr>r_checker := Some (ck\<lparr>ck_watch := wat, ck_waiting := None\<rparr>)\<rparr>"
    obtain acts1 r2 w1 where first: "(if ck_waiting ck \<noteq> None then note_missed io now ?r1 w
        else ([], ?r1, w)) = (acts1, r2, w1)" using prod_cases3 by blast
    have "queue_ok held ?r1 queue w" using ok by (simp add: queue_ok_def)
    then have q2: "queue_ok held r2 (queue @ acts1) w1"
      using first note_missed_queue [OF os] by (auto split: if_splits)
    show ?thesis
    proof (cases "\<exists>gw4 ck2. gateway = V4 gw4 \<and> r_checker r2 = Some ck2")
      case False
      then have "(acts, r', w') = (acts1, r2, w1)"
        using asked Pair Some first
        by (simp add: ask_gateway_def Let_def split: ip_addr.splits option.splits)
      with q2 show ?thesis by simp
    next
      case True
      then obtain gw4 ck2 where v4: "gateway = V4 gw4" "r_checker r2 = Some ck2" by blast
      obtain sent w2 where sent: "icmp_send io gw4 (question (ck_pinger ck2)) w1 = (sent, w2)" by fastforce
      obtain ping res where ask: "ask (ck_pinger ck2) sent = (ping, res)" by fastforce
      have "held w2 = held w1" using quiet_simps(4) [OF os] sent by (metis snd_conv)
      note q3 = not_asked_queue [OF os q2 this]
      show ?thesis
      proof (cases res)
        case (Inr seq)
        with asked Pair Some first v4 sent ask q3(1) show ?thesis
          by (auto simp: ask_gateway_def Let_def)
      next
        case (Inl error)
        with asked Pair Some first v4 sent ask obtain acts2 where "acts = acts1 @ acts2"
          "note_missed io now (r2\<lparr>r_checker := Some (ck2\<lparr>ck_pinger := ping\<rparr>)\<rparr>)
             (os_say io (SayNotAsked error) w2) = (acts2, r', w')"
          by (auto simp: ask_gateway_def Let_def split: prod.splits)
        with q3(2) show ?thesis by simp
      qed
    qed
  qed
qed

lemma check_gateway_queue:
  assumes os: "os_ok e io held" and ok: "role_ok held r w"
    and checked: "check_gateway io now r w = Some (acts, r', w')"
  shows "queue_ok held r' acts w'"
proof (cases "r_checker r")
  case None
  with checked ok show ?thesis by (simp add: check_gateway_def)
next
  case (Some ck)
  with checked obtain ck1 restored w1 where
    loop: "answer_loop io ck False w = Some (ck1, restored, w1)"
    by (auto simp: check_gateway_def split: option.splits)
  from answer_loop_held [OF loop os] have held1: "held w1 = held w" by simp
  let ?w2 = "os_say io (SayBack Reachable (m_configured (r_machine r))) w1"
  obtain acts0 m where res: "restore (r_machine r) now = (acts0, m)" by fastforce
  have q: "queue_ok held (r\<lparr>r_machine := m, r_checker := Some ck1\<rparr>) acts0 ?w2"
    "queue_ok held (r\<lparr>r_checker := Some ck1\<rparr>) [] w1"
    using queue_start [OF ok, of "Restore now"] ok res held1
    by (simp_all add: queue_ok_def role_ok_def quiet_simps(1) [OF os])
  show ?thesis
  proof (cases restored)
    case True
    obtain acts1 where "acts = acts0 @ acts1"
      "ask_gateway io now (r\<lparr>r_machine := m, r_checker := Some ck1\<rparr>) ck1 ?w2 = (acts1, r', w')"
      using checked Some loop res True
      by (auto simp: check_gateway_def Let_def split: prod.splits)
    with ask_gateway_queue [OF os q(1)] show ?thesis by simp
  next
    case False
    have "ask_gateway io now (r\<lparr>r_machine := r_machine r, r_checker := Some ck1\<rparr>) ck1 w1 = (acts, r', w')"
      using checked Some loop False by (auto simp: check_gateway_def Let_def split: prod.splits)
    with ask_gateway_queue [OF os q(2)] show ?thesis by simp
  qed
qed

lemma carrier_tick_held:
  assumes "os_ok e io held" "carrier_tick io c now w = (res, c', w')"
  shows "held w' = held w" "on_interface c' = on_interface c"
  using assms(2) announce_held [OF os_ok_kernel [OF assms(1)]]
  by (auto simp: carrier_tick_def on_interface_def split: option.splits if_splits prod.splits sum.splits)

lemma router_tick_role:
  assumes os: "os_ok e io held" and ok: "role_ok held r w"
    and tick: "router_tick e io now r (n, w) = Some (r', (n', w'))"
  shows "role_ok held r' w'"
proof -
  from tick obtain r1 n1 w1 where loop: "receive_loop e io now r (n, w) = Some (r1, (n1, w1))"
    by (auto simp: router_tick_def split: option.splits)
  from receive_loop_role [OF loop os] ok have ok1: "role_ok held r1 w1" by simp
  obtain acts m where t: "Vrrp_State.tick (r_machine r1) now = (acts, m)" by fastforce
  obtain r2 n2 w2 where out2: "carry_out e io now (r1\<lparr>r_machine := m\<rparr>) acts (n1, w1) = (r2, (n2, w2))"
    using prod_cases3 by blast
  have ok2: "role_ok held r2 w2" using carry_out_event [OF os ok1, of "Tick now"] t out2 by simp
  from tick loop t out2 obtain acts3 r3 w3 where
    check: "(if r_checker r2 = None then Some ([], r2, w2) else check_gateway io now r2 w2) = Some (acts3, r3, w3)"
    by (auto simp: router_tick_def Let_def split: option.splits prod.splits if_splits)
  have q3: "queue_ok held r3 acts3 w3"
    using check ok2 check_gateway_queue [OF os ok2] by (auto split: if_splits)
  obtain r4 n4 w4 where out4: "carry_out e io now r3 acts3 (n2, w3) = (r4, (n4, w4))"
    using prod_cases3 by blast
  have ok4: "role_ok held r4 w4" using carry_out_role [OF os q3 out4] .
  obtain res c w5 where ct: "carrier_tick io (r_carrier r4) now w4 = (res, c, w5)"
    using prod_cases3 by blast
  have "r' = r4\<lparr>r_carrier := c\<rparr>" "held w' = held w5"
    using tick loop t out2 check out4 ct
    by (auto simp: router_tick_def quiet_simps(1) [OF os] split: sum.splits)
  with ok4 carrier_tick_held [OF os ct] show ?thesis by (simp add: role_ok_def)
qed

end
