(* ===== verification/Router_Round.thy ===== *)
theory Router_Round
  imports Router_Role
begin

text \<open>
  A round of \<open>router.rs\<close> ends. Its two loops read a socket until it has nothing more, so
  they end when the sockets do; \<open>pend\<close> counts what waits in both, and what the round does
  in between adds nothing to it.
\<close>

definition runs_dry :: "'w router_io \<Rightarrow> ('w \<Rightarrow> nat) \<Rightarrow> bool" where
  "runs_dry io pend \<longleftrightarrow>
     (\<forall>w d. fst (tr_receive io w) = Inr (Some d) \<longrightarrow> pend (snd (tr_receive io w)) < pend w) \<and>
     (\<forall>w b. fst (icmp_read io w) = Inr b \<longrightarrow> pend (snd (icmp_read io w)) < pend w) \<and>
     (\<forall>b w. pend (snd (nl_write io b w)) \<le> pend w) \<and>
     (\<forall>w. pend (snd (nl_read io w)) \<le> pend w) \<and>
     (\<forall>b w. pend (snd (fr_send io b w)) \<le> pend w) \<and>
     (\<forall>p b w. pend (snd (tr_send io p b w)) \<le> pend w) \<and>
     (\<forall>w. pend (snd (wall_clock io w)) \<le> pend w) \<and>
     (\<forall>what w. pend (os_say io what w) \<le> pend w)"

lemma runs_dry_steps:
  assumes "runs_dry io pend"
  shows "nl_write io b w = (a, w') \<Longrightarrow> pend w' \<le> pend w"
    "nl_read io w = (c, w') \<Longrightarrow> pend w' \<le> pend w"
    "fr_send io b w = (a, w') \<Longrightarrow> pend w' \<le> pend w"
    "tr_send io p b w = (d, w') \<Longrightarrow> pend w' \<le> pend w"
    "wall_clock io w = (ms, w') \<Longrightarrow> pend w' \<le> pend w"
    "pend (os_say io what w) \<le> pend w"
    "tr_receive io w = (Inr (Some x), w') \<Longrightarrow> pend w' < pend w"
    "icmp_read io w = (Inr y, w') \<Longrightarrow> pend w' < pend w"
  using assms unfolding runs_dry_def by (metis fst_conv snd_conv)+

lemma netlink_change_pend:
  assumes "runs_dry io pend" "netlink_change e (nl_part io) a how (n, w) = (r, (n', w'))"
  shows "pend w' \<le> pend w"
proof -
  obtain wrote w1 where one: "nl_write io (change e a how n) w = (wrote, w1)" by fastforce
  obtain got w2 where two: "nl_read io w1 = (got, w2)" by fastforce
  from runs_dry_steps(1) [OF assms(1) one] runs_dry_steps(2) [OF assms(1) two] assms(2) one two
  show ?thesis
    by (auto simp: netlink_change_def next_sequence_def netlink_say_def read_most_def nl_part_def
        split: sum.splits if_splits)
qed

lemma change_all_pend:
  assumes "runs_dry io pend"
  shows "add_all e io c xs (n, w) = (r, (n', w')) \<Longrightarrow> pend w' \<le> pend w"
    and "remove_all e io c xs (n, w) = (r, (n', w')) \<Longrightarrow> pend w' \<le> pend w"
proof (induction xs arbitrary: n w)
  case (Cons x xs)
  note one = netlink_change_pend [OF assms]
  { case 1
    obtain r1 n1 w1 where s: "netlink_change e (nl_part io) (carried_as c x) Add (n, w) = (r1, (n1, w1))"
      using prod_cases3 by blast
    with 1 Cons.IH(1) [of n1 w1] one [OF s] show ?case by (cases r1) simp_all }
  { case 2
    obtain r1 n1 w1 where s: "netlink_change e (nl_part io) (carried_as c x) Remove (n, w) = (r1, (n1, w1))"
      using prod_cases3 by blast
    with 2 Cons.IH(2) [of n1 w1] one [OF s] show ?case by (cases r1) (simp_all split: if_splits) }
qed simp_all

lemma send_frames_pend:
  assumes "runs_dry io pend"
  shows "send_frames io fs w = (r, w') \<Longrightarrow> pend w' \<le> pend w"
proof (induction fs arbitrary: w)
  case (Cons f fs)
  obtain r1 w1 where s: "fr_send io f w = (r1, w1)" by fastforce
  with Cons.prems Cons.IH [of w1] runs_dry_steps(3) [OF assms s] show ?case
    by (cases r1) (auto simp: frame_send_def split: if_splits)
qed simp

lemma announce_pend: "runs_dry io pend \<Longrightarrow> announce io c w = (r, w') \<Longrightarrow> pend w' \<le> pend w"
  by (auto simp: announce_def split: if_splits dest: send_frames_pend)

lemma carrier_pend:
  assumes "runs_dry io pend"
  shows "carrier_take e io c now (n, w) = (r, c', (n', w')) \<Longrightarrow> pend w' \<le> pend w"
    and "drop_all e io c (n, w) = (r, c', (n', w')) \<Longrightarrow> pend w' \<le> pend w"
proof -
  assume taken: "carrier_take e io c now (n, w) = (r, c', (n', w'))"
  obtain r1 n1 w1 where s: "add_all e io c (c_addresses c) (n, w) = (r1, (n1, w1))"
    using prod_cases3 by blast
  obtain r2 w2 where t: "announce io c w1 = (r2, w2)" by fastforce
  from taken s t change_all_pend(1) [OF assms s] announce_pend [OF assms t] show "pend w' \<le> pend w"
    by (auto simp: carrier_take_def split: sum.splits)
next
  assume "drop_all e io c (n, w) = (r, c', (n', w'))"
  then show "pend w' \<le> pend w"
    by (auto simp: drop_all_def Let_def split: prod.splits intro: change_all_pend(2) [OF assms])
qed

lemma advertise_to_pend:
  assumes "runs_dry io pend"
  shows "pend (advertise_to io self adv ps w) \<le> pend w"
proof (induction ps arbitrary: w)
  case (Cons peer ps)
  obtain r w1 where s: "tr_send io peer (encode adv self peer) w = (r, w1)" by fastforce
  have w1: "pend w1 \<le> pend w" using runs_dry_steps(4) [OF assms s] .
  show ?case
  proof (cases r)
    case (Inl error)
    note Cons.IH [of "os_say io (SayNotSent peer error) w1"]
    also have "pend (os_say io (SayNotSent peer error) w1) \<le> pend w1" by (rule runs_dry_steps(6) [OF assms])
    also note w1
    finally show ?thesis using s Inl by simp
  next
    case (Inr u)
    with s Cons.IH [of w1] w1 show ?thesis by simp
  qed
qed simp

lemma carry_out_pend:
  "runs_dry io pend \<Longrightarrow> carry_out e io now r queue st = (r', st') \<Longrightarrow> pend (snd st') \<le> pend (snd st)"
proof (induction e io now r queue st rule: carry_out.induct)
  case (2 e io now r adv queue st)
  obtain n w where st: "st = (n, w)" by fastforce
  from 2(1) [OF st [symmetric] 2(2)] 2(3) advertise_to_pend [OF 2(2), of "own_address (m_settings (r_machine r))" adv "r_peers r" w]
  show ?case by (simp add: st)
next
  case (3 e io now r t queue st)
  obtain n w where st: "st = (n, w)" by fastforce
  from 3(1) [OF st [symmetric] 3(2)] 3(3) runs_dry_steps(6) [OF 3(2), of _ w]
  show ?case by (auto simp: st intro: order_trans)
next
  case (4 e io now r queue st)
  obtain n w where st: "st = (n, w)" by fastforce
  obtain res c n1 w1 where taken: "carrier_take e io (r_carrier r) now (n, w) = (res, c, (n1, w1))"
    using prod_cases4 by blast
  have w1: "pend (os_say io what w1) \<le> pend w" for what
    using carrier_pend(1) [OF 4(3) taken] runs_dry_steps(6) [OF 4(3), of what w1] by linarith
  show ?case
  proof (cases res)
    case (Inl error)
    with 4(1) [OF taken [folded st, symmetric] Inl refl refl 4(3)] 4(4) w1 taken show ?thesis
      by (auto simp: st intro: order_trans)
  next
    case (Inr u)
    with 4(2) [OF taken [folded st, symmetric] Inr refl refl 4(3)] 4(4) w1 taken show ?thesis
      by (auto simp: st intro: order_trans)
  qed
next
  case (5 e io now r queue st)
  obtain n w where st: "st = (n, w)" by fastforce
  obtain res c n1 w1 where drop: "drop_all e io (r_carrier r) (n, w) = (res, c, (n1, w1))"
    using prod_cases4 by blast
  have w1: "pend (os_say io what w1) \<le> pend w" for what
    using carrier_pend(2) [OF 5(3) drop] runs_dry_steps(6) [OF 5(3), of what w1] by linarith
  show ?case
  proof (cases res)
    case (Inl error)
    with 5(1) [OF drop [folded st, symmetric] Inl refl refl 5(3)] 5(4) w1 drop show ?thesis
      by (auto simp: st intro: order_trans)
  next
    case (Inr u)
    with 5(2) [OF drop [folded st, symmetric] Inr refl refl 5(3)] 5(4) w1 drop show ?thesis
      by (auto simp: st intro: order_trans)
  qed
qed simp

lemma receive_loop_ends:
  assumes "runs_dry io pend"
  shows "\<exists>y. receive_loop e io now r st = Some y"
proof (induction "pend (snd st)" arbitrary: r st rule: less_induct)
  case less
  obtain n w where st: "st = (n, w)" by fastforce
  obtain got w1 where got: "tr_receive io w = (got, w1)" by fastforce
  show ?case
  proof (cases got rule: got_cases)
    case (heard src bytes)
    obtain acts m where rec: "receive (r_machine r) src bytes now = (acts, m)" by fastforce
    obtain r1 w2 where r1: "(if m_accepted m > m_accepted (r_machine r)
        then (case wall_clock io w1 of (ms, w2) \<Rightarrow> (r\<lparr>r_machine := m, r_heard_at := ms\<rparr>, w2))
        else (r\<lparr>r_machine := m\<rparr>, w1)) = (r1, w2)" by fastforce
    obtain r2 st2 where out: "carry_out e io now r1 acts (n, w2) = (r2, st2)"
      using prod.exhaust by blast
    have "pend w1 < pend w" using runs_dry_steps(7) [OF assms] got heard by blast
    moreover have "pend w2 \<le> pend w1"
      using r1 runs_dry_steps(5) [OF assms] by (auto split: if_splits prod.splits)
    moreover have "pend (snd st2) \<le> pend w2" using carry_out_pend [OF assms out] by simp
    ultimately have "\<exists>y. receive_loop e io now r2 st2 = Some y" using less [of st2 r2] by (simp add: st)
    then show ?thesis
      unfolding st receive_loop.simps [of e io now r "(n, w)"] prod.case got heard sum.case option.case
        Let_def rec r1 out .
  qed (unfold st receive_loop.simps [of e io now r "(n, w)"] prod.case got, simp_all)
qed

lemma collect_Some: "collect p raw = Inr (Some x) \<Longrightarrow> \<exists>bytes. raw = Inr bytes"
  by (auto simp: collect_def split: sum.splits io_error.splits)

lemma answer_loop_ends:
  assumes "runs_dry io pend"
  shows "\<exists>y. answer_loop io ck restored w = Some y"
proof (induction "pend w" arbitrary: ck restored w rule: less_induct)
  case less
  obtain raw w1 where raw: "icmp_read io w = (raw, w1)" by fastforce
  obtain got where got: "collect (ck_pinger ck) raw = got" by simp
  show ?case
  proof (cases got rule: got_cases)
    case (heard src reply)
    then have "pend w1 < pend w"
      using runs_dry_steps(8) [OF assms] raw collect_Some got by (metis prod.collapse)
    moreover have "pend (os_say io what w1) \<le> pend w1" for what by (rule runs_dry_steps(6) [OF assms])
    ultimately have "\<exists>y. answer_loop io ck' restored' w1 = Some y"
      "\<exists>y. answer_loop io ck' restored' (os_say io what w1) = Some y" for ck' restored' what
      using less by (blast intro: le_less_trans)+
    then show ?thesis
      unfolding answer_loop.simps [of io ck restored w] prod.case raw got heard sum.case option.case
      by (simp add: Let_def split: prod.split)
  qed (unfold answer_loop.simps [of io ck restored w] prod.case raw got, simp_all)
qed

lemma check_gateway_ends:
  assumes "runs_dry io pend"
  obtains acts r' w' where "check_gateway io now r w = Some (acts, r', w')"
proof (cases "r_checker r")
  case None
  then show ?thesis using that by (simp add: check_gateway_def)
next
  case (Some ck)
  obtain ck1 restored w1 where "answer_loop io ck False w = Some (ck1, restored, w1)"
    using answer_loop_ends [OF assms, of ck False w] by auto
  with Some have "\<exists>y. check_gateway io now r w = Some y"
    by (simp add: check_gateway_def Let_def case_prod_unfold)
  then show ?thesis using that by auto
qed

lemma router_tick_ends:
  assumes "runs_dry io pend"
  shows "\<exists>y. router_tick e io now r st = Some y"
proof -
  obtain r1 st1 where loop: "receive_loop e io now r st = Some (r1, st1)"
    using receive_loop_ends [OF assms] by (metis prod.collapse)
  obtain acts m where t: "Vrrp_State.tick (r_machine r1) now = (acts, m)" by fastforce
  obtain r2 n2 w2 where out: "carry_out e io now (r1\<lparr>r_machine := m\<rparr>) acts st1 = (r2, (n2, w2))"
    using prod_cases3 by blast
  obtain acts3 r3 w3 where
    check: "(if r_checker r2 = None then Some ([], r2, w2) else check_gateway io now r2 w2) = Some (acts3, r3, w3)"
    by (rule check_gateway_ends [OF assms, of now r2 w2]) (cases "r_checker r2 = None", auto)
  show ?thesis
    unfolding router_tick_def loop option.case prod.case t Let_def out check
    by (auto split: prod.split sum.split)
qed

end
