(* ===== verification/Kernel.thy ===== *)
theory Kernel
  imports Router_Round
begin

text \<open>
  A machine the router can run on: a kernel that reads the router's netlink messages and
  keeps a set of addresses, sockets that deliver what waits in them, and streams that
  remember what was sent and written. It shows that the contracts the router's properties
  rest on can all hold at once, on requests the model itself encodes.
\<close>

record kernel =
  k_held :: "(ip_addr \<times> u32) set"
  k_reply :: "byte list"
  k_inbox :: "(ipv4 \<times> byte list) list"
  k_icmp :: "byte list list"
  k_sent :: "(ipv4 \<times> byte list) list"
  k_said :: "said list"

definition acknowledge :: "endian \<Rightarrow> u32 \<Rightarrow> byte list" where
  "acknowledge e code = u32_to_ne e 20 @ u16_to_ne e NLMSG_ERROR @ u16_to_ne e 0 @ u32_to_ne e 0
     @ u32_to_ne e 0 @ u32_to_ne e code"

definition kernel_request :: "endian \<Rightarrow> byte list \<Rightarrow> kernel \<Rightarrow> kernel" where
  "kernel_request e bytes k = (case named_address e bytes of
     None \<Rightarrow> k\<lparr>k_reply := acknowledge e (- 22)\<rparr>
   | Some a \<Rightarrow>
       if u16_at e bytes 4 = NEW_ADDRESS then k\<lparr>k_held := insert a (k_held k), k_reply := acknowledge e 0\<rparr>
       else if a \<in> k_held k then k\<lparr>k_held := k_held k - {a}, k_reply := acknowledge e 0\<rparr>
       else k\<lparr>k_reply := acknowledge e (- 99)\<rparr>)"

definition kernel_io :: "endian \<Rightarrow> kernel router_io" where
  "kernel_io e = \<lparr>
     nl_write = (\<lambda>b k. (Inr (length b), kernel_request e b k)),
     nl_read = (\<lambda>k. (Inr (k_reply k), k)),
     fr_send = (\<lambda>b k. (Inr (length b), k)),
     tr_send = (\<lambda>p b k. (Inr (), k\<lparr>k_sent := k_sent k @ [(p, b)]\<rparr>)),
     tr_receive = (\<lambda>k. case k_inbox k of [] \<Rightarrow> (Inr None, k) | d # ds \<Rightarrow> (Inr (Some d), k\<lparr>k_inbox := ds\<rparr>)),
     icmp_send = (\<lambda>p b k. (Inr (length b), k)),
     icmp_read = (\<lambda>k. case k_icmp k of [] \<Rightarrow> (Inl WouldBlock, k) | d # ds \<Rightarrow> (Inr d, k\<lparr>k_icmp := ds\<rparr>)),
     wall_clock = (\<lambda>k. (1000, k)),
     os_say = (\<lambda>what k. k\<lparr>k_said := k_said k @ [what]\<rparr>)\<rparr>"

lemma answer_acknowledge:
  "answer e (acknowledge e code) = Some (if code = 0 then Accepted else Refused (sint (- code)))"
proof -
  have "u16_at e (acknowledge e code) 4 = 2"
    unfolding acknowledge_def by (subst u16_at_append) (simp_all add: length_u32_to_ne)
  moreover have "u32_at e (acknowledge e code) 16 = code"
    using u32_at_append [of "u32_to_ne e 20 @ u16_to_ne e NLMSG_ERROR @ u16_to_ne e 0 @ u32_to_ne e 0
      @ u32_to_ne e 0" 16 e code "[]"]
    by (simp add: acknowledge_def length_u16_to_ne length_u32_to_ne)
  moreover have "20 \<le> length (acknowledge e code)"
    by (simp add: acknowledge_def length_u16_to_ne length_u32_to_ne)
  ultimately show ?thesis by (simp add: answer_error)
qed

lemma take_acknowledge: "take NL_MOST (acknowledge e code) = acknowledge e code"
  by (simp add: acknowledge_def NL_MOST_def length_u16_to_ne length_u32_to_ne)

lemma kernel_change:
  "netlink_change e (nl_part (kernel_io e)) a how (n, k) =
     (let w = kernel_request e (change e a how n) k in
      ((case answer e (take NL_MOST (k_reply w)) of
          Some Accepted \<Rightarrow> Inr ()
        | Some (Refused code) \<Rightarrow> Inl (OsError code)
        | Some (Other kind) \<Rightarrow> Inl (OtherError ''answered with another message type'')
        | None \<Rightarrow> Inl (OtherError ''too short to hold an acknowledgement'')), (n + 1, w)))"
  by (simp add: netlink_change_def next_sequence_def netlink_say_def read_most_def nl_part_def
      kernel_io_def Let_def)

lemma kernel_adds:
  "netlink_change e (nl_part (kernel_io e)) a Add (n, k) =
     (Inr (), (n + 1, k\<lparr>k_held := insert (addr_address a, addr_interface a) (k_held k),
        k_reply := acknowledge e 0\<rparr>))"
  by (simp add: kernel_change kernel_request_def named_change change_type Let_def take_acknowledge
      answer_acknowledge)

lemma kernel_removes:
  "netlink_change e (nl_part (kernel_io e)) a Remove (n, k) =
     (if (addr_address a, addr_interface a) \<in> k_held k
      then (Inr (), (n + 1, k\<lparr>k_held := k_held k - {(addr_address a, addr_interface a)},
              k_reply := acknowledge e 0\<rparr>))
      else (Inl (OsError 99), (n + 1, k\<lparr>k_reply := acknowledge e (- 99)\<rparr>)))"
  by (simp add: kernel_change kernel_request_def named_change change_type Let_def take_acknowledge
      answer_acknowledge)

lemma kernel_frames: "fr_send (kernel_io e) b k = (Inr (length b), k)"
  by (simp add: kernel_io_def)

lemma kernel_keeps_promise: "kernel_ok e (kernel_io e) k_held"
  by (auto simp: kernel_ok_def kernel_adds kernel_removes kernel_frames split: if_splits)

lemma kernel_os_ok: "os_ok e (kernel_io e) k_held"
  unfolding os_ok_def quiet_ok_def
  by (rule conjI [OF kernel_keeps_promise]) (auto simp: kernel_io_def split: list.split)

lemma kernel_runs_dry: "runs_dry (kernel_io e) (\<lambda>k. length (k_inbox k) + length (k_icmp k))"
  by (auto simp: runs_dry_def kernel_io_def kernel_request_def split: list.splits option.splits)

end
