(* ===== verification/Supervise.thy ===== *)
theory Supervise
  imports Prelude
begin

text \<open>
  \<open>supervise.rs\<close> of the agent: what supervising the traffic path decides. Like the VRRP
  machine it is told what happened and returns what to do, so every operation is a
  function from a supervision to effects and a supervision.
\<close>

section \<open>Data\<close>

definition FIRST_WAIT :: duration where "FIRST_WAIT = millis 100"
definition LONGEST_WAIT :: duration where "LONGEST_WAIT = secs 30"
definition ALARM_AFTER :: u32 where "ALARM_AFTER = 5"

datatype data_plane_state = DpStarting | DpServing | DpDegraded

datatype supervise_effect =
  EffDemote | EffRestore | EffTerminate | EffStart | EffAlarm | EffClear

datatype standing = StStarting | StServing | StDown

fun standing_name :: "standing \<Rightarrow> string" where
  "standing_name StStarting = ''starting''"
| "standing_name StServing = ''serving''"
| "standing_name StDown = ''down''"

record supervision =
  s_standing :: standing
  s_crashes :: u32
  s_lowered :: bool
  s_alarm :: bool
  s_start_at :: "instant option"
  s_silent :: u32
  s_patience :: u32

section \<open>Operations\<close>

fun serving :: "data_plane_state \<Rightarrow> bool" where
  "serving DpStarting = False"
| "serving DpServing = True"
| "serving DpDegraded = True"

text \<open>
  \<open>2\<close> to the power of \<open>n\<close> as a \<open>u32\<close> that stops at its largest value, and a duration times
  that. The longest duration has \<open>u64::MAX\<close> seconds and all but one nanosecond of another.
\<close>

definition saturating_pow_2 :: "nat \<Rightarrow> nat" where
  "saturating_pow_2 n = min (2 ^ n) (2 ^ 32 - 1)"

definition duration_max :: duration where
  "duration_max = secs (2 ^ 64) - 1"

definition duration_saturating_mul :: "duration \<Rightarrow> nat \<Rightarrow> duration" where
  "duration_saturating_mul d k = min (d * k) duration_max"

definition wait_after :: "u32 \<Rightarrow> duration" where
  "wait_after crashes =
     (if crashes = 0 then 0
      else let doublings = min (crashes - 1) 31
        in min (duration_saturating_mul FIRST_WAIT (saturating_pow_2 (unat doublings))) LONGEST_WAIT)"

definition new_supervision :: "u32 \<Rightarrow> supervision" where
  "new_supervision patience = \<lparr>s_standing = StStarting, s_crashes = 0, s_lowered = False,
     s_alarm = False, s_start_at = None, s_silent = 0, s_patience = patience\<rparr>"

definition supervise_begin :: "supervision \<Rightarrow> supervise_effect list \<times> supervision" where
  "supervise_begin s = ([EffStart], s\<lparr>s_start_at := None\<rparr>)"

definition supervise_answered :: "supervision \<Rightarrow> supervise_effect list \<times> supervision" where
  "supervise_answered s = ([], s\<lparr>s_silent := 0\<rparr>)"

definition supervise_serves :: "supervision \<Rightarrow> supervise_effect list \<times> supervision" where
  "supervise_serves s =
     (let s1 = s\<lparr>s_silent := 0\<rparr> in
      if s_standing s1 = StServing then ([], s1)
      else
        let s2 = s1\<lparr>s_standing := StServing, s_crashes := 0\<rparr>;
            (effs, s3) = (if s_lowered s2 then ([EffRestore], s2\<lparr>s_lowered := False\<rparr>) else ([], s2));
            (effs', s4) = (if s_alarm s3 then (effs @ [EffClear], s3\<lparr>s_alarm := False\<rparr>) else (effs, s3))
        in (effs', s4))"

definition supervise_unanswered :: "supervision \<Rightarrow> supervise_effect list \<times> supervision" where
  "supervise_unanswered s =
     (if s_standing s = StDown then ([], s)
      else
        let s1 = s\<lparr>s_silent := saturating_inc (s_silent s)\<rparr> in
        if s_silent s1 < s_patience s1 then ([], s1)
        else ([EffTerminate], s1\<lparr>s_silent := 0\<rparr>))"

definition supervise_ended :: "supervision \<Rightarrow> instant \<Rightarrow> supervise_effect list \<times> supervision" where
  "supervise_ended s now =
     (let crashes = saturating_inc (s_crashes s);
          s1 = s\<lparr>s_silent := 0, s_crashes := crashes, s_standing := StDown,
                 s_start_at := Some (now + wait_after crashes)\<rparr>;
          (effs, s2) = (if \<not> s_lowered s1 then ([EffDemote], s1\<lparr>s_lowered := True\<rparr>) else ([], s1));
          (effs', s3) = (if s_crashes s2 \<ge> ALARM_AFTER \<and> \<not> s_alarm s2
                         then (effs @ [EffAlarm], s2\<lparr>s_alarm := True\<rparr>) else (effs, s2))
      in (effs', s3))"

definition supervise_due :: "supervision \<Rightarrow> instant \<Rightarrow> supervise_effect list \<times> supervision" where
  "supervise_due s now = (case s_start_at s of
     Some at \<Rightarrow>
       if now \<ge> at then ([EffStart], s\<lparr>s_start_at := None, s_standing := StStarting\<rparr>) else ([], s)
   | None \<Rightarrow> ([], s))"

lemmas supervise_defs =
  supervise_begin_def supervise_answered_def supervise_serves_def supervise_unanswered_def
  supervise_ended_def supervise_due_def

section \<open>The wait between restarts\<close>

lemma wait_after_values:
  assumes "crashes \<noteq> 0"
  shows "wait_after crashes = min (FIRST_WAIT * 2 ^ (unat crashes - 1)) LONGEST_WAIT"
proof -
  have pos: "unat crashes \<ge> 1" using assms by (simp add: unat_gt_0 Suc_leI)
  then have pred: "unat (crashes - 1) = unat crashes - 1"
    using assms by (simp add: unat_minus_one)
  show ?thesis
  proof (cases "unat crashes - 1 \<le> 31")
    case True
    then have "min (crashes - 1) 31 = crashes - 1" by (simp add: min_def word_le_nat_alt pred)
    moreover have "(2::nat) ^ (unat crashes - 1) \<le> 2 ^ 31" using True by (intro power_increasing) simp_all
    ultimately show ?thesis using assms
      by (simp add: wait_after_def pred duration_saturating_mul_def saturating_pow_2_def
          FIRST_WAIT_def LONGEST_WAIT_def duration_max_def millis_def secs_def)
  next
    case False
    then have "min (crashes - 1) 31 = (31 :: u32)" by (simp add: min_def word_le_nat_alt pred)
    moreover have "(2::nat) ^ 31 \<le> 2 ^ (unat crashes - 1)" using False by (intro power_increasing) simp_all
    ultimately show ?thesis using assms
      by (simp add: wait_after_def duration_saturating_mul_def saturating_pow_2_def
          FIRST_WAIT_def LONGEST_WAIT_def duration_max_def millis_def secs_def)
  qed
qed

lemma wait_after_mono: "c \<le> d \<Longrightarrow> wait_after c \<le> wait_after d"
proof (cases "c = 0")
  case False
  assume le: "c \<le> d"
  then have "d \<noteq> 0" "unat c \<le> unat d" using False by (auto simp: word_le_nat_alt unat_eq_0)
  then have "(2::nat) ^ (unat c - 1) \<le> 2 ^ (unat d - 1)" by (intro power_increasing) simp_all
  then show ?thesis
    unfolding wait_after_values [OF False] wait_after_values [OF \<open>d \<noteq> 0\<close>]
    by (intro min.mono mult_le_mono2 order_refl)
qed (simp add: wait_after_def)

section \<open>The claim and the alarm\<close>

text \<open>
  The claim is down exactly while crashes are being counted, the alarm is on exactly from
  the fifth on, and a path that serves has none.
\<close>

definition supervision_inv :: "supervision \<Rightarrow> bool" where
  "supervision_inv s \<longleftrightarrow> (s_lowered s \<longleftrightarrow> s_crashes s \<noteq> 0) \<and>
     (s_alarm s \<longleftrightarrow> ALARM_AFTER \<le> s_crashes s) \<and>
     (s_standing s = StServing \<longrightarrow> s_crashes s = 0) \<and>
     (s_standing s = StDown \<longrightarrow> s_crashes s \<noteq> 0 \<and> s_start_at s \<noteq> None)"

lemma saturating_inc_nonzero: "saturating_inc n \<noteq> 0"
  using unat_saturating_inc [of n] by (metis Zero_not_Suc unat_0 zero_neq_numeral)

lemma supervision_inv_new: "supervision_inv (new_supervision patience)"
  by (simp add: supervision_inv_def new_supervision_def ALARM_AFTER_def)

lemma supervision_inv_ended: "supervision_inv s \<Longrightarrow> supervision_inv (snd (supervise_ended s now))"
  using saturating_inc_nonzero [of "s_crashes s"] saturating_inc_ge [of "s_crashes s"]
  by (auto simp: supervision_inv_def supervise_ended_def Let_def split: if_splits)

lemma supervision_inv_ops:
  assumes "supervision_inv s"
  shows "supervision_inv (snd (supervise_serves s))" "supervision_inv (snd (supervise_answered s))"
    "supervision_inv (snd (supervise_unanswered s))" "supervision_inv (snd (supervise_due s now))"
  using assms
  by (auto simp: supervision_inv_def supervise_defs Let_def ALARM_AFTER_def split: option.split)

end
