(* ===== verification/Agent.thy ===== *)
theory Agent
  imports Supervise Router_Round
begin

text \<open>
  \<open>run.rs\<close> and \<open>vrrp.rs\<close> of the agent: the supervision loop that starts and ends the
  traffic path, the router thread that listens to it, and the plan the router starts
  from. The two threads share one channel of claims. Processes, the clock and the output
  stream are the record \<open>agent_io\<close>; a process is known by its identifier.
\<close>

section \<open>vrrp.rs: the plan\<close>

record carrying =
  cy_address :: ip_addr
  cy_prefix_length :: byte

record vrrp_plan =
  v_address :: ipv4
  v_peers :: "ipv4 list"
  v_interface :: string
  v_carried :: "carrying list"
  v_vrid :: byte
  v_priority :: byte
  v_interval :: duration
  v_preempt :: bool
  v_silent :: bool
  v_watch_gateway :: bool
  v_check_interval :: duration
  v_failures :: u32
  v_demoted_priority :: byte

definition vrrp_plan_of :: "vrrp_plan \<Rightarrow> (plan, string) result" where
  "vrrp_plan_of v =
     (if v_peers v = [] then Inl ''at least one peer is required; multicast is not offered''
      else if v_carried v = [] then Inl ''at least one virtual address is required''
      else Inr \<lparr>
        p_settings = \<lparr>vrid = v_vrid v, priority = v_priority v, interval = v_interval v,
          preempt = v_preempt v, own_address = v_address v,
          virtual_addresses = List.map_filter
            (\<lambda>one. case cy_address one of V4 a \<Rightarrow> Some a | V6 _ \<Rightarrow> None) (v_carried v),
          peers = v_peers v\<rparr>,
        p_interface = v_interface v,
        p_carried = map (\<lambda>one. \<lparr>carried_address = cy_address one,
          carried_prefix = cy_prefix_length one\<rparr>) (v_carried v),
        p_silent = v_silent v, p_watch_gateway = v_watch_gateway v,
        p_check_interval = v_check_interval v, p_threshold = v_failures v,
        p_demoted_priority = v_demoted_priority v\<rparr>)"

section \<open>run.rs: doing what the supervision asked\<close>

definition SAY_INTERVAL :: duration where "SAY_INTERVAL = secs 5"
definition SILENT_PATIENCE :: duration where "SILENT_PATIENCE = secs 1"
definition TERMINATE_PATIENCE :: duration where "TERMINATE_PATIENCE = secs 10"

datatype claim = ClaimDown | ClaimUp

datatype heard = HeardAnswered | HeardGreeted u32 | HeardRefused u64 nat | HeardReported data_plane_state

datatype agent_said =
    AgClaimLowered | AgClaimRestored | AgDataPlaneSilent u32 | AgDataPlaneEnded int
  | AgStopFailed io_error | AgStarted u32 | AgStartFailed io_error | AgCrashLoop u32
  | AgCrashLoopOver | AgGreeted u32 | AgConfigRefused u64 nat | AgNotServing data_plane_state
  | AgStanding standing u32 bool | AgAskFailed io_error | AgDataPlaneStopped u32 int | AgStopped

record 'w agent_io =
  ag_spawn :: "'w \<Rightarrow> (u32, io_error) result \<times> 'w"
  ag_terminate :: "u32 \<Rightarrow> duration \<Rightarrow> 'w \<Rightarrow> (int, io_error) result \<times> 'w"
  ag_ended :: "u32 \<Rightarrow> 'w \<Rightarrow> (int option, io_error) result \<times> 'w"
  ag_now :: "'w \<Rightarrow> instant \<times> 'w"
  ag_say :: "agent_said \<Rightarrow> 'w \<Rightarrow> 'w"
  ag_claim :: "claim \<Rightarrow> 'w \<Rightarrow> 'w"

definition effect_weight :: "supervise_effect \<Rightarrow> nat" where
  "effect_weight eff = (if eff \<in> {EffTerminate, EffStart} then 4 else 1)"

lemma ended_weight: "sum_list (map effect_weight (fst (supervise_ended s now))) \<le> 2"
  by (simp add: supervise_ended_def Let_def effect_weight_def)

function carry ::
  "'w agent_io \<Rightarrow> supervise_effect list \<Rightarrow> supervision \<times> u32 option \<times> 'w \<Rightarrow> supervision \<times> u32 option \<times> 'w"
where
  "carry io [] st = st"
| "carry io (EffDemote # effs) (s, child, w) =
     carry io effs (s, child, ag_claim io ClaimDown (ag_say io AgClaimLowered w))"
| "carry io (EffRestore # effs) (s, child, w) =
     carry io effs (s, child, ag_claim io ClaimUp (ag_say io AgClaimRestored w))"
| "carry io (EffTerminate # effs) (s, child, w) =
     (case child of
        None \<Rightarrow> carry io effs (s, child, w)
      | Some pid \<Rightarrow>
          (case ag_terminate io pid SILENT_PATIENCE (ag_say io (AgDataPlaneSilent pid) w) of
             (Inr status, w1) \<Rightarrow>
               (case ag_now io (ag_say io (AgDataPlaneEnded status) w1) of (now, w2) \<Rightarrow>
                 carry io effs (carry io (fst (supervise_ended s now)) (snd (supervise_ended s now), None, w2)))
           | (Inl error, w1) \<Rightarrow> carry io effs (s, child, ag_say io (AgStopFailed error) w1)))"
| "carry io (EffStart # effs) (s, child, w) =
     (case ag_spawn io w of
        (Inr pid, w1) \<Rightarrow> carry io effs (s, Some pid, ag_say io (AgStarted pid) w1)
      | (Inl error, w1) \<Rightarrow>
          (case ag_now io (ag_say io (AgStartFailed error) w1) of (now, w2) \<Rightarrow>
             carry io effs (carry io (fst (supervise_ended s now)) (snd (supervise_ended s now), child, w2))))"
| "carry io (EffAlarm # effs) (s, child, w) = carry io effs (s, child, ag_say io (AgCrashLoop (s_crashes s)) w)"
| "carry io (EffClear # effs) (s, child, w) = carry io effs (s, child, ag_say io AgCrashLoopOver w)"
  by pat_completeness auto
termination
  by (relation "measure (\<lambda>(io, effs, st). sum_list (map effect_weight effs))")
    (simp_all add: le_less_trans [OF ended_weight] effect_weight_def)

section \<open>run.rs: the supervision loop\<close>

record agent =
  a_supervision :: supervision
  a_child :: "u32 option"
  a_answered_at :: instant
  a_question_at :: instant
  a_said_at :: instant
  a_said :: "(standing \<times> bool) option"

text \<open>An operation of the supervision followed by \<open>carry\<close>.\<close>

definition and_carry ::
  "'w agent_io \<Rightarrow> (supervision \<Rightarrow> supervise_effect list \<times> supervision) \<Rightarrow> agent \<times> 'w \<Rightarrow> agent \<times> 'w" where
  "and_carry io f st = (case st of (a, w) \<Rightarrow>
     (case f (a_supervision a) of (effs, s) \<Rightarrow>
      case carry io effs (s, a_child a, w) of (s', child', w') \<Rightarrow>
        (a\<lparr>a_supervision := s', a_child := child'\<rparr>, w')))"

fun hear :: "'w agent_io \<Rightarrow> instant \<Rightarrow> heard \<Rightarrow> agent \<times> 'w \<Rightarrow> agent \<times> 'w" where
  "hear io now HeardAnswered (a, w) = and_carry io supervise_answered (a\<lparr>a_answered_at := now\<rparr>, w)"
| "hear io now (HeardGreeted pid) (a, w) = (a, ag_say io (AgGreeted pid) w)"
| "hear io now (HeardRefused generation errors) (a, w) = (a, ag_say io (AgConfigRefused generation errors) w)"
| "hear io now (HeardReported dp) (a, w) =
     (if serving dp then and_carry io supervise_serves (a\<lparr>a_answered_at := now\<rparr>, w)
      else and_carry io supervise_answered (a\<lparr>a_answered_at := now\<rparr>, ag_say io (AgNotServing dp) w))"

definition agent_start :: "'w agent_io \<Rightarrow> u32 \<Rightarrow> duration \<Rightarrow> instant \<Rightarrow> 'w \<Rightarrow> agent \<times> 'w" where
  "agent_start io patience asking now w =
     and_carry io supervise_begin
       (\<lparr>a_supervision = new_supervision patience, a_child = None, a_answered_at = now,
         a_question_at = now + asking, a_said_at = now, a_said = None\<rparr>, w)"

text \<open>The process is asked about; an answer that cannot be had stops the agent.\<close>

definition watch_child ::
  "'w agent_io \<Rightarrow> instant \<Rightarrow> agent \<times> 'w \<Rightarrow> (agent, io_error) result \<times> 'w" where
  "watch_child io now st = (case st of (a, w) \<Rightarrow>
     (case a_child a of
        None \<Rightarrow> (Inr a, w)
      | Some pid \<Rightarrow>
          (case ag_ended io pid w of
             (Inr (Some status), w1) \<Rightarrow>
               (case and_carry io (\<lambda>s. supervise_ended s now)
                       (a\<lparr>a_child := None\<rparr>, ag_say io (AgDataPlaneEnded status) w1) of
                  (a', w2) \<Rightarrow> (Inr a', w2))
           | (Inr None, w1) \<Rightarrow> (Inr a, w1)
           | (Inl error, w1) \<Rightarrow> (Inl error, ag_say io (AgAskFailed error) w1))))"

definition ask_silence :: "'w agent_io \<Rightarrow> duration \<Rightarrow> instant \<Rightarrow> agent \<times> 'w \<Rightarrow> agent \<times> 'w" where
  "ask_silence io asking now st = (case st of (a, w) \<Rightarrow>
     if now \<ge> a_question_at a then
       let a1 = a\<lparr>a_question_at := now + asking\<rparr> in
       if a_child a1 \<noteq> None \<and> now - a_answered_at a1 \<ge> asking
       then and_carry io supervise_unanswered (a1, w) else (a1, w)
     else (a, w))"

definition say_standing :: "'w agent_io \<Rightarrow> instant \<Rightarrow> agent \<times> 'w \<Rightarrow> agent \<times> 'w" where
  "say_standing io now st = (case st of (a, w) \<Rightarrow>
     let s = a_supervision a; standing = (s_standing s, s_alarm s) in
     if a_said a \<noteq> Some standing \<or> now - a_said_at a \<ge> SAY_INTERVAL
     then (a\<lparr>a_said := Some standing, a_said_at := now\<rparr>,
           ag_say io (AgStanding (s_standing s) (s_crashes s) (s_alarm s)) w)
     else (a, w))"

definition agent_round ::
  "'w agent_io \<Rightarrow> duration \<Rightarrow> instant \<Rightarrow> heard list \<Rightarrow> agent \<times> 'w \<Rightarrow> (agent, io_error) result \<times> 'w" where
  "agent_round io asking now heard st =
     (case watch_child io now (fold (hear io now) heard st) of
        (Inl error, w) \<Rightarrow> (Inl error, w)
      | (Inr a, w) \<Rightarrow>
          (case say_standing io now (and_carry io (\<lambda>s. supervise_due s now)
                  (ask_silence io asking now (a, w))) of (a', w') \<Rightarrow> (Inr a', w')))"

text \<open>The loop, for the moments it wakes at and what it heard by each, and what follows it.\<close>

fun agent_rounds ::
  "'w agent_io \<Rightarrow> duration \<Rightarrow> (instant \<times> heard list) list \<Rightarrow> agent \<times> 'w \<Rightarrow> (agent, io_error) result \<times> 'w" where
  "agent_rounds io asking [] (a, w) = (Inr a, w)"
| "agent_rounds io asking ((now, heard) # rest) st =
     (case agent_round io asking now heard st of
        (Inl error, w) \<Rightarrow> (Inl error, w)
      | (Inr a, w) \<Rightarrow> agent_rounds io asking rest (a, w))"

definition agent_stop :: "'w agent_io \<Rightarrow> agent \<times> 'w \<Rightarrow> (unit, io_error) result \<times> 'w" where
  "agent_stop io st = (case st of (a, w) \<Rightarrow>
     (case a_child a of
        None \<Rightarrow> (Inr (), ag_say io AgStopped w)
      | Some pid \<Rightarrow>
          (case ag_terminate io pid TERMINATE_PATIENCE w of
             (Inr status, w1) \<Rightarrow> (Inr (), ag_say io AgStopped (ag_say io (AgDataPlaneStopped pid status) w1))
           | (Inl error, w1) \<Rightarrow> (Inl error, ag_say io (AgStopFailed error) w1))))"

section \<open>run.rs: the router thread\<close>

fun take_claims ::
  "endian \<Rightarrow> 'w router_io \<Rightarrow> instant \<Rightarrow> claim list \<Rightarrow> router \<Rightarrow> u32 \<times> 'w \<Rightarrow> router \<times> (u32 \<times> 'w)" where
  "take_claims e io now [] r st = (r, st)"
| "take_claims e io now (ClaimDown # claims) r st =
     (case router_demote e io ''data_plane_down'' now r st of (r', st') \<Rightarrow> take_claims e io now claims r' st')"
| "take_claims e io now (ClaimUp # claims) r st =
     (case router_restore e io ''data_plane_serving'' now r st of (r', st') \<Rightarrow> take_claims e io now claims r' st')"

definition router_round ::
  "endian \<Rightarrow> 'w router_io \<Rightarrow> instant \<Rightarrow> claim list \<Rightarrow> router \<Rightarrow> u32 \<times> 'w \<Rightarrow> (router \<times> (u32 \<times> 'w)) option" where
  "router_round e io now claims r st =
     (case take_claims e io now claims r st of (r1, st1) \<Rightarrow> router_tick e io now r1 st1)"

text \<open>The thread: a start, one round after the other until it is told to stop, and the stop.\<close>

fun router_rounds ::
  "endian \<Rightarrow> 'w router_io \<Rightarrow> (instant \<times> claim list) list \<Rightarrow> router \<Rightarrow> u32 \<times> 'w \<Rightarrow> (router \<times> (u32 \<times> 'w)) option" where
  "router_rounds e io [] r st = Some (r, st)"
| "router_rounds e io ((now, claims) # rest) r st =
     (case router_round e io now claims r st of
        None \<Rightarrow> None
      | Some (r', st') \<Rightarrow> router_rounds e io rest r' st')"

definition router_thread ::
  "endian \<Rightarrow> 'w router_io \<Rightarrow> plan \<Rightarrow> (carrier, io_error) result \<Rightarrow> (check, io_error) result \<Rightarrow> instant
     \<Rightarrow> (instant \<times> claim list) list \<Rightarrow> instant \<Rightarrow> u32 \<times> 'w \<Rightarrow> ((router, io_error) result \<times> (u32 \<times> 'w)) option" where
  "router_thread e io plan opened checked now rounds ended st =
     (case router_start e io plan opened checked now st of
        (Inl error, st1) \<Rightarrow> Some (Inl error, st1)
      | (Inr r, st1) \<Rightarrow>
          (case router_rounds e io rounds r st1 of
             None \<Rightarrow> None
           | Some (r', st2) \<Rightarrow>
               (case router_stop e io ended r' st2 of (r'', st3) \<Rightarrow> Some (Inr r'', st3))))"

section \<open>A process that is not running has a start waiting\<close>

definition light :: "supervise_effect \<Rightarrow> bool" where
  "light eff \<longleftrightarrow> eff \<notin> {EffTerminate, EffStart}"

lemma light_simps [simp]:
  "light EffDemote" "light EffRestore" "light EffAlarm" "light EffClear"
  "\<not> light EffTerminate" "\<not> light EffStart"
  by (simp_all add: light_def)

lemma ended_light: "list_all light (fst (supervise_ended s now))"
  by (simp add: supervise_ended_def Let_def)

lemma carry_light:
  "list_all light effs \<Longrightarrow> \<exists>w'. carry io effs (s, child, w) = (s, child, w')"
proof (induction effs arbitrary: w)
  case (Cons eff effs)
  then show ?case by (cases eff) simp_all
qed simp

text \<open>
  What an effect list may ask of a state: lists without a start or a stop change neither
  the supervision nor the process, and a start or a stop stands alone.
\<close>

definition alone :: "supervise_effect list \<Rightarrow> bool" where
  "alone effs \<longleftrightarrow> list_all light effs \<or> effs = [EffTerminate] \<or> effs = [EffStart]"

lemma supervise_alone:
  "alone (fst (supervise_begin s))" "alone (fst (supervise_answered s))"
  "alone (fst (supervise_serves s))" "alone (fst (supervise_unanswered s))"
  "alone (fst (supervise_ended s now))" "alone (fst (supervise_due s now))"
  by (auto simp: alone_def supervise_defs Let_def split: option.split)

text \<open>A started process and a waiting start exclude each other, and one of them is there.\<close>

definition child_inv :: "supervision \<Rightarrow> u32 option \<Rightarrow> bool" where
  "child_inv s child \<longleftrightarrow> supervision_inv s \<and> (child = None \<longleftrightarrow> s_start_at s \<noteq> None)"

text \<open>What an operation has to leave behind for \<open>carry\<close> to restore that.\<close>

definition carry_pre :: "supervise_effect list \<Rightarrow> supervision \<Rightarrow> u32 option \<Rightarrow> bool" where
  "carry_pre effs s child \<longleftrightarrow> alone effs \<and> supervision_inv s \<and>
     (if effs = [EffStart] then s_start_at s = None \<and> child = None
      else child = None \<longleftrightarrow> s_start_at s \<noteq> None)"

lemma ended_child:
  "supervision_inv s \<Longrightarrow> child_inv (snd (supervise_ended s now)) None"
  unfolding child_inv_def using supervision_inv_ended [of s now]
  by (simp add: supervise_ended_def Let_def)

lemma carry_ended:
  "\<exists>w'. carry io (fst (supervise_ended s now)) (snd (supervise_ended s now), child, w) =
     (snd (supervise_ended s now), child, w')"
  by (rule carry_light [OF ended_light])

lemma carry_cases:
  assumes "alone effs" "carry io effs (s, child, w) = (s', child', w')"
  obtains (same) "effs \<noteq> [EffStart]" "s' = s" "child' = child"
  | (ended) now where "effs = [EffTerminate]" "s' = snd (supervise_ended s now)" "child' = None"
  | (started) pid where "effs = [EffStart]" "s' = s" "child' = Some pid"
  | (failed) now where "effs = [EffStart]" "s' = snd (supervise_ended s now)" "child' = child"
proof -
  consider (light) "list_all light effs" | (stop) "effs = [EffTerminate]" | (start) "effs = [EffStart]"
    using assms(1) by (auto simp: alone_def)
  then show ?thesis
  proof cases
    case light
    then have "effs \<noteq> [EffStart]" by auto
    with carry_light [OF light, of io s child w] assms(2) show ?thesis using same by auto
  next
    case stop
    show ?thesis
    proof (cases "\<exists>now w1. carry io effs (s, child, w) =
        carry io (fst (supervise_ended s now)) (snd (supervise_ended s now), None, w1)")
      case True
      with carry_ended [of io s _ None] assms(2) stop show ?thesis using ended by (metis Pair_inject)
    next
      case False
      with stop assms(2) show ?thesis using same
        by (auto split: option.splits prod.splits sum.splits) metis+
    qed
  next
    case start
    show ?thesis
    proof (cases "\<exists>now w1. carry io effs (s, child, w) =
        carry io (fst (supervise_ended s now)) (snd (supervise_ended s now), child, w1)")
      case True
      with carry_ended [of io s _ child] assms(2) start show ?thesis using failed by (metis Pair_inject)
    next
      case False
      with start assms(2) show ?thesis using started
        by (auto split: prod.splits sum.splits) metis+
    qed
  qed
qed

lemma carry_child_inv:
  assumes "carry_pre effs s child" "carry io effs (s, child, w) = (s', child', w')"
  shows "child_inv s' child'"
proof -
  have "alone effs" using assms(1) by (simp add: carry_pre_def)
  from this assms(2) show ?thesis
    by (cases rule: carry_cases)
      (use assms(1) ended_child [of s] in \<open>auto simp: carry_pre_def child_inv_def split: if_splits\<close>)
qed

text \<open>Every step of the loop keeps it.\<close>

lemma and_carry_inv:
  assumes "carry_pre (fst (f (a_supervision a))) (snd (f (a_supervision a))) (a_child a)"
    and "and_carry io f (a, w) = (a', w')"
  shows "child_inv (a_supervision a') (a_child a')"
  using assms by (auto simp: and_carry_def split: prod.splits intro: carry_child_inv)

lemma ops_pre:
  assumes "child_inv s child"
  shows "carry_pre (fst (supervise_answered s)) (snd (supervise_answered s)) child"
    "carry_pre (fst (supervise_serves s)) (snd (supervise_serves s)) child"
    "child \<noteq> None \<Longrightarrow> carry_pre (fst (supervise_unanswered s)) (snd (supervise_unanswered s)) child"
    "carry_pre (fst (supervise_due s now)) (snd (supervise_due s now)) child"
    "carry_pre (fst (supervise_ended s now)) (snd (supervise_ended s now)) None"
  using assms supervise_alone [of s] supervision_inv_ops [of s] supervision_inv_ended [of s now]
  unfolding carry_pre_def child_inv_def
  by (auto simp: supervise_defs Let_def split: option.splits if_splits)

lemma hear_inv:
  "child_inv (a_supervision a) (a_child a) \<Longrightarrow> hear io now what (a, w) = (a', w') \<Longrightarrow>
     child_inv (a_supervision a') (a_child a')"
  by (cases what) (auto split: if_splits intro: ops_pre elim!: and_carry_inv [rotated])

lemma hear_all_inv:
  "child_inv (a_supervision a) (a_child a) \<Longrightarrow> fold (hear io now) heard (a, w) = (a', w') \<Longrightarrow>
     child_inv (a_supervision a') (a_child a')"
proof (induction heard arbitrary: a w)
  case (Cons what heard)
  obtain a1 w1 where one: "hear io now what (a, w) = (a1, w1)" by fastforce
  from Cons.IH [OF hear_inv [OF Cons.prems(1) one]] Cons.prems(2) one show ?case by simp
qed simp

lemma watch_child_inv:
  assumes "child_inv (a_supervision a) (a_child a)" "watch_child io now (a, w) = (Inr a', w')"
  shows "child_inv (a_supervision a') (a_child a')"
  using assms
  by (auto simp: watch_child_def split: option.splits prod.splits sum.splits
      intro: ops_pre elim!: and_carry_inv [rotated])

lemma ask_silence_inv:
  assumes "child_inv (a_supervision a) (a_child a)" "ask_silence io asking now (a, w) = (a', w')"
  shows "child_inv (a_supervision a') (a_child a')"
  using assms
  by (auto simp: ask_silence_def Let_def split: if_splits intro: ops_pre elim!: and_carry_inv [rotated])

lemma agent_start_inv:
  assumes "agent_start io patience asking now w = (a', w')"
  shows "child_inv (a_supervision a') (a_child a')"
  using assms supervision_inv_new [of patience] unfolding agent_start_def
  by (elim and_carry_inv [rotated])
    (simp add: carry_pre_def supervise_begin_def alone_def new_supervision_def supervision_inv_def)

lemma agent_round_inv:
  assumes "child_inv (a_supervision a) (a_child a)" "agent_round io asking now heard (a, w) = (Inr a', w')"
  shows "child_inv (a_supervision a') (a_child a')"
proof -
  obtain a1 w1 where one: "fold (hear io now) heard (a, w) = (a1, w1)" by fastforce
  obtain a2 w2 where two: "watch_child io now (a1, w1) = (Inr a2, w2)"
    using assms(2) one by (auto simp: agent_round_def split: prod.splits sum.splits)
  obtain a3 w3 where three: "ask_silence io asking now (a2, w2) = (a3, w3)" by fastforce
  obtain a4 w4 where four: "and_carry io (\<lambda>s. supervise_due s now) (a3, w3) = (a4, w4)" by fastforce
  have "a_supervision a' = a_supervision a4" "a_child a' = a_child a4"
    using assms(2) one two three four
    by (auto simp: agent_round_def say_standing_def Let_def split: if_splits)
  moreover have "child_inv (a_supervision a3) (a_child a3)"
    using ask_silence_inv [OF watch_child_inv [OF hear_all_inv [OF assms(1) one] two] three] .
  then have "child_inv (a_supervision a4) (a_child a4)" using four by (elim and_carry_inv [rotated]) (rule ops_pre)
  ultimately show ?thesis by simp
qed

section \<open>What the router thread is told\<close>

text \<open>
  The channel: a claim sent is a claim received, in order, and nothing else is. \<open>sent\<close> is
  everything that went into it.
\<close>

definition channel_ok :: "'w agent_io \<Rightarrow> ('w \<Rightarrow> claim list) \<Rightarrow> bool" where
  "channel_ok io sent \<longleftrightarrow>
     (\<forall>c w. sent (ag_claim io c w) = sent w @ [c]) \<and>
     (\<forall>what w. sent (ag_say io what w) = sent w) \<and>
     (\<forall>w. sent (snd (ag_spawn io w)) = sent w) \<and>
     (\<forall>p d w. sent (snd (ag_terminate io p d w)) = sent w) \<and>
     (\<forall>p w. sent (snd (ag_ended io p w)) = sent w) \<and>
     (\<forall>w. sent (snd (ag_now io w)) = sent w)"

lemma channel_simps:
  assumes "channel_ok io sent"
  shows "sent (ag_claim io c w) = sent w @ [c]" "sent (ag_say io what w) = sent w"
    "ag_spawn io w = (x, w') \<Longrightarrow> sent w' = sent w" "ag_terminate io p d w = (y, w') \<Longrightarrow> sent w' = sent w"
    "ag_ended io p w = (z, w') \<Longrightarrow> sent w' = sent w" "ag_now io w = (t, w') \<Longrightarrow> sent w' = sent w"
  using assms unfolding channel_ok_def by (metis snd_conv)+

text \<open>Lowering and restoring take turns, starting from a claim that is up.\<close>

fun in_turn :: "bool \<Rightarrow> claim list \<Rightarrow> bool" where
  "in_turn lowered [] = True"
| "in_turn lowered (ClaimDown # cs) = (\<not> lowered \<and> in_turn True cs)"
| "in_turn lowered (ClaimUp # cs) = (lowered \<and> in_turn False cs)"

definition left_down :: "bool \<Rightarrow> claim list \<Rightarrow> bool" where
  "left_down lowered cs = (if cs = [] then lowered else last cs = ClaimDown)"

lemma left_down_simps [simp]:
  "left_down lowered [] = lowered" "left_down lowered (c # cs) = left_down (c = ClaimDown) cs"
  by (simp_all add: left_down_def)

lemma left_down_append [simp]: "left_down lowered (cs @ ds) = left_down (left_down lowered cs) ds"
  by (induction cs arbitrary: lowered) simp_all

lemma in_turn_append [simp]:
  "in_turn lowered (cs @ ds) \<longleftrightarrow> in_turn lowered cs \<and> in_turn (left_down lowered cs) ds"
  by (induction lowered cs rule: in_turn.induct) simp_all

fun claims_of :: "supervise_effect list \<Rightarrow> claim list" where
  "claims_of [] = []"
| "claims_of (EffDemote # effs) = ClaimDown # claims_of effs"
| "claims_of (EffRestore # effs) = ClaimUp # claims_of effs"
| "claims_of (_ # effs) = claims_of effs"

lemma carry_light_sent:
  assumes "channel_ok io sent"
  shows "list_all light effs \<Longrightarrow>
    sent (snd (snd (carry io effs (s, child, w)))) = sent w @ claims_of effs"
proof (induction effs arbitrary: w)
  case (Cons eff effs)
  then show ?case by (cases eff) (simp_all add: channel_simps(1,2) [OF assms])
qed simp

definition told :: "('w \<Rightarrow> claim list) \<Rightarrow> supervise_effect list \<Rightarrow> supervision \<Rightarrow> 'w \<Rightarrow> bool" where
  "told sent effs s w \<longleftrightarrow> in_turn False (sent w @ claims_of effs) \<and>
     left_down False (sent w @ claims_of effs) = s_lowered s"

lemma told_ended: "told sent [] s w \<Longrightarrow> sent w' = sent w \<Longrightarrow>
  told sent (fst (supervise_ended s now)) (snd (supervise_ended s now)) w'"
  by (auto simp: told_def supervise_ended_def Let_def)

lemma told_carry_ended:
  assumes "channel_ok io sent" "told sent [] s w" "sent w1 = sent w"
    and "carry io (fst (supervise_ended s now)) (snd (supervise_ended s now), child, w1) = (s', child', w')"
  shows "told sent [] s' w'"
proof -
  have "list_all light (fst (supervise_ended s now))" by (rule ended_light)
  from carry_light_sent [OF assms(1) this, of "snd (supervise_ended s now)" child w1] assms(4)
  have "sent w' = sent w1 @ claims_of (fst (supervise_ended s now))" by simp
  moreover have "s' = snd (supervise_ended s now)" using carry_ended [of io s now child w1] assms(4) by auto
  ultimately show ?thesis using told_ended [OF assms(2,3), of now] by (simp add: told_def)
qed

lemma told_terminate:
  assumes ok: "channel_ok io sent" and now: "told sent [] s w"
    and run: "carry io [EffTerminate] (s, child, w) = (s', child', w')"
  shows "told sent [] s' w'"
proof (cases child)
  case None
  with run now show ?thesis by simp
next
  case (Some pid)
  obtain res w1 where t: "ag_terminate io pid SILENT_PATIENCE (ag_say io (AgDataPlaneSilent pid) w) = (res, w1)"
    by fastforce
  have w1: "sent w1 = sent w" using channel_simps(4) [OF ok t] by (simp add: channel_simps(2) [OF ok])
  show ?thesis
  proof (cases res)
    case (Inl error)
    with run Some t w1 now show ?thesis by (auto simp: told_def channel_simps(2) [OF ok])
  next
    case (Inr status)
    obtain at w2 where n: "ag_now io (ag_say io (AgDataPlaneEnded status) w1) = (at, w2)" by fastforce
    have "sent w2 = sent w" using channel_simps(6) [OF ok n] w1 by (simp add: channel_simps(2) [OF ok])
    from told_carry_ended [OF ok now this] run Some t Inr n show ?thesis by simp
  qed
qed

lemma told_spawn:
  assumes ok: "channel_ok io sent" and now: "told sent [] s w"
    and run: "carry io [EffStart] (s, child, w) = (s', child', w')"
  shows "told sent [] s' w'"
proof -
  obtain res w1 where t: "ag_spawn io w = (res, w1)" by fastforce
  have w1: "sent w1 = sent w" using channel_simps(3) [OF ok t] .
  show ?thesis
  proof (cases res)
    case (Inr pid)
    with run t w1 now show ?thesis by (auto simp: told_def channel_simps(2) [OF ok])
  next
    case (Inl error)
    obtain at w2 where n: "ag_now io (ag_say io (AgStartFailed error) w1) = (at, w2)" by fastforce
    have "sent w2 = sent w" using channel_simps(6) [OF ok n] w1 by (simp add: channel_simps(2) [OF ok])
    from told_carry_ended [OF ok now this] run t Inl n show ?thesis by simp
  qed
qed

lemma told_carry:
  assumes ok: "channel_ok io sent" and "alone effs" and told: "told sent effs s w"
    and run: "carry io effs (s, child, w) = (s', child', w')"
  shows "told sent [] s' w'"
proof -
  consider (light) "list_all light effs" | (stop) "effs = [EffTerminate]" | (start) "effs = [EffStart]"
    using assms(2) by (auto simp: alone_def)
  then show ?thesis
  proof cases
    case light
    with carry_light [OF light, of io s child w] carry_light_sent [OF ok light, of s child w] run told
    show ?thesis by (auto simp: told_def)
  next
    case stop
    with told have "told sent [] s w" by (simp add: told_def)
    with stop run show ?thesis using told_terminate [OF ok] by blast
  next
    case start
    with told have "told sent [] s w" by (simp add: told_def)
    with start run show ?thesis using told_spawn [OF ok] by blast
  qed
qed

text \<open>Every operation of the supervision reports its change of the claim.\<close>

lemma told_ops:
  assumes "told sent [] s w" "supervision_inv s"
  shows "told sent (fst (supervise_begin s)) (snd (supervise_begin s)) w"
    "told sent (fst (supervise_answered s)) (snd (supervise_answered s)) w"
    "told sent (fst (supervise_serves s)) (snd (supervise_serves s)) w"
    "told sent (fst (supervise_unanswered s)) (snd (supervise_unanswered s)) w"
    "told sent (fst (supervise_ended s now)) (snd (supervise_ended s now)) w"
    "told sent (fst (supervise_due s now)) (snd (supervise_due s now)) w"
  using assms
  by (auto simp: told_def supervise_defs Let_def supervision_inv_def split: option.split)

definition agent_inv :: "('w \<Rightarrow> claim list) \<Rightarrow> agent \<Rightarrow> 'w \<Rightarrow> bool" where
  "agent_inv sent a w \<longleftrightarrow> child_inv (a_supervision a) (a_child a) \<and> told sent [] (a_supervision a) w"

lemma and_carry_told:
  assumes "channel_ok io sent" "alone (fst (f (a_supervision a)))"
    "told sent (fst (f (a_supervision a))) (snd (f (a_supervision a))) w"
    "and_carry io f (a, w) = (a', w')"
  shows "told sent [] (a_supervision a') w'"
  using assms by (auto simp: and_carry_def split: prod.splits intro: told_carry)

lemma told_cong: "told sent effs s w \<Longrightarrow> sent w' = sent w \<Longrightarrow> told sent effs s w'"
  by (simp add: told_def)

lemma agent_inv_supervised: "agent_inv sent a w \<Longrightarrow> supervision_inv (a_supervision a)"
  by (simp add: agent_inv_def child_inv_def)

lemma hear_agent_inv:
  assumes ok: "channel_ok io sent" and inv: "agent_inv sent a w" and "hear io now what (a, w) = (a', w')"
  shows "agent_inv sent a' w'"
proof -
  have told: "told sent [] (a_supervision a) w" and s: "supervision_inv (a_supervision a)"
    using inv by (simp_all add: agent_inv_def child_inv_def)
  have told': "told sent [] (a_supervision a) (ag_say io x w)" for x
    using told by (rule told_cong) (simp add: channel_simps(2) [OF ok])
  have "told sent [] (a_supervision a') w'"
    using assms(3) told' told_ops [OF told s] told_ops [OF told' s] supervise_alone
    by (cases what) (auto split: if_splits elim!: and_carry_told [OF ok, rotated 2])
  then show ?thesis using hear_inv [OF _ assms(3)] inv by (simp add: agent_inv_def)
qed

lemma hear_all_agent_inv:
  assumes ok: "channel_ok io sent"
  shows "agent_inv sent a w \<Longrightarrow> fold (hear io now) heard (a, w) = (a', w') \<Longrightarrow> agent_inv sent a' w'"
proof (induction heard arbitrary: a w)
  case (Cons what heard)
  obtain a1 w1 where one: "hear io now what (a, w) = (a1, w1)" by fastforce
  from Cons.IH [OF hear_agent_inv [OF ok Cons.prems(1) one]] Cons.prems(2) one show ?case by simp
qed simp

lemma watch_child_agent_inv:
  assumes ok: "channel_ok io sent" and inv: "agent_inv sent a w"
    and run: "watch_child io now (a, w) = (Inr a', w')"
  shows "agent_inv sent a' w'"
proof -
  have told: "told sent [] (a_supervision a) w" and s: "supervision_inv (a_supervision a)"
    using inv by (simp_all add: agent_inv_def child_inv_def)
  have told': "told sent [] (a_supervision a) w1"
    "told sent (fst (supervise_ended (a_supervision a) now)) (snd (supervise_ended (a_supervision a) now)) w1"
    if "sent w1 = sent w" for w1
    using told_cong [OF told that] told_ops(5) [OF told_cong [OF told that] s] by simp_all
  have "told sent [] (a_supervision a') w'"
    using run told supervise_alone(5) [of "a_supervision a" now]
    by (auto simp: watch_child_def split: option.splits prod.splits sum.splits
        elim!: and_carry_told [OF ok, rotated 2])
      (metis told' channel_simps(2,5) [OF ok])+
  then show ?thesis using watch_child_inv [OF _ run] inv by (simp add: agent_inv_def)
qed

lemma ask_silence_agent_inv:
  assumes ok: "channel_ok io sent" and inv: "agent_inv sent a w"
    and run: "ask_silence io asking now (a, w) = (a', w')"
  shows "agent_inv sent a' w'"
proof -
  have told: "told sent [] (a_supervision a) w" and s: "supervision_inv (a_supervision a)"
    using inv by (simp_all add: agent_inv_def child_inv_def)
  have "told sent [] (a_supervision a') w'"
    using run told told_ops(4) [OF told s] supervise_alone(4)
    by (auto simp: ask_silence_def Let_def split: if_splits elim!: and_carry_told [OF ok, rotated 2])
  then show ?thesis using ask_silence_inv [OF _ run] inv by (simp add: agent_inv_def)
qed

lemma agent_start_agent_inv:
  assumes ok: "channel_ok io sent" and "sent w = []"
    and run: "agent_start io patience asking now w = (a', w')"
  shows "agent_inv sent a' w'"
proof -
  have "told sent [] (new_supervision patience) w"
    using assms(2) by (simp add: told_def new_supervision_def)
  then have "told sent [] (a_supervision a') w'"
    using run told_ops(1) [OF _ supervision_inv_new] supervise_alone(1)
    unfolding agent_start_def by (elim and_carry_told [OF ok, rotated 2]) simp_all
  then show ?thesis using agent_start_inv [OF run] by (simp add: agent_inv_def)
qed

lemma agent_round_agent_inv:
  assumes ok: "channel_ok io sent" and inv: "agent_inv sent a w"
    and run: "agent_round io asking now heard (a, w) = (Inr a', w')"
  shows "agent_inv sent a' w'"
proof -
  obtain a1 w1 where one: "fold (hear io now) heard (a, w) = (a1, w1)" by fastforce
  obtain a2 w2 where two: "watch_child io now (a1, w1) = (Inr a2, w2)"
    using run one by (auto simp: agent_round_def split: prod.splits sum.splits)
  obtain a3 w3 where three: "ask_silence io asking now (a2, w2) = (a3, w3)" by fastforce
  obtain a4 w4 where four: "and_carry io (\<lambda>s. supervise_due s now) (a3, w3) = (a4, w4)" by fastforce
  have inv3: "agent_inv sent a3 w3"
    by (rule ask_silence_agent_inv [OF ok watch_child_agent_inv [OF ok hear_all_agent_inv [OF ok inv one] two] three])
  then have "told sent [] (a_supervision a4) w4"
    using four told_ops(6) [of sent "a_supervision a3" w3 now] supervise_alone(6)
    by (elim and_carry_told [OF ok, rotated 2]) (simp_all add: agent_inv_def child_inv_def)
  moreover have "a_supervision a' = a_supervision a4" "sent w' = sent w4"
    using run one two three four
    by (auto simp: agent_round_def say_standing_def Let_def channel_simps(2) [OF ok] split: if_splits)
  ultimately have "told sent [] (a_supervision a') w'" by (simp add: told_def)
  then show ?thesis using agent_round_inv [OF _ run] inv by (simp add: agent_inv_def)
qed

section \<open>The router thread keeps the role\<close>

lemma take_claims_role:
  assumes os: "os_ok e io held"
  shows "role_ok held r w \<Longrightarrow> take_claims e io now claims r (n, w) = (r', (n', w')) \<Longrightarrow> role_ok held r' w'"
proof (induction claims arbitrary: r n w)
  case (Cons c claims)
  obtain r1 n1 w1 where one: "(case c of ClaimDown \<Rightarrow> router_demote e io ''data_plane_down'' now r (n, w)
      | ClaimUp \<Rightarrow> router_restore e io ''data_plane_serving'' now r (n, w)) = (r1, (n1, w1))"
    using prod_cases3 by blast
  have "role_ok held r1 w1"
    using one router_demote_role [OF os Cons.prems(1)] router_restore_role [OF os Cons.prems(1)]
    by (cases c) simp_all
  moreover have "take_claims e io now claims r1 (n1, w1) = (r', (n', w'))"
    using Cons.prems(2) one by (cases c) simp_all
  ultimately show ?case by (rule Cons.IH)
qed simp

lemma router_round_role:
  assumes os: "os_ok e io held" and dry: "runs_dry io pend" and ok: "role_ok held r w"
  shows "\<exists>r' n' w'. router_round e io now claims r (n, w) = Some (r', (n', w')) \<and> role_ok held r' w'"
proof -
  obtain r1 n1 w1 where one: "take_claims e io now claims r (n, w) = (r1, (n1, w1))"
    using prod_cases3 by blast
  obtain r2 n2 w2 where two: "router_tick e io now r1 (n1, w1) = Some (r2, (n2, w2))"
    using router_tick_ends [OF dry, of e now r1 "(n1, w1)"] prod_cases3 by metis
  from router_tick_role [OF os take_claims_role [OF os ok one] two] one two show ?thesis
    by (simp add: router_round_def)
qed

lemma router_rounds_role:
  assumes os: "os_ok e io held" and dry: "runs_dry io pend"
  shows "role_ok held r w \<Longrightarrow>
    \<exists>r' n' w'. router_rounds e io rounds r (n, w) = Some (r', (n', w')) \<and> role_ok held r' w'"
proof (induction rounds arbitrary: r n w)
  case (Cons one rest)
  obtain now claims where one: "one = (now, claims)" by fastforce
  obtain r1 n1 w1 where first: "router_round e io now claims r (n, w) = Some (r1, (n1, w1))" "role_ok held r1 w1"
    using router_round_role [OF os dry Cons.prems] by blast
  from Cons.IH [OF first(2)] first(1) one show ?case by simp
qed auto

lemma agent_rounds_agent_inv:
  assumes ok: "channel_ok io sent"
  shows "agent_inv sent a w \<Longrightarrow> agent_rounds io asking rounds (a, w) = (Inr a', w') \<Longrightarrow> agent_inv sent a' w'"
proof (induction rounds arbitrary: a w)
  case (Cons one rest)
  obtain now heard where one: "one = (now, heard)" by fastforce
  obtain a1 w1 where first: "agent_round io asking now heard (a, w) = (Inr a1, w1)"
    using Cons.prems(2) one by (cases "agent_round io asking now heard (a, w)") (auto split: sum.splits)
  from Cons.IH [OF agent_round_agent_inv [OF ok Cons.prems(1) first]] Cons.prems(2) one first show ?case by simp
qed simp

end
