(* ===== verification/Agent_Properties.thy ===== *)
theory Agent_Properties
  imports Kernel Agent
begin




definition quiet_agent_io :: "claim list agent_io" where
  "quiet_agent_io = \<lparr>ag_spawn = (\<lambda>w. (Inr 41, w)), ag_terminate = (\<lambda>p d w. (Inr 0, w)),
     ag_ended = (\<lambda>p w. (Inr (Some 1), w)), ag_now = (\<lambda>w. (0, w)), ag_say = (\<lambda>what w. w),
     ag_claim = (\<lambda>c w. w @ [c])\<rparr>"

section \<open>The router thread\<close>




text \<open>
  A stop gives everything up. When the kernel removes every address it is asked to, or
  says it was not there, a stopped router ends outside the election with none of its
  virtual addresses on the interface.
\<close>

lemma router_stop_gives_up:
  assumes "os_ok e io held"
    and "\<And>a k v. case fst (netlink_change e (nl_part io) a Remove (k, v)) of
      Inr _ \<Rightarrow> True | Inl error \<Rightarrow> raw_os_error error = Some NOT_THERE"
    and "router_stop e io now r (n, w) = (r', (n', w'))"
  shows "m_state (r_machine r') = Initialize \<and> on_interface (r_carrier r') \<inter> held w' = {}"
proof -
  have goes: "fst (remove_all e io c xs st) = Inr ()" for c xs st
  proof (induction xs arbitrary: st)
    case (Cons x xs)
    obtain res st' where one: "netlink_change e (nl_part io) (carried_as c x) Remove st = (res, st')"
      using prod.exhaust by blast
    with assms(2) [of "carried_as c x" "fst st" "snd st"] Cons.IH [of st'] show ?case
      by (cases res) auto
  qed simp
  have one: "\<exists>n2 w2. carry_out e io now r1 [DropAddresses, Record t] (n1, w1) =
      (r1\<lparr>r_carrier := (r_carrier r1)\<lparr>c_due := None\<rparr>\<rparr>, (n2, w2)) \<and> on_interface (r_carrier r1) \<inter> held w2 = {}"
    for r1 t n1 w1
  proof -
    obtain res c n2 w2 where drop: "drop_all e io (r_carrier r1) (n1, w1) = (res, c, (n2, w2))"
      using prod_cases4 by blast
    have "res = Inr ()"
      using drop goes [of "(r_carrier r1)\<lparr>c_due := None\<rparr>" "c_addresses (r_carrier r1)" "(n1, w1)"]
      by (auto simp: drop_all_def Let_def split: prod.splits)
    with drop_all_held [OF os_ok_kernel [OF assms(1)] drop] drop show ?thesis
      by (simp add: quiet_simps [OF assms(1)])
  qed
  define r1 where "r1 = r\<lparr>r_machine := snd (stop (r_machine r) now)\<rparr>"
  obtain t w1 where "carry_out e io now r1 [DropAddresses, Record t] (n, w1) = (r', (n', w'))"
    using assms(3) by (cases "m_state (r_machine r) = Master")
      (auto simp: router_stop_def stop_def Let_def r1_def)
  with one [of r1 t n w1] have "r' = r1\<lparr>r_carrier := (r_carrier r1)\<lparr>c_due := None\<rparr>\<rparr>"
    "on_interface (r_carrier r1) \<inter> held w' = {}" by auto
  then show ?thesis by (simp add: r1_def stop_def Let_def on_interface_def)
qed

text \<open>
  A node that cannot take the addresses stands down, but not before it has claimed the
  role: the advertisement queued behind the refused request still leaves to every peer,
  and only then does the node drop what it took and go back to waiting.
\<close>

lemma refused_take_advertises:
  assumes "carrier_take e io (r_carrier r) now (n, w) = (Inl error, c, (n1, w1))"
    and "m_state (r_machine r) = Master"
  shows "carry_out e io now r [TakeAddresses, Advertise adv] (n, w) =
    carry_out e io now
      (r\<lparr>r_carrier := c, r_machine := (r_machine r)\<lparr>m_state := Backup, m_advertise_at := None,
         m_claim_at := Some (now + master_down_interval (m_settings (r_machine r)))\<rparr>\<rparr>)
      [Record \<lparr>tr_from = Master, tr_to = Backup, tr_reason = AddressRefused\<rparr>, DropAddresses]
      (n1, advertise_to io (own_address (m_settings (r_machine r))) adv (r_peers r)
             (os_say io (SayTakeFailed error (c_addresses c)) w1))"
  using assms by (simp add: renounce_def become_backup_def Let_def)

text \<open>A kernel that grants nothing.\<close>

definition refusing_io :: "kernel router_io" where
  "refusing_io = (kernel_io Little)\<lparr>nl_write := (\<lambda>b k. (Inl WouldBlock, k))\<rparr>"

fun carrier_ticks :: "('w, 'x) carrier_io_scheme \<Rightarrow> carrier \<Rightarrow> instant list \<Rightarrow> 'w \<Rightarrow> carrier \<times> 'w" where
  "carrier_ticks io c [] w = (c, w)"
| "carrier_ticks io c (now # rest) w = (case carrier_tick io c now w of (_, c', w') \<Rightarrow> carrier_ticks io c' rest w')"

text \<open>
  A taken address is announced five times. After a take that succeeded, with frames
  that leave, the announcement is repeated at each of the next four ticks that are due, and
  then no more.
\<close>

lemma announced_five_times:
  assumes "\<And>f v. fst (fr_send io f v) = Inr (length f)"
    and "carrier_take e io c now st = (Inr (), c1, (n1, w1))"
    and "now + GAP \<le> t1" "t1 + GAP \<le> t2" "t2 + GAP \<le> t3" "t3 + GAP \<le> t4"
  shows "carrier_ticks io c1 (t1 # t2 # t3 # t4 # later) w1 =
    (c1\<lparr>c_due := None\<rparr>, ((\<lambda>v. snd (announce io c1 v)) ^^ 4) w1)"
proof -
  have due: "c_due c1 = Some (now + GAP, 4)"
    using assms(2) by (auto simp: carrier_take_def ANNOUNCEMENTS_def split: prod.splits sum.splits)
  have same: "announce io (c1\<lparr>c_due := d\<rparr>) v = announce io c1 v" for d v
    by (simp add: announce_def announce_frames_def)
  have rest: "carrier_ticks io (c1\<lparr>c_due := None\<rparr>) later v = (c1\<lparr>c_due := None\<rparr>, v)" for v
    by (induction later) (simp_all add: carrier_tick_def)
  note tick = carrier_tick_due [where io = io, OF assms(1)]
  have more: "(1 :: u32) < 4" "(1 :: u32) < 3" "(1 :: u32) < 2" by (simp_all add: word_less_nat_alt)
  show ?thesis
    using assms(3-6) by (simp add: tick due same rest more eval_nat_numeral)
qed

text \<open>
  The receiver reads the sender and the payload of a datagram whatever hop count it
  arrives with: the byte that carries it takes no part in what the socket hands on.
\<close>

lemma raw_receive_any_ttl: "raw_receive (Inr (datagram[8 := ttl])) = raw_receive (Inr datagram)"
proof -
  have sender: "sender (bytes[8 := ttl]) = sender bytes" for bytes
    by (simp add: sender_def get_range_def nth_list_update)
  have payload: "payload (bytes[8 := ttl]) = payload bytes" for bytes
    by (auto simp: payload_def get_at_def get_from_def SHORTEST_def Let_def drop_update_cancel)
  show ?thesis by (simp add: raw_receive_def Let_def take_update_swap sender payload split: option.split)
qed

section \<open>Supervision\<close>

text \<open>
  C5: The traffic path is never forgotten. After the agent starts and through any number
  of rounds, whatever is heard and whichever calls fail, either a process is running or a
  start is scheduled, never both; the claim is down exactly while crashes are counted, and
  what the router was told alternates between down and up and agrees with it.
\<close>

theorem agent_never_forgets:
  assumes "channel_ok io sent" "sent w = []" "agent_start io patience asking now w = (a, w1)"
    and "agent_rounds io asking rounds (a, w1) = (Inr a', w')"
  shows "(a_child a' = None \<longleftrightarrow> s_start_at (a_supervision a') \<noteq> None) \<and>
    (s_lowered (a_supervision a') \<longleftrightarrow> s_crashes (a_supervision a') \<noteq> 0) \<and>
    (s_alarm (a_supervision a') \<longleftrightarrow> ALARM_AFTER \<le> s_crashes (a_supervision a')) \<and>
    in_turn False (sent w') \<and> left_down False (sent w') = s_lowered (a_supervision a')"
  using agent_rounds_agent_inv [OF assms(1) agent_start_agent_inv [OF assms(1-3)] assms(4)]
  by (simp add: agent_inv_def told_def child_inv_def supervision_inv_def)

lemma quiet_rounds: "\<exists>a' w'. agent_rounds quiet_agent_io asking rounds (a, w) = (Inr a', w')"
proof (induction rounds arbitrary: a w)
  case (Cons one rest)
  obtain now heard where one: "one = (now, heard)" by fastforce
  have "\<exists>a1 w1. watch_child quiet_agent_io now st = (Inr a1, w1)" for st :: "agent \<times> claim list"
    by (simp add: watch_child_def quiet_agent_io_def split: prod.split option.split)
  then obtain a1 w1 where "agent_round quiet_agent_io asking now heard (a, w) = (Inr a1, w1)"
    unfolding agent_round_def by (metis (no_types, lifting) prod.case sum.case(2) surj_pair)
  with Cons.IH [of a1 w1] one show ?case by simp
qed simp

theorem agent_never_forgets_witness:
  "\<exists>a w1 a' w'. agent_start quiet_agent_io 3 (secs 1) 0 [] = (a, w1) \<and>
     agent_rounds quiet_agent_io (secs 1) [(5, [HeardReported DpServing]), (9, [])] (a, w1) = (Inr a', w') \<and>
     in_turn False w'"
proof -
  have ok: "channel_ok quiet_agent_io (\<lambda>w. w)" by (simp add: channel_ok_def quiet_agent_io_def)
  obtain a w1 where start: "agent_start quiet_agent_io 3 (secs 1) 0 [] = (a, w1)" by fastforce
  obtain a' w' where rounds:
    "agent_rounds quiet_agent_io (secs 1) [(5, [HeardReported DpServing]), (9, [])] (a, w1) = (Inr a', w')"
    using quiet_rounds by blast
  from agent_never_forgets [OF ok refl start rounds] start rounds show ?thesis by blast
qed

text \<open>
  The wait before a restart doubles with every crash in a row, from a tenth of a
  second to half a minute, for every count the counter can hold.
\<close>

lemma restart_wait_doubles:
  "wait_after crashes =
     (if crashes = 0 then 0 else min (FIRST_WAIT * 2 ^ (unat crashes - 1)) LONGEST_WAIT)"
  using wait_after_values [of crashes] by (simp add: wait_after_def)

end
