(* ===== verification/Btree_Map.thy ===== *)
theory Btree_Map
  imports Prelude "HOL-Library.List_Lexorder" "HOL-Library.Char_ord" "HOL-Library.Product_Lexorder"
begin

text \<open>
  The standard library's \<open>BTreeMap\<close>, as the data plane uses it: a list of entries in the
  order of their keys. The contract the clients rely on is the locale \<open>ordered_map\<close>; the
  order of entries matters to them, because the hash ring walks it.
\<close>

fun bt_insert :: "'k::linorder \<Rightarrow> 'v \<Rightarrow> ('k \<times> 'v) list \<Rightarrow> ('k \<times> 'v) list" where
  "bt_insert k v [] = [(k, v)]"
| "bt_insert k v ((k', v') # rest) =
     (if k < k' then (k, v) # (k', v') # rest
      else if k = k' then (k, v) # rest
      else (k', v') # bt_insert k v rest)"

definition bt_get :: "'k \<Rightarrow> ('k \<times> 'v) list \<Rightarrow> 'v option" where
  "bt_get k m = map_of m k"

definition bt_range_from :: "'k::linorder \<Rightarrow> ('k \<times> 'v) list \<Rightarrow> ('k \<times> 'v) list" where
  "bt_range_from k m = dropWhile (\<lambda>e. fst e < k) m"

definition bt_retain :: "('k \<times> 'v \<Rightarrow> bool) \<Rightarrow> ('k \<times> 'v) list \<Rightarrow> ('k \<times> 'v) list" where
  "bt_retain p m = filter p m"

definition bt_wf :: "('k::linorder \<times> 'v) list \<Rightarrow> bool" where
  "bt_wf m \<longleftrightarrow> sorted_wrt (<) (map fst m)"

text \<open>
  What a client may rely on. Lookups see the last insertion, the entries come out in the
  order of their keys with no key twice, and a walk from a key sees exactly the entries
  at or after it.
\<close>

locale ordered_map =
  fixes wf :: "'m \<Rightarrow> bool"
    and empty_map :: 'm
    and get :: "'k::linorder \<Rightarrow> 'm \<Rightarrow> 'v option"
    and insert_entry :: "'k \<Rightarrow> 'v \<Rightarrow> 'm \<Rightarrow> 'm"
    and entries :: "'m \<Rightarrow> ('k \<times> 'v) list"
    and range_from :: "'k \<Rightarrow> 'm \<Rightarrow> ('k \<times> 'v) list"
  assumes wf_empty: "wf empty_map"
    and wf_insert: "wf m \<Longrightarrow> wf (insert_entry k v m)"
    and get_empty: "get k empty_map = None"
    and get_insert: "wf m \<Longrightarrow> get k' (insert_entry k v m) = (if k' = k then Some v else get k' m)"
    and entries_sorted: "wf m \<Longrightarrow> sorted_wrt (<) (map fst (entries m))"
    and entries_get: "wf m \<Longrightarrow> (k, v) \<in> set (entries m) \<longleftrightarrow> get k m = Some v"
    and range_entries: "wf m \<Longrightarrow> range_from k m = filter (\<lambda>e. k \<le> fst e) (entries m)"
begin

text \<open>The first entry at or after a key, wrapping round to the first of all.\<close>

definition clockwise :: "'k \<Rightarrow> 'm \<Rightarrow> ('k \<times> 'v) list" where
  "clockwise k m = range_from k m @ entries m"

lemma hd_sorted:
  fixes es :: "('k \<times> 'v) list"
  assumes "sorted_wrt (<) (map fst es)" "es = (p, v) # rest" "(q, u) \<in> set es"
  shows "p \<le> q"
  using assms by (auto simp: less_imp_le image_iff)

lemma clockwise_set: "wf m \<Longrightarrow> set (clockwise k m) = set (entries m)"
  by (auto simp: clockwise_def range_entries)

lemma clockwise_first:
  assumes "wf m" "clockwise k m = (p, v) # rest"
  shows "get p m = Some v"
    and "k \<le> p \<Longrightarrow> get q m \<noteq> None \<Longrightarrow> k \<le> q \<Longrightarrow> p \<le> q"
    and "p < k \<Longrightarrow> get q m \<noteq> None \<Longrightarrow> q < k \<and> p \<le> q"
proof -
  have "(p, v) \<in> set (entries m)" using assms clockwise_set [of m k] by (metis list.set_intros(1))
  then show "get p m = Some v" using entries_get assms(1) by blast
  show "k \<le> p \<Longrightarrow> get q m \<noteq> None \<Longrightarrow> k \<le> q \<Longrightarrow> p \<le> q"
  proof -
    assume "k \<le> q" "get q m \<noteq> None"
    then obtain u where u: "(q, u) \<in> set (range_from k m)"
      using entries_get [OF assms(1)] range_entries [OF assms(1)] by auto
    then have "range_from k m = (p, v) # tl (range_from k m)"
      using assms(2) unfolding clockwise_def by (cases "range_from k m") auto
    moreover have "sorted_wrt (<) (map fst (range_from k m))"
      using entries_sorted [OF assms(1)] range_entries [OF assms(1)]
      by (simp add: sorted_wrt_filter sorted_wrt_map)
    ultimately show "p \<le> q" using hd_sorted u by blast
  qed
  show "p < k \<Longrightarrow> get q m \<noteq> None \<Longrightarrow> q < k \<and> p \<le> q"
  proof -
    assume less: "p < k" and "get q m \<noteq> None"
    then obtain u where u: "(q, u) \<in> set (entries m)" using entries_get [OF assms(1)] by auto
    have "range_from k m = []"
    proof (rule ccontr)
      assume "range_from k m \<noteq> []"
      then have "(p, v) \<in> set (range_from k m)"
        using assms(2) unfolding clockwise_def by (cases "range_from k m") auto
      then show False using less range_entries [OF assms(1)] by auto
    qed
    then have "entries m = (p, v) # rest" "k \<le> q \<Longrightarrow> False"
      using assms(2) u range_entries [OF assms(1), of k] unfolding clockwise_def
      by (auto simp: filter_empty_conv)
    then show "q < k \<and> p \<le> q" using hd_sorted [OF entries_sorted [OF assms(1)]] u by force
  qed
qed

lemma clockwise_Nil: "wf m \<Longrightarrow> clockwise k m = [] \<longleftrightarrow> (\<forall>q. get q m = None)"
  using clockwise_set [of m k] entries_get [of m] by (metis all_not_in_conv not_Some_eq prod.exhaust set_empty)

end

section \<open>The list of entries keeps the contract\<close>

lemma bt_insert_keys: "set (map fst (bt_insert k v m)) = insert k (set (map fst m))"
  by (induction k v m rule: bt_insert.induct) auto

lemma bt_insert_wf: "bt_wf m \<Longrightarrow> bt_wf (bt_insert k v m)"
proof (induction k v m rule: bt_insert.induct)
  case (2 k v k' v' rest)
  have "\<forall>x \<in> set (bt_insert k v rest). k' < fst x" if "k' < k"
    using 2(2) that bt_insert_keys [of k v rest] by (force simp: bt_wf_def)
  with 2 show ?case by (force simp: bt_wf_def)
qed (simp add: bt_wf_def)

lemma bt_get_insert:
  "bt_wf m \<Longrightarrow> bt_get k' (bt_insert k v m) = (if k' = k then Some v else bt_get k' m)"
  by (induction k v m rule: bt_insert.induct) (auto simp: bt_get_def bt_wf_def)

lemma bt_wf_distinct: "bt_wf m \<Longrightarrow> distinct (map fst m)"
  by (simp add: bt_wf_def strict_sorted_iff)

lemma bt_range_filter: "bt_wf m \<Longrightarrow> bt_range_from k m = filter (\<lambda>e. k \<le> fst e) m"
proof (induction m)
  case (Cons e m)
  then have "k \<le> fst e \<Longrightarrow> filter (\<lambda>e. k \<le> fst e) m = m"
    by (force simp: bt_wf_def filter_id_conv)
  with Cons show ?case by (auto simp: bt_range_from_def bt_wf_def not_less)
qed (simp add: bt_range_from_def)

interpretation btree: ordered_map bt_wf "[]" bt_get bt_insert "\<lambda>m. m" bt_range_from
proof unfold_locales
  show "bt_wf []" by (simp add: bt_wf_def)
  show "bt_get k [] = None" for k :: 'a by (simp add: bt_get_def)
  show "bt_wf m \<Longrightarrow> (k, v) \<in> set m \<longleftrightarrow> bt_get k m = Some v" for m :: "('a \<times> 'b) list" and k v
    using bt_wf_distinct [of m] by (simp add: bt_get_def)
qed (simp_all add: bt_insert_wf bt_get_insert bt_range_filter, simp add: bt_wf_def)

lemma bt_retain_wf: "bt_wf m \<Longrightarrow> bt_wf (bt_retain p m)"
  by (simp add: bt_wf_def bt_retain_def sorted_wrt_filter sorted_wrt_map)

lemma bt_get_retain:
  "bt_wf m \<Longrightarrow> bt_get k (bt_retain p m) =
     (case bt_get k m of None \<Rightarrow> None | Some v \<Rightarrow> if p (k, v) then Some v else None)"
proof (induction m)
  case (Cons e m)
  obtain q u where e: "e = (q, u)" by fastforce
  have "q \<notin> set (map fst m)" using bt_wf_distinct [OF Cons.prems] e by simp
  then have "map_of m q = None" "map_of (filter p m) q = None" by (force simp: map_of_eq_None_iff)+
  with Cons e show ?case by (simp add: bt_get_def bt_retain_def bt_wf_def)
qed (simp add: bt_get_def bt_retain_def)

end
