(* ===== verification/Hashring.thy ===== *)
theory Hashring
  imports Btree_Map Text
begin

text \<open>
  \<open>hashring.rs\<close>: consistent hashing. The hash is FNV-1a at its 64-bit width, the ring is
  the ordered map of \<open>Btree_Map\<close>, and a pick walks it clockwise from the key.
\<close>

unbundle bit_operations_syntax

section \<open>The hash\<close>

definition REPLICAS :: nat where "REPLICAS = 160"
definition OFFSET_BASIS :: u64 where "OFFSET_BASIS = 0xcbf29ce484222325"
definition PRIME :: u64 where "PRIME = 0x00000100000001b3"

definition hash_step :: "u64 \<Rightarrow> byte \<Rightarrow> u64" where
  "hash_step value b = (value XOR ucast b) * PRIME"

definition hash :: "byte list \<Rightarrow> u64" where
  "hash bytes = foldl hash_step OFFSET_BASIS bytes"

section \<open>The ring\<close>

type_synonym ring = "(u64 \<times> nat) list"

definition ring_point :: "string \<Rightarrow> nat \<Rightarrow> u64" where
  "ring_point member replica = hash (as_bytes (member @ ''#'' @ decimal replica))"

definition place :: "nat \<Rightarrow> string \<Rightarrow> ring \<Rightarrow> ring" where
  "place at member points = fold (\<lambda>replica. bt_insert (ring_point member replica) at) [0..<REPLICAS] points"

definition build :: "string list \<Rightarrow> ring" where
  "build members = fold (\<lambda>(at, member). place at member) (enumerate 0 members) []"

definition ring_is_empty :: "ring \<Rightarrow> bool" where
  "ring_is_empty r \<longleftrightarrow> r = []"

definition pick_where :: "ring \<Rightarrow> u64 \<Rightarrow> (nat \<Rightarrow> bool) \<Rightarrow> nat option" where
  "pick_where r key acceptable = List.find acceptable (map snd (bt_range_from key r @ r))"

definition pick :: "ring \<Rightarrow> u64 \<Rightarrow> nat option" where
  "pick r key = pick_where r key (\<lambda>_. True)"

section \<open>Who owns a point\<close>

lemma fold_insert_get:
  "bt_wf m \<Longrightarrow> bt_wf (fold (\<lambda>x. bt_insert (f x) v) xs m) \<and>
     bt_get p (fold (\<lambda>x. bt_insert (f x) v) xs m) = (if p \<in> f ` set xs then Some v else bt_get p m)"
  by (induction xs arbitrary: m) (auto simp: bt_insert_wf bt_get_insert)

definition points_of :: "string \<Rightarrow> u64 set" where
  "points_of member = ring_point member ` {0..<REPLICAS}"

lemma place_get:
  assumes "bt_wf m"
  shows "bt_wf (place at member m)"
    "bt_get p (place at member m) = (if p \<in> points_of member then Some at else bt_get p m)"
  using fold_insert_get [OF assms, where f = "ring_point member" and v = at and xs = "[0..<REPLICAS]" and p = p]
  by (simp_all add: place_def points_of_def)

lemma build_snoc: "build (ms @ [x]) = place (length ms) x (build ms)"
  by (simp add: build_def enumerate_append_eq)

lemma build_wf: "bt_wf (build ms)"
proof (induction ms rule: rev_induct)
  case Nil
  show ?case by (simp add: build_def bt_wf_def)
qed (simp add: build_snoc place_get)

text \<open>The identity a point belongs to: the last member listed that has it.\<close>

definition owner :: "string list \<Rightarrow> u64 \<Rightarrow> string option" where
  "owner ms p = map_option ((!) ms) (bt_get p (build ms))"

lemma build_index: "bt_get p (build ms) = Some i \<Longrightarrow> i < length ms"
proof (induction ms rule: rev_induct)
  case Nil
  then show ?case by (simp add: build_def bt_get_def)
next
  case (snoc x ms)
  then show ?case by (auto simp: build_snoc place_get(2) [OF build_wf] split: if_splits)
qed

lemma owner_snoc: "owner (ms @ [x]) p = (if p \<in> points_of x then Some x else owner ms p)"
proof (cases "p \<in> points_of x")
  case True
  then show ?thesis by (simp add: owner_def build_snoc place_get(2) [OF build_wf])
next
  case False
  then show ?thesis
    by (auto simp: owner_def build_snoc place_get(2) [OF build_wf] nth_append
        dest: build_index intro!: option.map_cong0 cong: option.map_cong)
qed

lemma owner_Nil [simp]: "owner [] p = None"
  by (simp add: owner_def build_def bt_get_def)

lemma owner_without:
  "owner (filter (\<lambda>m. m \<noteq> x) ms) p \<noteq> owner ms p \<Longrightarrow> owner ms p = Some x"
  by (induction ms rule: rev_induct) (auto simp: owner_snoc split: if_splits)

lemma owner_other_None: "owner ms p = None \<Longrightarrow> owner (filter P ms) p = None"
  by (induction ms rule: rev_induct) (auto simp: owner_snoc split: if_splits)

lemma owner_member: "owner ms p = Some m \<Longrightarrow> m \<in> set ms \<and> p \<in> points_of m"
  by (induction ms rule: rev_induct) (auto simp: owner_snoc split: if_splits)

lemma owner_exists: "m \<in> set ms \<Longrightarrow> p \<in> points_of m \<Longrightarrow> owner ms p \<noteq> None"
  by (induction ms rule: rev_induct) (auto simp: owner_snoc)

lemma points_of_nonempty: "points_of m \<noteq> {}"
  by (simp add: points_of_def REPLICAS_def)

section \<open>The walk\<close>

lemma pick_where_acceptable:
  assumes "pick_where r key P = Some at"
  shows "P at \<and> at \<in> snd ` set r"
proof -
  from assms obtain i where "i < length (map snd (bt_range_from key r @ r))"
    "P (map snd (bt_range_from key r @ r) ! i)" "at = map snd (bt_range_from key r @ r) ! i"
    unfolding pick_where_def find_Some_iff by blast
  then have "P at \<and> at \<in> set (map snd (bt_range_from key r @ r))" by (metis nth_mem)
  then show ?thesis by (auto simp: bt_range_from_def dest!: set_dropWhileD)
qed

lemma pick_where_None: "pick_where r key P = None \<longleftrightarrow> (\<forall>at \<in> snd ` set r. \<not> P at)"
  by (auto simp: pick_where_def bt_range_from_def find_None_iff dest: set_dropWhileD)

text \<open>Turning members away that a key does not go to leaves the key where it is.\<close>

lemma pick_where_stable:
  assumes "pick_where r key P = Some at" "Q at" "\<And>i. Q i \<Longrightarrow> P i"
  shows "pick_where r key Q = Some at"
  using assms unfolding pick_where_def find_Some_iff by blast

text \<open>The pick by identity: the owner of the first point clockwise from the key.\<close>

definition picked :: "string list \<Rightarrow> u64 \<Rightarrow> string option" where
  "picked ms key = map_option ((!) ms) (pick (build ms) key)"

lemma pick_hd: "pick r key = (case btree.clockwise key r of [] \<Rightarrow> None | e # _ \<Rightarrow> Some (snd e))"
  unfolding pick_def pick_where_def btree.clockwise_def
  by (cases "bt_range_from key r @ r") (simp_all del: map_append append_is_Nil_conv)

lemma first_unique:
  fixes p :: u64
  assumes "D p" "D p'"
    and p: "if key \<le> p then \<forall>q. D q \<and> key \<le> q \<longrightarrow> p \<le> q else \<forall>q. D q \<longrightarrow> q < key \<and> p \<le> q"
    and p': "if key \<le> p' then \<forall>q. D q \<and> key \<le> q \<longrightarrow> p' \<le> q else \<forall>q. D q \<longrightarrow> q < key \<and> p' \<le> q"
  shows "p' = p"
proof (cases "key \<le> p")
  case True
  with p' \<open>D p\<close> have "key \<le> p'" by (metis leD)
  with True assms show ?thesis by (simp add: order.antisym)
next
  case False
  with p \<open>D p'\<close> have "\<not> key \<le> p'" by (metis leD)
  with False assms show ?thesis by (simp add: order.antisym)
qed

lemma picked_Some:
  "picked ms key = Some m \<longleftrightarrow> (\<exists>p. owner ms p = Some m \<and>
     (if key \<le> p then \<forall>q. owner ms q \<noteq> None \<and> key \<le> q \<longrightarrow> p \<le> q
      else \<forall>q. owner ms q \<noteq> None \<longrightarrow> q < key \<and> p \<le> q))"
    (is "?L \<longleftrightarrow> (\<exists>p. ?R p)")
proof (cases "btree.clockwise key (build ms)")
  case Nil
  then have "\<And>q. bt_get q (build ms) = None" using btree.clockwise_Nil [OF build_wf] by blast
  with Nil show ?thesis by (simp add: picked_def pick_hd owner_def)
next
  case (Cons e rest)
  obtain p v where e: "e = (p, v)" by fastforce
  note first = btree.clockwise_first [OF build_wf Cons [unfolded e]]
  have some: "bt_get q (build ms) \<noteq> None \<longleftrightarrow> owner ms q \<noteq> None" for q by (simp add: owner_def)
  have picks: "picked ms key = Some (ms ! v)" using Cons e by (simp add: picked_def pick_hd)
  have owns: "owner ms p = Some (ms ! v)" using first(1) by (simp add: owner_def)
  have here: "if key \<le> p then \<forall>q. owner ms q \<noteq> None \<and> key \<le> q \<longrightarrow> p \<le> q
      else \<forall>q. owner ms q \<noteq> None \<longrightarrow> q < key \<and> p \<le> q"
    using first(2,3) some by (auto simp: not_le)
  show ?thesis
  proof
    assume ?L
    with picks have "m = ms ! v" by simp
    with owns here have "?R p" by (intro conjI) simp_all
    then show "\<exists>p. ?R p" by blast
  next
    assume "\<exists>p. ?R p"
    then obtain p' where p': "?R p'" by blast
    have "p' = p"
      by (rule first_unique [where D = "\<lambda>q. owner ms q \<noteq> None" and key = key, OF _ _ here conjunct2 [OF p']])
        (simp_all add: owns conjunct1 [OF p'])
    with p' owns picks show ?L by simp
  qed
qed

text \<open>Taking a member off the ring moves the keys it had, and no others.\<close>

lemma picked_without:
  assumes "picked ms key = Some m" "m \<noteq> x"
  shows "picked (filter (\<lambda>y. y \<noteq> x) ms) key = Some m"
proof -
  let ?ms = "filter (\<lambda>y. y \<noteq> x) ms"
  from assms(1) obtain p where p: "owner ms p = Some m"
    "if key \<le> p then \<forall>q. owner ms q \<noteq> None \<and> key \<le> q \<longrightarrow> p \<le> q
     else \<forall>q. owner ms q \<noteq> None \<longrightarrow> q < key \<and> p \<le> q"
    unfolding picked_Some by blast
  have "owner ?ms p = Some m" using owner_without [of x ms p] p(1) assms(2) by force
  moreover have "owner ?ms q \<noteq> None \<Longrightarrow> owner ms q \<noteq> None" for q
    by (erule contrapos_nn) (rule owner_other_None)
  ultimately show ?thesis using p(2) unfolding picked_Some by (intro exI [of _ p]) auto
qed

lemma pick_total: "ms \<noteq> [] \<Longrightarrow> pick (build ms) key \<noteq> None"
proof -
  assume "ms \<noteq> []"
  then obtain m where "m \<in> set ms" by fastforce
  then obtain p where "owner ms p \<noteq> None" using owner_exists points_of_nonempty by blast
  then have "bt_get p (build ms) \<noteq> None" by (simp add: owner_def)
  then have "btree.clockwise key (build ms) \<noteq> []" using btree.clockwise_Nil [OF build_wf] by metis
  then show ?thesis by (simp add: pick_hd split: list.split)
qed

text \<open>Every member of the list has a point on its ring, and an index stands for it.\<close>

lemma ring_index_of:
  assumes "m \<in> set ms"
  obtains i p where "(p, i) \<in> set (build ms)" "i < length ms"
proof -
  obtain p where "owner ms p \<noteq> None" using owner_exists [OF assms] points_of_nonempty by blast
  then obtain i where "bt_get p (build ms) = Some i" by (auto simp: owner_def)
  then show ?thesis using that btree.entries_get [OF build_wf] build_index by blast
qed

end
