(* ===== verification/Backends.thy ===== *)
theory Backends
  imports Btree_Map
begin

text \<open>
  The part of the configuration the traffic path reads: \<open>backend.rs\<close> and \<open>health.rs\<close> of
  the configuration crate. Identities are the strings they wrap.
\<close>

datatype lb_algorithm = RoundRobin | LeastConnections | SourceIpHash | ConsistentHash

datatype same_site = SameSiteStrict | SameSiteLax | SameSiteNone

datatype stickiness = StickinessDisabled | SignedCookie string same_site

datatype connection_pooling = PoolingEnabled | PoolingDisabled

datatype admin_state = Enabled | Draining | Disabled

datatype transport_protocol = Tcp | Udp

datatype probe_payload = PayloadText string | PayloadHex string

datatype dns_record_type = DnsA | DnsAaaa | DnsSoa

datatype health_probe =
    TcpConnect
  | HttpProbe string "u16 list" "string option" "string option"
  | SendExpect probe_payload probe_payload transport_protocol
  | DnsQuery string dns_record_type

record health_check =
  hc_probe :: health_probe
  hc_interval_ms :: u32
  hc_timeout_ms :: u32
  hc_healthy_threshold :: byte
  hc_unhealthy_threshold :: byte

record backend_member =
  bm_id :: string
  bm_address :: ip_addr
  bm_port :: u16
  bm_weight :: u16
  bm_admin_state :: admin_state

record backend =
  b_id :: string
  b_members :: "backend_member list"
  b_algorithm :: lb_algorithm
  b_health_check :: "health_check option"
  b_stickiness :: stickiness
  b_connection_pooling :: connection_pooling
  b_connection_pool_size :: u32
  b_connection_lifetime_seconds :: u32

definition default_pool_size :: u32 where "default_pool_size = 128"

definition default_connection_lifetime_seconds :: u32 where
  "default_connection_lifetime_seconds = 300"

definition limits_requests_in_flight :: "backend \<Rightarrow> bool" where
  "limits_requests_in_flight b \<longleftrightarrow> b_connection_pool_size b > 0"

definition backend_reuse_group :: "backend \<Rightarrow> u64 \<Rightarrow> u64" where
  "backend_reuse_group b seconds =
     (if b_connection_lifetime_seconds b = 0 then 0
      else seconds div ucast (b_connection_lifetime_seconds b))"

end
