(* ===== verification/Health.thy ===== *)
theory Health
  imports Backends "HOL-Library.Sublist"
begin

text \<open>
  \<open>health.rs\<close> of the data plane: turning a run of probe answers into which members take
  traffic. The table is behind a mutex; a mutex a panicking thread left poisoned refuses
  every later lock, which the model keeps as a flag.
\<close>

section \<open>Data\<close>

type_synonym member_key = "string \<times> string"

record health_state =
  hs_healthy :: bool
  hs_failures :: u32
  hs_successes :: u32
  hs_transitions :: u64

definition default_state :: health_state where
  "default_state = \<lparr>hs_healthy = True, hs_failures = 0, hs_successes = 0, hs_transitions = 0\<rparr>"

record health =
  h_poisoned :: bool
  h_states :: "(member_key \<times> health_state) list"

definition new_health :: health where
  "new_health = \<lparr>h_poisoned = False, h_states = []\<rparr>"

datatype health_change = NoChange | WentUnhealthy | WentHealthy

section \<open>Operations\<close>

definition is_healthy :: "health \<Rightarrow> string \<Rightarrow> string \<Rightarrow> bool" where
  "is_healthy h pool member =
     (if h_poisoned h then True
      else case bt_get (pool, member) (h_states h) of
        None \<Rightarrow> True
      | Some s \<Rightarrow> hs_healthy s)"

definition saturating_inc_u64 :: "u64 \<Rightarrow> u64" where
  "saturating_inc_u64 n = (if n = - 1 then n else n + 1)"

text \<open>One answer on one member's state.\<close>

definition take_answer :: "health_check \<Rightarrow> bool \<Rightarrow> health_state \<Rightarrow> health_change \<times> health_state" where
  "take_answer check good s =
     (if good then
        let s1 = s\<lparr>hs_successes := saturating_inc (hs_successes s), hs_failures := 0\<rparr> in
        if \<not> hs_healthy s1 \<and> hs_successes s1 \<ge> ucast (max (hc_healthy_threshold check) 1) then
          (WentHealthy, s1\<lparr>hs_healthy := True, hs_transitions := saturating_inc_u64 (hs_transitions s1)\<rparr>)
        else (NoChange, s1)
      else
        let s1 = s\<lparr>hs_failures := saturating_inc (hs_failures s), hs_successes := 0\<rparr> in
        if hs_healthy s1 \<and> hs_failures s1 \<ge> ucast (max (hc_unhealthy_threshold check) 1) then
          (WentUnhealthy, s1\<lparr>hs_healthy := False, hs_transitions := saturating_inc_u64 (hs_transitions s1)\<rparr>)
        else (NoChange, s1))"

definition or_default :: "health_state option \<Rightarrow> health_state" where
  "or_default got = (case got of None \<Rightarrow> default_state | Some s \<Rightarrow> s)"

definition record_answer ::
  "health \<Rightarrow> string \<Rightarrow> string \<Rightarrow> health_check \<Rightarrow> bool \<Rightarrow> health_change \<times> health" where
  "record_answer h pool member check good =
     (if h_poisoned h then (NoChange, h)
      else case take_answer check good (or_default (bt_get (pool, member) (h_states h))) of (change, s) \<Rightarrow>
        (change, h\<lparr>h_states := bt_insert (pool, member) s (h_states h)\<rparr>))"

definition failures :: "health \<Rightarrow> string \<Rightarrow> string \<Rightarrow> u32" where
  "failures h pool member =
     (if h_poisoned h then 0
      else case bt_get (pool, member) (h_states h) of None \<Rightarrow> 0 | Some s \<Rightarrow> hs_failures s)"

text \<open>The members a configuration has health checks for.\<close>

definition alive_members :: "backend list \<Rightarrow> member_key list" where
  "alive_members backends =
     concat (map (\<lambda>pool. if b_health_check pool = None then []
       else map (\<lambda>m. (b_id pool, bm_id m)) (b_members pool)) backends)"

definition retain_members :: "health \<Rightarrow> backend list \<Rightarrow> health" where
  "retain_members h backends =
     (if h_poisoned h then h
      else h\<lparr>h_states := bt_retain (\<lambda>(key, _). key \<in> set (alive_members backends)) (h_states h)\<rparr>)"

definition health_report :: "health \<Rightarrow> (string \<times> string \<times> bool \<times> u64) list" where
  "health_report h =
     (if h_poisoned h then []
      else map (\<lambda>((pool, member), s). (pool, member, hs_healthy s, hs_transitions s)) (h_states h))"

record checked =
  ch_pool :: string
  ch_member :: string
  ch_address :: ip_addr
  ch_port :: u16
  ch_check :: health_check

definition checked_members :: "backend list \<Rightarrow> checked list" where
  "checked_members backends =
     concat (map (\<lambda>pool. case b_health_check pool of
         None \<Rightarrow> []
       | Some check \<Rightarrow>
           List.map_filter (\<lambda>m. if bm_admin_state m = Disabled then None
             else Some \<lparr>ch_pool = b_id pool, ch_member = bm_id m, ch_address = bm_address m,
               ch_port = bm_port m, ch_check = check\<rparr>) (b_members pool)) backends)"

section \<open>Runs of answers\<close>

text \<open>One member's state under a run of answers, with the changes it made on the way.\<close>

fun take_answers :: "health_check \<Rightarrow> bool list \<Rightarrow> health_state \<Rightarrow> health_change list \<times> health_state" where
  "take_answers check [] s = ([], s)"
| "take_answers check (good # rest) s =
     (case take_answer check good s of (change, s1) \<Rightarrow>
      case take_answers check rest s1 of (changes, s2) \<Rightarrow> (change # changes, s2))"

text \<open>What the operator's two thresholds mean, with zero read as one.\<close>

definition down_after :: "health_check \<Rightarrow> nat" where
  "down_after check = max (unat (hc_unhealthy_threshold check)) 1"

definition up_after :: "health_check \<Rightarrow> nat" where
  "up_after check = max (unat (hc_healthy_threshold check)) 1"

lemma unat_threshold: "unat (ucast (max b (1::byte)) :: u32) = max (unat b) 1"
proof -
  have "unat (ucast (max b (1::byte)) :: u32) = unat (max b 1)"
    using unat_byte_less [of "max b 1"]
    by (simp add: unsigned_ucast_eq take_bit_nat_eq_self_iff del: unat_byte_less)
  then show ?thesis by (simp add: max_def word_le_nat_alt)
qed

lemma threshold_le:
  "ucast (max (hc_unhealthy_threshold c) 1) \<le> (n :: u32) \<longleftrightarrow> down_after c \<le> unat n"
  "ucast (max (hc_healthy_threshold c) 1) \<le> (n :: u32) \<longleftrightarrow> up_after c \<le> unat n"
  by (simp_all add: word_le_nat_alt unat_threshold down_after_def up_after_def)

lemma after_bounds: "down_after c \<le> 255" "up_after c \<le> 255" "1 \<le> down_after c" "1 \<le> up_after c"
  using unat_byte_less [of "hc_unhealthy_threshold c"] unat_byte_less [of "hc_healthy_threshold c"]
  by (simp_all add: down_after_def up_after_def del: unat_byte_less)

text \<open>
  Both directions are one argument: \<open>b\<close> is the answer that would move the member, its
  count is the run of such answers so far, and \<open>flips_after\<close> is how many it takes.
\<close>

definition flips_after :: "health_check \<Rightarrow> bool \<Rightarrow> nat" where
  "flips_after c b = (if b then up_after c else down_after c)"

definition count_of :: "health_state \<Rightarrow> bool \<Rightarrow> nat" where
  "count_of s b = unat (if b then hs_successes s else hs_failures s)"

lemma flips_after_bounds: "flips_after c b \<le> 255" "1 \<le> flips_after c b"
  using after_bounds [of c] by (simp_all add: flips_after_def)

lemma take_answer_break:
  "hs_healthy s = (\<not> b) \<Longrightarrow> fst (take_answer c (\<not> b) s) = NoChange \<and>
     hs_healthy (snd (take_answer c (\<not> b) s)) = (\<not> b) \<and> count_of (snd (take_answer c (\<not> b) s)) b = 0"
  by (cases b) (simp_all add: take_answer_def Let_def count_of_def)

lemma take_answer_run:
  assumes "hs_healthy s = (\<not> b)" "count_of s b < flips_after c b"
  shows "Suc (count_of s b) < flips_after c b \<Longrightarrow> fst (take_answer c b s) = NoChange \<and>
      hs_healthy (snd (take_answer c b s)) = (\<not> b) \<and>
      count_of (snd (take_answer c b s)) b = Suc (count_of s b)"
    and "\<not> Suc (count_of s b) < flips_after c b \<Longrightarrow>
      fst (take_answer c b s) = (if b then WentHealthy else WentUnhealthy) \<and>
      hs_healthy (snd (take_answer c b s)) = b"
  using assms flips_after_bounds(1) [of c b] after_bounds [of c]
  by (cases b; auto simp: take_answer_def Let_def count_of_def flips_after_def threshold_le
        unat_saturating_inc)+

text \<open>A run never spans an answer of the other kind.\<close>

lemma run_after_break:
  assumes "f < d"
  shows "sublist (replicate d b) (replicate f b @ (\<not> b) # xs) \<longleftrightarrow> sublist (replicate d b) xs"
proof
  let ?ys = "replicate f b @ (\<not> b) # xs"
  assume "sublist (replicate d b) ?ys"
  then obtain ps ss where split: "?ys = ps @ replicate d b @ ss" by (auto simp: sublist_def)
  have "f < length ps"
  proof (rule ccontr)
    assume "\<not> f < length ps"
    then have "f - length ps < d" using assms by linarith
    with \<open>\<not> f < length ps\<close> have "(ps @ replicate d b @ ss) ! f = b" by (simp add: nth_append)
    moreover have "?ys ! f = (\<not> b)" by (simp add: nth_append)
    ultimately show False using split by simp
  qed
  then have "xs = drop (Suc f) ps @ replicate d b @ ss"
    using arg_cong [OF split, of "drop (Suc f)"] by simp
  then show "sublist (replicate d b) xs" unfolding sublist_def by blast
next
  assume "sublist (replicate d b) xs"
  then show "sublist (replicate d b) (replicate f b @ (\<not> b) # xs)"
    by (metis append_Cons append_Nil append_assoc sublist_appendI sublist_def)
qed

lemma run_Cons: "replicate f b @ b # xs = replicate (Suc f) b @ xs"
  by (induction f) simp_all

lemma run_starts: "sublist (replicate (Suc f) b) (replicate f b @ b # xs)"
  unfolding run_Cons by (intro sublist_append_rightI)

lemma unmoved_iff:
  assumes "hs_healthy s = (\<not> b)" "count_of s b < flips_after c b"
  shows "set (fst (take_answers c xs s)) \<subseteq> {NoChange} \<longleftrightarrow>
    \<not> sublist (replicate (flips_after c b) b) (replicate (count_of s b) b @ xs)"
  using assms
proof (induction xs arbitrary: s)
  case Nil
  then show ?case by (auto dest: sublist_length_le)
next
  case (Cons good xs)
  let ?s = "snd (take_answer c good s)"
  have step: "set (fst (take_answers c (good # xs) s)) \<subseteq> {NoChange} \<longleftrightarrow>
      fst (take_answer c good s) = NoChange \<and> set (fst (take_answers c xs ?s)) \<subseteq> {NoChange}"
    by (simp add: case_prod_unfold)
  show ?case
  proof (cases "good = b")
    case False
    then have good: "good = (\<not> b)" by simp
    from take_answer_break [OF Cons.prems(1), of c] Cons.IH [of ?s] flips_after_bounds(2) [of c b]
    show ?thesis using step run_after_break [OF Cons.prems(2), of b xs] unfolding good
      by (simp del: take_answers.simps)
  next
    case True
    show ?thesis
    proof (cases "Suc (count_of s b) < flips_after c b")
      case more: True
      from take_answer_run(1) [OF Cons.prems more] Cons.IH [of ?s] more True
      show ?thesis unfolding step by (simp add: run_Cons del: replicate_Suc)
    next
      case False
      with Cons.prems(2) have "flips_after c b = Suc (count_of s b)" by simp
      with take_answer_run(2) [OF Cons.prems False] True run_starts [of "count_of s b" b xs]
      show ?thesis unfolding step by (simp del: replicate_Suc)
    qed
  qed
qed

section \<open>One member's answers touch one member\<close>

lemma record_answer_get:
  assumes "bt_wf (h_states h)" "\<not> h_poisoned h" "record_answer h pool member check good = (change, h')"
  shows "bt_wf (h_states h')" "\<not> h_poisoned h'"
    "or_default (bt_get k (h_states h')) =
      (if k = (pool, member) then snd (take_answer check good (or_default (bt_get k (h_states h))))
       else or_default (bt_get k (h_states h)))"
    "change = fst (take_answer check good (or_default (bt_get (pool, member) (h_states h))))"
  using assms
  by (auto simp: record_answer_def or_default_def bt_insert_wf bt_get_insert split: prod.splits)

lemma is_healthy_or_default:
  "\<not> h_poisoned h \<Longrightarrow> is_healthy h pool member = hs_healthy (or_default (bt_get (pool, member) (h_states h)))"
  by (simp add: is_healthy_def or_default_def default_state_def split: option.split)

end
