(* ===== verification/Balance.thy ===== *)
theory Balance
  imports Hashring Health "HOL-Library.Multiset"
begin

text \<open>
  \<open>balance.rs\<close>: choosing which member of a pool answers a request, and counting what each
  one carries. A count is a \<open>u64\<close> and so is the round robin cursor; both wrap, as the
  release build does.
\<close>

section \<open>Data\<close>

type_synonym carried_key = "string \<times> string \<times> string"

record balancer =
  bal_cursor :: u64
  bal_poisoned :: bool
  bal_open :: "(carried_key \<times> u64) list"
  bal_health :: health

definition new_balancer :: balancer where
  "new_balancer = \<lparr>bal_cursor = 0, bal_poisoned = False, bal_open = [], bal_health = new_health\<rparr>"

definition with_health :: "health \<Rightarrow> balancer" where
  "with_health h = new_balancer\<lparr>bal_health := h\<rparr>"

section \<open>Who may be chosen\<close>

definition enabled :: "backend \<Rightarrow> backend_member list" where
  "enabled pool = filter (\<lambda>m. bm_admin_state m = Enabled) (b_members pool)"

definition eligible :: "backend \<Rightarrow> health \<Rightarrow> backend_member list" where
  "eligible pool h = filter (\<lambda>m. is_healthy h (b_id pool) (bm_id m)) (enabled pool)"

definition by_weight :: "backend_member list \<Rightarrow> backend_member list" where
  "by_weight members = concat (map (\<lambda>m. replicate (unat (max (bm_weight m) 1)) m) members)"

definition total_for :: "(carried_key \<times> u64) list \<Rightarrow> string \<Rightarrow> string \<Rightarrow> u64" where
  "total_for opens pool member =
     sum_list (map snd (filter (\<lambda>((_, at_pool, at_member), _). at_pool = pool \<and> at_member = member) opens))"

definition ring_for :: "backend \<Rightarrow> ring" where
  "ring_for pool = build (map bm_id (enabled pool))"

section \<open>Choosing\<close>

text \<open>\<open>slice::get\<close> at the remainder of a division by the length.\<close>

definition get_mod :: "'a list \<Rightarrow> u64 \<Rightarrow> 'a option" where
  "get_mod xs at = get_at (unat (at mod of_nat (length xs))) xs"

definition choose_by :: "balancer \<Rightarrow> backend \<Rightarrow> ring \<Rightarrow> byte list \<Rightarrow> backend_member option \<times> balancer" where
  "choose_by b pool r key =
     (let members = eligible pool (bal_health b) in
      if members = [] then (None, b)
      else case b_algorithm pool of
        RoundRobin \<Rightarrow>
          (get_mod (by_weight members) (bal_cursor b), b\<lparr>bal_cursor := bal_cursor b + 1\<rparr>)
      | LeastConnections \<Rightarrow>
          (if bal_poisoned b then None
           else min_by_key (\<lambda>m. (total_for (bal_open b) (b_id pool) (bm_id m), bm_id m)) members, b)
      | SourceIpHash \<Rightarrow> (get_mod (by_weight members) (hash key), b)
      | ConsistentHash \<Rightarrow>
          (case pick_where r (hash key) (\<lambda>at. case get_at at (enabled pool) of
                None \<Rightarrow> False | Some m \<Rightarrow> is_healthy (bal_health b) (b_id pool) (bm_id m)) of
             None \<Rightarrow> None
           | Some at \<Rightarrow> get_at at (enabled pool), b))"

text \<open>On TCP the client's address alone is the key.\<close>

definition choose_member :: "balancer \<Rightarrow> backend \<Rightarrow> ring \<Rightarrow> ip_addr \<Rightarrow> backend_member option \<times> balancer" where
  "choose_member b pool r client = choose_by b pool r (as_bytes (display_ip client))"

section \<open>Counting\<close>

definition open_on :: "balancer \<Rightarrow> string \<Rightarrow> string \<Rightarrow> string \<Rightarrow> u64" where
  "open_on b frontend pool member =
     (if bal_poisoned b then 0
      else case bt_get (frontend, pool, member) (bal_open b) of None \<Rightarrow> 0 | Some n \<Rightarrow> n)"

definition opened :: "balancer \<Rightarrow> string \<Rightarrow> string \<Rightarrow> string \<Rightarrow> balancer" where
  "opened b frontend pool member =
     (if bal_poisoned b then b
      else let n = (case bt_get (frontend, pool, member) (bal_open b) of None \<Rightarrow> 0 | Some n \<Rightarrow> n)
        in b\<lparr>bal_open := bt_insert (frontend, pool, member) (n + 1) (bal_open b)\<rparr>)"

definition closed :: "balancer \<Rightarrow> string \<Rightarrow> string \<Rightarrow> string \<Rightarrow> balancer" where
  "closed b frontend pool member =
     (if bal_poisoned b then b
      else case bt_get (frontend, pool, member) (bal_open b) of
        None \<Rightarrow> b
      | Some n \<Rightarrow> b\<lparr>bal_open := bt_insert (frontend, pool, member) (if n = 0 then 0 else n - 1) (bal_open b)\<rparr>)"

definition open_connections :: "balancer \<Rightarrow> string \<Rightarrow> string \<Rightarrow> u64" where
  "open_connections b pool member =
     (if bal_poisoned b then 0 else total_for (bal_open b) pool member)"

definition balance_report :: "balancer \<Rightarrow> (string \<times> string \<times> string \<times> u64) list" where
  "balance_report b =
     (if bal_poisoned b then []
      else map (\<lambda>((frontend, pool, member), n). (frontend, pool, member, n))
        (filter (\<lambda>(_, n). n > 0) (bal_open b)))"

section \<open>The choice is always a member that may take it\<close>

lemma set_eligible: "set (eligible pool h) =
  {m \<in> set (b_members pool). bm_admin_state m = Enabled \<and> is_healthy h (b_id pool) (bm_id m)}"
  by (auto simp: eligible_def enabled_def)

lemma by_weight_set [simp]: "set (by_weight members) = set members"
proof -
  have "unat (max (w :: u16) 1) \<noteq> 0" for w by (auto simp: max_def unat_eq_0)
  then show ?thesis by (auto simp: by_weight_def)
qed

lemma by_weight_Nil [simp]: "by_weight members = [] \<longleftrightarrow> members = []"
  by (metis by_weight_set set_empty)

lemma count_by_weight:
  "count (mset (by_weight members)) m = count (mset members) m * max (unat (bm_weight m)) 1"
proof (induction members)
  case (Cons x members)
  have "unat (max (bm_weight x) 1) = max (unat (bm_weight x)) 1" by (simp add: max_def word_le_nat_alt)
  with Cons show ?case by (auto simp: by_weight_def)
qed (simp add: by_weight_def)

lemma get_mod_nth:
  assumes "xs \<noteq> []" "length xs < 2 ^ 64"
  shows "get_mod xs at = Some (xs ! (unat at mod length xs))"
proof -
  have "unat (at mod of_nat (length xs)) = unat at mod length xs"
    using assms(2) by (simp add: unat_mod_distrib unat_of_nat)
  with assms(1) show ?thesis by (simp add: get_mod_def get_at_def)
qed

lemma choose_by_cases:
  assumes "eligible pool (bal_health b) \<noteq> []"
  shows "fst (choose_by b pool r key) = (case b_algorithm pool of
      RoundRobin \<Rightarrow> get_mod (by_weight (eligible pool (bal_health b))) (bal_cursor b)
    | LeastConnections \<Rightarrow> (if bal_poisoned b then None
        else min_by_key (\<lambda>m. (total_for (bal_open b) (b_id pool) (bm_id m), bm_id m))
          (eligible pool (bal_health b)))
    | SourceIpHash \<Rightarrow> get_mod (by_weight (eligible pool (bal_health b))) (hash key)
    | ConsistentHash \<Rightarrow> (case pick_where r (hash key) (\<lambda>at. case get_at at (enabled pool) of
          None \<Rightarrow> False | Some m \<Rightarrow> is_healthy (bal_health b) (b_id pool) (bm_id m)) of
        None \<Rightarrow> None | Some at \<Rightarrow> get_at at (enabled pool)))"
  using assms by (simp add: choose_by_def Let_def split: lb_algorithm.split option.split)

lemma choose_by_empty: "eligible pool (bal_health b) = [] \<Longrightarrow> choose_by b pool r key = (None, b)"
  by (simp add: choose_by_def)

lemma get_mod_set: "get_mod xs at = Some x \<Longrightarrow> x \<in> set xs"
  by (auto simp: get_mod_def get_at_def split: if_splits)

lemma choose_by_eligible:
  assumes "fst (choose_by b pool r key) = Some m"
  shows "m \<in> set (eligible pool (bal_health b))"
proof (cases "eligible pool (bal_health b) = []")
  case True
  with assms show ?thesis by (simp add: choose_by_empty)
next
  case False
  note chosen = assms [unfolded choose_by_cases [OF False]]
  show ?thesis
  proof (cases "b_algorithm pool")
    case ConsistentHash
    with chosen obtain at where "pick_where r (hash key) (\<lambda>at. case get_at at (enabled pool) of
        None \<Rightarrow> False | Some m \<Rightarrow> is_healthy (bal_health b) (b_id pool) (bm_id m)) = Some at"
      and at: "get_at at (enabled pool) = Some m" by (auto split: option.splits)
    from pick_where_acceptable [OF this(1)] at have "is_healthy (bal_health b) (b_id pool) (bm_id m)" by simp
    with at show ?thesis by (auto simp: eligible_def get_at_Some)
  qed (use chosen in \<open>auto split: if_splits dest: get_mod_set min_by_key_Some\<close>)
qed

text \<open>The ring of a pool has a healthy index when the points of different members differ.\<close>

definition points_apart :: "backend \<Rightarrow> bool" where
  "points_apart pool \<longleftrightarrow> (\<forall>x \<in> set (enabled pool). \<forall>y \<in> set (enabled pool).
     bm_id x \<noteq> bm_id y \<longrightarrow> points_of (bm_id x) \<inter> points_of (bm_id y) = {})"

lemma ring_has_healthy:
  assumes "m \<in> set (eligible pool h)"
    and apart: "points_apart pool"
  obtains at where "at \<in> snd ` set (ring_for pool)" "at < length (enabled pool)"
    "is_healthy h (b_id pool) (bm_id (enabled pool ! at))"
proof -
  let ?ids = "map bm_id (enabled pool)"
  have m: "m \<in> set (enabled pool)" "is_healthy h (b_id pool) (bm_id m)"
    using assms(1) by (auto simp: eligible_def)
  obtain p where p: "p \<in> points_of (bm_id m)" using points_of_nonempty by blast
  with m(1) have "owner ?ids p \<noteq> None" by (intro owner_exists) auto
  then obtain i where i: "bt_get p (build ?ids) = Some i" by (auto simp: owner_def)
  then have len: "i < length (enabled pool)" using build_index by fastforce
  then have "owner ?ids p = Some (bm_id (enabled pool ! i))" using i by (simp add: owner_def)
  with p apart nth_mem [OF len] m(1) owner_member [of ?ids p] have "bm_id (enabled pool ! i) = bm_id m"
    unfolding points_apart_def by blast
  with m(2) len show ?thesis
    using that [of i] btree.entries_get [OF build_wf, of p i ?ids] i by (force simp: ring_for_def)
qed

lemma choose_by_total:
  assumes ne: "eligible pool (bal_health b) \<noteq> []" and "\<not> bal_poisoned b"
    and len: "length (by_weight (eligible pool (bal_health b))) < 2 ^ 64"
    and apart: "b_algorithm pool = ConsistentHash \<Longrightarrow> points_apart pool"
  shows "fst (choose_by b pool (ring_for pool) key) \<noteq> None"
proof (cases "b_algorithm pool")
  case ConsistentHash
  let ?P = "\<lambda>at. case get_at at (enabled pool) of
    None \<Rightarrow> False | Some m \<Rightarrow> is_healthy (bal_health b) (b_id pool) (bm_id m)"
  obtain m where m: "m \<in> set (eligible pool (bal_health b))" using ne by fastforce
  obtain at where "at \<in> snd ` set (ring_for pool)" "at < length (enabled pool)"
    "is_healthy (bal_health b) (b_id pool) (bm_id (enabled pool ! at))"
    by (rule ring_has_healthy [OF m apart [OF ConsistentHash]])
  then have "at \<in> snd ` set (ring_for pool)" "?P at" by (simp_all add: get_at_def)
  then have "pick_where (ring_for pool) (hash key) ?P \<noteq> None" by (auto simp: pick_where_None)
  then obtain i where i: "pick_where (ring_for pool) (hash key) ?P = Some i" by blast
  with pick_where_acceptable [OF i] have "get_at i (enabled pool) \<noteq> None" by (auto split: option.splits)
  with i ConsistentHash show ?thesis by (simp add: choose_by_cases [OF ne])
qed (use assms in \<open>simp_all add: choose_by_cases [OF ne] get_mod_nth\<close>)

section \<open>Round robin\<close>

fun choose_run :: "nat \<Rightarrow> balancer \<Rightarrow> backend \<Rightarrow> ring \<Rightarrow> byte list \<Rightarrow> backend_member option list" where
  "choose_run 0 b pool r key = []"
| "choose_run (Suc n) b pool r key =
     (case choose_by b pool r key of (chosen, b') \<Rightarrow> chosen # choose_run n b' pool r key)"

lemma choose_run_round_robin:
  assumes "b_algorithm pool = RoundRobin" "eligible pool (bal_health b) = members" "members \<noteq> []"
    "length (by_weight members) < 2 ^ 64" "unat (bal_cursor b) + n \<le> 2 ^ 64"
  shows "choose_run n b pool r key =
    map (\<lambda>i. Some (by_weight members ! ((unat (bal_cursor b) + i) mod length (by_weight members)))) [0..<n]"
  using assms
proof (induction n arbitrary: b)
  case (Suc n)
  let ?b = "b\<lparr>bal_cursor := bal_cursor b + 1\<rparr>"
  have step: "choose_by b pool r key =
      (Some (by_weight members ! (unat (bal_cursor b) mod length (by_weight members))), ?b)"
    using Suc.prems get_mod_nth [of "by_weight members" "bal_cursor b"]
    by (simp add: choose_by_def Let_def)
  show ?case
  proof (cases n)
    case 0
    with step show ?thesis by simp
  next
    case (Suc k)
    then have "unat (bal_cursor b + 1) = Suc (unat (bal_cursor b))"
      using Suc.prems(5) by (simp add: unat_word_ariths)
    then have "choose_run n ?b pool r key =
        map (\<lambda>i. Some (by_weight members ! ((unat (bal_cursor b) + Suc i) mod length (by_weight members)))) [0..<n]"
      using Suc.IH [of ?b] Suc.prems by simp
    with step show ?thesis
      by (simp add: upt_conv_Cons [of 0 "Suc n"] map_Suc_upt [symmetric] comp_def del: upt_Suc)
  qed
qed simp

lemma rotation_mset:
  assumes "xs \<noteq> []"
  shows "mset (map (\<lambda>i. xs ! ((c + i) mod length xs)) [0..<length xs]) = mset xs"
proof -
  have "map (\<lambda>i. xs ! ((c + i) mod length xs)) [0..<length xs] = rotate c xs"
    using assms by (intro nth_equalityI) (simp_all add: nth_rotate add.commute)
  also have "mset (rotate c xs) = mset xs"
    by (simp add: rotate_drop_take) (metis append_take_drop_id mset_append union_commute)
  finally show ?thesis .
qed

end
