(* ===== verification/Frontends.thy ===== *)
theory Frontends
  imports Backends
begin

text \<open>
  \<open>frontend.rs\<close> and the access record of \<open>logging.rs\<close>: what a published service is made of.
\<close>

datatype application_protocol = Http | TlsPassthrough | Raw

datatype path_case = Insensitive | Sensitive

datatype tls_policy_level = Modern | Balanced | LegacyCompatible

record tls_settings =
  tls_certificates :: "string list"
  tls_default_certificate :: "string option"
  tls_policy :: tls_policy_level

datatype proxy_protocol = ProxyDisabled | ProxyV1 | ProxyV2

datatype http2 = Http2Enabled | Http2Disabled

definition http2_is_enabled :: "http2 \<Rightarrow> bool" where
  "http2_is_enabled h \<longleftrightarrow> h = Http2Enabled"

datatype redirect_status = MovedPermanently | Permanent

fun redirect_code :: "redirect_status \<Rightarrow> u16" where
  "redirect_code MovedPermanently = 301"
| "redirect_code Permanent = 308"

datatype rule_action = Proxy string | Redirect redirect_status

record routing_rule =
  rule_host_pattern :: "string option"
  rule_path_prefix :: "string option"
  rule_path_case :: path_case
  rule_action :: rule_action
  rule_request_timeout_seconds :: "u32 option"

record sni_rule =
  sni_pattern :: string
  sni_backend :: string

record access_log =
  al_enabled :: bool
  al_sample_one_in :: u32

definition default_access_log :: access_log where
  "default_access_log = \<lparr>al_enabled = True, al_sample_one_in = 1\<rparr>"

definition access_log_writes :: "access_log \<Rightarrow> u64 \<Rightarrow> bool" where
  "access_log_writes log number =
     (if \<not> al_enabled log then False
      else if al_sample_one_in log \<le> 1 then True
      else number mod ucast (al_sample_one_in log) = 0)"

record frontend =
  f_id :: string
  f_vip :: string
  f_port :: u16
  f_transport :: transport_protocol
  f_application :: application_protocol
  f_tls :: "tls_settings option"
  f_proxy_protocol :: proxy_protocol
  f_access_log :: access_log
  f_routing_rules :: "routing_rule list"
  f_sni_rules :: "sni_rule list"
  f_default_backend :: "string option"
  f_http2 :: http2
  f_connect_timeout_seconds :: u32
  f_request_timeout_seconds :: u32
  f_idle_timeout_seconds :: u32
  f_drain_timeout_seconds :: u32
  f_udp_session_limit :: u32

definition connect_limit :: "frontend \<Rightarrow> duration option" where
  "connect_limit f = (if f_connect_timeout_seconds f = 0 then None
     else Some (secs (unat (f_connect_timeout_seconds f))))"

end
