(* ===== verification/Route.thy ===== *)
theory Route
  imports Frontends Text "HOL-Library.Sublist"
begin

text \<open>
  \<open>route.rs\<close> of the data plane: which rule a request falls under. Lower-casing follows the
  Unicode tables, which are not in the sources: it is the parameter \<open>lower\<close>, and nothing
  below assumes anything of it.
\<close>

section \<open>Paths\<close>

fun decode_escapes :: "string \<Rightarrow> string" where
  "decode_escapes [] = []"
| "decode_escapes (c # cs) = (case cs of
     h # l # rest \<Rightarrow>
       (case (digit_value 16 h, digit_value 16 l) of
          (Some high, Some low) \<Rightarrow>
            if c = CHR ''%'' then char_of (high * 16 + low) # decode_escapes rest
            else c # decode_escapes cs
        | _ \<Rightarrow> c # decode_escapes cs)
   | _ \<Rightarrow> c # decode_escapes cs)"

definition percent_decode :: "string \<Rightarrow> string" where
  "percent_decode path = (let out = decode_escapes path in if utf8_valid out then out else path)"

definition climb :: "string \<Rightarrow> string list \<Rightarrow> string list" where
  "climb part parts =
     (if part = [] \<or> part = ''.'' then parts
      else if part = ''..'' then butlast parts
      else parts @ [part])"

definition normalise :: "string \<Rightarrow> string" where
  "normalise path =
     (let path = (case split_once_by (\<lambda>c. c = CHR ''?'' \<or> c = CHR ''#'') path of
                    None \<Rightarrow> path | Some (before, _) \<Rightarrow> before);
          path = percent_decode path;
          parts = fold climb (split_on (CHR ''/'') path) [];
          out = concat (map (\<lambda>part. CHR ''/'' # part) parts)
      in if out = [] then ''/''
         else if ends_with (CHR ''/'') path then out @ ''/''
         else out)"

definition path_matches :: "(string \<Rightarrow> string) \<Rightarrow> string \<Rightarrow> string \<Rightarrow> path_case \<Rightarrow> bool" where
  "path_matches lower pre normalised_path sensitivity =
     (let (pre, path) = (case sensitivity of
            Insensitive \<Rightarrow> (lower pre, lower normalised_path)
          | Sensitive \<Rightarrow> (pre, normalised_path))
      in path = pre \<or>
         (case strip_prefix pre path of
            None \<Rightarrow> False
          | Some rest \<Rightarrow> ends_with (CHR ''/'') pre \<or> starts_with (CHR ''/'') rest))"

section \<open>Hosts\<close>

definition strip_port :: "string \<Rightarrow> string" where
  "strip_port host = (case strip_prefix ''['' host of
     Some rest \<Rightarrow> (case split_once (CHR '']'') rest of
         None \<Rightarrow> host | Some (inside, _) \<Rightarrow> ''['' @ inside @ '']'')
   | None \<Rightarrow> (case split_once (CHR '':'') host of None \<Rightarrow> host | Some (name, _) \<Rightarrow> name))"

definition host_matches :: "(string \<Rightarrow> string) \<Rightarrow> string \<Rightarrow> string \<Rightarrow> bool" where
  "host_matches lower pattern host =
     (let pattern = lower pattern; host = lower host in
      case strip_prefix ''*.'' pattern of
        Some tail \<Rightarrow> (case split_once (CHR ''.'') host of
            None \<Rightarrow> False | Some (label, rest) \<Rightarrow> label \<noteq> [] \<and> rest = tail)
      | None \<Rightarrow> pattern = host)"

section \<open>Rules\<close>

datatype decision = Pool string u32 | RedirectTo u16 | Nowhere

definition rule_matches :: "(string \<Rightarrow> string) \<Rightarrow> routing_rule \<Rightarrow> string option \<Rightarrow> string \<Rightarrow> bool" where
  "rule_matches lower rule host normalised_path =
     (let host_ok = (case rule_host_pattern rule of
            None \<Rightarrow> True
          | Some pattern \<Rightarrow> (case host of None \<Rightarrow> False | Some h \<Rightarrow> host_matches lower pattern h))
      in if \<not> host_ok then False
         else case rule_path_prefix rule of
           None \<Rightarrow> True
         | Some pre \<Rightarrow> path_matches lower pre normalised_path (rule_path_case rule))"

fun decide_rules :: "(string \<Rightarrow> string) \<Rightarrow> frontend \<Rightarrow> routing_rule list \<Rightarrow> string option \<Rightarrow> string \<Rightarrow> decision" where
  "decide_rules lower f [] host path = (case f_default_backend f of
     None \<Rightarrow> Nowhere | Some backend \<Rightarrow> Pool backend (f_request_timeout_seconds f))"
| "decide_rules lower f (rule # rules) host path =
     (if \<not> rule_matches lower rule host path then decide_rules lower f rules host path
      else case rule_action rule of
        Proxy backend \<Rightarrow> Pool backend (case rule_request_timeout_seconds rule of
            None \<Rightarrow> f_request_timeout_seconds f | Some t \<Rightarrow> t)
      | Redirect status \<Rightarrow> RedirectTo (redirect_code status))"

definition decide :: "(string \<Rightarrow> string) \<Rightarrow> frontend \<Rightarrow> string option \<Rightarrow> string \<Rightarrow> decision" where
  "decide lower f host path =
     decide_rules lower f (f_routing_rules f) (map_option strip_port host) (normalise path)"

section \<open>The form of a normalised path\<close>

definition render :: "string list \<Rightarrow> string" where
  "render parts = concat (map (\<lambda>part. CHR ''/'' # part) parts)"

definition clean_part :: "string \<Rightarrow> bool" where
  "clean_part p \<longleftrightarrow> p \<noteq> [] \<and> p \<noteq> ''.'' \<and> p \<noteq> ''..'' \<and> CHR ''/'' \<notin> set p"

text \<open>The components a path resolves to, and whether it ends in a separator.\<close>

definition path_text :: "string \<Rightarrow> string" where
  "path_text path = percent_decode (case split_once_by (\<lambda>c. c = CHR ''?'' \<or> c = CHR ''#'') path of
     None \<Rightarrow> path | Some (before, _) \<Rightarrow> before)"

definition path_parts :: "string \<Rightarrow> string list" where
  "path_parts path = fold climb (split_on (CHR ''/'') (path_text path)) []"

lemma render_simps [simp]:
  "render [] = []" "render (p # ps) = CHR ''/'' # p @ render ps" "render (ps @ qs) = render ps @ render qs"
  by (simp_all add: render_def)

lemma normalise_render:
  "normalise path =
     (if path_parts path = [] then ''/''
      else render (path_parts path) @ (if ends_with (CHR ''/'') (path_text path) then ''/'' else []))"
  by (auto simp: normalise_def Let_def path_parts_def path_text_def render_def)

lemma fold_climb_clean:
  "(\<forall>p \<in> set parts. clean_part p) \<Longrightarrow> (\<forall>p \<in> set raw. CHR ''/'' \<notin> set p) \<Longrightarrow>
     \<forall>p \<in> set (fold climb raw parts). clean_part p"
proof (induction raw arbitrary: parts)
  case (Cons r raw)
  have "\<forall>p \<in> set (climb r parts). clean_part p"
    using Cons.prems by (auto simp: climb_def clean_part_def dest: in_set_butlastD)
  with Cons show ?case by simp
qed simp

lemma path_parts_clean: "\<forall>p \<in> set (path_parts path). clean_part p"
  unfolding path_parts_def by (rule fold_climb_clean) (auto dest: split_on_parts)

lemma split_render:
  "\<forall>p \<in> set ps. CHR ''/'' \<notin> set p \<Longrightarrow>
     split_on (CHR ''/'') (render ps @ CHR ''/'' # r) = [] # ps @ split_on (CHR ''/'') r"
proof (induction ps)
  case (Cons p ps)
  then have "split_on (CHR ''/'') (render (p # ps) @ CHR ''/'' # r) =
      [] # split_on (CHR ''/'') (p @ render ps @ CHR ''/'' # r)" by simp
  also have "split_on (CHR ''/'') (p @ render ps @ CHR ''/'' # r) = p # ps @ split_on (CHR ''/'') r"
    using Cons by (cases ps) (simp_all add: split_on_append)
  finally show ?case by simp
qed simp

lemma split_render_only:
  assumes "\<forall>p \<in> set ps. CHR ''/'' \<notin> set p" "ps \<noteq> []"
  shows "split_on (CHR ''/'') (render ps) = [] # ps"
  using assms
proof (cases ps rule: rev_cases)
  case (snoc qs q)
  with assms show ?thesis using split_render [of qs q] by (simp add: split_on_clean)
qed simp

text \<open>A prefix covers a path exactly when its components come first.\<close>

lemma render_prefix:
  assumes pre: "\<forall>p \<in> set pre. clean_part p" "pre \<noteq> []"
    and parts: "\<forall>p \<in> set parts. clean_part p" "parts \<noteq> []"
    and path: "path = render parts @ (if slash then ''/'' else [])"
  shows "(path = render pre \<or> (\<exists>rest. path = render pre @ CHR ''/'' # rest)) \<longleftrightarrow> prefix pre parts"
proof
  have no: "\<forall>p \<in> set pre. CHR ''/'' \<notin> set p" "\<forall>p \<in> set parts. CHR ''/'' \<notin> set p" "[] \<notin> set pre"
    using pre(1) parts(1) by (auto simp: clean_part_def)
  have split_path: "split_on (CHR ''/'') path = [] # parts @ (if slash then [[]] else [])"
    using split_render [OF no(2), of "[]"] split_render_only [OF no(2) parts(2)] path by simp
  assume "path = render pre \<or> (\<exists>rest. path = render pre @ CHR ''/'' # rest)"
  then obtain tail where "parts @ (if slash then [[]] else []) = pre @ tail"
    using split_path split_render [OF no(1)] split_render_only [OF no(1) pre(2)]
    by (metis append_Nil2 list.inject)
  then show "prefix pre parts"
  proof (cases slash)
    case True
    with \<open>parts @ _ = pre @ tail\<close> have "prefix pre (parts @ [[]])" by simp
    with no(3) show ?thesis by (auto simp: prefix_append prefix_Cons)
  qed (simp add: prefix_def)
next
  assume "prefix pre parts"
  then obtain zs where "parts = pre @ zs" by (auto simp: prefix_def)
  with path show "path = render pre \<or> (\<exists>rest. path = render pre @ CHR ''/'' # rest)"
    by (cases zs) auto
qed

end
