(* ===== verification/Sticky.thy ===== *)
theory Sticky
  imports Backends Text Hashring
begin

text \<open>
  \<open>sticky.rs\<close>: keeping one client on one member with a signed cookie. HMAC-SHA256 comes
  from a library: it is the parameter \<open>hmac\<close>, from a key and a message to the digest, and
  whether it takes a key is \<open>accepts\<close>.
\<close>

section \<open>Tokens\<close>

definition DIGEST_BYTES :: nat where "DIGEST_BYTES = 16"

definition hex_digit :: "nat \<Rightarrow> char" where
  "hex_digit n = (if n < 10 then char_of (48 + n) else char_of (87 + n))"

definition hex_byte :: "byte \<Rightarrow> string" where
  "hex_byte b = [hex_digit (unat b div 16), hex_digit (unat b mod 16)]"

type_synonym signer = "byte list"

definition new_signer :: "(byte list \<Rightarrow> bool) \<Rightarrow> byte list \<Rightarrow> signer option" where
  "new_signer accepts key = (if accepts key then Some key else None)"

text \<open>\<open>chunks_exact(2)\<close>, each pair read as two hex digits.\<close>

fun hex_pairs :: "string \<Rightarrow> byte list option" where
  "hex_pairs (h # l # rest) =
     (case (digit_value 16 h, digit_value 16 l) of
        (Some high, Some low) \<Rightarrow> map_option (\<lambda>bs. of_nat (high * 16 + low) # bs) (hex_pairs rest)
      | _ \<Rightarrow> None)"
| "hex_pairs _ = Some []"

definition key_bytes :: "string \<Rightarrow> byte list option" where
  "key_bytes key = (if key = [] \<or> length key mod 2 \<noteq> 0 then None else hex_pairs key)"

definition signer_from_hex :: "(byte list \<Rightarrow> bool) \<Rightarrow> string \<Rightarrow> signer option" where
  "signer_from_hex accepts key = Option.bind (key_bytes key) (new_signer accepts)"

definition token :: "(byte list \<Rightarrow> byte list \<Rightarrow> byte list) \<Rightarrow> signer \<Rightarrow> string \<Rightarrow> string \<Rightarrow> string" where
  "token hmac s pool member =
     concat (map hex_byte (take DIGEST_BYTES (hmac s (as_bytes pool @ [0] @ as_bytes member))))"

definition same :: "string \<Rightarrow> string \<Rightarrow> bool" where
  "same left right =
     (if length left \<noteq> length right then False
      else foldl (\<lambda>difference (a, b). difference OR (byte_of a XOR byte_of b)) (0 :: byte) (zip left right) = 0)"

definition member_for ::
  "(byte list \<Rightarrow> byte list \<Rightarrow> byte list) \<Rightarrow> signer \<Rightarrow> string \<Rightarrow> backend_member list \<Rightarrow> string
     \<Rightarrow> backend_member option" where
  "member_for hmac s pool members value =
     foldl (\<lambda>found m. if same (token hmac s pool (bm_id m)) value then Some m else found) None members"

section \<open>Cookies\<close>

definition sticky_settings :: "backend \<Rightarrow> (string \<times> same_site) option" where
  "sticky_settings pool = (case b_stickiness pool of
     StickinessDisabled \<Rightarrow> None | SignedCookie name site \<Rightarrow> Some (name, site))"

definition read_pair :: "string \<Rightarrow> string \<Rightarrow> string option" where
  "read_pair name pair = (case split_once (CHR ''='') (trim pair) of
     None \<Rightarrow> None
   | Some (key, value) \<Rightarrow> if trim key = name then Some (trim value) else None)"

definition read_cookie :: "string list \<Rightarrow> string \<Rightarrow> string option" where
  "read_cookie headers name =
     find_map (\<lambda>line. find_map (read_pair name) (split_on (CHR '';'') line)) headers"

fun same_site_name :: "same_site \<Rightarrow> string" where
  "same_site_name SameSiteStrict = ''Strict''"
| "same_site_name SameSiteLax = ''Lax''"
| "same_site_name SameSiteNone = ''None''"

definition set_cookie :: "string \<Rightarrow> string \<Rightarrow> same_site \<Rightarrow> bool \<Rightarrow> string" where
  "set_cookie name value site secure =
     name @ ''='' @ value @ ''; Path=/; HttpOnly; SameSite='' @ same_site_name site
     @ (if secure \<or> site = SameSiteNone then ''; Secure'' else [])"

section \<open>The comparison\<close>

lemma xor_zero: "(a XOR b = (0 :: byte)) \<longleftrightarrow> a = b"
  by (metis xor.assoc xor_self_eq xor.right_neutral xor.left_neutral)

lemma fold_difference:
  "length l = length r \<Longrightarrow>
     foldl (\<lambda>difference (a, b). difference OR (byte_of a XOR byte_of b)) d (zip l r) = 0
     \<longleftrightarrow> d = 0 \<and> l = r"
  by (induction l r arbitrary: d rule: list_induct2) (auto simp: or_eq_0_iff xor_zero)

lemma same_iff: "same l r \<longleftrightarrow> l = r"
  by (auto simp: same_def fold_difference)

lemma member_for_snoc:
  "member_for hmac s pool (ms @ [m]) value =
     (if token hmac s pool (bm_id m) = value then Some m else member_for hmac s pool ms value)"
  by (simp add: member_for_def same_iff)

lemma member_for_Some:
  "member_for hmac s pool ms value = Some m \<Longrightarrow> m \<in> set ms \<and> token hmac s pool (bm_id m) = value"
  by (induction ms rule: rev_induct) (auto simp: member_for_snoc member_for_def [of _ _ _ "[]"] split: if_splits)

lemma member_for_None:
  "member_for hmac s pool ms value = None \<longleftrightarrow> (\<forall>m \<in> set ms. token hmac s pool (bm_id m) \<noteq> value)"
  by (induction ms rule: rev_induct) (auto simp: member_for_snoc member_for_def [of _ _ _ "[]"])

section \<open>Hex\<close>

lemma hex_digit_value: "n < 16 \<Longrightarrow> digit_value 16 (hex_digit n) = Some n"
  by (auto simp: digit_value_def hex_digit_def Let_def)

lemma hex_pairs_bytes: "hex_pairs (concat (map hex_byte bs)) = Some bs"
proof (induction bs)
  case (Cons b bs)
  have "unat b div 16 < 16" using unat_byte_less [of b] by linarith
  with Cons show ?case by (simp add: hex_byte_def hex_digit_value mult.commute)
qed simp

lemma length_hex: "length (concat (map hex_byte bs)) = 2 * length bs"
  by (induction bs) (simp_all add: hex_byte_def)

section \<open>A cookie comes back as it was set\<close>

text \<open>Text no cookie reader changes: no separators and no white space at its ends.\<close>

definition cookie_text :: "string \<Rightarrow> bool" where
  "cookie_text s \<longleftrightarrow> (\<forall>c \<in> set s. \<not> is_space c \<and> c \<noteq> CHR '';'' \<and> c \<noteq> CHR ''='')"

lemma trim_clean: "\<forall>c \<in> set s. \<not> is_space c \<Longrightarrow> trim s = s"
proof -
  have id: "\<forall>c \<in> set xs. \<not> is_space c \<Longrightarrow> dropWhile is_space xs = xs" for xs by (cases xs) auto
  assume "\<forall>c \<in> set s. \<not> is_space c"
  then show ?thesis using id [of s] id [of "rev s"] by (simp add: trim_def)
qed

lemma read_pair_set:
  assumes "cookie_text name" "cookie_text value"
  shows "read_pair name (name @ ''='' @ value) = Some value"
proof -
  have "\<forall>c \<in> set (name @ ''='' @ value). \<not> is_space c"
    using assms by (auto simp: cookie_text_def is_space_def)
  then have "trim (name @ ''='' @ value) = name @ CHR ''='' # value" by (simp add: trim_clean)
  moreover have "split_once (CHR ''='') (name @ CHR ''='' # value) = Some (name, value)"
    using assms(1) by (auto simp: split_once_by_Some cookie_text_def)
  ultimately show ?thesis using assms by (simp add: read_pair_def trim_clean cookie_text_def)
qed

lemma hex_digit_set: "n < 16 \<Longrightarrow> hex_digit n \<in> set ''0123456789abcdef''"
proof -
  assume "n < 16"
  then have "n \<in> {0, 1, 2, 3, 4, 5, 6, 7, 8, 9, 10, 11, 12, 13, 14, 15}"
    unfolding insert_iff empty_iff by presburger
  then show ?thesis by (elim insertE emptyE) (simp_all add: hex_digit_def char_of_def bit_0)
qed

lemma hex_digit_clean: "n < 16 \<Longrightarrow> cookie_text [hex_digit n]"
  using hex_digit_set [of n] by (auto simp: cookie_text_def is_space_def)

lemma token_clean: "cookie_text (token hmac s pool member)"
proof -
  have "cookie_text (hex_byte b)" for b
  proof -
    have "unat b div 16 < 16" using unat_byte_less [of b] by linarith
    then show ?thesis using hex_digit_clean [of "unat b div 16"] hex_digit_clean [of "unat b mod 16"]
      by (auto simp: hex_byte_def cookie_text_def)
  qed
  then show ?thesis by (auto simp: token_def cookie_text_def)
qed

text \<open>The part of a set cookie that a browser sends back.\<close>

lemma set_cookie_pair:
  assumes "cookie_text name" "cookie_text value"
  shows "hd (split_on (CHR '';'') (set_cookie name value site secure)) = name @ ''='' @ value"
proof -
  have "CHR '';'' \<notin> set (name @ ''='' @ value)" using assms by (auto simp: cookie_text_def)
  from split_on_append [OF this] show ?thesis by (simp add: set_cookie_def)
qed

lemma find_map_last:
  "list_all (\<lambda>x. f x = None) xs \<Longrightarrow> find_map f (xs @ [y]) = f y"
  by (induction xs) (simp_all split: option.split)

lemma member_for_inj:
  "m \<in> set ms \<Longrightarrow> inj_on (\<lambda>x. token hmac s pool (bm_id x)) (set ms) \<Longrightarrow>
     member_for hmac s pool ms (token hmac s pool (bm_id m)) = Some m"
proof (cases "member_for hmac s pool ms (token hmac s pool (bm_id m))")
  case (Some x)
  assume "m \<in> set ms" "inj_on (\<lambda>x. token hmac s pool (bm_id x)) (set ms)"
  with member_for_Some [OF Some] Some show ?thesis by (auto dest: inj_onD)
qed (auto simp: member_for_None)

end
