(* ===== verification/Policy.thy ===== *)
theory Policy
  imports Frontends Text "HOL-Library.Sublist"
begin

text \<open>
  \<open>policy.rs\<close>: what each TLS policy level asks of the TLS library, as a table, and the
  metric that says which level every frontend runs. The versions of the TLS library are
  its names for them.
\<close>

section \<open>The table\<close>

datatype tls_version = Tls1_0 | Tls1_2 | Tls1_3

datatype ssl_version = SSL_TLS1 | SSL_TLS1_2 | SSL_TLS1_3

record policy =
  least_version :: tls_version
  cipher_list :: string
  ciphersuites :: string
  relaxes_security_level :: bool

definition TLS13_SUITES :: string where
  "TLS13_SUITES = ''TLS_AES_128_GCM_SHA256:TLS_AES_256_GCM_SHA384:TLS_CHACHA20_POLY1305_SHA256''"

definition BALANCED_CIPHERS :: string where
  "BALANCED_CIPHERS = ''ECDHE-ECDSA-AES128-GCM-SHA256:ECDHE-RSA-AES128-GCM-SHA256:''
     @ ''ECDHE-ECDSA-AES256-GCM-SHA384:ECDHE-RSA-AES256-GCM-SHA384:''
     @ ''ECDHE-ECDSA-CHACHA20-POLY1305:ECDHE-RSA-CHACHA20-POLY1305:''
     @ ''DHE-RSA-AES128-GCM-SHA256:DHE-RSA-AES256-GCM-SHA384''"

definition LEGACY_CIPHERS :: string where
  "LEGACY_CIPHERS = ''ECDHE-ECDSA-AES128-GCM-SHA256:ECDHE-RSA-AES128-GCM-SHA256:''
     @ ''ECDHE-ECDSA-AES256-GCM-SHA384:ECDHE-RSA-AES256-GCM-SHA384:''
     @ ''ECDHE-ECDSA-CHACHA20-POLY1305:ECDHE-RSA-CHACHA20-POLY1305:''
     @ ''DHE-RSA-AES128-GCM-SHA256:DHE-RSA-AES256-GCM-SHA384:''
     @ ''ECDHE-ECDSA-AES128-SHA:ECDHE-RSA-AES128-SHA:''
     @ ''ECDHE-ECDSA-AES256-SHA:ECDHE-RSA-AES256-SHA:''
     @ ''AES128-GCM-SHA256:AES256-GCM-SHA384:AES128-SHA:AES256-SHA:''
     @ ''!aNULL:!eNULL:!EXPORT:!MD5:!RC4:!DES:!3DES:@SECLEVEL=0''"

fun policy_settings :: "tls_policy_level \<Rightarrow> policy" where
  "policy_settings Modern = \<lparr>least_version = Tls1_3, cipher_list = [],
     ciphersuites = TLS13_SUITES, relaxes_security_level = False\<rparr>"
| "policy_settings Balanced = \<lparr>least_version = Tls1_2, cipher_list = BALANCED_CIPHERS,
     ciphersuites = TLS13_SUITES, relaxes_security_level = False\<rparr>"
| "policy_settings LegacyCompatible = \<lparr>least_version = Tls1_0, cipher_list = LEGACY_CIPHERS,
     ciphersuites = TLS13_SUITES, relaxes_security_level = True\<rparr>"

definition least_openssl_version :: "tls_policy_level \<Rightarrow> ssl_version" where
  "least_openssl_version level = (case least_version (policy_settings level) of
     Tls1_0 \<Rightarrow> SSL_TLS1 | Tls1_2 \<Rightarrow> SSL_TLS1_2 | Tls1_3 \<Rightarrow> SSL_TLS1_3)"

section \<open>The metric\<close>

definition POLICY_METRIC :: string where "POLICY_METRIC = ''ek_ek_frontend_tls_policy''"

fun policy_name_of :: "tls_policy_level \<Rightarrow> string" where
  "policy_name_of Modern = ''modern''"
| "policy_name_of Balanced = ''dengeli''"
| "policy_name_of LegacyCompatible = ''eski-uyumlu''"

definition newline :: char where "newline = CHR 0x0A"
definition quote :: char where "quote = CHR 0x22"
definition backslash :: char where "backslash = CHR 0x5C"

text \<open>\<open>str::replace\<close> of one character.\<close>

definition replace_by :: "char \<Rightarrow> string \<Rightarrow> string \<Rightarrow> string" where
  "replace_by c new s = concat (map (\<lambda>x. if x = c then new else [x]) s)"

definition label_escape :: "string \<Rightarrow> string" where
  "label_escape value =
     replace_by newline [backslash, CHR ''n'']
       (replace_by quote [backslash, quote]
         (replace_by backslash [backslash, backslash] value))"

definition policy_line :: "frontend \<Rightarrow> string" where
  "policy_line f = (case f_tls f of
     None \<Rightarrow> []
   | Some tls \<Rightarrow> POLICY_METRIC @ ''{frontend='' @ [quote] @ label_escape (f_id f) @ [quote]
       @ '',level='' @ [quote] @ policy_name_of (tls_policy tls) @ [quote] @ ''} 1'' @ [newline])"

definition exposition :: "frontend list \<Rightarrow> string" where
  "exposition frontends =
     ''# HELP '' @ POLICY_METRIC @ '' Which TLS policy level a frontend runs.'' @ [newline]
     @ ''# TYPE '' @ POLICY_METRIC @ '' gauge'' @ [newline]
     @ concat (map policy_line frontends)"

section \<open>A label is read back as it was written\<close>

text \<open>How a reader of the exposition format undoes the escaping of a label.\<close>

fun label_unescape :: "string \<Rightarrow> string" where
  "label_unescape [] = []"
| "label_unescape [c] = [c]"
| "label_unescape (c # d # rest) =
     (if c = backslash then (if d = CHR ''n'' then newline else d) # label_unescape rest
      else c # label_unescape (d # rest))"

definition escape_char :: "char \<Rightarrow> string" where
  "escape_char c = (if c = backslash then [backslash, backslash]
     else if c = quote then [backslash, quote]
     else if c = newline then [backslash, CHR ''n''] else [c])"

lemma label_escape_map: "label_escape s = concat (map escape_char s)"
  by (induction s)
    (auto simp: label_escape_def replace_by_def escape_char_def newline_def quote_def backslash_def)

lemma unescape_escape: "label_unescape (escape_char c @ s) = c # label_unescape s"
  by (cases s) (auto simp: escape_char_def newline_def quote_def backslash_def)

lemma label_unescape_escape: "label_unescape (label_escape s) = s"
  by (induction s) (simp_all add: label_escape_map unescape_escape)

lemma label_escape_no_newline: "newline \<notin> set (label_escape s)"
  by (induction s) (auto simp: label_escape_map escape_char_def newline_def quote_def backslash_def)

end
