(* ===== verification/Pool.thy ===== *)
theory Pool
  imports Backends
begin

text \<open>
  \<open>pool.rs\<close>: the gate of each backend pool and the reuse group of a request. A semaphore
  is a library object, known here by its identity; making one is \<open>semaphore\<close>, which takes the
  number of slots and the world. The lock of the gates is never held across a panic in
  the code that takes it, but a poisoned lock is a branch of its own and is kept.
\<close>

unbundle bit_operations_syntax

record 'g gates =
  g_poisoned :: bool
  g_gates :: "string \<rightharpoonup> u32 \<times> 'g"

definition new_gates :: "'g gates" where
  "new_gates = \<lparr>g_poisoned = False, g_gates = Map.empty\<rparr>"

definition gate :: "(u32 \<Rightarrow> 'w \<Rightarrow> 'g \<times> 'w) \<Rightarrow> 'g gates \<Rightarrow> string \<Rightarrow> u32 \<Rightarrow> 'w \<Rightarrow> 'g option \<times> 'g gates \<times> 'w" where
  "gate semaphore gs pool slots w =
     (if slots = 0 \<or> g_poisoned gs then (None, gs, w)
      else case g_gates gs pool of
        Some (built_for, g) \<Rightarrow>
          if built_for = slots then (Some g, gs, w)
          else (case semaphore slots w of (g', w') \<Rightarrow>
            (Some g', gs\<lparr>g_gates := (g_gates gs)(pool \<mapsto> (slots, g'))\<rparr>, w'))
      | None \<Rightarrow> (case semaphore slots w of (g', w') \<Rightarrow>
            (Some g', gs\<lparr>g_gates := (g_gates gs)(pool \<mapsto> (slots, g'))\<rparr>, w')))"

definition NEVER_SHARED :: u64 where "NEVER_SHARED = push_bit 63 1"

text \<open>\<open>counter\<close> is the static \<open>NEXT\<close>; its new value comes back with the group.\<close>

definition pool_reuse_group :: "backend \<Rightarrow> u64 \<Rightarrow> u64 \<Rightarrow> u64 \<times> u64" where
  "pool_reuse_group pool counter now_seconds =
     (if b_connection_pooling pool = PoolingDisabled then (NEVER_SHARED OR counter, counter + 1)
      else (backend_reuse_group pool now_seconds, counter))"

section \<open>Groups that are never shared\<close>

lemma never_shared_bit: "bit (NEVER_SHARED OR c) 63"
  by (simp add: NEVER_SHARED_def bit_simps)

lemma small_no_bit:
  assumes "(n :: u64) < NEVER_SHARED"
  shows "\<not> bit n 63"
proof -
  have "unat n < 2 ^ 63" using assms by (simp add: NEVER_SHARED_def word_less_nat_alt)
  then have "take_bit 63 (unat n) = unat n" by (simp add: take_bit_nat_eq_self)
  then have "\<not> bit (unat n) 63" by (metis bit_take_bit_iff less_irrefl)
  then show ?thesis by (simp add: bit_unsigned_iff)
qed

lemma reuse_group_small:
  assumes "now < NEVER_SHARED"
  shows "backend_reuse_group pool now < NEVER_SHARED"
proof (cases "b_connection_lifetime_seconds pool = 0")
  case True
  then show ?thesis by (simp add: backend_reuse_group_def NEVER_SHARED_def)
next
  case False
  have "now div d \<le> now" for d :: u64 by (simp add: word_le_nat_alt unat_div_distrib)
  then have "now div ucast (b_connection_lifetime_seconds pool) < NEVER_SHARED"
    using assms by (rule order.strict_trans1)
  with False show ?thesis by (simp add: backend_reuse_group_def)
qed

lemma never_shared_inj:
  assumes "NEVER_SHARED OR c = NEVER_SHARED OR d" "c < NEVER_SHARED" "d < NEVER_SHARED"
  shows "c = d"
proof -
  have low: "take_bit 63 (NEVER_SHARED OR x) = x" if "x < NEVER_SHARED" for x
  proof -
    have "unat x < 2 ^ 63" using that by (simp add: NEVER_SHARED_def word_less_nat_alt)
    then have "take_bit 63 (unat x) = unat x" by (simp add: take_bit_nat_eq_self)
    then have "take_bit 63 x = x" by (metis unsigned_take_bit_eq unsigned_word_eqI)
    then show ?thesis by (simp add: NEVER_SHARED_def take_bit_push_bit)
  qed
  show ?thesis using low [OF assms(2)] low [OF assms(3)] assms(1) by simp
qed

end
