(* ===== verification/Proxyproto.thy ===== *)
theory Proxyproto
  imports Frontends Text
begin

text \<open>
  \<open>proxyproto.rs\<close>: the PROXY protocol header that tells an L4 backend who the client is. A
  socket address is its IP address and its port; the flow and scope of an IPv6 one are
  read by nothing here.
\<close>

section \<open>Data\<close>

definition SIGNATURE :: "byte list" where
  "SIGNATURE = [0x0D, 0x0A, 0x0D, 0x0A, 0x00, 0x0D, 0x0A, 0x51, 0x55, 0x49, 0x54, 0x0A]"

definition PROXY_COMMAND :: byte where "PROXY_COMMAND = 0x21"
definition LOCAL_COMMAND :: byte where "LOCAL_COMMAND = 0x20"
definition TCP4 :: byte where "TCP4 = 0x11"
definition TCP6 :: byte where "TCP6 = 0x21"
definition UNSPEC :: byte where "UNSPEC = 0x00"

datatype socket_addr = SockV4 ipv4 u16 | SockV6 ipv6 u16

datatype ends = Untold | Four ipv4 u16 ipv4 u16 | Six ipv6 u16 ipv6 u16

record proxy_header =
  ph_bytes :: "byte list"
  ph_stated :: bool

section \<open>Writing\<close>

fun pair :: "socket_addr \<Rightarrow> socket_addr \<Rightarrow> ends" where
  "pair (SockV4 c cp) (SockV4 p pp) = Four c cp p pp"
| "pair (SockV6 c cp) (SockV6 p pp) = Six c cp p pp"
| "pair _ _ = Untold"

definition crlf :: string where "crlf = [CHR 0x0D, CHR 0x0A]"

fun v1 :: "ends \<Rightarrow> byte list" where
  "v1 Untold = as_bytes (''PROXY UNKNOWN'' @ crlf)"
| "v1 (Four c cp p pp) = as_bytes (''PROXY TCP4 '' @ display_v4 c @ '' '' @ display_v4 p @ '' ''
     @ decimal (unat cp) @ '' '' @ decimal (unat pp) @ crlf)"
| "v1 (Six c cp p pp) = as_bytes (''PROXY TCP6 '' @ display_v6 c @ '' '' @ display_v6 p @ '' ''
     @ decimal (unat cp) @ '' '' @ decimal (unat pp) @ crlf)"

fun v2 :: "ends \<Rightarrow> byte list" where
  "v2 Untold = SIGNATURE @ [LOCAL_COMMAND, UNSPEC] @ u16_to_be 0"
| "v2 (Four c cp p pp) = SIGNATURE @ [PROXY_COMMAND, TCP4] @ u16_to_be 12
     @ octets_v4 c @ octets_v4 p @ u16_to_be cp @ u16_to_be pp"
| "v2 (Six c cp p pp) = SIGNATURE @ [PROXY_COMMAND, TCP6] @ u16_to_be 36
     @ octets_v6 c @ octets_v6 p @ u16_to_be cp @ u16_to_be pp"

definition write_header :: "proxy_protocol \<Rightarrow> ends \<Rightarrow> proxy_header option" where
  "write_header format e = (case format of
     ProxyDisabled \<Rightarrow> None
   | ProxyV1 \<Rightarrow> Some \<lparr>ph_bytes = v1 e, ph_stated = (e \<noteq> Untold)\<rparr>
   | ProxyV2 \<Rightarrow> Some \<lparr>ph_bytes = v2 e, ph_stated = (e \<noteq> Untold)\<rparr>)"

definition proxy_header_for :: "proxy_protocol \<Rightarrow> socket_addr \<Rightarrow> socket_addr \<Rightarrow> proxy_header option" where
  "proxy_header_for format client proxy = write_header format (pair client proxy)"

definition proxy_unknown :: "proxy_protocol \<Rightarrow> proxy_header option" where
  "proxy_unknown format = write_header format Untold"

section \<open>The receiver of the specification\<close>

text \<open>
  What the PROXY protocol specification has a receiver of version 2 do: check the
  signature, take the command, the family and the length, and take that many bytes.
\<close>

definition read_v2 :: "byte list \<Rightarrow> (ends \<times> byte list) option" where
  "read_v2 bytes =
     (if take 12 bytes \<noteq> SIGNATURE \<or> length bytes < 16 then None
      else
        let command = bytes ! 12; fam = bytes ! 13;
            len = unat (u16_from_be (bytes ! 14) (bytes ! 15));
            body = take len (drop 16 bytes); rest = drop (16 + len) bytes
        in if length body < len then None
           else if command = 0x20 then Some (Untold, rest)
           else if command = 0x21 \<and> fam = 0x11 \<and> len \<ge> 12 then
             (case (ipv4_of_octets (take 4 body), ipv4_of_octets (take 4 (drop 4 body))) of
                (Some c, Some p) \<Rightarrow>
                  Some (Four c (u16_from_be (body ! 8) (body ! 9)) p (u16_from_be (body ! 10) (body ! 11)), rest)
              | _ \<Rightarrow> None)
           else if command = 0x21 \<and> fam = 0x21 \<and> len \<ge> 36 then
             (case (ipv6_of_octets (take 16 body), ipv6_of_octets (take 16 (drop 16 body))) of
                (Some c, Some p) \<Rightarrow>
                  Some (Six c (u16_from_be (body ! 32) (body ! 33)) p (u16_from_be (body ! 34) (body ! 35)), rest)
              | _ \<Rightarrow> None)
           else None)"

lemma read_v2_v2: "read_v2 (v2 e @ rest) = Some (e, rest)"
proof (cases e)
  case Untold
  then show ?thesis
    by (simp add: read_v2_def SIGNATURE_def LOCAL_COMMAND_def UNSPEC_def u16_to_be_def u16_from_be_def)
next
  case (Four c cp p pp)
  obtain a b a' b' where "u16_to_be cp = [a, b]" "u16_from_be a b = cp"
    "u16_to_be pp = [a', b']" "u16_from_be a' b' = pp" using u16_to_be_elems by metis
  moreover have "u16_to_be 12 = [0, 12]" "unat (u16_from_be 0 12) = 12"
    by (simp_all add: u16_to_be_def unat_u16_from_be)
  ultimately show ?thesis using Four
    by (cases c; cases p) (simp add: read_v2_def SIGNATURE_def PROXY_COMMAND_def TCP4_def)
next
  case (Six c cp p pp)
  obtain a b a' b' where "u16_to_be cp = [a, b]" "u16_from_be a b = cp"
    "u16_to_be pp = [a', b']" "u16_from_be a' b' = pp" using u16_to_be_elems by metis
  moreover have "u16_to_be 36 = [0, 36]" "unat (u16_from_be 0 36) = 36"
    by (simp_all add: u16_to_be_def unat_u16_from_be)
  ultimately show ?thesis using Six
    by (cases c; cases p) (simp add: read_v2_def SIGNATURE_def PROXY_COMMAND_def TCP6_def)
qed

end
