(* ===== verification/Clienthello.thy ===== *)
theory Clienthello
  imports Text
begin

text \<open>
  \<open>clienthello.rs\<close>: reading the server name out of a TLS ClientHello. A cursor is what is
  left of the slice it walks: it only moves forward, and each of its methods either takes
  bytes that are there or returns nothing.
\<close>

section \<open>The cursor\<close>

type_synonym cursor = "byte list"

definition cur_byte :: "cursor \<Rightarrow> (byte \<times> cursor) option" where
  "cur_byte c = (case c of [] \<Rightarrow> None | b # rest \<Rightarrow> Some (b, rest))"

definition cur_short :: "cursor \<Rightarrow> (u16 \<times> cursor) option" where
  "cur_short c = (case c of hi # lo # rest \<Rightarrow> Some (u16_from_be hi lo, rest) | _ \<Rightarrow> None)"

definition cur_skip :: "nat \<Rightarrow> cursor \<Rightarrow> cursor option" where
  "cur_skip n c = (if length c < n then None else Some (drop n c))"

definition cur_slice :: "nat \<Rightarrow> cursor \<Rightarrow> (cursor \<times> cursor) option" where
  "cur_slice n c = (if length c < n then None else Some (take n c, drop n c))"

definition cur_skip_byte_vector :: "cursor \<Rightarrow> cursor option" where
  "cur_skip_byte_vector c = (case cur_byte c of None \<Rightarrow> None | Some (n, rest) \<Rightarrow> cur_skip (unat n) rest)"

definition cur_skip_short_vector :: "cursor \<Rightarrow> cursor option" where
  "cur_skip_short_vector c = (case cur_short c of None \<Rightarrow> None | Some (n, rest) \<Rightarrow> cur_skip (unat n) rest)"

section \<open>Reading\<close>

definition HANDSHAKE_RECORD :: byte where "HANDSHAKE_RECORD = 22"
definition CLIENT_HELLO :: byte where "CLIENT_HELLO = 1"
definition SERVER_NAME_EXTENSION :: u16 where "SERVER_NAME_EXTENSION = 0"
definition HOST_NAME :: byte where "HOST_NAME = 0"
definition MOST_NAME_BYTES :: nat where "MOST_NAME_BYTES = 255"
definition MOST_HELLO_BYTES :: nat where "MOST_HELLO_BYTES = 16384 + 5"

datatype outcome = Named string | Nameless | More | NotAHandshake

function names_in :: "cursor \<Rightarrow> outcome" where
  "names_in list = (case cur_byte list of
     None \<Rightarrow> Nameless
   | Some (kind, rest) \<Rightarrow>
       (case cur_short rest of
          None \<Rightarrow> NotAHandshake
        | Some (len, rest) \<Rightarrow>
            if kind \<noteq> HOST_NAME then
              (case cur_slice (unat len) rest of
                 None \<Rightarrow> NotAHandshake
               | Some (_, rest) \<Rightarrow> names_in rest)
            else if unat len > MOST_NAME_BYTES then Nameless
            else (case cur_slice (unat len) rest of
                 None \<Rightarrow> NotAHandshake
               | Some (name, _) \<Rightarrow>
                   if \<not> utf8_valid (text_of name) then Nameless
                   else if name = [] then Nameless
                   else Named (text_of name))))"
  by pat_completeness auto
termination
  by (relation "measure length")
    (auto simp: cur_byte_def cur_short_def cur_slice_def split: list.splits if_splits)

definition name_in :: "cursor \<Rightarrow> outcome" where
  "name_in body = (case cur_short body of
     None \<Rightarrow> Nameless
   | Some (list_length, rest) \<Rightarrow>
       (case cur_slice (unat list_length) rest of
          None \<Rightarrow> NotAHandshake
        | Some (list, _) \<Rightarrow> names_in list))"

function extensions_in :: "cursor \<Rightarrow> outcome" where
  "extensions_in extensions = (case cur_short extensions of
     None \<Rightarrow> Nameless
   | Some (kind, rest) \<Rightarrow>
       (case cur_short rest of
          None \<Rightarrow> NotAHandshake
        | Some (len, rest) \<Rightarrow>
            (case cur_slice (unat len) rest of
               None \<Rightarrow> NotAHandshake
             | Some (body, rest) \<Rightarrow>
                 if kind = SERVER_NAME_EXTENSION then name_in body else extensions_in rest)))"
  by pat_completeness auto
termination
  by (relation "measure length")
    (auto simp: cur_short_def cur_slice_def split: list.splits if_splits)

declare names_in.simps [simp del] extensions_in.simps [simp del]

text \<open>From the session id on, once the record, the version and the randomness are past.\<close>

definition hello_from_session :: "cursor \<Rightarrow> outcome" where
  "hello_from_session c = (case cur_skip_byte_vector c of None \<Rightarrow> More | Some c \<Rightarrow>
     (case cur_skip_short_vector c of None \<Rightarrow> More | Some c \<Rightarrow>
     (case cur_skip_byte_vector c of None \<Rightarrow> More | Some c \<Rightarrow>
     (case cur_short c of
        None \<Rightarrow> Nameless
      | Some (extensions_length, c) \<Rightarrow>
          (case cur_slice (unat extensions_length) c of
             None \<Rightarrow> More
           | Some (extensions, _) \<Rightarrow> extensions_in extensions)))))"

definition read_hello :: "byte list \<Rightarrow> outcome" where
  "read_hello bytes = (case cur_byte bytes of None \<Rightarrow> More | Some (kind, c) \<Rightarrow>
     if kind \<noteq> HANDSHAKE_RECORD then NotAHandshake
     else (case cur_skip 2 c of None \<Rightarrow> More | Some c \<Rightarrow>
     (case cur_short c of None \<Rightarrow> More | Some (record_length, c) \<Rightarrow>
     if record_length = 0 then NotAHandshake
     else if length c < unat record_length then More
     else (case cur_byte c of None \<Rightarrow> More | Some (message, c) \<Rightarrow>
     if message \<noteq> CLIENT_HELLO then NotAHandshake
     else (case cur_skip 3 c of None \<Rightarrow> More | Some c \<Rightarrow>
     (case cur_skip (2 + 32) c of None \<Rightarrow> More | Some c \<Rightarrow> hello_from_session c))))))"

section \<open>What a name can be\<close>

definition sni_text :: "string \<Rightarrow> bool" where
  "sni_text name \<longleftrightarrow> name \<noteq> [] \<and> length name \<le> 255 \<and> utf8_valid name"

lemma cur_slice_length: "cur_slice n c = Some (taken, rest) \<Longrightarrow> length taken = n"
  by (auto simp: cur_slice_def split: if_splits)

lemma names_in_Named: "names_in list = Named name \<Longrightarrow> sni_text name"
proof (induction list rule: names_in.induct)
  case (1 list)
  obtain kind r1 where one: "cur_byte list = Some (kind, r1)"
    using 1(2) by (cases "cur_byte list") (auto simp: names_in.simps [of list])
  obtain len r2 where two: "cur_short r1 = Some (len, r2)"
    using 1(2) one by (cases "cur_short r1") (auto simp: names_in.simps [of list])
  show ?case
  proof (cases "kind = HOST_NAME")
    case True
    then obtain found r3 where three: "cur_slice (unat len) r2 = Some (found, r3)"
      using 1(2) one two
      by (cases "cur_slice (unat len) r2") (auto simp: names_in.simps [of list] split: if_splits)
    from cur_slice_length [OF this] 1(2) one two three True show ?thesis
      by (auto simp: names_in.simps [of list] text_of_def MOST_NAME_BYTES_def sni_text_def split: if_splits)
  next
    case False
    then obtain found r3 where three: "cur_slice (unat len) r2 = Some (found, r3)"
      using 1(2) one two by (cases "cur_slice (unat len) r2") (auto simp: names_in.simps [of list])
    have "names_in r3 = Named name" using 1(2) one two three False by (simp add: names_in.simps [of list])
    from 1(1) [OF one refl two refl False three refl this] show ?thesis .
  qed
qed

lemma name_in_Named: "name_in body = Named name \<Longrightarrow> sni_text name"
  by (auto simp: name_in_def split: option.splits intro: names_in_Named)

lemma extensions_in_Named: "extensions_in exts = Named name \<Longrightarrow> sni_text name"
proof (induction exts rule: extensions_in.induct)
  case (1 exts)
  obtain kind r1 where one: "cur_short exts = Some (kind, r1)"
    using 1(2) by (cases "cur_short exts") (auto simp: extensions_in.simps [of exts])
  obtain len r2 where two: "cur_short r1 = Some (len, r2)"
    using 1(2) one by (cases "cur_short r1") (auto simp: extensions_in.simps [of exts])
  obtain body r3 where three: "cur_slice (unat len) r2 = Some (body, r3)"
    using 1(2) one two by (cases "cur_slice (unat len) r2") (auto simp: extensions_in.simps [of exts])
  show ?case
  proof (cases "kind = SERVER_NAME_EXTENSION")
    case True
    with 1(2) one two three show ?thesis by (simp add: extensions_in.simps [of exts] name_in_Named)
  next
    case False
    then have "extensions_in r3 = Named name"
      using 1(2) one two three by (simp add: extensions_in.simps [of exts])
    from 1(1) [OF one refl two refl three refl False this] show ?thesis .
  qed
qed

lemma extensions_in_not_More: "extensions_in exts \<noteq> More"
proof -
  have "names_in list \<noteq> More" for list
    by (induction list rule: names_in.induct)
      (auto simp: names_in.simps split: option.split)
  then show ?thesis
    by (induction exts rule: extensions_in.induct)
      (auto simp: extensions_in.simps name_in_def split: option.split)
qed

section \<open>A ClientHello as it is written\<close>

definition vec8 :: "byte list \<Rightarrow> byte list" where
  "vec8 xs = of_nat (length xs) # xs"

definition vec16 :: "byte list \<Rightarrow> byte list" where
  "vec16 xs = u16_to_be (of_nat (length xs)) @ xs"

definition extension :: "u16 \<times> byte list \<Rightarrow> byte list" where
  "extension e = u16_to_be (fst e) @ vec16 (snd e)"

text \<open>The server name extension of RFC 6066: a list of one host name.\<close>

definition server_name :: "byte list \<Rightarrow> byte list" where
  "server_name name = vec16 ([HOST_NAME] @ vec16 name)"

record hello =
  he_version :: "byte list"
  he_random :: "byte list"
  he_session :: "byte list"
  he_ciphers :: "byte list"
  he_compression :: "byte list"
  he_extensions :: "(u16 \<times> byte list) list"

definition hello_message :: "byte list \<Rightarrow> hello \<Rightarrow> byte list" where
  "hello_message len3 h = [CLIENT_HELLO] @ len3 @ he_version h @ he_random h @ vec8 (he_session h)
     @ vec16 (he_ciphers h) @ vec8 (he_compression h) @ vec16 (concat (map extension (he_extensions h)))"

definition hello_record :: "byte list \<Rightarrow> byte list \<Rightarrow> hello \<Rightarrow> byte list" where
  "hello_record version len3 h = [HANDSHAKE_RECORD] @ version @ vec16 (hello_message len3 h)"

definition hello_fits :: "byte list \<Rightarrow> byte list \<Rightarrow> hello \<Rightarrow> bool" where
  "hello_fits version len3 h \<longleftrightarrow> length version = 2 \<and> length len3 = 3 \<and> length (he_version h) = 2 \<and>
     length (he_random h) = 32 \<and> length (he_session h) < 256 \<and> length (he_ciphers h) < 65536 \<and>
     length (he_compression h) < 256 \<and> list_all (\<lambda>e. length (snd e) < 65536) (he_extensions h) \<and>
     length (concat (map extension (he_extensions h))) < 65536 \<and> length (hello_message len3 h) < 65536"

lemma cur_short_be: "cur_short (u16_to_be w @ rest) = Some (w, rest)"
proof -
  obtain a b where "u16_to_be w = [a, b]" "u16_from_be a b = w" by (rule u16_to_be_elems)
  then show ?thesis by (simp add: cur_short_def)
qed

lemma cur_slice_append: "n = length xs \<Longrightarrow> cur_slice n (xs @ rest) = Some (xs, rest)"
  by (simp add: cur_slice_def)

lemma cur_skip_append: "n = length xs \<Longrightarrow> cur_skip n (xs @ rest) = Some rest"
  by (simp add: cur_skip_def)

lemma cur_skip_vec8: "length xs < 256 \<Longrightarrow> cur_skip_byte_vector (vec8 xs @ rest) = Some rest"
  by (simp add: cur_skip_byte_vector_def vec8_def cur_byte_def cur_skip_def unat_of_nat)

lemma cur_skip_vec16: "length xs < 65536 \<Longrightarrow> cur_skip_short_vector (vec16 xs @ rest) = Some rest"
  by (simp add: cur_skip_short_vector_def vec16_def cur_short_be cur_skip_def unat_of_nat)

lemma extensions_in_step:
  assumes "length (snd e) < 65536"
  shows "extensions_in (extension e @ rest) =
    (if fst e = SERVER_NAME_EXTENSION then name_in (snd e) else extensions_in rest)"
  unfolding extensions_in.simps [of "extension e @ rest"]
  using assms by (simp add: extension_def vec16_def cur_short_be cur_slice_def unat_of_nat)

lemma extensions_in_skip:
  "list_all (\<lambda>e. length (snd e) < 65536 \<and> fst e \<noteq> SERVER_NAME_EXTENSION) es \<Longrightarrow>
     extensions_in (concat (map extension es) @ rest) = extensions_in rest"
  by (induction es) (simp_all add: extensions_in_step)

lemma name_in_vec16: "length list < 65536 \<Longrightarrow> name_in (vec16 list) = names_in list"
  by (simp add: name_in_def vec16_def cur_short_be cur_slice_def unat_of_nat)

lemma names_in_host:
  assumes "name \<noteq> []" "length name \<le> 255" "utf8_valid (text_of name)"
  shows "names_in (HOST_NAME # vec16 name) = Named (text_of name)"
  unfolding names_in.simps [of "HOST_NAME # vec16 name"]
  using assms by (simp add: cur_byte_def vec16_def cur_short_be cur_slice_def unat_of_nat MOST_NAME_BYTES_def)

lemma name_in_server_name:
  assumes "name \<noteq> []" "length name \<le> 255" "utf8_valid (text_of name)"
  shows "name_in (server_name name) = Named (text_of name)"
  using assms names_in_host [OF assms]
  by (simp add: server_name_def name_in_vec16 vec16_def [of name] length_u16_to_be)

lemma read_hello_record:
  assumes "hello_fits version len3 h"
  shows "read_hello (hello_record version len3 h @ rest) =
    extensions_in (concat (map extension (he_extensions h)))"
proof -
  let ?m = "hello_message len3 h"
  have fits: "length version = 2" "length len3 = 3" "length (he_version h) = 2" "length (he_random h) = 32"
    "length (he_session h) < 256" "length (he_ciphers h) < 65536" "length (he_compression h) < 256"
    "length (concat (map extension (he_extensions h))) < 65536" "length ?m < 65536"
    using assms by (simp_all add: hello_fits_def)
  have len: "unat (of_nat (length ?m) :: u16) = length ?m" using fits(9) by (simp add: unat_of_nat)
  have pos: "(of_nat (length ?m) :: u16) \<noteq> 0"
    using len by (metis (no_types) append_Cons hello_message_def length_0_conv list.distinct(1) unat_0)
  have ext: "cur_short (vec16 (concat (map extension (he_extensions h))) @ rest) =
      Some (of_nat (length (concat (map extension (he_extensions h)))), concat (map extension (he_extensions h)) @ rest)"
    by (simp add: vec16_def cur_short_be)
  have session: "hello_from_session (vec8 (he_session h) @ vec16 (he_ciphers h) @ vec8 (he_compression h)
      @ vec16 (concat (map extension (he_extensions h))) @ rest) = extensions_in (concat (map extension (he_extensions h)))"
    using fits by (simp add: hello_from_session_def cur_skip_vec8 cur_skip_vec16 ext cur_slice_append unat_of_nat)
  have skips: "cur_skip 2 (version @ xs) = Some xs" "cur_skip 3 (len3 @ xs) = Some xs"
    "cur_skip 34 (he_version h @ he_random h @ xs) = Some xs" for xs
    using fits by (simp_all add: cur_skip_def)
  show ?thesis
    using len pos session skips
    by (simp add: read_hello_def hello_record_def cur_byte_def vec16_def [of ?m] cur_short_be)
      (simp add: hello_message_def)
qed

lemma server_name_read:
  assumes "hello_fits version len3 h"
    and "he_extensions h = before @ (SERVER_NAME_EXTENSION, server_name name) # after"
    and "list_all (\<lambda>e. fst e \<noteq> SERVER_NAME_EXTENSION) before"
    and "name \<noteq> []" "length name \<le> 255" "utf8_valid (text_of name)"
  shows "read_hello (hello_record version len3 h @ rest) = Named (text_of name)"
proof -
  have short: "list_all (\<lambda>e. length (snd e) < 65536) (he_extensions h)" using assms(1) by (simp add: hello_fits_def)
  then have "list_all (\<lambda>e. length (snd e) < 65536 \<and> fst e \<noteq> SERVER_NAME_EXTENSION) before"
    using assms(2,3) by (simp add: list_all_iff)
  from extensions_in_skip [OF this] have "extensions_in (concat (map extension (he_extensions h))) =
      extensions_in (extension (SERVER_NAME_EXTENSION, server_name name) @ concat (map extension after))"
    by (simp add: assms(2))
  also have "\<dots> = Named (text_of name)"
    using short name_in_server_name [OF assms(4-6)] by (subst extensions_in_step) (simp_all add: assms(2))
  finally show ?thesis using read_hello_record [OF assms(1)] by simp
qed

lemma hello_from_session_Named: "hello_from_session c = Named name \<Longrightarrow> sni_text name"
  unfolding hello_from_session_def by (auto split: option.splits dest!: extensions_in_Named)

lemma read_hello_Named: "read_hello bytes = Named name \<Longrightarrow> sni_text name"
  unfolding read_hello_def by (auto split: option.splits if_splits dest!: hello_from_session_Named)

end
