(* ===== verification/Dataplane_Properties.thy ===== *)
theory Dataplane_Properties
  imports Balance Route Sticky Policy Pool Proxyproto Clienthello
begin

text \<open>
  What the traffic path promises: where a request goes, which members take traffic, what a
  client's cookie and its first bytes can make the proxy do, and what is written to a
  backend and to the metrics. Sample pools and a sample greeting serve the witnesses.
\<close>

definition sample_member :: "string \<Rightarrow> u16 \<Rightarrow> backend_member" where
  "sample_member ident weight = \<lparr>bm_id = ident, bm_address = V4 (Ipv4 10 1 0 1), bm_port = 80,
     bm_weight = weight, bm_admin_state = Enabled\<rparr>"

definition sample_pool :: "lb_algorithm \<Rightarrow> backend" where
  "sample_pool algo = \<lparr>b_id = ''web'', b_members = [sample_member ''a'' 2, sample_member ''b'' 1],
     b_algorithm = algo, b_health_check = None, b_stickiness = StickinessDisabled,
     b_connection_pooling = PoolingDisabled, b_connection_pool_size = 128,
     b_connection_lifetime_seconds = 300\<rparr>"

definition sample_check :: health_check where
  "sample_check = \<lparr>hc_probe = TcpConnect, hc_interval_ms = 1000, hc_timeout_ms = 500,
     hc_healthy_threshold = 2, hc_unhealthy_threshold = 3\<rparr>"

lemma sample_eligible:
  "eligible (sample_pool algo) new_health = [sample_member ''a'' 2, sample_member ''b'' 1]"
  by (simp add: eligible_def enabled_def sample_pool_def sample_member_def is_healthy_def new_health_def
      bt_get_def)

lemma count_list_Some: "count_list (map Some xs) (Some m) = count (mset xs) m"
  by (induction xs) auto

section \<open>Choosing a member\<close>

text \<open>
  C9: Consistent hashing moves only what it must. When a member is taken out of a pool,
  every key that went to another member still goes there, even where the points of
  different members fall together.
\<close>

theorem removal_moves_only_its_keys:
  assumes "picked ms key = Some m" "m \<noteq> gone"
  shows "picked (filter (\<lambda>y. y \<noteq> gone) ms) key = Some m"
  by (rule picked_without [OF assms])

theorem removal_moves_only_its_keys_witness:
  "\<exists>m. m \<in> {''a'', ''b''} \<and>
     picked (filter (\<lambda>y. y \<noteq> (if m = ''a'' then ''b'' else ''a'')) [''a'', ''b'']) 5 = Some m"
proof -
  obtain i where i: "pick (build [''a'', ''b'']) 5 = Some i"
    using pick_total [of "[''a'', ''b'']" 5] by auto
  then have some: "picked [''a'', ''b''] 5 = Some ([''a'', ''b''] ! i)" by (simp add: picked_def)
  then obtain p where "owner [''a'', ''b''] p = Some ([''a'', ''b''] ! i)" unfolding picked_Some by blast
  then have m: "[''a'', ''b''] ! i \<in> {''a'', ''b''}" using owner_member by fastforce
  have "[''a'', ''b''] ! i \<noteq> (if [''a'', ''b''] ! i = ''a'' then ''b'' else ''a'')" by auto
  from removal_moves_only_its_keys [OF some this] m show ?thesis by blast
qed

text \<open>
  A failing member moves only its own traffic. Under consistent hashing a request that
  goes to a member keeps going to it while other members of the pool fail, as long as that
  member stays healthy.
\<close>

lemma failure_moves_only_its_keys:
  assumes "b_algorithm pool = ConsistentHash" "fst (choose_by b pool r key) = Some m"
    and "is_healthy h' (b_id pool) (bm_id m)"
    and "\<And>x. is_healthy h' (b_id pool) x \<Longrightarrow> is_healthy (bal_health b) (b_id pool) x"
  shows "fst (choose_by (b\<lparr>bal_health := h'\<rparr>) pool r key) = Some m"
proof -
  let ?ok = "\<lambda>h at. case get_at at (enabled pool) of None \<Rightarrow> False | Some m \<Rightarrow> is_healthy h (b_id pool) (bm_id m)"
  have ne: "eligible pool (bal_health b) \<noteq> []" using assms(2) by (auto simp: choose_by_empty)
  from assms(1,2) obtain at where at: "pick_where r (hash key) (?ok (bal_health b)) = Some at"
    "get_at at (enabled pool) = Some m"
    by (auto simp: choose_by_cases [OF ne] split: option.splits)
  have "pick_where r (hash key) (?ok h') = Some at"
    by (rule pick_where_stable [OF at(1)]) (use at(2) assms(3,4) in \<open>auto split: option.splits\<close>)
  moreover have "eligible pool h' \<noteq> []"
    using at(2) assms(3) by (auto simp: eligible_def filter_empty_conv get_at_Some)
  ultimately show ?thesis using assms(1) at(2) by (simp add: choose_by_def Let_def cong: option.case_cong)
qed

text \<open>
  C10: A pool with someone to answer answers. Whatever the algorithm, a choice is always an
  enabled and healthy member, and there is one whenever the pool has such a member, unless
  the table of open connections was poisoned or two members' points on the ring fall
  together.
\<close>

theorem choice_exists_and_is_eligible:
  assumes "eligible pool (bal_health b) \<noteq> []" "\<not> bal_poisoned b"
    and "length (by_weight (eligible pool (bal_health b))) < 2 ^ 64"
    and "b_algorithm pool = ConsistentHash \<Longrightarrow> points_apart pool"
  shows "\<exists>m. fst (choose_by b pool (ring_for pool) key) = Some m \<and> m \<in> set (eligible pool (bal_health b))"
proof -
  from choose_by_total [OF assms, of key] obtain m where
    "fst (choose_by b pool (ring_for pool) key) = Some m" by blast
  with choose_by_eligible [OF this] show ?thesis by blast
qed

theorem choice_exists_and_is_eligible_witness:
  "\<exists>m. fst (choose_by new_balancer (sample_pool RoundRobin) (ring_for (sample_pool RoundRobin)) [1, 2]) = Some m \<and>
     m \<in> set (eligible (sample_pool RoundRobin) new_health)"
  using choice_exists_and_is_eligible [of "sample_pool RoundRobin" new_balancer "[1, 2]"]
  by (simp add: new_balancer_def sample_eligible) (simp add: by_weight_def sample_pool_def sample_member_def)

text \<open>
  Round robin gives each member its weight. In one full turn of the rotation, wherever
  it starts, every member of a pool without repeated members is chosen exactly as often as
  its weight says, and a weight of zero counts as one.
\<close>

lemma round_robin_by_weight:
  assumes "b_algorithm pool = RoundRobin" "eligible pool (bal_health b) = members" "members \<noteq> []"
    and "distinct members" "m \<in> set members"
    and "unat (bal_cursor b) + length (by_weight members) \<le> 2 ^ 64" "length (by_weight members) < 2 ^ 64"
  shows "count_list (choose_run (length (by_weight members)) b pool r key) (Some m) = max (unat (bm_weight m)) 1"
proof -
  let ?turn = "by_weight members"
  have ne: "?turn \<noteq> []" using assms(3) by simp
  have "choose_run (length ?turn) b pool r key =
      map Some (map (\<lambda>i. ?turn ! ((unat (bal_cursor b) + i) mod length ?turn)) [0..<length ?turn])"
    using choose_run_round_robin [OF assms(1-3,7,6)] by simp
  then have "count_list (choose_run (length ?turn) b pool r key) (Some m) = count (mset ?turn) m"
    using rotation_mset [OF ne, of "unat (bal_cursor b)"]
    by (simp add: count_list_Some del: map_map)
  also have "\<dots> = max (unat (bm_weight m)) 1"
    using assms(4,5) by (simp add: count_by_weight distinct_count_atmost_1)
  finally show ?thesis .
qed

text \<open>
  Least connections picks a least loaded member: no enabled and healthy member of the
  pool carries fewer connections, over all frontends, than the one chosen.
\<close>

lemma least_connections_least:
  assumes "b_algorithm pool = LeastConnections" "fst (choose_by b pool r key) = Some m"
    and "m' \<in> set (eligible pool (bal_health b))"
  shows "total_for (bal_open b) (b_id pool) (bm_id m) \<le> total_for (bal_open b) (b_id pool) (bm_id m')"
proof -
  have ne: "eligible pool (bal_health b) \<noteq> []" using assms(2) by (auto simp: choose_by_empty)
  with assms have "min_by_key (\<lambda>m. (total_for (bal_open b) (b_id pool) (bm_id m), bm_id m))
      (eligible pool (bal_health b)) = Some m"
    by (simp add: choose_by_cases [OF ne] split: if_splits)
  from min_by_key_Some [OF this] assms(3) show ?thesis by (auto simp: less_eq_prod_def)
qed

section \<open>Health\<close>

text \<open>
  A member goes out of service exactly after the configured run of failures. From the
  state every member starts in, a sequence of probe answers leaves it in service at every
  step exactly when it contains no unbroken run of as many failures as the check's
  threshold, however long the sequence and whatever comes between.
\<close>

lemma down_after_run_of_failures:
  "set (fst (take_answers check answers default_state)) \<subseteq> {NoChange} \<longleftrightarrow>
     \<not> sublist (replicate (max (unat (hc_unhealthy_threshold check)) 1) False) answers"
  using unmoved_iff [of default_state False check answers] after_bounds [of check]
  by (simp add: default_state_def count_of_def flips_after_def down_after_def)

text \<open>
  One member's answers touch one member. Recording an answer for a member leaves
  whether any other takes traffic as it was, and gives that member the state its run of
  answers asks for.
\<close>

lemma answer_touches_one_member:
  assumes "bt_wf (h_states h)" "\<not> h_poisoned h" "record_answer h pool member check good = (change, h')"
  shows "is_healthy h' pool' member' =
    (if (pool', member') = (pool, member)
     then hs_healthy (snd (take_answer check good (or_default (bt_get (pool, member) (h_states h)))))
     else is_healthy h pool' member')"
  using record_answer_get [OF assms] assms(2) by (simp add: is_healthy_or_default)

section \<open>Routing\<close>

text \<open>
  A normalised path is a rooted list of real components: none of them empty, a dot or
  a double dot, and none with a separator inside, whatever escapes the request used.
\<close>

lemma normalised_path_form:
  "\<exists>parts slash. list_all clean_part parts \<and>
     normalise path = (if parts = [] then ''/'' else render parts @ (if slash then ''/'' else []))"
  using path_parts_clean [of path] normalise_render [of path] by (metis list_all_iff)

text \<open>
  A path prefix covers whole components. A case sensitive rule for a prefix made of
  clean components matches a normalised path exactly when those components are the path's
  first ones.
\<close>

lemma prefix_covers_components:
  assumes "list_all clean_part pre" "pre \<noteq> []"
  shows "path_matches lower (render pre) (normalise path) Sensitive \<longleftrightarrow> prefix pre (path_parts path)"
proof -
  have clean: "\<forall>p \<in> set pre. clean_part p" using assms(1) by (simp add: list_all_iff)
  obtain qs q where pre: "pre = qs @ [q]" using assms(2) by (cases pre rule: rev_cases) auto
  then have q: "q \<noteq> []" "CHR ''/'' \<notin> set q" using clean by (auto simp: clean_part_def)
  then have last: "\<not> ends_with (CHR ''/'') (render pre)"
    using pre by (auto simp: ends_with_def dest: last_in_set)
  have matches: "path_matches lower (render pre) path' Sensitive \<longleftrightarrow>
      path' = render pre \<or> (\<exists>rest. path' = render pre @ CHR ''/'' # rest)" for path'
  proof -
    have "starts_with (CHR ''/'') rest \<longleftrightarrow> (\<exists>tail. rest = CHR ''/'' # tail)" for rest
      by (cases rest) (auto simp: starts_with_def)
    note slash = this
    show ?thesis
    proof (cases "strip_prefix (render pre) path'")
      case None
      then have no: "path' \<noteq> render pre @ rest" for rest
        using strip_prefix_Some [of "render pre" path' rest] by auto
      from no [of "[]"] no None show ?thesis by (auto simp: path_matches_def)
    next
      case (Some rest)
      then have "path' = render pre @ rest" by (simp add: strip_prefix_Some)
      with Some slash last show ?thesis by (auto simp: path_matches_def)
    qed
  qed
  show ?thesis
  proof (cases "path_parts path = []")
    case True
    then have "length (normalise path) = 1" by (simp add: normalise_render)
    moreover have "length (render pre) \<ge> 2" using pre q(1) by (cases q) simp_all
    ultimately show ?thesis using matches [of "normalise path"] True assms(2) by auto
  next
    case False
    with render_prefix [OF clean assms(2) path_parts_clean False] matches show ?thesis
      by (simp add: normalise_render)
  qed
qed

text \<open>
  The first matching rule decides. A request goes where the first routing rule that
  matches its host and its normalised path sends it, with that rule's own time limit where
  it has one, and where the frontend's default sends it when no rule matches.
\<close>

lemma first_matching_rule_decides:
  "decide lower f host path =
     (case List.find (\<lambda>rule. rule_matches lower rule (map_option strip_port host) (normalise path)) (f_routing_rules f) of
        None \<Rightarrow> (case f_default_backend f of
            None \<Rightarrow> Nowhere | Some backend \<Rightarrow> Pool backend (f_request_timeout_seconds f))
      | Some rule \<Rightarrow> (case rule_action rule of
            Proxy backend \<Rightarrow> Pool backend (case rule_request_timeout_seconds rule of
                None \<Rightarrow> f_request_timeout_seconds f | Some t \<Rightarrow> t)
          | Redirect status \<Rightarrow> RedirectTo (redirect_code status)))"
proof -
  have "decide_rules lower f rules h p =
      (case List.find (\<lambda>rule. rule_matches lower rule h p) rules of
        None \<Rightarrow> (case f_default_backend f of
            None \<Rightarrow> Nowhere | Some backend \<Rightarrow> Pool backend (f_request_timeout_seconds f))
      | Some rule \<Rightarrow> (case rule_action rule of
            Proxy backend \<Rightarrow> Pool backend (case rule_request_timeout_seconds rule of
                None \<Rightarrow> f_request_timeout_seconds f | Some t \<Rightarrow> t)
          | Redirect status \<Rightarrow> RedirectTo (redirect_code status)))" for rules h p
    by (induction rules) simp_all
  then show ?thesis by (simp add: decide_def)
qed

section \<open>Cookies, labels and reuse\<close>

text \<open>
  A client comes back to its member. When the tokens of a pool's members differ, the
  cookie the proxy set for a member, sent back by a browser among other cookies in one
  header, is read and leads to that member; and a value that is no member's token leads
  nowhere.
\<close>

lemma cookie_leads_back:
  assumes "cookie_text name" "m \<in> set ms" "inj_on (\<lambda>x. token hmac s pool (bm_id x)) (set ms)"
    and "list_all (\<lambda>pair. CHR '';'' \<notin> set pair \<and> read_pair name pair = None) others"
    and "hd (split_on (CHR '';'') (set_cookie name (token hmac s pool (bm_id m)) site secure)) = sent"
  shows "Option.bind (read_cookie [join '';'' (others @ [sent])] name) (member_for hmac s pool ms) = Some m \<and>
    (value \<notin> (\<lambda>x. token hmac s pool (bm_id x)) ` set ms \<longrightarrow> member_for hmac s pool ms value = None)"
proof -
  let ?t = "token hmac s pool (bm_id m)"
  have sent: "sent = name @ ''='' @ ?t" using assms(5) set_cookie_pair [OF assms(1) token_clean] by metis
  have "list_all (\<lambda>p. CHR '';'' \<notin> set p) (others @ [sent])"
    using assms(1,4) token_clean [of hmac s pool "bm_id m"] by (auto simp: sent list_all_iff cookie_text_def)
  from split_on_join [OF this] have "read_cookie [join '';'' (others @ [sent])] name = read_pair name sent"
    using find_map_last [of "read_pair name" others sent] assms(4)
    by (simp add: read_cookie_def list_all_iff split: option.split)
  also have "\<dots> = Some ?t" using read_pair_set [OF assms(1) token_clean] by (simp add: sent)
  finally show ?thesis using member_for_inj [OF assms(2,3)] by (auto simp: member_for_None)
qed

text \<open>A digest that keeps the message apart, in place of the one of the library.\<close>

definition sample_hmac :: "byte list \<Rightarrow> byte list \<Rightarrow> byte list" where
  "sample_hmac key message = message"

lemma sample_digests: "take DIGEST_BYTES (as_bytes ''web'' @ [0] @ as_bytes ''a'') \<noteq>
    take DIGEST_BYTES (as_bytes ''web'' @ [0] @ as_bytes ''b'')"
  by (simp add: as_bytes_def byte_of_def DIGEST_BYTES_def)

text \<open>
  A label is read back as it was written, and no label breaks the line it is on,
  whatever characters a frontend's name has.
\<close>

lemma metric_label_roundtrip: "label_unescape (label_escape s) = s \<and> newline \<notin> set (label_escape s)"
  using label_unescape_escape label_escape_no_newline by blast

text \<open>
  Connections of a pool with reuse turned off are never shared: the group such a
  request is put in differs from that of every other such request and from that of every
  request of a pool that reuses connections, for as long as fewer than 2 to the 63rd
  requests were made and the clock reads less than that many seconds.
\<close>

lemma unshared_groups_apart:
  assumes "b_connection_pooling pool = PoolingDisabled" "counter < NEVER_SHARED" "counter' < NEVER_SHARED"
    and "now < NEVER_SHARED" "b_connection_pooling other = PoolingDisabled \<Longrightarrow> counter' \<noteq> counter"
  shows "fst (pool_reuse_group pool counter now) \<noteq> fst (pool_reuse_group other counter' now)"
proof (cases "b_connection_pooling other")
  case PoolingEnabled
  then have "fst (pool_reuse_group other counter' now) < NEVER_SHARED"
    using reuse_group_small [OF assms(4)] by (simp add: pool_reuse_group_def)
  from small_no_bit [OF this] show ?thesis
    using assms(1) never_shared_bit [of counter] by (auto simp: pool_reuse_group_def)
next
  case PoolingDisabled
  with assms(5) have "counter' \<noteq> counter" by simp
  then show ?thesis
    using never_shared_inj [OF _ assms(2,3)] assms(1) PoolingDisabled by (auto simp: pool_reuse_group_def)
qed

text \<open>
  A backend that follows the PROXY protocol specification reads a version 2 header
  back as the two ends it was written for, and finds the client's own bytes right behind
  it.
\<close>

lemma proxy_v2_roundtrip: "read_v2 (v2 (pair client proxy) @ rest) = Some (pair client proxy, rest)"
  by (rule read_v2_v2)

section \<open>The server name\<close>

text \<open>
  C40: The name a client asks for is found wherever it stands. A ClientHello as the TLS
  specification lays it out, with any session, cipher suites and other extensions before
  and after, gives exactly the host name of its server name extension, also when later
  bytes of the connection have already arrived.
\<close>

theorem server_name_found:
  assumes "hello_fits version len3 h"
    and "he_extensions h = before @ (SERVER_NAME_EXTENSION, server_name name) # after"
    and "list_all (\<lambda>e. fst e \<noteq> SERVER_NAME_EXTENSION) before"
    and "name \<noteq> []" "length name \<le> 255" "utf8_valid (text_of name)"
  shows "read_hello (hello_record version len3 h @ rest) = Named (text_of name)"
  by (rule server_name_read [OF assms])

definition sample_hello :: hello where
  "sample_hello = \<lparr>he_version = [3, 3], he_random = replicate 32 0, he_session = [], he_ciphers = [0x13, 1],
     he_compression = [0], he_extensions = [(10, [0]), (SERVER_NAME_EXTENSION, server_name [97, 98]), (16, [])]\<rparr>"

lemma sample_hello_fits: "hello_fits [3, 1] [0, 0, 64] sample_hello"
  by (simp add: hello_fits_def sample_hello_def hello_message_def extension_def vec8_def vec16_def server_name_def
      length_u16_to_be)

lemma sample_name_text: "utf8_valid (text_of [97, 98])"
  by (simp add: text_of_def byte_in_def utf8_valid_Cons)

theorem server_name_found_witness:
  "read_hello (hello_record [3, 1] [0, 0, 64] sample_hello @ [23, 3, 3]) = Named (text_of [97, 98])"
  by (rule server_name_found [OF sample_hello_fits, of "[(10, [0])]" _ "[(16, [])]"])
    (simp_all add: sample_hello_def SERVER_NAME_EXTENSION_def sample_name_text)

text \<open>
  Whatever bytes arrive, a name that is taken from them is valid text of one to 255
  bytes.
\<close>

lemma server_name_bounded:
  assumes "read_hello bytes = Named name"
  shows "name \<noteq> [] \<and> length name \<le> 255 \<and> utf8_valid name"
  using read_hello_Named [OF assms] by (simp add: sni_text_def)

end
