(* ===== verification/Config.thy ===== *)
theory Config
  imports Frontends Text
begin

text \<open>
  The whole configuration: \<open>config.rs\<close> and the types it is made of, in \<open>node.rs\<close>, \<open>vip.rs\<close>,
  \<open>certificate.rs\<close>, \<open>acme.rs\<close> and \<open>logging.rs\<close>. Identities are the strings they wrap, and
  order as strings of bytes do. The times of a certificate are signed 64 bit numbers, kept
  as integers; arithmetic on them is written out with \<open>wrap_i64\<close>.
\<close>

section \<open>Signed numbers\<close>

definition I64_MAX :: int where "I64_MAX = 2 ^ 63 - 1"

definition wrap_i64 :: "int \<Rightarrow> int" where
  "wrap_i64 n = (n + 2 ^ 63) mod 2 ^ 64 - 2 ^ 63"

text \<open>\<open>i64::try_from(len).unwrap_or(i64::MAX)\<close>.\<close>

definition i64_of_len :: "nat \<Rightarrow> int" where
  "i64_of_len n = (if int n \<le> I64_MAX then int n else I64_MAX)"

lemma wrap_i64_id: "- (2 ^ 63) \<le> n \<Longrightarrow> n < 2 ^ 63 \<Longrightarrow> wrap_i64 n = n"
  by (simp add: wrap_i64_def mod_pos_pos_trivial)

section \<open>Nodes and addresses\<close>

datatype node_role = ControlPlane | DataPlane

record node =
  n_id :: string
  n_address :: ip_addr
  n_roles :: "node_role list"

record vip =
  v_id :: string
  v_address :: ip_addr
  v_prefix_length :: byte
  v_interface :: string
  v_preferred_node :: "string option"

section \<open>Certificates\<close>

datatype certificate_source = AcmeHttp01 | AcmeDns01 string | ManualUpload

record certificate_validity =
  not_before_unix :: int
  not_after_unix :: int

record certificate =
  c_id :: string
  c_sni_names :: "string list"
  c_source :: certificate_source
  c_validity :: "certificate_validity option"
  c_chain :: "string option"
  c_private_key :: "string option"

datatype tsig_algorithm = HmacSha256 | HmacSha512

datatype dns_provider_connection =
    Rfc2136 ip_addr u16 string string tsig_algorithm string
  | Cloudflare string string string

record dns_provider =
  d_id :: string
  d_connection :: dns_provider_connection
  d_propagation_timeout_secs :: u32

definition default_propagation_timeout_secs :: u32 where "default_propagation_timeout_secs = 120"

definition CLOUDFLARE_API_BASE :: string where
  "CLOUDFLARE_API_BASE = ''https://api.cloudflare.com/client/v4''"

section \<open>Settings\<close>

definition ACCOUNT_KEY :: string where "ACCOUNT_KEY = ''acme.account.key''"

record acme_settings =
  a_directory_url :: string
  a_contact_email :: string
  a_accepted_terms :: bool
  a_trusted_root_pem :: string

datatype log_level = LogError | LogWarn | LogInfo | LogDebug | LogTrace

definition LOG_LEVELS :: "log_level list" where
  "LOG_LEVELS = [LogError, LogWarn, LogInfo, LogDebug, LogTrace]"

type_synonym schema_version = u32

definition SCHEMA_CURRENT :: schema_version where "SCHEMA_CURRENT = 1"

definition default_expiry_warning_days :: u32 where "default_expiry_warning_days = 30"

record config =
  schema_version :: schema_version
  nodes :: "node list"
  vips :: "vip list"
  frontends :: "frontend list"
  backends :: "backend list"
  certificates :: "certificate list"
  dns_providers :: "dns_provider list"
  acme :: "acme_settings option"
  stickiness_key :: string
  config_log_level :: log_level
  certificate_expiry_warning_days :: u32

end
