(* ===== verification/Matrix.thy ===== *)
theory Matrix
  imports Config "HOL-Library.Multiset"
begin

text \<open>
  \<open>matrix.rs\<close>: which node holds which virtual address, and under which protocol numbers.
  SHA-256 comes from a library: it is the parameter \<open>sha\<close>, from the bytes hashed to the
  digest. Every list is sorted as the source sorts it; \<open>sort_key\<close> is stable, as
  \<open>slice::sort_by\<close> is.
\<close>

section \<open>Numbers\<close>

definition TOP :: byte where "TOP = 200"
definition STEP :: byte where "STEP = 10"
definition FLOOR :: byte where "FLOOR = 1"
definition FIRST_VRID :: byte where "FIRST_VRID = 1"
definition LAST_VRID :: byte where "LAST_VRID = 255"
definition VRIDS :: nat where "VRIDS = 255"
definition USIZE_MAX :: nat where "USIZE_MAX = 2 ^ 64 - 1"

section \<open>Data\<close>

record placement =
  pl_node :: string
  pl_priority :: byte

record virtual_router =
  r_vip :: string
  r_vrid :: byte
  r_ranking :: "placement list"
  r_vrid_is_first_choice :: bool

record matrix =
  routers :: "virtual_router list"

definition holder :: "virtual_router \<Rightarrow> string option" where
  "holder r = (case r_ranking r of [] \<Rightarrow> None | p # _ \<Rightarrow> Some (pl_node p))"

definition priority_of :: "virtual_router \<Rightarrow> string \<Rightarrow> byte option" where
  "priority_of r n = map_option pl_priority (find (\<lambda>p. pl_node p = n) (r_ranking r))"

definition router_of :: "matrix \<Rightarrow> string \<Rightarrow> virtual_router option" where
  "router_of m v = find (\<lambda>r. r_vip r = v) (routers m)"

fun count_holder :: "string \<Rightarrow> (string \<times> nat) list \<Rightarrow> (string \<times> nat) list" where
  "count_holder n [] = [(n, 1)]"
| "count_holder n ((m, k) # rest) = (if m = n then (m, k + 1) # rest else (m, k) # count_holder n rest)"

definition load :: "matrix \<Rightarrow> (string \<times> nat) list" where
  "load m = sort_key fst
     (fold (\<lambda>r counted. case holder r of None \<Rightarrow> counted | Some n \<Rightarrow> count_holder n counted) (routers m) [])"

definition moved_aside :: "matrix \<Rightarrow> string list" where
  "moved_aside m = map r_vip (filter (\<lambda>r. \<not> r_vrid_is_first_choice r) (routers m))"

section \<open>The hash\<close>

definition u64_to_be :: "nat \<Rightarrow> byte list" where
  "u64_to_be n = map (\<lambda>i. of_nat (n div 256 ^ (7 - i) mod 256)) [0..<8]"

definition u64_from_be :: "byte list \<Rightarrow> u64" where
  "u64_from_be bs = foldl (\<lambda>n b. n * 256 + ucast b) 0 bs"

definition hash_input :: "byte list list \<Rightarrow> byte list" where
  "hash_input parts = concat (map (\<lambda>part. u64_to_be (min (length part) USIZE_MAX) @ part) parts)"

definition matrix_hash :: "(byte list \<Rightarrow> byte list) \<Rightarrow> byte list list \<Rightarrow> u64" where
  "matrix_hash sha parts = u64_from_be (take 8 (sha (hash_input parts)))"

definition weight :: "(byte list \<Rightarrow> byte list) \<Rightarrow> string \<Rightarrow> string \<Rightarrow> u64" where
  "weight sha v n = matrix_hash sha [as_bytes ''rank'', as_bytes v, as_bytes n]"

section \<open>The matrix\<close>

definition carriers :: "node list \<Rightarrow> string list" where
  "carriers ns = sort (map n_id (filter (\<lambda>n. ControlPlane \<in> set (n_roles n)) ns))"

definition first_choice :: "(byte list \<Rightarrow> byte list) \<Rightarrow> string \<Rightarrow> byte" where
  "first_choice sha v =
     (let slot = unat (matrix_hash sha [as_bytes ''vrid'', as_bytes v]) mod VRIDS
      in (if slot < 256 then of_nat slot else 0) + FIRST_VRID)"

definition vrid_candidate :: "byte \<Rightarrow> nat \<Rightarrow> byte" where
  "vrid_candidate wanted step =
     (let offset = (unat (wanted - FIRST_VRID) + step) mod VRIDS
      in (if offset < 256 then of_nat offset else 0) + FIRST_VRID)"

definition free_from :: "byte \<Rightarrow> byte set \<Rightarrow> byte option" where
  "free_from wanted taken =
     find_map (\<lambda>step. let candidate = vrid_candidate wanted step
                       in if candidate \<notin> taken then Some candidate else None) [0..<VRIDS]"

definition priority :: "nat \<Rightarrow> byte" where
  "priority rank =
     (let dropped = min (rank * unat STEP) USIZE_MAX;
          dropped = (if dropped < 256 then of_nat dropped else 255 :: byte);
          claimed = (if TOP < dropped then 0 else TOP - dropped)
      in if claimed < FLOOR then FLOOR else claimed)"

definition by_weight_then_id :: "(byte list \<Rightarrow> byte list) \<Rightarrow> string \<Rightarrow> string list \<Rightarrow> string list" where
  "by_weight_then_id sha v cs =
     map snd (sort_key (\<lambda>(w, n). (- uint w, n)) (map (\<lambda>n. (weight sha v n, n)) cs))"

definition preferred_first :: "string option \<Rightarrow> string list \<Rightarrow> string list" where
  "preferred_first preferred order = (case preferred of
     None \<Rightarrow> order
   | Some p \<Rightarrow> if p \<in> set order then p # remove1 p order else order)"

definition ranking :: "(byte list \<Rightarrow> byte list) \<Rightarrow> string \<Rightarrow> string option \<Rightarrow> string list \<Rightarrow> placement list" where
  "ranking sha v preferred cs =
     map (\<lambda>(rank, n). \<lparr>pl_node = n, pl_priority = priority rank\<rparr>)
       (enumerate 0 (preferred_first preferred (by_weight_then_id sha v cs)))"

fun number_vips :: "(byte list \<Rightarrow> byte list) \<Rightarrow> string list \<Rightarrow> byte set \<Rightarrow> vip list \<Rightarrow> virtual_router list" where
  "number_vips sha cs taken [] = []"
| "number_vips sha cs taken (v # vs) =
     (let wanted = first_choice sha (v_id v) in
      case free_from wanted taken of
        None \<Rightarrow> number_vips sha cs taken vs
      | Some vrid \<Rightarrow>
          \<lparr>r_vip = v_id v, r_vrid = vrid,
           r_ranking = ranking sha (v_id v) (v_preferred_node v) cs,
           r_vrid_is_first_choice = (vrid = wanted)\<rparr> # number_vips sha cs (insert vrid taken) vs)"

definition matrix :: "(byte list \<Rightarrow> byte list) \<Rightarrow> config \<Rightarrow> matrix" where
  "matrix sha c = \<lparr>routers = number_vips sha (carriers (nodes c)) {} (sort_key v_id (vips c))\<rparr>"

section \<open>What is hashed\<close>

lemma be_digits:
  "foldl (\<lambda>a b. a * 256 + b) 0 (map (\<lambda>i. n div 256 ^ (k - Suc i) mod 256) [0..<k]) = (n :: nat) mod 256 ^ k"
proof (induction k arbitrary: n)
  case (Suc k)
  have "map (\<lambda>i. n div 256 ^ (Suc k - Suc i) mod 256) [0..<Suc k] =
      map (\<lambda>i. n div 256 div 256 ^ (k - Suc i) mod 256) [0..<k] @ [n mod 256]"
    by (auto simp: Suc_diff_Suc simp flip: div_mult2_eq power_Suc)
  then have "foldl (\<lambda>a b. a * 256 + b) 0 (map (\<lambda>i. n div 256 ^ (Suc k - Suc i) mod 256) [0..<Suc k]) =
      (n div 256 mod 256 ^ k) * 256 + n mod 256"
    by (simp only: foldl_append Suc [of "n div 256"] foldl_Cons foldl_Nil)
  also have "\<dots> = n mod 256 ^ Suc k" by (simp add: mod_mult2_eq mult.commute)
  finally show ?case .
qed simp

lemma u64_to_be_inj: "m < 2 ^ 64 \<Longrightarrow> n < 2 ^ 64 \<Longrightarrow> u64_to_be m = u64_to_be n \<Longrightarrow> m = n"
proof -
  have digits: "map unat (u64_to_be n) = map (\<lambda>i. n div 256 ^ (8 - Suc i) mod 256) [0..<8]" for n
    by (simp add: u64_to_be_def unat_byte_of_nat comp_def)
  have "foldl (\<lambda>a b. a * 256 + b) 0 (map unat (u64_to_be n)) = n" if "n < 2 ^ 64" for n
    unfolding digits be_digits using that by simp
  then show "m < 2 ^ 64 \<Longrightarrow> n < 2 ^ 64 \<Longrightarrow> u64_to_be m = u64_to_be n \<Longrightarrow> m = n" by metis
qed

lemma hash_input_inj:
  "\<forall>p \<in> set ps \<union> set qs. length p < 2 ^ 64 \<Longrightarrow> hash_input ps = hash_input qs \<Longrightarrow> ps = qs"
proof (induction ps arbitrary: qs)
  case Nil
  then show ?case by (cases qs) (auto simp: hash_input_def u64_to_be_def)
next
  case (Cons p ps)
  have len: "length (u64_to_be n) = 8" for n by (simp add: u64_to_be_def)
  obtain q qs' where qs: "qs = q # qs'"
    using Cons.prems(2) by (cases qs) (auto simp: hash_input_def u64_to_be_def)
  have short: "min (length p) USIZE_MAX = length p" "min (length q) USIZE_MAX = length q"
    using Cons.prems(1) qs by (auto simp: USIZE_MAX_def)
  have eq: "u64_to_be (length p) @ p @ hash_input ps = u64_to_be (length q) @ q @ hash_input qs'"
    using Cons.prems(2) qs short by (simp add: hash_input_def)
  then have "u64_to_be (length p) = u64_to_be (length q)" by (simp add: append_eq_append_conv len)
  then have "length p = length q" using Cons.prems(1) qs by (intro u64_to_be_inj) auto
  with eq have "p = q" "hash_input ps = hash_input qs'" by (simp_all add: append_eq_append_conv)
  with Cons.IH [of qs'] Cons.prems(1) qs show ?case by simp
qed

section \<open>Virtual router numbers\<close>

lemma unat_first_choice: "unat (first_choice sha v) = Suc (unat (matrix_hash sha [as_bytes ''vrid'', as_bytes v]) mod 255)"
proof -
  let ?slot = "unat (matrix_hash sha [as_bytes ''vrid'', as_bytes v]) mod 255"
  have "first_choice sha v = of_nat (Suc ?slot)" 
    by (simp add: first_choice_def Let_def VRIDS_def FIRST_VRID_def less_trans [of _ 255] ac_simps)
  moreover have "Suc ?slot < 256" by (simp add: Suc_less_eq2)
  ultimately show ?thesis by (simp only: unat_byte_of_nat)
qed

lemma first_choice_nonzero: "first_choice sha v \<noteq> 0"
  using unat_first_choice [of sha v] by (metis unat_0 nat.distinct(1))

lemma unat_vrid_candidate:
  "unat (vrid_candidate wanted step) = Suc ((unat (wanted - 1) + step) mod 255)"
proof -
  let ?offset = "(unat (wanted - 1) + step) mod 255"
  have "vrid_candidate wanted step = of_nat (Suc ?offset)"
    by (simp add: vrid_candidate_def Let_def VRIDS_def FIRST_VRID_def less_trans [of _ 255] ac_simps)
  moreover have "Suc ?offset < 256" by (simp add: Suc_less_eq2)
  ultimately show ?thesis by (simp only: unat_byte_of_nat)
qed

text \<open>The walk visits every number but zero.\<close>

lemma vrid_candidates:
  assumes "v \<noteq> 0"
  shows "\<exists>step < 255. vrid_candidate wanted step = v"
proof -
  let ?k = "unat (wanted - 1)"
  let ?step = "(unat v - 1 + 255 * 2 - ?k) mod 255"
  have v: "0 < unat v" "unat v < 256" using assms by (simp_all add: unat_gt_0)
  have "?k < 256" by simp
  then have "?k + (unat v - 1 + 255 * 2 - ?k) = unat v - 1 + 255 * 2" by linarith
  then have "(?k + ?step) mod 255 = (unat v - 1 + 255 * 2) mod 255"
    by (simp only: mod_add_right_eq)
  also have "\<dots> = (unat v - 1) mod 255" by (rule mod_mult_self2)
  also have "\<dots> = unat v - 1" by (rule mod_less) (use v in linarith)
  finally have "unat (vrid_candidate wanted ?step) = unat v"
    using v(1) by (simp only: unat_vrid_candidate)
  then show ?thesis by (intro exI [of _ ?step]) (simp add: word_unat_eq_iff)
qed

lemma free_from_Some:
  "free_from wanted taken = Some v \<Longrightarrow> v \<notin> taken \<and> v \<noteq> 0"
proof -
  have "vrid_candidate wanted step \<noteq> 0" for step
    using unat_vrid_candidate [of wanted step] by (metis unat_0 nat.distinct(1))
  then show "free_from wanted taken = Some v \<Longrightarrow> v \<notin> taken \<and> v \<noteq> 0"
    by (auto simp: free_from_def Let_def split: if_splits dest!: find_map_Some)
qed

lemma free_from_total:
  assumes "card taken < 255" "0 \<notin> taken"
  shows "\<exists>v. free_from wanted taken = Some v"
proof (rule ccontr)
  assume "\<nexists>v. free_from wanted taken = Some v"
  then have "free_from wanted taken = None" by simp
  then have "\<forall>step \<in> set [0..<VRIDS]. vrid_candidate wanted step \<in> taken"
    unfolding free_from_def find_map_None Let_def by (auto simp only: split: if_splits)
  then have "\<forall>step < 255. vrid_candidate wanted step \<in> taken"
    unfolding VRIDS_def set_upt by (meson atLeastLessThan_iff zero_le)
  then have "v \<in> taken" if "v \<noteq> 0" for v using vrid_candidates [OF that, of wanted] by metis
  then have "UNIV - {0} \<subseteq> taken" by auto
  then have "card (UNIV - {0 :: byte}) \<le> card taken" by (rule card_mono [OF finite])
  moreover have "card (UNIV - {0 :: byte}) = 255"
    by (subst card_Diff_singleton) (simp_all only: card_word UNIV_I, simp)
  ultimately show False using assms(1) by linarith
qed

lemma free_from_wanted:
  assumes "wanted \<noteq> 0" "wanted \<notin> taken"
  shows "free_from wanted taken = Some wanted"
proof -
  have "unat (wanted - 1) = unat wanted - 1" 
    using assms(1) by (simp add: unat_minus_one)
  then have "unat (vrid_candidate wanted 0) = unat wanted"
    using assms(1) unat_byte_less [of wanted] by (simp add: unat_vrid_candidate unat_gt_0 del: unat_byte_less)
  then have "vrid_candidate wanted 0 = wanted" by (simp add: word_unat_eq_iff)
  moreover have "[0..<VRIDS] = 0 # [1..<VRIDS]" by (simp add: VRIDS_def upt_conv_Cons)
  ultimately show ?thesis using assms(2) by (simp add: free_from_def)
qed

section \<open>Numbering\<close>

lemma number_vips_vrids:
  "0 \<notin> taken \<Longrightarrow> (let vrids = map r_vrid (number_vips sha cs taken vs) in
     distinct vrids \<and> 0 \<notin> set vrids \<and> set vrids \<inter> taken = {})"
proof (induction vs arbitrary: taken)
  case (Cons v vs)
  show ?case
  proof (cases "free_from (first_choice sha (v_id v)) taken")
    case (Some vrid)
    with free_from_Some [OF Some] Cons.IH [of "insert vrid taken"] Cons.prems show ?thesis
      by (auto simp: Let_def)
  qed (use Cons in \<open>simp add: Let_def\<close>)
qed simp

lemma number_vips_all:
  "0 \<notin> taken \<Longrightarrow> card taken + length vs \<le> 255 \<Longrightarrow> map r_vip (number_vips sha cs taken vs) = map v_id vs"
proof (induction vs arbitrary: taken)
  case (Cons v vs)
  then obtain vrid where vrid: "free_from (first_choice sha (v_id v)) taken = Some vrid"
    using free_from_total [of taken] by fastforce
  then have "card (insert vrid taken) = Suc (card taken)" "0 \<notin> insert vrid taken"
    using free_from_Some [OF vrid] Cons.prems(1) by (simp_all add: card_insert_disjoint)
  with Cons vrid show ?case by (simp add: Let_def)
qed simp

text \<open>With every first choice free, each address has the number its identity points at.\<close>

lemma number_vips_first:
  "distinct (map (first_choice sha \<circ> v_id) vs) \<Longrightarrow> (first_choice sha \<circ> v_id) ` set vs \<inter> taken = {} \<Longrightarrow>
     number_vips sha cs taken vs = map (\<lambda>v. \<lparr>r_vip = v_id v, r_vrid = first_choice sha (v_id v),
       r_ranking = ranking sha (v_id v) (v_preferred_node v) cs, r_vrid_is_first_choice = True\<rparr>) vs"
proof (induction vs arbitrary: taken)
  case (Cons v vs)
  then have "free_from (first_choice sha (v_id v)) taken = Some (first_choice sha (v_id v))"
    by (intro free_from_wanted first_choice_nonzero) auto
  moreover have "(first_choice sha \<circ> v_id) ` set vs \<inter> insert (first_choice sha (v_id v)) taken = {}"
    using Cons.prems by auto
  ultimately show ?case using Cons by (simp add: Let_def)
qed simp

lemma number_vips_unmoved:
  "map r_vip (number_vips sha cs taken vs) = map v_id vs \<Longrightarrow>
   \<forall>r \<in> set (number_vips sha cs taken vs). r_vrid_is_first_choice r \<Longrightarrow>
     map r_vrid (number_vips sha cs taken vs) = map (first_choice sha \<circ> v_id) vs"
proof (induction vs arbitrary: taken)
  case (Cons v vs)
  show ?case
  proof (cases "free_from (first_choice sha (v_id v)) taken")
    case None
    have "length (number_vips sha cs taken vs) \<le> length vs" for taken
      by (induction vs arbitrary: taken) (auto simp: Let_def le_SucI split: option.split)
    moreover have "length (number_vips sha cs taken vs) = Suc (length vs)"
      using Cons.prems(1) None by (simp add: Let_def) (metis length_Cons length_map)
    ultimately show ?thesis by (metis not_less_eq_eq order_refl)
  next
    case (Some vrid)
    with Cons.prems Cons.IH [of "insert vrid taken"] show ?thesis by (simp add: Let_def)
  qed
qed simp

section \<open>The order of the nodes\<close>

lemma mset_by_weight: "mset (by_weight_then_id sha v cs) = mset cs"
proof -
  have "mset (by_weight_then_id sha v cs) = image_mset snd (image_mset (\<lambda>n. (weight sha v n, n)) (mset cs))"
    by (simp add: by_weight_then_id_def)
  then show ?thesis by (simp add: multiset.map_comp comp_def)
qed

lemma mset_preferred_first: "mset (preferred_first p order) = mset order"
  by (auto simp: preferred_first_def split: option.split)

lemma ranking_nodes:
  "map pl_node (ranking sha v p cs) = preferred_first p (by_weight_then_id sha v cs)"
proof -
  have "pl_node \<circ> (\<lambda>(rank, n). \<lparr>pl_node = n, pl_priority = priority rank\<rparr>) = snd"
    by (simp add: fun_eq_iff)
  then show ?thesis by (simp add: ranking_def del: comp_apply)
qed

lemma ranking_priorities: "map pl_priority (ranking sha v p cs) = map priority [0..<length cs]"
proof -
  have "map pl_priority (map (\<lambda>(rank, n). \<lparr>pl_node = n, pl_priority = priority rank\<rparr>) es) = map priority (map fst es)"
    for es :: "(nat \<times> string) list" by (induction es) auto
  moreover have "length (preferred_first p (by_weight_then_id sha v cs)) = length cs"
    by (metis mset_preferred_first mset_by_weight mset_eq_length)
  ultimately show ?thesis by (simp only: ranking_def map_fst_enumerate add_0)
qed

lemma filter_remove1: "filter P (remove1 x xs) = (if P x then remove1 x (filter P xs) else filter P xs)"
  by (induction xs) auto

lemma by_weight_filter: "by_weight_then_id sha v (filter P cs) = filter P (by_weight_then_id sha v cs)"
proof -
  let ?f = "\<lambda>n. (weight sha v n, n)"
  have "map snd (filter (P \<circ> snd) es) = filter P (map snd es)" for es :: "(u64 \<times> string) list"
    by (induction es) auto
  moreover have "map ?f (filter P cs) = filter (P \<circ> snd) (map ?f cs)" by (induction cs) auto
  ultimately show ?thesis by (simp only: by_weight_then_id_def filter_sort [symmetric])
qed

lemma preferred_first_filter:
  "preferred_first p (filter (\<lambda>n. n \<noteq> x) order) = filter (\<lambda>n. n \<noteq> x) (preferred_first p order)"
  by (auto simp: preferred_first_def filter_remove1 split: option.split)

lemma ranking_without:
  "map pl_node (ranking sha v p (filter (\<lambda>n. n \<noteq> x) cs)) = filter (\<lambda>n. n \<noteq> x) (map pl_node (ranking sha v p cs))"
  by (simp add: ranking_nodes by_weight_filter preferred_first_filter)

lemma carriers_without:
  "carriers (filter (\<lambda>n. n_id n \<noteq> x) ns) = filter (\<lambda>n. n \<noteq> x) (carriers ns)"
proof -
  have "map n_id (filter (\<lambda>n. ControlPlane \<in> set (n_roles n)) (filter (\<lambda>n. n_id n \<noteq> x) ns)) =
      filter (\<lambda>n. n \<noteq> x) (map n_id (filter (\<lambda>n. ControlPlane \<in> set (n_roles n)) ns))"
    by (induction ns) auto
  then show ?thesis by (simp add: carriers_def filter_sort)
qed

lemma holder_hd: "holder r = (case map pl_node (r_ranking r) of [] \<Rightarrow> None | n # _ \<Rightarrow> Some n)"
  by (cases "r_ranking r") (simp_all add: holder_def)

text \<open>The numbers do not depend on the nodes, and the ranking of an address on it alone.\<close>

lemma number_vips_carriers:
  assumes "\<And>v p. map pl_node (ranking sha v p cs') = g (map pl_node (ranking sha v p cs))"
  shows "list_all2 (\<lambda>r r'. r_vip r' = r_vip r \<and> r_vrid r' = r_vrid r \<and>
    map pl_node (r_ranking r') = g (map pl_node (r_ranking r)))
    (number_vips sha cs taken vs) (number_vips sha cs' taken vs)"
  by (induction vs arbitrary: taken) (simp_all add: Let_def assms split: option.split)

section \<open>Priorities\<close>

lemma unat_priority: "unat (priority rank) = max 1 (200 - min (10 * rank) 200)"
proof (cases "rank * 10 < 256")
  case True
  then have small: "min (rank * 10) USIZE_MAX = rank * 10" by (simp add: USIZE_MAX_def)
  have drop: "unat (of_nat (rank * 10) :: byte) = rank * 10" using True by (rule unat_byte_of_nat)
  show ?thesis
  proof (cases "rank * 10 < 200")
    case less: True
    then have le: "(of_nat (rank * 10) :: byte) \<le> 200"
      using drop by (simp add: word_le_nat_alt)
    have claimed: "unat (200 - of_nat (rank * 10) :: byte) = 200 - rank * 10"
      using unat_sub [OF le] drop by simp
    then have "\<not> (200 - of_nat (rank * 10) :: byte) < 1" using less by (simp add: word_less_nat_alt)
    with True small le claimed less show ?thesis
      by (simp add: priority_def STEP_def TOP_def FLOOR_def Let_def not_less mult.commute)
  next
    case more: False
    then have "(200 :: byte) \<le> of_nat (rank * 10)"
      using drop by (simp add: word_le_nat_alt)
    then have "(200 :: byte) < of_nat rank * 10 \<or> of_nat rank * 10 = (200 :: byte)" by auto
    with True small more show ?thesis
      by (auto simp: priority_def STEP_def TOP_def FLOOR_def Let_def)
  qed
next
  case False
  then have "\<not> min (rank * 10) USIZE_MAX < 256" by (simp add: USIZE_MAX_def)
  with False show ?thesis by (simp add: priority_def STEP_def TOP_def FLOOR_def Let_def mult.commute)
qed

section \<open>Load\<close>

lemma count_holder_sum: "sum_list (map snd (count_holder n counted)) = Suc (sum_list (map snd counted))"
  by (induction counted rule: count_holder.induct) auto

lemma load_sum:
  "sum_list (map snd (load m)) = length (filter (\<lambda>r. holder r \<noteq> None) (routers m))"
proof -
  let ?step = "\<lambda>r counted. case holder r of None \<Rightarrow> counted | Some n \<Rightarrow> count_holder n counted"
  have "sum_list (map snd (fold ?step rs counted)) =
      sum_list (map snd counted) + length (filter (\<lambda>r. holder r \<noteq> None) rs)" for rs counted
    by (induction rs arbitrary: counted) (auto simp: count_holder_sum split: option.split)
  moreover have "sum_list (map snd (sort_key fst es)) = sum_list (map snd es)" for es :: "(string \<times> nat) list"
    by (metis mset_map mset_sort sum_mset_sum_list)
  ultimately show ?thesis by (simp add: load_def)
qed

lemma map_of_count_holder:
  "map_of (count_holder n counted) k = (if k = n then Some (case map_of counted n of None \<Rightarrow> 1 | Some j \<Rightarrow> Suc j)
     else map_of counted k)"
  by (induction counted rule: count_holder.induct) auto

end
