(* ===== verification/Validation.thy ===== *)
theory Validation
  imports Matrix Route
begin

text \<open>
  \<open>validation.rs\<close>, the errors: every check of a configuration, what it reports and where,
  and the two questions asked before something is removed. A check appends to one vector
  of errors in the source; here it is the list it appends. A hash set is a set. The
  warnings are in \<open>Inspection\<close>.
\<close>

section \<open>Codes\<close>

datatype error_code =
    DuplicateId | FrontendDuplicateBinding | FrontendUnknownVip | FrontendUnknownBackend
  | FrontendUnknownCertificate | FrontendUnknownDefaultCertificate | FrontendAccessLogSampleZero
  | FrontendTlsWithoutHttp | FrontendRedirectWithoutHttp | FrontendSniRulesWithoutPassthrough
  | FrontendTlsOnPassthrough | VipInUse | VipUnknownPreferredNode | VipTooMany
  | CertificateUnknownDnsProvider | CertificateInUse | DnsProviderPropagationTimeoutZero
  | DnsProviderApiBaseInvalid | CertificateChainUnreadable | CertificateChainEmpty
  | CertificateChainTooLong | CertificateKeyUnreadable | CertificateKeyMismatch
  | CertificateKeyPassphraseRequired | CertificateKeyPassphraseWrong | BackendNoMembers
  | BackendCookieStickinessOnUdp | StickinessKeyMissing | BackendStickinessCookieNameInvalid
  | PortOutOfRange | HealthCheckTimeoutAboveInterval | TemplateParameterMissing
  | TemplateParameterWrongKind | TemplateParameterUnknown

definition ERROR_CODES :: "error_code list" where
  "ERROR_CODES = [DuplicateId, FrontendDuplicateBinding, FrontendUnknownVip, FrontendUnknownBackend,
     FrontendUnknownCertificate, FrontendUnknownDefaultCertificate, FrontendAccessLogSampleZero,
     FrontendTlsWithoutHttp, FrontendRedirectWithoutHttp, FrontendSniRulesWithoutPassthrough,
     FrontendTlsOnPassthrough, VipInUse, VipUnknownPreferredNode, VipTooMany,
     CertificateUnknownDnsProvider, CertificateInUse, DnsProviderPropagationTimeoutZero,
     DnsProviderApiBaseInvalid, CertificateChainUnreadable, CertificateChainEmpty,
     CertificateChainTooLong, CertificateKeyUnreadable, CertificateKeyMismatch,
     CertificateKeyPassphraseRequired, CertificateKeyPassphraseWrong, BackendNoMembers,
     BackendCookieStickinessOnUdp, StickinessKeyMissing, BackendStickinessCookieNameInvalid,
     PortOutOfRange, HealthCheckTimeoutAboveInterval, TemplateParameterMissing,
     TemplateParameterWrongKind, TemplateParameterUnknown]"

fun error_key :: "error_code \<Rightarrow> string" where
  "error_key DuplicateId = ''config.duplicate_id''"
| "error_key FrontendDuplicateBinding = ''config.frontend.duplicate_binding''"
| "error_key FrontendUnknownVip = ''config.frontend.unknown_vip''"
| "error_key FrontendUnknownBackend = ''config.frontend.unknown_backend''"
| "error_key FrontendUnknownCertificate = ''config.frontend.unknown_certificate''"
| "error_key FrontendUnknownDefaultCertificate = ''config.frontend.unknown_default_certificate''"
| "error_key FrontendAccessLogSampleZero = ''config.frontend.access_log_sample_zero''"
| "error_key FrontendTlsWithoutHttp = ''config.frontend.tls_without_http''"
| "error_key FrontendRedirectWithoutHttp = ''config.frontend.redirect_without_http''"
| "error_key FrontendSniRulesWithoutPassthrough = ''config.frontend.sni_rules_without_passthrough''"
| "error_key FrontendTlsOnPassthrough = ''config.frontend.tls_on_passthrough''"
| "error_key VipInUse = ''config.vip.in_use''"
| "error_key VipUnknownPreferredNode = ''config.vip.unknown_preferred_node''"
| "error_key VipTooMany = ''config.vip.too_many''"
| "error_key CertificateUnknownDnsProvider = ''config.certificate.unknown_dns_provider''"
| "error_key CertificateInUse = ''config.certificate.in_use''"
| "error_key DnsProviderPropagationTimeoutZero = ''config.dns_provider.propagation_timeout_zero''"
| "error_key DnsProviderApiBaseInvalid = ''config.dns_provider.api_base_invalid''"
| "error_key CertificateChainUnreadable = ''certificate.chain.unreadable''"
| "error_key CertificateChainEmpty = ''certificate.chain.empty''"
| "error_key CertificateChainTooLong = ''certificate.chain.too_long''"
| "error_key CertificateKeyUnreadable = ''certificate.key.unreadable''"
| "error_key CertificateKeyMismatch = ''certificate.key.mismatch''"
| "error_key CertificateKeyPassphraseRequired = ''certificate.key.passphrase_required''"
| "error_key CertificateKeyPassphraseWrong = ''certificate.key.passphrase_wrong''"
| "error_key BackendNoMembers = ''config.backend.no_members''"
| "error_key BackendCookieStickinessOnUdp = ''config.backend.cookie_stickiness_on_udp''"
| "error_key StickinessKeyMissing = ''config.stickiness_key.missing''"
| "error_key BackendStickinessCookieNameInvalid = ''config.backend.stickiness_cookie_name_invalid''"
| "error_key PortOutOfRange = ''config.port.out_of_range''"
| "error_key HealthCheckTimeoutAboveInterval = ''config.health_check.timeout_above_interval''"
| "error_key TemplateParameterMissing = ''template.parameter.missing''"
| "error_key TemplateParameterWrongKind = ''template.parameter.wrong_kind''"
| "error_key TemplateParameterUnknown = ''template.parameter.unknown''"

section \<open>Where and what\<close>

datatype path_segment = Field string | Index nat

type_synonym field_path = "path_segment list"

definition root :: field_path where "root = []"

definition field :: "field_path \<Rightarrow> string \<Rightarrow> field_path" where
  "field path name = path @ [Field name]"

definition index :: "field_path \<Rightarrow> nat \<Rightarrow> field_path" where
  "index path at = path @ [Index at]"

definition as_text :: "field_path \<Rightarrow> string" where
  "as_text path = foldl (\<lambda>text segment. case segment of
       Field name \<Rightarrow> (if text \<noteq> [] then text @ ''.'' else text) @ name
     | Index at \<Rightarrow> text @ ''['' @ decimal at @ '']'') [] path"

datatype parameter_value = Identifier string | Number int

record 'code report =
  rep_code :: 'code
  rep_path :: field_path
  rep_parameters :: "(string \<times> parameter_value) list"

type_synonym validation_error = "error_code report"

definition new_report :: "'code \<Rightarrow> field_path \<Rightarrow> 'code report" where
  "new_report code path = \<lparr>rep_code = code, rep_path = path, rep_parameters = []\<rparr>"

definition with_id :: "string \<Rightarrow> string \<Rightarrow> 'code report \<Rightarrow> 'code report" where
  "with_id name value e = e\<lparr>rep_parameters := bt_insert name (Identifier value) (rep_parameters e)\<rparr>"

definition with_number :: "string \<Rightarrow> int \<Rightarrow> 'code report \<Rightarrow> 'code report" where
  "with_number name value e = e\<lparr>rep_parameters := bt_insert name (Number value) (rep_parameters e)\<rparr>"

definition contains_code :: "validation_error list \<Rightarrow> error_code \<Rightarrow> bool" where
  "contains_code es code \<longleftrightarrow> list_ex (\<lambda>e. rep_code e = code) es"

definition error_codes :: "validation_error list \<Rightarrow> error_code list" where
  "error_codes es = map rep_code es"

text \<open>A loop over \<open>iter().enumerate()\<close> that appends to the vector.\<close>

definition indexed :: "(nat \<Rightarrow> 'a \<Rightarrow> 'b list) \<Rightarrow> 'a list \<Rightarrow> 'b list" where
  "indexed f xs = concat (map (\<lambda>(at, x). f at x) (enumerate 0 xs))"

section \<open>Identities\<close>

definition report_duplicate ::
  "string \<Rightarrow> string set \<Rightarrow> string \<Rightarrow> field_path \<Rightarrow> validation_error list" where
  "report_duplicate kind seen i path =
     (if i \<in> seen then [with_id ''id'' i (with_id ''kind'' kind (new_report DuplicateId path))] else [])"

fun report_duplicates ::
  "string \<Rightarrow> (nat \<Rightarrow> field_path) \<Rightarrow> string set \<Rightarrow> nat \<Rightarrow> string list \<Rightarrow> validation_error list" where
  "report_duplicates kind path seen at [] = []"
| "report_duplicates kind path seen at (i # is) =
     report_duplicate kind seen i (path at) @ report_duplicates kind path (insert i seen) (Suc at) is"

definition listed :: "string \<Rightarrow> nat \<Rightarrow> field_path" where
  "listed name at = field (index (field root name) at) ''id''"

definition member_path :: "nat \<Rightarrow> nat \<Rightarrow> field_path" where
  "member_path at member_at =
     field (index (field (index (field root ''backends'') at) ''members'') member_at) ''id''"

fun report_backends :: "string set \<Rightarrow> nat \<Rightarrow> backend list \<Rightarrow> validation_error list" where
  "report_backends seen at [] = []"
| "report_backends seen at (b # bs) =
     report_duplicate ''backend'' seen (b_id b) (listed ''backends'' at)
     @ report_duplicates ''member'' (member_path at) {} 0 (map bm_id (b_members b))
     @ report_backends (insert (b_id b) seen) (Suc at) bs"

definition check_duplicate_ids :: "config \<Rightarrow> validation_error list" where
  "check_duplicate_ids c =
     report_duplicates ''node'' (listed ''nodes'') {} 0 (map n_id (nodes c))
     @ report_duplicates ''vip'' (listed ''vips'') {} 0 (map v_id (vips c))
     @ report_duplicates ''frontend'' (listed ''frontends'') {} 0 (map f_id (frontends c))
     @ report_backends {} 0 (backends c)
     @ report_duplicates ''certificate'' (listed ''certificates'') {} 0 (map c_id (certificates c))
     @ report_duplicates ''dns_provider'' (listed ''dns_providers'') {} 0 (map d_id (dns_providers c))"

section \<open>Frontends\<close>

definition port_number :: "u16 \<Rightarrow> int" where "port_number p = int (unat p)"

definition frontend_path :: "nat \<Rightarrow> field_path" where
  "frontend_path at = index (field root ''frontends'') at"

definition binding :: "frontend \<Rightarrow> string \<times> u16 \<times> transport_protocol" where
  "binding f = (f_vip f, f_port f, f_transport f)"

fun check_bindings ::
  "(string \<times> u16 \<times> transport_protocol \<rightharpoonup> string) \<Rightarrow> nat \<Rightarrow> frontend list \<Rightarrow> validation_error list" where
  "check_bindings taken at [] = []"
| "check_bindings taken at (f # fs) =
     (case taken (binding f) of
        Some held_by \<Rightarrow>
          with_id ''conflicting_frontend'' held_by (with_number ''port'' (port_number (f_port f))
            (with_id ''vip'' (f_vip f) (new_report FrontendDuplicateBinding (frontend_path at))))
          # check_bindings taken (Suc at) fs
      | None \<Rightarrow> check_bindings (taken(binding f \<mapsto> f_id f)) (Suc at) fs)"

definition check_frontend_bindings :: "config \<Rightarrow> validation_error list" where
  "check_frontend_bindings c = check_bindings Map.empty 0 (frontends c)"

definition unknown_backend :: "string set \<Rightarrow> frontend \<Rightarrow> string \<Rightarrow> field_path \<Rightarrow> validation_error list" where
  "unknown_backend known f b path =
     (if b \<notin> known then [with_id ''backend'' b (with_id ''frontend'' (f_id f)
        (new_report FrontendUnknownBackend path))] else [])"

definition check_tls_references :: "string set \<Rightarrow> field_path \<Rightarrow> frontend \<Rightarrow> tls_settings \<Rightarrow> validation_error list" where
  "check_tls_references known here f tls =
     indexed (\<lambda>certificate_at certificate. if certificate \<notin> known
       then [with_id ''certificate'' certificate (with_id ''frontend'' (f_id f)
         (new_report FrontendUnknownCertificate
           (index (field (field here ''tls'') ''certificates'') certificate_at)))]
       else []) (tls_certificates tls)
     @ (case tls_default_certificate tls of
          None \<Rightarrow> []
        | Some certificate \<Rightarrow> if certificate \<notin> set (tls_certificates tls)
            then [with_id ''certificate'' certificate (with_id ''frontend'' (f_id f)
              (new_report FrontendUnknownDefaultCertificate (field (field here ''tls'') ''default_certificate'')))]
            else [])"

definition check_references :: "config \<Rightarrow> nat \<Rightarrow> frontend \<Rightarrow> validation_error list" where
  "check_references c at f =
     (let here = frontend_path at;
          known = b_id ` set (backends c)
      in (if f_vip f \<notin> v_id ` set (vips c)
          then [with_id ''vip'' (f_vip f) (with_id ''frontend'' (f_id f)
            (new_report FrontendUnknownVip (field here ''vip'')))] else [])
       @ (if f_port f = 0
          then [with_number ''port'' (port_number (f_port f)) (new_report PortOutOfRange (field here ''port''))] else [])
       @ (case f_default_backend f of
            None \<Rightarrow> [] | Some b \<Rightarrow> unknown_backend known f b (field here ''default_backend''))
       @ indexed (\<lambda>rule_at rule. case rule_action rule of
            Proxy b \<Rightarrow> unknown_backend known f b
              (field (field (index (field here ''routing_rules'') rule_at) ''action'') ''backend'')
          | Redirect _ \<Rightarrow> []) (f_routing_rules f)
       @ indexed (\<lambda>rule_at rule. unknown_backend known f (sni_backend rule)
            (field (index (field here ''sni_rules'') rule_at) ''backend'')) (f_sni_rules f)
       @ (case f_tls f of
            None \<Rightarrow> []
          | Some tls \<Rightarrow> check_tls_references (c_id ` set (certificates c)) here f tls))"

definition check_frontend_references :: "config \<Rightarrow> validation_error list" where
  "check_frontend_references c = indexed (check_references c) (frontends c)"

definition check_tls_placement :: "config \<Rightarrow> validation_error list" where
  "check_tls_placement c = indexed (\<lambda>at f.
     (let here = frontend_path at in
      (case f_application f of
         TlsPassthrough \<Rightarrow> if f_tls f \<noteq> None
           then [with_id ''frontend'' (f_id f) (new_report FrontendTlsOnPassthrough (field here ''tls''))] else []
       | Raw \<Rightarrow> if f_tls f \<noteq> None
           then [with_id ''frontend'' (f_id f) (new_report FrontendTlsWithoutHttp (field here ''tls''))] else []
       | Http \<Rightarrow> [])
      @ (if f_sni_rules f \<noteq> [] \<and> f_application f \<noteq> TlsPassthrough
         then [with_number ''rule_count'' (i64_of_len (length (f_sni_rules f))) (with_id ''frontend'' (f_id f)
           (new_report FrontendSniRulesWithoutPassthrough (field here ''sni_rules'')))] else [])))
     (frontends c)"

definition check_redirects :: "config \<Rightarrow> validation_error list" where
  "check_redirects c = indexed (\<lambda>at f.
     if f_application f = Http \<and> f_transport f = Tcp then []
     else indexed (\<lambda>rule_at rule. case rule_action rule of
         Redirect _ \<Rightarrow> [with_id ''frontend'' (f_id f) (new_report FrontendRedirectWithoutHttp
           (field (index (field (frontend_path at) ''routing_rules'') rule_at) ''action''))]
       | Proxy _ \<Rightarrow> []) (f_routing_rules f))
     (frontends c)"

definition check_access_log :: "config \<Rightarrow> validation_error list" where
  "check_access_log c = indexed (\<lambda>at f.
     if \<not> al_enabled (f_access_log f) \<or> al_sample_one_in (f_access_log f) > 0 then []
     else [with_id ''frontend'' (f_id f) (new_report FrontendAccessLogSampleZero
       (field (field (frontend_path at) ''access_log'') ''sample_one_in''))])
     (frontends c)"

section \<open>Addresses, certificates and providers\<close>

definition check_vips :: "config \<Rightarrow> validation_error list" where
  "check_vips c =
     (if length (vips c) > VRIDS
      then [with_number ''limit'' (i64_of_len VRIDS) (with_number ''vip_count'' (i64_of_len (length (vips c)))
        (new_report VipTooMany (field root ''vips'')))] else [])
     @ indexed (\<lambda>at v. case v_preferred_node v of
         None \<Rightarrow> []
       | Some preferred \<Rightarrow> if preferred \<notin> n_id ` set (nodes c)
           then [with_id ''node'' preferred (with_id ''vip'' (v_id v)
             (new_report VipUnknownPreferredNode (field (index (field root ''vips'') at) ''preferred_node'')))]
           else []) (vips c)"

definition check_certificates :: "config \<Rightarrow> validation_error list" where
  "check_certificates c = indexed (\<lambda>at certificate. case c_source certificate of
       AcmeDns01 provider \<Rightarrow> if provider \<notin> d_id ` set (dns_providers c)
         then [with_id ''provider'' provider (with_id ''certificate'' (c_id certificate)
           (new_report CertificateUnknownDnsProvider
             (field (field (index (field root ''certificates'') at) ''source'') ''provider'')))]
         else []
     | _ \<Rightarrow> []) (certificates c)"

definition https :: string where "https = ''https://''"

definition check_dns_providers :: "config \<Rightarrow> validation_error list" where
  "check_dns_providers c = indexed (\<lambda>at provider.
     (let here = index (field root ''dns_providers'') at in
      (if d_propagation_timeout_secs provider = 0
       then [with_id ''provider'' (d_id provider)
         (new_report DnsProviderPropagationTimeoutZero (field here ''propagation_timeout_secs''))] else [])
      @ (case d_connection provider of
           Cloudflare _ _ api_base \<Rightarrow> if api_base \<noteq> [] \<and> strip_prefix https api_base = None
             then [with_id ''provider'' (d_id provider)
               (new_report DnsProviderApiBaseInvalid (field (field here ''connection'') ''api_base''))] else []
         | Rfc2136 _ _ _ _ _ _ \<Rightarrow> [])))
     (dns_providers c)"

section \<open>Pools\<close>

definition check_backends :: "config \<Rightarrow> validation_error list" where
  "check_backends c = indexed (\<lambda>at b.
     (let here = index (field root ''backends'') at in
      (if b_members b = []
       then [with_id ''backend'' (b_id b) (new_report BackendNoMembers (field here ''members''))] else [])
      @ indexed (\<lambda>member_at m. if bm_port m = 0
          then [with_number ''port'' (port_number (bm_port m))
            (new_report PortOutOfRange (field (index (field here ''members'') member_at) ''port''))]
          else []) (b_members b)
      @ (case b_health_check b of
           None \<Rightarrow> []
         | Some check \<Rightarrow> if hc_timeout_ms check > hc_interval_ms check
             then [with_number ''interval_ms'' (int (unat (hc_interval_ms check)))
               (with_number ''timeout_ms'' (int (unat (hc_timeout_ms check))) (with_id ''backend'' (b_id b)
                 (new_report HealthCheckTimeoutAboveInterval (field (field here ''health_check'') ''timeout_ms''))))]
             else [])))
     (backends c)"

definition reaches :: "frontend \<Rightarrow> string \<Rightarrow> bool" where
  "reaches f b \<longleftrightarrow> f_default_backend f = Some b
     \<or> list_ex (\<lambda>rule. rule_action rule = Proxy b) (f_routing_rules f)
     \<or> list_ex (\<lambda>rule. sni_backend rule = b) (f_sni_rules f)"

definition cookie_wanted :: "backend \<Rightarrow> bool" where
  "cookie_wanted b \<longleftrightarrow> (case b_stickiness b of SignedCookie _ _ \<Rightarrow> True | StickinessDisabled \<Rightarrow> False)"

definition check_stickiness_against_transport :: "config \<Rightarrow> validation_error list" where
  "check_stickiness_against_transport c = indexed (\<lambda>at b.
     if \<not> cookie_wanted b then []
     else case find (\<lambda>f. f_transport f = Udp \<and> reaches f (b_id b)) (frontends c) of
       None \<Rightarrow> []
     | Some f \<Rightarrow> [with_id ''frontend'' (f_id f) (with_id ''backend'' (b_id b)
         (new_report BackendCookieStickinessOnUdp (field (index (field root ''backends'') at) ''stickiness'')))])
     (backends c)"

definition SHORTEST_KEY :: nat where "SHORTEST_KEY = 32"

text \<open>\<open>u8::is_ascii_hexdigit\<close> and \<open>u8::is_ascii_alphanumeric\<close>.\<close>

definition is_hexdigit :: "char \<Rightarrow> bool" where
  "is_hexdigit ch \<longleftrightarrow> byte_in 48 57 ch \<or> byte_in 65 70 ch \<or> byte_in 97 102 ch"

definition is_alphanumeric :: "char \<Rightarrow> bool" where
  "is_alphanumeric ch \<longleftrightarrow> byte_in 48 57 ch \<or> byte_in 65 90 ch \<or> byte_in 97 122 ch"

definition hex_length :: "string \<Rightarrow> nat option" where
  "hex_length key =
     (if key = [] \<or> length key mod 2 \<noteq> 0 then None
      else if \<not> list_all is_hexdigit key then None
      else Some (length key div 2))"

definition check_stickiness_key :: "config \<Rightarrow> validation_error list" where
  "check_stickiness_key c =
     (if \<not> list_ex cookie_wanted (backends c) then []
      else if (case hex_length (stickiness_key c) of None \<Rightarrow> False | Some n \<Rightarrow> n \<ge> SHORTEST_KEY) then []
      else [with_number ''shortest_bytes'' (int SHORTEST_KEY)
        (new_report StickinessKeyMissing (field root ''stickiness_key''))])"

definition is_token :: "string \<Rightarrow> bool" where
  "is_token name \<longleftrightarrow> name \<noteq> [] \<and> list_all (\<lambda>ch. is_alphanumeric ch \<or> ch \<in> set ''!#$%&'' \<or> ch = CHR 0x27
     \<or> ch \<in> set ''*+-.^_`|~'') name"

definition check_stickiness_cookie_name :: "config \<Rightarrow> validation_error list" where
  "check_stickiness_cookie_name c = indexed (\<lambda>at b. case b_stickiness b of
       StickinessDisabled \<Rightarrow> []
     | SignedCookie cookie_name _ \<Rightarrow> if is_token cookie_name then []
         else [with_id ''backend'' (b_id b) (new_report BackendStickinessCookieNameInvalid
           (field (field (index (field root ''backends'') at) ''stickiness'') ''cookie_name''))])
     (backends c)"

section \<open>The whole configuration\<close>

definition all_errors :: "config \<Rightarrow> validation_error list" where
  "all_errors c = check_duplicate_ids c @ check_frontend_bindings c @ check_frontend_references c
     @ check_tls_placement c @ check_redirects c @ check_vips c @ check_certificates c
     @ check_dns_providers c @ check_backends c @ check_stickiness_against_transport c
     @ check_stickiness_key c @ check_stickiness_cookie_name c @ check_access_log c"

definition validate :: "config \<Rightarrow> (unit, validation_error list) result" where
  "validate c = (let errors = all_errors c in if errors = [] then Inr () else Inl errors)"

definition name_users :: "frontend list \<Rightarrow> validation_error \<Rightarrow> validation_error" where
  "name_users users e =
     fold (\<lambda>(position, f) e. with_id (''frontend_'' @ decimal position) (f_id f) e) (enumerate 0 users) e"

definition validate_vip_removal :: "config \<Rightarrow> string \<Rightarrow> (unit, validation_error list) result" where
  "validate_vip_removal c v =
     (let users = filter (\<lambda>f. f_vip f = v) (frontends c) in
      if users = [] then Inr ()
      else Inl [name_users users (with_number ''frontend_count'' (wrap_i64 (int (length users)))
        (with_id ''vip'' v (new_report VipInUse (field (field root ''vips'') v))))])"

definition offers :: "frontend \<Rightarrow> string \<Rightarrow> bool" where
  "offers f certificate = (case f_tls f of
     None \<Rightarrow> False
   | Some tls \<Rightarrow> certificate \<in> set (tls_certificates tls) \<or> tls_default_certificate tls = Some certificate)"

definition validate_certificate_removal :: "config \<Rightarrow> string \<Rightarrow> (unit, validation_error list) result" where
  "validate_certificate_removal c certificate =
     (let users = filter (\<lambda>f. offers f certificate) (frontends c) in
      if users = [] then Inr ()
      else Inl [name_users users (with_number ''frontend_count'' (wrap_i64 (int (length users)))
        (with_id ''certificate'' certificate
          (new_report CertificateInUse (field (field root ''certificates'') certificate))))])"

section \<open>When a check is silent\<close>

lemma indexed_Nil [simp]: "indexed f [] = []"
  by (simp add: indexed_def)

lemma indexed_empty: "indexed f xs = [] \<longleftrightarrow> (\<forall>i < length xs. f i (xs ! i) = [])"
proof -
  have "set (enumerate 0 xs) = (\<lambda>i. (i, xs ! i)) ` {..<length xs}"
    by (auto simp: in_set_enumerate_eq image_iff)
  then show ?thesis by (auto simp: indexed_def)
qed

text \<open>Whether an entry is reported does not depend on where it stands.\<close>

lemma indexed_all:
  "(\<And>at x. f at x = [] \<longleftrightarrow> P x) \<Longrightarrow> indexed f xs = [] \<longleftrightarrow> (\<forall>x \<in> set xs. P x)"
  by (simp add: indexed_empty all_set_conv_all_nth)

lemma report_duplicates_empty:
  "report_duplicates kind path seen at is = [] \<longleftrightarrow> distinct is \<and> set is \<inter> seen = {}"
  by (induction "is" arbitrary: seen at) (auto simp: report_duplicate_def)

lemma report_backends_empty:
  "report_backends seen at bs = [] \<longleftrightarrow> distinct (map b_id bs) \<and> b_id ` set bs \<inter> seen = {} \<and>
     (\<forall>b \<in> set bs. distinct (map bm_id (b_members b)))"
  by (induction bs arbitrary: seen at) (auto simp: report_duplicate_def report_duplicates_empty)

lemma check_bindings_empty:
  "check_bindings taken at fs = [] \<longleftrightarrow> distinct (map binding fs) \<and> binding ` set fs \<inter> dom taken = {}"
  by (induction fs arbitrary: taken at) (auto split: option.split)

section \<open>What an accepted configuration is\<close>

text \<open>The pools a frontend can hand a request to.\<close>

definition pools_of :: "frontend \<Rightarrow> string set" where
  "pools_of f = set_option (f_default_backend f) \<union> {b. \<exists>rule \<in> set (f_routing_rules f). rule_action rule = Proxy b}
     \<union> sni_backend ` set (f_sni_rules f)"

definition ids_distinct :: "config \<Rightarrow> bool" where
  "ids_distinct c \<longleftrightarrow> distinct (map n_id (nodes c)) \<and> distinct (map v_id (vips c)) \<and> distinct (map f_id (frontends c))
     \<and> distinct (map b_id (backends c)) \<and> (\<forall>b \<in> set (backends c). distinct (map bm_id (b_members b)))
     \<and> distinct (map c_id (certificates c)) \<and> distinct (map d_id (dns_providers c))"

definition references_ok :: "config \<Rightarrow> frontend \<Rightarrow> bool" where
  "references_ok c f \<longleftrightarrow> f_vip f \<in> v_id ` set (vips c) \<and> pools_of f \<subseteq> b_id ` set (backends c)
     \<and> (\<forall>tls. f_tls f = Some tls \<longrightarrow> set (tls_certificates tls) \<subseteq> c_id ` set (certificates c)
          \<and> set_option (tls_default_certificate tls) \<subseteq> set (tls_certificates tls))"

definition shape_ok :: "frontend \<Rightarrow> bool" where
  "shape_ok f \<longleftrightarrow> f_port f \<noteq> 0 \<and> (f_tls f = None \<or> f_application f = Http)
     \<and> (f_sni_rules f = [] \<or> f_application f = TlsPassthrough)
     \<and> ((\<forall>rule \<in> set (f_routing_rules f). \<forall>status. rule_action rule \<noteq> Redirect status)
          \<or> f_application f = Http \<and> f_transport f = Tcp)
     \<and> (al_enabled (f_access_log f) \<longrightarrow> al_sample_one_in (f_access_log f) \<noteq> 0)"

definition pool_ok :: "config \<Rightarrow> backend \<Rightarrow> bool" where
  "pool_ok c b \<longleftrightarrow> b_members b \<noteq> [] \<and> (\<forall>m \<in> set (b_members b). bm_port m \<noteq> 0)
     \<and> (\<forall>check. b_health_check b = Some check \<longrightarrow> hc_timeout_ms check \<le> hc_interval_ms check)
     \<and> (\<forall>name site. b_stickiness b = SignedCookie name site \<longrightarrow>
          is_token name \<and> (\<exists>n \<ge> 32. hex_length (stickiness_key c) = Some n)
          \<and> (\<forall>f \<in> set (frontends c). b_id b \<in> pools_of f \<longrightarrow> f_transport f = Tcp))"

definition provider_ok :: "dns_provider \<Rightarrow> bool" where
  "provider_ok d \<longleftrightarrow> d_propagation_timeout_secs d \<noteq> 0 \<and>
     (\<forall>zone token base. d_connection d = Cloudflare zone token base \<longrightarrow> base = [] \<or> (\<exists>rest. base = ''https://'' @ rest))"

definition config_ok :: "config \<Rightarrow> bool" where
  "config_ok c \<longleftrightarrow> ids_distinct c \<and> distinct (map binding (frontends c))
     \<and> (\<forall>f \<in> set (frontends c). references_ok c f \<and> shape_ok f)
     \<and> length (vips c) \<le> 255 \<and> (\<forall>v \<in> set (vips c). set_option (v_preferred_node v) \<subseteq> n_id ` set (nodes c))
     \<and> (\<forall>k \<in> set (certificates c). \<forall>d. c_source k = AcmeDns01 d \<longrightarrow> d \<in> d_id ` set (dns_providers c))
     \<and> (\<forall>d \<in> set (dns_providers c). provider_ok d)
     \<and> (\<forall>b \<in> set (backends c). pool_ok c b)"

lemma reaches_iff: "reaches f b \<longleftrightarrow> b \<in> pools_of f"
  by (auto simp: reaches_def pools_of_def list_ex_iff)

lemma duplicate_ids_silent: "check_duplicate_ids c = [] \<longleftrightarrow> ids_distinct c"
  by (simp add: check_duplicate_ids_def ids_distinct_def report_duplicates_empty report_backends_empty conj_ac)

lemma bindings_silent: "check_frontend_bindings c = [] \<longleftrightarrow> distinct (map binding (frontends c))"
  by (simp add: check_frontend_bindings_def check_bindings_empty)

lemma tls_references_silent:
  "check_tls_references known here f tls = [] \<longleftrightarrow>
     set (tls_certificates tls) \<subseteq> known \<and> set_option (tls_default_certificate tls) \<subseteq> set (tls_certificates tls)"
proof -
  have "indexed (\<lambda>at k. if k \<notin> known then [e at k] else []) ks = [] \<longleftrightarrow> (\<forall>k \<in> set ks. k \<in> known)" for e :: "nat \<Rightarrow> string \<Rightarrow> validation_error" and ks
    by (rule indexed_all) simp
  then show ?thesis by (auto simp: check_tls_references_def split: option.split)
qed

lemma references_silent:
  "check_references c at f = [] \<longleftrightarrow> references_ok c f \<and> f_port f \<noteq> 0"
proof -
  let ?known = "b_id ` set (backends c)"
  have rules: "indexed (\<lambda>at rule. case rule_action rule of Proxy b \<Rightarrow> unknown_backend ?known f b (p at)
      | Redirect _ \<Rightarrow> []) rs = [] \<longleftrightarrow> {b. \<exists>rule \<in> set rs. rule_action rule = Proxy b} \<subseteq> ?known" for p rs
    by (subst indexed_all [where P = "\<lambda>rule. \<forall>b. rule_action rule = Proxy b \<longrightarrow> b \<in> ?known"])
      (auto simp: unknown_backend_def split: rule_action.split)
  have snis: "indexed (\<lambda>at rule. unknown_backend ?known f (sni_backend rule) (p at)) rs = [] \<longleftrightarrow>
      sni_backend ` set rs \<subseteq> ?known" for p rs
    by (subst indexed_all [where P = "\<lambda>rule. sni_backend rule \<in> ?known"]) (auto simp: unknown_backend_def)
  show ?thesis
    unfolding check_references_def Let_def append_is_Nil_conv rules snis
    by (auto simp: references_ok_def pools_of_def unknown_backend_def tls_references_silent split: option.split)
qed

lemma frontends_silent:
  "check_frontend_references c = [] \<and> check_tls_placement c = [] \<and> check_redirects c = [] \<and> check_access_log c = []
     \<longleftrightarrow> (\<forall>f \<in> set (frontends c). references_ok c f \<and> shape_ok f)"
proof -
  have redirects: "indexed (\<lambda>at rule. case rule_action rule of Redirect _ \<Rightarrow> [e at :: validation_error] | Proxy _ \<Rightarrow> []) rs = []
      \<longleftrightarrow> (\<forall>rule \<in> set rs. \<forall>status. rule_action rule \<noteq> Redirect status)" for e rs
    by (rule indexed_all) (auto split: rule_action.split)
  have "check_frontend_references c = [] \<longleftrightarrow> (\<forall>f \<in> set (frontends c). references_ok c f \<and> f_port f \<noteq> 0)"
    unfolding check_frontend_references_def by (rule indexed_all) (rule references_silent)
  moreover have "check_tls_placement c = [] \<longleftrightarrow> (\<forall>f \<in> set (frontends c).
      (f_tls f = None \<or> f_application f = Http) \<and> (f_sni_rules f = [] \<or> f_application f = TlsPassthrough))"
    unfolding check_tls_placement_def
    by (rule indexed_all) (auto simp: Let_def split: application_protocol.split)
  moreover have "check_redirects c = [] \<longleftrightarrow> (\<forall>f \<in> set (frontends c).
      (\<forall>rule \<in> set (f_routing_rules f). \<forall>status. rule_action rule \<noteq> Redirect status)
          \<or> f_application f = Http \<and> f_transport f = Tcp)"
    unfolding check_redirects_def by (rule indexed_all) (auto simp: redirects)
  moreover have "check_access_log c = [] \<longleftrightarrow> (\<forall>f \<in> set (frontends c).
      al_enabled (f_access_log f) \<longrightarrow> al_sample_one_in (f_access_log f) \<noteq> 0)"
    unfolding check_access_log_def by (rule indexed_all) (auto simp: word_neq_0_conv)
  ultimately show ?thesis unfolding shape_ok_def by blast
qed

lemma vips_silent:
  "check_vips c = [] \<longleftrightarrow> length (vips c) \<le> 255 \<and>
     (\<forall>v \<in> set (vips c). set_option (v_preferred_node v) \<subseteq> n_id ` set (nodes c))"
  unfolding check_vips_def VRIDS_def append_is_Nil_conv
  by (subst indexed_all [where P = "\<lambda>v. set_option (v_preferred_node v) \<subseteq> n_id ` set (nodes c)"])
    (auto split: option.split)

lemma certificates_silent:
  "check_certificates c = [] \<longleftrightarrow>
     (\<forall>k \<in> set (certificates c). \<forall>d. c_source k = AcmeDns01 d \<longrightarrow> d \<in> d_id ` set (dns_providers c))"
  unfolding check_certificates_def by (rule indexed_all) (auto split: certificate_source.split)

lemma providers_silent: "check_dns_providers c = [] \<longleftrightarrow> (\<forall>d \<in> set (dns_providers c). provider_ok d)"
proof -
  have "strip_prefix p t = None \<longleftrightarrow> (\<nexists>rest. t = p @ rest)" for p t :: string
    using strip_prefix_Some [of p t] by (metis not_None_eq)
  then show ?thesis
    unfolding check_dns_providers_def
    by (intro indexed_all) (auto simp: Let_def provider_ok_def https_def split: dns_provider_connection.split)
qed

lemma pools_silent:
  "check_backends c = [] \<and> check_stickiness_against_transport c = [] \<and> check_stickiness_key c = []
     \<and> check_stickiness_cookie_name c = [] \<longleftrightarrow> (\<forall>b \<in> set (backends c). pool_ok c b)"
proof -
  have ports: "indexed (\<lambda>at m. if bm_port m = 0 then [e at m :: validation_error] else []) ms = [] \<longleftrightarrow>
      (\<forall>m \<in> set ms. bm_port m \<noteq> 0)" for e ms
    by (rule indexed_all) simp
  have "check_backends c = [] \<longleftrightarrow> (\<forall>b \<in> set (backends c). b_members b \<noteq> [] \<and>
      (\<forall>m \<in> set (b_members b). bm_port m \<noteq> 0) \<and>
      (\<forall>check. b_health_check b = Some check \<longrightarrow> hc_timeout_ms check \<le> hc_interval_ms check))"
    unfolding check_backends_def
    by (rule indexed_all) (auto simp: Let_def ports not_less split: option.split)
  moreover have "check_stickiness_against_transport c = [] \<longleftrightarrow> (\<forall>b \<in> set (backends c).
      cookie_wanted b \<longrightarrow> (\<forall>f \<in> set (frontends c). b_id b \<in> pools_of f \<longrightarrow> f_transport f = Tcp))"
  proof -
    have "f_transport f = Tcp \<longleftrightarrow> f_transport f \<noteq> Udp" for f by (cases "f_transport f") simp_all
    then show ?thesis
      unfolding check_stickiness_against_transport_def
      by (intro indexed_all) (auto simp: reaches_iff find_None_iff find_Some_iff split: option.split)
  qed
  moreover have "check_stickiness_key c = [] \<longleftrightarrow>
      (\<forall>b \<in> set (backends c). cookie_wanted b \<longrightarrow> (\<exists>n \<ge> 32. hex_length (stickiness_key c) = Some n))"
    by (auto simp: check_stickiness_key_def SHORTEST_KEY_def list_ex_iff split: option.split)
  moreover have "check_stickiness_cookie_name c = [] \<longleftrightarrow>
      (\<forall>b \<in> set (backends c). \<forall>name site. b_stickiness b = SignedCookie name site \<longrightarrow> is_token name)"
    unfolding check_stickiness_cookie_name_def by (rule indexed_all) (simp split: stickiness.split)
  moreover have "pool_ok c b \<longleftrightarrow> (b_members b \<noteq> [] \<and> (\<forall>m \<in> set (b_members b). bm_port m \<noteq> 0) \<and>
      (\<forall>check. b_health_check b = Some check \<longrightarrow> hc_timeout_ms check \<le> hc_interval_ms check)) \<and>
      (cookie_wanted b \<longrightarrow> (\<forall>f \<in> set (frontends c). b_id b \<in> pools_of f \<longrightarrow> f_transport f = Tcp)) \<and>
      (cookie_wanted b \<longrightarrow> (\<exists>n \<ge> 32. hex_length (stickiness_key c) = Some n)) \<and>
      (\<forall>name site. b_stickiness b = SignedCookie name site \<longrightarrow> is_token name)" for b
    by (cases "b_stickiness b") (simp_all add: pool_ok_def cookie_wanted_def conj_ac)
  ultimately show ?thesis by (simp only: ball_conj_distrib)
qed

lemma all_errors_silent: "all_errors c = [] \<longleftrightarrow> config_ok c"
  using duplicate_ids_silent [of c] bindings_silent [of c] frontends_silent [of c] vips_silent [of c]
    certificates_silent [of c] providers_silent [of c] pools_silent [of c]
  unfolding all_errors_def append_is_Nil_conv config_ok_def by blast

lemma validate_ok: "validate c = Inr () \<longleftrightarrow> config_ok c"
  by (simp add: validate_def Let_def all_errors_silent)

section \<open>Taking something out\<close>

definition without_vip :: "string \<Rightarrow> config \<Rightarrow> config" where
  "without_vip v c = c\<lparr>vips := filter (\<lambda>x. v_id x \<noteq> v) (vips c)\<rparr>"

definition without_certificate :: "string \<Rightarrow> config \<Rightarrow> config" where
  "without_certificate k c = c\<lparr>certificates := filter (\<lambda>x. c_id x \<noteq> k) (certificates c)\<rparr>"

lemma vip_removal_ok: "validate_vip_removal c v = Inr () \<longleftrightarrow> (\<forall>f \<in> set (frontends c). f_vip f \<noteq> v)"
  by (auto simp: validate_vip_removal_def Let_def filter_empty_conv)

lemma certificate_removal_ok:
  "validate_certificate_removal c k = Inr () \<longleftrightarrow> (\<forall>f \<in> set (frontends c). \<not> offers f k)"
  by (auto simp: validate_certificate_removal_def Let_def filter_empty_conv)

lemma image_but: "g ` {x \<in> S. g x \<noteq> k} = g ` S - {k}"
  by auto

lemma without_vip_ok:
  assumes "config_ok c" "\<forall>f \<in> set (frontends c). f_vip f \<noteq> v"
  shows "config_ok (without_vip v c)"
proof -
  have "references_ok (without_vip v c) f" if "f \<in> set (frontends c)" for f
    using assms that by (simp add: config_ok_def references_ok_def without_vip_def image_but)
  moreover have "ids_distinct (without_vip v c)"
    using assms(1) by (simp add: config_ok_def ids_distinct_def without_vip_def distinct_map_filter)
  moreover have "length (vips (without_vip v c)) \<le> 255"
    using assms(1) le_trans [OF length_filter_le] by (auto simp: config_ok_def without_vip_def)
  moreover have "pool_ok (without_vip v c) b = pool_ok c b" for b by (simp add: pool_ok_def without_vip_def)
  ultimately show ?thesis using assms(1) by (simp add: config_ok_def without_vip_def)
qed

lemma without_certificate_ok:
  assumes "config_ok c" "\<forall>f \<in> set (frontends c). \<not> offers f k"
  shows "config_ok (without_certificate k c)"
proof -
  have "references_ok (without_certificate k c) f" if f: "f \<in> set (frontends c)" for f
  proof -
    have "references_ok c f" using assms(1) f by (simp add: config_ok_def)
    moreover have "k \<notin> set (tls_certificates tls)" if "f_tls f = Some tls" for tls
      using assms(2) f that by (auto simp: offers_def)
    ultimately show ?thesis by (simp add: references_ok_def without_certificate_def image_but subset_Diff_insert)
  qed
  moreover have "ids_distinct (without_certificate k c)"
    using assms(1) by (simp add: config_ok_def ids_distinct_def without_certificate_def distinct_map_filter)
  moreover have "pool_ok (without_certificate k c) b = pool_ok c b" for b
    by (simp add: pool_ok_def without_certificate_def)
  ultimately show ?thesis using assms(1) by (simp add: config_ok_def without_certificate_def) blast
qed

section \<open>The keys of the message catalogue\<close>

lemma error_codes_complete: "set ERROR_CODES = UNIV"
proof -
  have "e \<in> set ERROR_CODES" for e by (cases e) (simp_all add: ERROR_CODES_def)
  then show ?thesis by auto
qed

lemma error_keys_distinct: "distinct (map error_key ERROR_CODES)"
  by (simp add: ERROR_CODES_def)

lemma error_key_inj: "inj error_key"
  using error_keys_distinct by (simp add: distinct_map error_codes_complete)

end
