(* ===== verification/Inspection.thy ===== *)
theory Inspection
  imports Validation
begin

text \<open>
  \<open>validation.rs\<close>, the warnings: what an accepted configuration is still worth a word
  about. The time is an argument, as it is in the source. Lower-casing follows the Unicode
  tables and is the parameter \<open>lower\<close>, as in \<open>Route\<close>.
\<close>

section \<open>Codes\<close>

datatype warning_code =
    FrontendUnreachableRoutingRule | CertificateExpired | CertificateChainIncomplete | AcmeMissing
  | AcmeDirectoryUrlInvalid | AcmeTermsNotAccepted | AcmeNoHttp01Listener | AcmeWildcardNeedsDns01
  | CertificateExpiringSoon | FrontendCertificateExpired | FrontendLegacyTlsPolicy

definition WARNING_CODES :: "warning_code list" where
  "WARNING_CODES = [FrontendUnreachableRoutingRule, CertificateExpired, CertificateChainIncomplete,
     AcmeMissing, AcmeDirectoryUrlInvalid, AcmeTermsNotAccepted, AcmeNoHttp01Listener,
     AcmeWildcardNeedsDns01, CertificateExpiringSoon, FrontendCertificateExpired, FrontendLegacyTlsPolicy]"

fun warning_key :: "warning_code \<Rightarrow> string" where
  "warning_key FrontendUnreachableRoutingRule = ''config.frontend.unreachable_routing_rule''"
| "warning_key CertificateExpired = ''certificate.expired''"
| "warning_key CertificateChainIncomplete = ''certificate.chain.incomplete''"
| "warning_key AcmeMissing = ''config.acme.missing''"
| "warning_key AcmeDirectoryUrlInvalid = ''config.acme.directory_url_invalid''"
| "warning_key AcmeTermsNotAccepted = ''config.acme.terms_not_accepted''"
| "warning_key AcmeNoHttp01Listener = ''config.acme.no_http01_listener''"
| "warning_key AcmeWildcardNeedsDns01 = ''config.acme.wildcard_needs_dns01''"
| "warning_key CertificateExpiringSoon = ''certificate.expiring_soon''"
| "warning_key FrontendCertificateExpired = ''config.frontend.certificate_expired''"
| "warning_key FrontendLegacyTlsPolicy = ''config.frontend.legacy_tls_policy''"

type_synonym validation_warning = "warning_code report"

section \<open>Certificates that are ordered\<close>

definition is_wildcard :: "string \<Rightarrow> bool" where
  "is_wildcard name \<longleftrightarrow> strip_prefix ''*.'' name \<noteq> None"

definition HTTP01_PORT :: u16 where "HTTP01_PORT = 80"

definition http01_listener :: "config \<Rightarrow> frontend option" where
  "http01_listener c = find (\<lambda>f. f_port f = HTTP01_PORT \<and> f_application f = Http
     \<and> f_transport f = Tcp \<and> f_tls f = None) (frontends c)"

definition is_ordered :: "certificate \<Rightarrow> bool" where
  "is_ordered k = (case c_source k of AcmeHttp01 \<Rightarrow> True | AcmeDns01 _ \<Rightarrow> True | ManualUpload \<Rightarrow> False)"

definition source_path :: "nat \<Rightarrow> field_path" where
  "source_path at = field (index (field root ''certificates'') at) ''source''"

definition acme_faults :: "config \<Rightarrow> string option \<Rightarrow> validation_warning list" where
  "acme_faults c only =
     (let ordered = filter (\<lambda>(_, k). (case only of None \<Rightarrow> True | Some wanted \<Rightarrow> c_id k = wanted) \<and> is_ordered k)
        (enumerate 0 (certificates c)) in
      if ordered = [] then []
      else case acme c of
        None \<Rightarrow> map (\<lambda>(at, k). with_id ''certificate'' (c_id k) (new_report AcmeMissing (source_path at))) ordered
      | Some settings \<Rightarrow>
          (if strip_prefix https (a_directory_url settings) = None
           then [new_report AcmeDirectoryUrlInvalid (field (field root ''acme'') ''directory_url'')] else [])
          @ (if \<not> a_accepted_terms settings
             then [new_report AcmeTermsNotAccepted (field (field root ''acme'') ''accepted_terms'')] else [])
          @ (if http01_listener c = None
             then concat (map (\<lambda>(at, k). if c_source k \<noteq> AcmeHttp01 then []
               else [with_number ''port'' (port_number HTTP01_PORT) (with_id ''certificate'' (c_id k)
                 (new_report AcmeNoHttp01Listener (source_path at)))]) ordered)
             else [])
          @ concat (map (\<lambda>(at, k). if c_source k = AcmeHttp01 \<and> list_ex is_wildcard (c_sni_names k)
              then [with_id ''certificate'' (c_id k) (new_report AcmeWildcardNeedsDns01 (source_path at))]
              else []) ordered))"

section \<open>Expiry and policy\<close>

definition check_tls_policy :: "config \<Rightarrow> validation_warning list" where
  "check_tls_policy c = indexed (\<lambda>at f. case f_tls f of
       None \<Rightarrow> []
     | Some tls \<Rightarrow> if tls_policy tls \<noteq> LegacyCompatible then []
         else [with_id ''frontend'' (f_id f) (new_report FrontendLegacyTlsPolicy
           (field (field (frontend_path at) ''tls'') ''policy''))]) (frontends c)"

definition remaining :: "certificate_validity \<Rightarrow> int \<Rightarrow> int" where
  "remaining validity now_unix = wrap_i64 (not_after_unix validity - now_unix)"

definition expiring :: "config \<Rightarrow> int \<Rightarrow> validation_warning list" where
  "expiring c now_unix = indexed (\<lambda>at k. case c_validity k of
       None \<Rightarrow> []
     | Some validity \<Rightarrow>
         if remaining validity now_unix > int (unat (certificate_expiry_warning_days c)) * 86400 then []
         else [with_number ''remaining_seconds'' (remaining validity now_unix)
           (with_number ''not_after_unix'' (not_after_unix validity) (with_id ''certificate'' (c_id k)
             (new_report CertificateExpiringSoon (index (field root ''certificates'') at))))])
     (certificates c)"

definition has_expired :: "certificate \<Rightarrow> int \<Rightarrow> bool" where
  "has_expired k now_unix = (case c_validity k of None \<Rightarrow> False | Some w \<Rightarrow> not_after_unix w \<le> now_unix)"

definition expired_offers :: "config \<Rightarrow> int \<Rightarrow> validation_warning list" where
  "expired_offers c now_unix = indexed (\<lambda>at f. case f_tls f of
       None \<Rightarrow> []
     | Some tls \<Rightarrow> indexed (\<lambda>offered i. case find (\<lambda>held. c_id held = i) (certificates c) of
           None \<Rightarrow> []
         | Some k \<Rightarrow> if \<not> has_expired k now_unix then []
             else [with_number ''not_after_unix'' (case c_validity k of None \<Rightarrow> 0 | Some w \<Rightarrow> not_after_unix w)
               (with_id ''certificate'' i (with_id ''frontend'' (f_id f) (new_report FrontendCertificateExpired
                 (index (field (field (frontend_path at) ''tls'') ''certificates'') offered))))])
         (tls_certificates tls))
     (frontends c)"

definition check_expiry :: "config \<Rightarrow> int \<Rightarrow> validation_warning list" where
  "check_expiry c now_unix = expiring c now_unix @ expired_offers c now_unix"

section \<open>Rules no request reaches\<close>

definition host_covers :: "(string \<Rightarrow> string) \<Rightarrow> string option \<Rightarrow> string option \<Rightarrow> bool" where
  "host_covers lower earlier later = (case earlier of
     None \<Rightarrow> True
   | Some e \<Rightarrow> (case later of
       None \<Rightarrow> False
     | Some l \<Rightarrow>
         lower e = lower l \<or>
         (case strip_prefix ''*.'' (lower e) of
            None \<Rightarrow> False
          | Some suff \<Rightarrow> (case split_once (CHR ''.'') (lower l) of
              None \<Rightarrow> False | Some (_, rest) \<Rightarrow> rest = suff))))"

definition path_covers :: "(string \<Rightarrow> string) \<Rightarrow> string option \<Rightarrow> string option \<Rightarrow> bool" where
  "path_covers lower earlier later = (case earlier of
     None \<Rightarrow> True
   | Some e \<Rightarrow> (case later of
       None \<Rightarrow> False
     | Some l \<Rightarrow>
         lower l = lower e \<or>
         (case strip_prefix (lower e) (lower l) of
            None \<Rightarrow> False
          | Some rest \<Rightarrow> ends_with (CHR ''/'') (lower e) \<or> starts_with (CHR ''/'') rest)))"

definition covers :: "(string \<Rightarrow> string) \<Rightarrow> routing_rule \<Rightarrow> routing_rule \<Rightarrow> bool" where
  "covers lower earlier later \<longleftrightarrow>
     host_covers lower (rule_host_pattern earlier) (rule_host_pattern later)
     \<and> path_covers lower (rule_path_prefix earlier) (rule_path_prefix later)"

text \<open>\<open>Iterator::position\<close>.\<close>

fun position :: "('a \<Rightarrow> bool) \<Rightarrow> 'a list \<Rightarrow> nat option" where
  "position p [] = None"
| "position p (x # xs) = (if p x then Some 0 else map_option Suc (position p xs))"

definition unreachable_rule ::
  "(string \<Rightarrow> string) \<Rightarrow> nat \<Rightarrow> frontend \<Rightarrow> nat \<Rightarrow> routing_rule \<Rightarrow> validation_warning list" where
  "unreachable_rule lower at f later rule =
     (case position (\<lambda>before. covers lower before rule) (take later (f_routing_rules f)) of
        None \<Rightarrow> []
      | Some earlier \<Rightarrow>
          [with_number ''earlier'' (i64_of_len earlier) (with_number ''rule'' (i64_of_len later)
            (with_id ''frontend'' (f_id f) (new_report FrontendUnreachableRoutingRule
              (index (field (frontend_path at) ''routing_rules'') later))))])"

definition check_unreachable_rules :: "(string \<Rightarrow> string) \<Rightarrow> config \<Rightarrow> validation_warning list" where
  "check_unreachable_rules lower c =
     indexed (\<lambda>at f. indexed (unreachable_rule lower at f) (f_routing_rules f)) (frontends c)"

definition inspect :: "(string \<Rightarrow> string) \<Rightarrow> config \<Rightarrow> int \<Rightarrow> validation_warning list" where
  "inspect lower c now_unix =
     check_unreachable_rules lower c @ acme_faults c None @ check_expiry c now_unix @ check_tls_policy c"

section \<open>Coverage is sound\<close>

text \<open>
  A pattern that covers another takes every host the other takes, except where the other
  starts with a dot; a prefix that covers another takes every path it takes when both
  compare without case.
\<close>

definition dotless :: "(string \<Rightarrow> string) \<Rightarrow> string option \<Rightarrow> bool" where
  "dotless lower pattern = (case pattern of None \<Rightarrow> True | Some p \<Rightarrow> \<not> starts_with (CHR ''.'') (lower p))"

lemma host_covers_sound:
  assumes "host_covers lower (Some e) (Some l)" "dotless lower (Some l)" "host_matches lower l host"
  shows "host_matches lower e host"
proof (cases "lower e = lower l")
  case True
  with assms(3) show ?thesis by (simp add: host_matches_def)
next
  case False
  with assms(1) obtain suff label where e: "lower e = ''*.'' @ suff"
    and l: "split_once (CHR ''.'') (lower l) = Some (label, suff)"
    by (auto simp: host_covers_def strip_prefix_Some split: option.splits)
  have le: "lower l = label @ CHR ''.'' # suff" using l by (simp add: split_once_by_Some)
  then have "label \<noteq> []" using assms(2) by (auto simp: dotless_def starts_with_def)
  show ?thesis
  proof (cases "strip_prefix ''*.'' (lower l)")
    case (Some tail)
    then have wild: "lower l = ''*.'' @ tail" by (simp add: strip_prefix_Some)
    with l have "tail = suff" by (simp add: split_once_by_def)
    with wild e False show ?thesis by simp
  next
    case None
    with assms(3) have "lower host = lower l" by (simp add: host_matches_def)
    with e l \<open>label \<noteq> []\<close> show ?thesis by (simp add: host_matches_def)
  qed
qed

definition seg_prefix :: "string \<Rightarrow> string \<Rightarrow> bool" where
  "seg_prefix p s \<longleftrightarrow> s = p \<or> (\<exists>rest. s = p @ rest \<and> (ends_with (CHR ''/'') p \<or> starts_with (CHR ''/'') rest))"

lemma seg_prefix_trans: "seg_prefix p q \<Longrightarrow> seg_prefix q r \<Longrightarrow> seg_prefix p r"
  by (auto simp: seg_prefix_def starts_with_def)

lemma seg_prefix_strip:
  "s = p \<or> (case strip_prefix p s of None \<Rightarrow> False | Some rest \<Rightarrow> ends_with (CHR ''/'') p \<or> starts_with (CHR ''/'') rest)
     \<longleftrightarrow> seg_prefix p s"
proof (cases "strip_prefix p s")
  case None
  then have "\<nexists>rest. s = p @ rest" by (metis strip_prefix_Some option.distinct(1))
  with None show ?thesis by (simp add: seg_prefix_def)
next
  case (Some rest)
  then have "s = p @ rest" by (simp add: strip_prefix_Some)
  with Some show ?thesis by (auto simp: seg_prefix_def)
qed

lemma path_matches_seg: "path_matches lower p path Insensitive \<longleftrightarrow> seg_prefix (lower p) (lower path)"
  by (simp add: path_matches_def seg_prefix_strip)

lemma path_covers_seg: "path_covers lower (Some e) (Some l) \<longleftrightarrow> seg_prefix (lower e) (lower l)"
  by (simp add: path_covers_def seg_prefix_strip)

lemma covers_sound:
  assumes "covers lower earlier later" "rule_matches lower later host path"
    "rule_path_case earlier = Insensitive" "rule_path_case later = Insensitive"
    "dotless lower (rule_host_pattern later)"
  shows "rule_matches lower earlier host path"
proof -
  have "case rule_host_pattern earlier of None \<Rightarrow> True
      | Some p \<Rightarrow> (case host of None \<Rightarrow> False | Some h \<Rightarrow> host_matches lower p h)"
  proof (cases "rule_host_pattern earlier")
    case (Some e)
    with assms(1) obtain l where l: "rule_host_pattern later = Some l" "host_covers lower (Some e) (Some l)"
      by (cases "rule_host_pattern later") (auto simp: covers_def host_covers_def)
    with assms(2) obtain h where "host = Some h" "host_matches lower l h"
      by (auto simp: rule_matches_def Let_def split: option.splits if_splits)
    with Some l assms(5) show ?thesis using host_covers_sound [OF l(2)] by simp
  qed simp
  moreover have "case rule_path_prefix earlier of None \<Rightarrow> True | Some p \<Rightarrow> path_matches lower p path Insensitive"
  proof (cases "rule_path_prefix earlier")
    case (Some e)
    with assms(1) obtain l where l: "rule_path_prefix later = Some l" "path_covers lower (Some e) (Some l)"
      by (cases "rule_path_prefix later") (auto simp: covers_def path_covers_def)
    with assms(2,4) have "path_matches lower l path Insensitive"
      by (auto simp: rule_matches_def Let_def split: option.splits if_splits)
    with Some l show ?thesis unfolding path_matches_seg path_covers_seg by (auto intro: seg_prefix_trans)
  qed simp
  ultimately show ?thesis using assms(3) by (simp add: rule_matches_def split: option.split_asm)
qed

text \<open>A rule that matches only what an earlier one matches decides nothing.\<close>

lemma decide_rules_shadowed:
  "(rule_matches lower rule host path \<Longrightarrow> \<exists>before \<in> set xs. rule_matches lower before host path) \<Longrightarrow>
     decide_rules lower f (xs @ rule # ys) host path = decide_rules lower f (xs @ ys) host path"
  by (induction xs) auto

lemma decide_rules_update:
  "decide_rules lower (f\<lparr>f_routing_rules := any\<rparr>) rs host path = decide_rules lower f rs host path"
  by (induction rs) (auto split: rule_action.split option.split)

lemma position_None: "position p xs = None \<longleftrightarrow> (\<forall>x \<in> set xs. \<not> p x)"
  by (induction xs) auto

lemma position_Some: "position p xs = Some i \<Longrightarrow> i < length xs \<and> p (xs ! i)"
  by (induction xs arbitrary: i) (auto split: if_splits)

text \<open>Which rules are reported.\<close>

definition reported :: "(string \<Rightarrow> string) \<Rightarrow> routing_rule list \<Rightarrow> nat \<Rightarrow> bool" where
  "reported lower rules i \<longleftrightarrow> i < length rules \<and> (\<exists>j < i. covers lower (rules ! j) (rules ! i))"

lemma reported_position:
  assumes "i < length rules"
  shows "position (\<lambda>before. covers lower before (rules ! i)) (take i rules) \<noteq> None \<longleftrightarrow> reported lower rules i"
proof -
  have "set (take i rules) = (\<lambda>j. rules ! j) ` {..<i}"
    using assms nth_image [of i rules] by (simp add: lessThan_atLeast0)
  then show ?thesis using assms by (auto simp: position_None reported_def)
qed

lemma set_indexed: "set (indexed f xs) = (\<Union>i < length xs. set (f i (xs ! i)))"
proof -
  have "set (enumerate 0 xs) = (\<lambda>i. (i, xs ! i)) ` {..<length xs}"
    by (auto simp: in_set_enumerate_eq image_iff)
  then show ?thesis by (simp add: indexed_def)
qed

lemma report_fields [simp]:
  "rep_path (with_id name v e) = rep_path e" "rep_path (with_number name n e) = rep_path e"
  "rep_code (with_id name v e) = rep_code e" "rep_code (with_number name n e) = rep_code e"
  "rep_path (new_report code path) = path" "rep_code (new_report code path) = code"
  by (simp_all add: with_id_def with_number_def new_report_def)

lemma unreachable_rule_path:
  assumes "later < length (f_routing_rules f)"
  shows "rep_path ` set (unreachable_rule lower at f later (f_routing_rules f ! later)) =
    (if reported lower (f_routing_rules f) later
     then {index (field (frontend_path at) ''routing_rules'') later} else {})"
  using reported_position [OF assms, of lower]
  by (cases "position (\<lambda>before. covers lower before (f_routing_rules f ! later)) (take later (f_routing_rules f))")
    (simp_all add: unreachable_rule_def)

text \<open>The warnings name exactly the rules an earlier rule covers.\<close>

lemma unreachable_reported:
  "index (field (frontend_path at) ''routing_rules'') i \<in> rep_path ` set (check_unreachable_rules lower c) \<longleftrightarrow>
     at < length (frontends c) \<and> reported lower (f_routing_rules (frontends c ! at)) i"
proof -
  have "rep_path ` set (check_unreachable_rules lower c) =
      (\<Union>at < length (frontends c). \<Union>i < length (f_routing_rules (frontends c ! at)).
        if reported lower (f_routing_rules (frontends c ! at)) i
        then {index (field (frontend_path at) ''routing_rules'') i} else {})"
    by (simp add: check_unreachable_rules_def set_indexed image_UN unreachable_rule_path)
  moreover have "index (field (frontend_path at) ''routing_rules'') i = index (field (frontend_path at') ''routing_rules'') i' \<longleftrightarrow>
      at = at' \<and> i = i'" for at' i' by (simp add: index_def field_def frontend_path_def root_def)
  ultimately show ?thesis by (auto simp: reported_def split: if_splits)
qed

section \<open>Keys\<close>

lemma warning_codes_complete: "set WARNING_CODES = UNIV"
proof -
  have "e \<in> set WARNING_CODES" for e by (cases e) (simp_all add: WARNING_CODES_def)
  then show ?thesis by auto
qed

lemma all_keys_distinct: "distinct (map error_key ERROR_CODES @ map warning_key WARNING_CODES)"
  by (simp add: ERROR_CODES_def WARNING_CODES_def)

end
