(* ===== verification/Udp.thy ===== *)
theory Udp
  imports Proxyproto "HOL-Library.Multiset"
begin

text \<open>
  \<open>udp.rs\<close>: the sessions of one UDP frontend, bounded and ordered by use. The table is a
  \<open>HashMap\<close>, whose iteration order is unspecified: it is a list of entries with distinct
  keys, and what is proved of it does not depend on their order. The socket of a session is
  the type parameter.
\<close>

section \<open>The order of socket addresses\<close>

text \<open>\<open>SocketAddr\<close> derives its order: IPv4 before IPv6, then the address, then the port.\<close>

fun sock_key :: "socket_addr \<Rightarrow> nat \<times> byte list \<times> u16" where
  "sock_key (SockV4 a p) = (0, octets_v4 a, p)"
| "sock_key (SockV6 a p) = (1, octets_v6 a, p)"

lemma sock_key_inj: "sock_key x = sock_key y \<Longrightarrow> x = y"
proof -
  have "octets_v4 a = octets_v4 b \<Longrightarrow> a = b" for a b by (cases a; cases b) simp
  moreover have "octets_v6 a = octets_v6 b \<Longrightarrow> a = b" for a b by (cases a; cases b) simp
  ultimately show "sock_key x = sock_key y \<Longrightarrow> x = y" by (cases x; cases y) simp_all
qed

instantiation socket_addr :: linorder
begin

definition less_eq_socket_addr :: "socket_addr \<Rightarrow> socket_addr \<Rightarrow> bool" where
  "less_eq_socket_addr x y \<longleftrightarrow> sock_key x \<le> sock_key y"

definition less_socket_addr :: "socket_addr \<Rightarrow> socket_addr \<Rightarrow> bool" where
  "less_socket_addr x y \<longleftrightarrow> sock_key x < sock_key y"

instance
  by standard (auto simp: less_eq_socket_addr_def less_socket_addr_def intro: sock_key_inj)

end

section \<open>Data\<close>

definition DEFAULT_SESSION_LIMIT :: u32 where "DEFAULT_SESSION_LIMIT = 16384"
definition DEFAULT_IDLE_SECONDS :: u32 where "DEFAULT_IDLE_SECONDS = 120"

record 's session =
  se_pool :: string
  se_member :: string
  se_address :: socket_addr
  se_socket :: 's
  se_used :: instant
  se_rank :: u64

definition idle_for :: "'s session \<Rightarrow> instant \<Rightarrow> duration" where
  "idle_for s now = now - se_used s"

record 's sessions =
  ss_entries :: "(socket_addr \<times> 's session) list"
  ss_limit :: nat
  ss_idle :: duration
  ss_next :: u64
  ss_evicted :: u64
  ss_expired :: u64

section \<open>The hash map\<close>

definition hm_remove :: "'k \<Rightarrow> ('k \<times> 'v) list \<Rightarrow> ('k \<times> 'v) list" where
  "hm_remove k es = filter (\<lambda>e. fst e \<noteq> k) es"

definition hm_insert :: "'k \<Rightarrow> 'v \<Rightarrow> ('k \<times> 'v) list \<Rightarrow> ('k \<times> 'v) list" where
  "hm_insert k v es = (k, v) # hm_remove k es"

text \<open>Removing one key after the other, and the values that were there.\<close>

fun hm_drain :: "'k list \<Rightarrow> ('k \<times> 'v) list \<Rightarrow> 'v list \<times> ('k \<times> 'v) list" where
  "hm_drain [] es = ([], es)"
| "hm_drain (k # ks) es = (case map_of es k of
     None \<Rightarrow> hm_drain ks es
   | Some v \<Rightarrow> (case hm_drain ks (hm_remove k es) of (vs, es') \<Rightarrow> (v # vs, es')))"

section \<open>Operations\<close>

definition session_settings :: "u32 \<Rightarrow> u32 \<Rightarrow> nat \<times> duration" where
  "session_settings limit idle_seconds =
     (let limit = (if limit = 0 then DEFAULT_SESSION_LIMIT else limit);
          idle_seconds = (if idle_seconds = 0 then DEFAULT_IDLE_SECONDS else idle_seconds)
      in (unat limit, secs (unat idle_seconds)))"

definition new_sessions :: "u32 \<Rightarrow> u32 \<Rightarrow> 's sessions" where
  "new_sessions limit idle_seconds =
     (case session_settings limit idle_seconds of (limit, idle) \<Rightarrow>
        \<lparr>ss_entries = [], ss_limit = limit, ss_idle = idle, ss_next = 0, ss_evicted = 0, ss_expired = 0\<rparr>)"

definition session_holds :: "'s sessions \<Rightarrow> socket_addr \<Rightarrow> bool" where
  "session_holds t client \<longleftrightarrow> map_of (ss_entries t) client \<noteq> None"

definition evict_least_used :: "'s sessions \<Rightarrow> 's session option \<times> 's sessions" where
  "evict_least_used t =
     (case min_by_key (\<lambda>(client, s). (se_rank s, client)) (ss_entries t) of
        None \<Rightarrow> (None, t)
      | Some (oldest, _) \<Rightarrow>
          (case map_of (ss_entries t) oldest of
             None \<Rightarrow> (None, t)
           | Some s \<Rightarrow> (Some s, t\<lparr>ss_entries := hm_remove oldest (ss_entries t),
               ss_evicted := ss_evicted t + 1\<rparr>)))"

text \<open>The loop of \<open>retune\<close>: every turn removes an entry.\<close>

function evict_down :: "'s sessions \<Rightarrow> 's session list \<times> 's sessions" where
  "evict_down t =
     (if length (ss_entries t) > ss_limit t then
        (case evict_least_used t of
           (Some s, t') \<Rightarrow> (case evict_down t' of (rest, t'') \<Rightarrow> (s # rest, t''))
         | (None, t') \<Rightarrow> ([], t'))
      else ([], t))"
  by pat_completeness auto

lemma hm_remove_shorter: "map_of es k \<noteq> None \<Longrightarrow> length (hm_remove k es) < length es"
  by (induction es) (auto simp: hm_remove_def less_Suc_eq_le split: if_splits)

lemma evict_shorter:
  "evict_least_used t = (Some s, t') \<Longrightarrow> length (ss_entries t') < length (ss_entries t)"
  by (auto simp: evict_least_used_def hm_remove_shorter split: option.splits)

termination evict_down
  by (relation "measure (\<lambda>t. length (ss_entries t))") (auto dest: evict_shorter [OF sym])

declare evict_down.simps [simp del]

definition retune :: "'s sessions \<Rightarrow> u32 \<Rightarrow> u32 \<Rightarrow> 's session list \<times> 's sessions" where
  "retune t limit idle_seconds =
     (case session_settings limit idle_seconds of (limit, idle) \<Rightarrow>
        evict_down (t\<lparr>ss_limit := limit, ss_idle := idle\<rparr>))"

definition refresh :: "'s sessions \<Rightarrow> socket_addr \<Rightarrow> instant \<Rightarrow> 's session option \<times> 's sessions" where
  "refresh t client now = (case map_of (ss_entries t) client of
     None \<Rightarrow> (None, t)
   | Some s \<Rightarrow>
       let s' = s\<lparr>se_used := now, se_rank := ss_next t\<rparr> in
       (Some s', t\<lparr>ss_entries := hm_insert client s' (ss_entries t), ss_next := ss_next t + 1\<rparr>))"

definition insert_session ::
  "'s sessions \<Rightarrow> socket_addr \<Rightarrow> string \<Rightarrow> string \<Rightarrow> socket_addr \<Rightarrow> 's \<Rightarrow> instant
     \<Rightarrow> 's session option \<times> 's sessions" where
  "insert_session t client pool member at socket now =
     (let (evicted, t1) =
        (if length (ss_entries t) \<ge> ss_limit t \<and> \<not> session_holds t client
         then evict_least_used t else (None, t));
        s = \<lparr>se_pool = pool, se_member = member, se_address = at, se_socket = socket,
             se_used = now, se_rank = ss_next t1\<rparr>
      in (evicted, t1\<lparr>ss_entries := hm_insert client s (ss_entries t1), ss_next := ss_next t1 + 1\<rparr>))"

definition remove_session :: "'s sessions \<Rightarrow> socket_addr \<Rightarrow> 's session option \<times> 's sessions" where
  "remove_session t client =
     (map_of (ss_entries t) client, t\<lparr>ss_entries := hm_remove client (ss_entries t)\<rparr>)"

definition expire :: "'s sessions \<Rightarrow> instant \<Rightarrow> 's session list \<times> 's sessions" where
  "expire t now =
     (let stale = map fst (filter (\<lambda>(_, s). idle_for s now \<ge> ss_idle t) (ss_entries t));
          (dropped, es) = hm_drain stale (ss_entries t)
      in (dropped, t\<lparr>ss_entries := es, ss_expired := ss_expired t + of_nat (length dropped)\<rparr>))"

definition clear_sessions :: "'s sessions \<Rightarrow> 's session list \<times> 's sessions" where
  "clear_sessions t = (map snd (ss_entries t), t\<lparr>ss_entries := []\<rparr>)"

definition retain_sessions ::
  "'s sessions \<Rightarrow> (string \<Rightarrow> string \<Rightarrow> bool) \<Rightarrow> 's session list \<times> 's sessions" where
  "retain_sessions t exists =
     (let gone = map fst (filter (\<lambda>(_, s). \<not> exists (se_pool s) (se_member s)) (ss_entries t));
          (dropped, es) = hm_drain gone (ss_entries t)
      in (dropped, t\<lparr>ss_entries := es\<rparr>))"

section \<open>Draining a hash map\<close>

lemma map_of_remove: "map_of (hm_remove k es) j = (if j = k then None else map_of es j)"
  by (induction es) (auto simp: hm_remove_def)

lemma keys_remove: "fst ` set (hm_remove k es) = fst ` set es - {k}"
  by (auto simp: hm_remove_def)

lemma distinct_remove: "distinct (map fst es) \<Longrightarrow> distinct (map fst (hm_remove k es))"
  by (induction es) (auto simp: hm_remove_def)

lemma map_filter_cong: "(\<And>x. x \<in> set xs \<Longrightarrow> f x = g x) \<Longrightarrow> List.map_filter f xs = List.map_filter g xs"
  by (induction xs) (simp_all add: List.map_filter_simps split: option.split)

lemma hm_drain_map:
  "distinct ks \<Longrightarrow> hm_drain ks es =
     (List.map_filter (map_of es) ks, filter (\<lambda>e. fst e \<notin> set ks) es)"
proof (induction ks arbitrary: es)
  case Nil
  show ?case by (simp add: List.map_filter_simps)
next
  case (Cons k ks)
  show ?case
  proof (cases "map_of es k")
    case None
    then have "filter (\<lambda>e. fst e \<notin> set (k # ks)) es = filter (\<lambda>e. fst e \<notin> set ks) es"
      by (intro filter_cong) (auto simp: map_of_eq_None_iff)
    with None Cons show ?thesis by (simp add: List.map_filter_simps)
  next
    case (Some v)
    have "List.map_filter (map_of (hm_remove k es)) ks = List.map_filter (map_of es) ks"
      using Cons.prems by (intro map_filter_cong) (auto simp: map_of_remove)
    moreover have "filter (\<lambda>e. fst e \<notin> set ks) (hm_remove k es) = filter (\<lambda>e. fst e \<notin> set (k # ks)) es"
      by (auto simp: hm_remove_def intro: filter_cong)
    ultimately show ?thesis using Some Cons by (simp add: List.map_filter_simps)
  qed
qed

lemma hm_drain_filter:
  assumes "distinct (map fst es)"
  shows "hm_drain (map fst (filter P es)) es = (map snd (filter P es), filter (\<lambda>e. \<not> P e) es)"
proof -
  let ?ks = "map fst (filter P es)"
  have get: "map_of es (fst e) = Some (snd e)" if "e \<in> set es" for e
    using map_of_is_SomeI [OF assms, of "fst e" "snd e"] that by simp
  have "set xs \<subseteq> set es \<Longrightarrow> List.map_filter (map_of es) (map fst xs) = map snd xs" for xs
    by (induction xs) (simp_all add: List.map_filter_simps get)
  then have "List.map_filter (map_of es) ?ks = map snd (filter P es)" by auto
  moreover have "filter (\<lambda>e. fst e \<notin> set ?ks) es = filter (\<lambda>e. \<not> P e) es"
    using get by (intro filter_cong) (auto, metis option.inject prod.collapse)
  moreover have "distinct ?ks" using assms by (induction es) auto
  ultimately show ?thesis by (simp add: hm_drain_map)
qed

section \<open>The table is a bounded list in the order of use\<close>

text \<open>
  The abstract table: the clients, the one used longest ago first. A client that sends
  moves to the end; a new one is put there, and takes the place of the first when the
  table is full.
\<close>

definition lru_use :: "nat \<Rightarrow> 'k \<Rightarrow> 'k list \<Rightarrow> 'k list" where
  "lru_use limit k ks =
     (if k \<in> set ks then filter (\<lambda>x. x \<noteq> k) ks @ [k]
      else (if limit \<le> length ks then tl ks else ks) @ [k])"

text \<open>
  What a client of the table may rely on: an operation \<open>touch\<close> moves the key it is for to
  the end, or finds the key absent and leaves the table alone. \<open>ok n\<close> says that the table
  has room for \<open>n\<close> more operations.
\<close>

locale lru_table =
  fixes order :: "'t \<Rightarrow> 'k list" and limit :: "'t \<Rightarrow> nat" and touch :: "'e \<Rightarrow> 't \<Rightarrow> 't"
    and key_of :: "'e \<Rightarrow> 'k" and ok :: "nat \<Rightarrow> 't \<Rightarrow> bool"
  assumes ok_order: "ok n t \<Longrightarrow> distinct (order t) \<and> length (order t) \<le> limit t \<and> 1 \<le> limit t"
    and touch_order: "ok (Suc n) t \<Longrightarrow> order (touch e t) = lru_use (limit t) (key_of e) (order t) \<or>
      key_of e \<notin> set (order t) \<and> order (touch e t) = order t"
    and touch_limit: "ok (Suc n) t \<Longrightarrow> limit (touch e t) = limit t"
    and touch_ok: "ok (Suc n) t \<Longrightarrow> ok n (touch e t)"
begin

lemma lru_use_after:
  assumes "distinct ks" "ks = xs @ k # ys" "set ys \<subseteq> S" "k \<notin> S" "finite S" "card (insert j S - {k}) < lim"
  shows "\<exists>xs' ys'. lru_use lim j ks = xs' @ k # ys' \<and> set ys' \<subseteq> insert j S - {k}"
proof (cases "j = k")
  case True
  then show ?thesis using assms(2) by (intro exI [of _ "filter (\<lambda>x. x \<noteq> k) ks"] exI [of _ "[]"]) (simp add: lru_use_def)
next
  case other: False
  show ?thesis
  proof (cases "j \<in> set ks")
    case True
    with assms(2-4) other show ?thesis
      by (intro exI [of _ "filter (\<lambda>x. x \<noteq> j) xs"] exI [of _ "filter (\<lambda>x. x \<noteq> j) ys @ [j]"]) (auto simp: lru_use_def)
  next
    case False
    have "xs \<noteq> [] \<or> length ks < lim"
    proof (rule ccontr)
      assume "\<not> (xs \<noteq> [] \<or> length ks < lim)"
      then have ys: "lim \<le> Suc (length ys)" and xs: "xs = []" using assms(2) by auto
      have "set (j # ys) \<subseteq> insert j S - {k}" using assms(3,4) other by auto
      then have "card (set (j # ys)) \<le> card (insert j S - {k})" using assms(5) by (intro card_mono) simp_all
      moreover have "distinct (j # ys)" using assms(1,2) False by auto
      ultimately show False using ys assms(6) distinct_card [of "j # ys"] by simp
    qed
    then have "(if lim \<le> length ks then tl ks else ks) = (if lim \<le> length ks then tl xs else xs) @ k # ys"
      using assms(2) by (cases xs) auto
    with False have "lru_use lim j ks = (if lim \<le> length ks then tl xs else xs) @ k # ys @ [j]"
      by (simp add: lru_use_def)
    then show ?thesis using assms(3,4) other
      by (intro exI [of _ "if lim \<le> length ks then tl xs else xs"] exI [of _ "ys @ [j]"]) auto
  qed
qed

text \<open>A client stays while fewer other clients than the table holds have sent since.\<close>

lemma stays_after:
  "ok (length es) t \<Longrightarrow> order t = xs @ k # ys \<Longrightarrow> set ys \<subseteq> S \<Longrightarrow> k \<notin> S \<Longrightarrow> finite S \<Longrightarrow>
     card (S \<union> key_of ` set es - {k}) < limit t \<Longrightarrow> k \<in> set (order (fold touch es t))"
proof (induction es arbitrary: t xs ys S)
  case (Cons e es)
  let ?j = "key_of e"
  have ok: "ok (Suc (length es)) t" using Cons.prems(1) by simp
  have "card (insert ?j S - {k}) \<le> card (S \<union> key_of ` set (e # es) - {k})"
    using Cons.prems(5) by (intro card_mono) auto
  then have "card (insert ?j S - {k}) < limit t" using Cons.prems(6) by linarith
  with lru_use_after [of "order t" xs k ys S ?j "limit t"] ok_order [OF ok] Cons.prems(2-5)
  have "\<exists>xs' ys'. lru_use (limit t) ?j (order t) = xs' @ k # ys' \<and> set ys' \<subseteq> insert ?j S - {k}" by blast
  moreover have "set ys \<subseteq> insert ?j S - {k}" using Cons.prems(3,4) by auto
  ultimately have "\<exists>xs' ys'. order (touch e t) = xs' @ k # ys' \<and> set ys' \<subseteq> insert ?j S - {k}"
    using touch_order [OF ok, of e] Cons.prems(2) by metis
  then obtain xs' ys' where
    next_order: "order (touch e t) = xs' @ k # ys'" "set ys' \<subseteq> insert ?j S - {k}" by blast
  moreover have "insert ?j S - {k} \<union> key_of ` set es - {k} = S \<union> key_of ` set (e # es) - {k}" by auto
  ultimately have "k \<in> set (order (fold touch es (touch e t)))"
    using Cons.prems(5,6) touch_limit [OF ok] touch_ok [OF ok]
    by (intro Cons.IH [of "touch e t" xs' ys' "insert ?j S - {k}"]) simp_all
  then show ?case by simp
qed simp

lemma recent_stays:
  assumes "ok (Suc (length es)) t" "key_of e \<in> set (order t)" "card (key_of ` set es - {key_of e}) < limit t"
  shows "key_of e \<in> set (order (fold touch es (touch e t)))"
proof -
  have "\<exists>xs. order (touch e t) = xs @ [key_of e]"
    using touch_order [OF assms(1), of e] assms(2) by (auto simp: lru_use_def)
  then obtain xs where "order (touch e t) = xs @ key_of e # []" by blast
  from stays_after [OF touch_ok [OF assms(1)] this, of "{}"] assms touch_limit [OF assms(1)] show ?thesis by simp
qed

end

section \<open>The code implements it\<close>

abbreviation entry_rank :: "socket_addr \<times> 's session \<Rightarrow> u64" where
  "entry_rank e \<equiv> se_rank (snd e)"

definition use_order :: "'s sessions \<Rightarrow> socket_addr list" where
  "use_order t = map fst (sort_key entry_rank (ss_entries t))"

text \<open>One session per client and rank, every rank handed out before, room for \<open>n\<close> more ranks.\<close>

definition table_wf :: "nat \<Rightarrow> 's sessions \<Rightarrow> bool" where
  "table_wf n t \<longleftrightarrow> distinct (map fst (ss_entries t)) \<and> distinct (map entry_rank (ss_entries t)) \<and>
     (\<forall>e \<in> set (ss_entries t). entry_rank e < ss_next t) \<and> unat (ss_next t) + n < 2 ^ 64 \<and> 1 \<le> ss_limit t"

definition table_inv :: "nat \<Rightarrow> 's sessions \<Rightarrow> bool" where
  "table_inv n t \<longleftrightarrow> table_wf n t \<and> length (ss_entries t) \<le> ss_limit t"

lemma settings_positive: "1 \<le> fst (session_settings limit idle)"
  by (auto simp: session_settings_def Let_def DEFAULT_SESSION_LIMIT_def unat_gt_0 Suc_leI)

lemma new_sessions_inv: "n < 2 ^ 64 \<Longrightarrow> table_inv n (new_sessions limit idle)"
  using settings_positive [of limit idle] by (auto simp: table_inv_def table_wf_def new_sessions_def split: prod.split)

lemma sort_remove: "sort_key entry_rank (hm_remove k es) = filter (\<lambda>e. fst e \<noteq> k) (sort_key entry_rank es)"
  by (simp add: hm_remove_def filter_sort)

lemma sort_insert:
  assumes "distinct (map entry_rank es)" "\<forall>e \<in> set es. entry_rank e < se_rank s"
  shows "sort_key entry_rank (hm_insert k s es) =
    filter (\<lambda>e. fst e \<noteq> k) (sort_key entry_rank es) @ [(k, s)]"
proof (rule sort_key_inj_key_eq)
  show "mset (hm_insert k s es) = mset (filter (\<lambda>e. fst e \<noteq> k) (sort_key entry_rank es) @ [(k, s)])"
    by (simp add: hm_insert_def hm_remove_def)
  have "inj_on entry_rank (set es)" using assms(1) by (simp add: distinct_map)
  then show "inj_on entry_rank (set (hm_insert k s es))"
    using assms(2) by (auto simp: hm_insert_def hm_remove_def inj_on_def)
  show "sorted (map entry_rank (filter (\<lambda>e. fst e \<noteq> k) (sort_key entry_rank es) @ [(k, s)]))"
    using assms(2) by (simp add: sorted_append sorted_filter less_imp_le)
qed

lemma least_first:
  assumes "min_by_key (\<lambda>(client, s). (se_rank s, client)) es = Some (k, s)" "distinct (map fst es)"
    "distinct (map entry_rank es)"
  shows "sort_key entry_rank es = (k, s) # sort_key entry_rank (hm_remove k es)"
proof (rule sort_key_inj_key_eq)
  from min_by_key_Some [OF assms(1)] have least: "(k, s) \<in> set es" "\<forall>e \<in> set es. se_rank s \<le> entry_rank e"
    by (auto simp: less_eq_prod_def)
  then have "filter (\<lambda>e. fst e = k) es = [(k, s)]" using assms(2)
    by (induction es) (auto simp: filter_empty_conv rev_image_eqI split: if_splits)
  then have "mset es = {#(k, s)#} + mset (hm_remove k es)"
    using mset_filter [of "\<lambda>e. fst e = k" es] multiset_partition [of "mset es" "\<lambda>e. fst e = k"]
    by (simp add: hm_remove_def)
  then show "mset es = mset ((k, s) # sort_key entry_rank (hm_remove k es))" by simp
  show "inj_on entry_rank (set es)" using assms(3) by (simp add: distinct_map)
  show "sorted (map entry_rank ((k, s) # sort_key entry_rank (hm_remove k es)))"
    using least(2) by (auto simp: hm_remove_def)
qed

lemma use_order_set: "set (use_order t) = fst ` set (ss_entries t)"
  by (simp add: use_order_def)

lemma use_order_length: "length (use_order t) = length (ss_entries t)"
  by (simp add: use_order_def)

lemma use_order_distinct: "table_inv n t \<Longrightarrow> distinct (use_order t)"
proof -
  assume "table_inv n t"
  then have "distinct (map fst (ss_entries t))" by (simp add: table_inv_def table_wf_def)
  moreover have "mset (use_order t) = mset (map fst (ss_entries t))" by (simp add: use_order_def)
  ultimately show ?thesis by (metis mset_eq_imp_distinct_iff)
qed

lemma holds_order: "session_holds t k \<longleftrightarrow> k \<in> set (use_order t)"
  by (auto simp: session_holds_def use_order_set map_of_eq_None_iff)

lemma map_fst_filter: "map fst (filter (\<lambda>e. fst e \<noteq> k) es) = filter (\<lambda>x. x \<noteq> k) (map fst es)"
  by (induction es) auto

lemma room: "unat (r :: u64) + Suc n < 2 ^ 64 \<Longrightarrow> unat (r + 1) = Suc (unat r)"
  by (simp add: unat_word_ariths)

lemma put_inv:
  assumes "table_inv (Suc n) t" "se_rank s = ss_next t"
    and "length (hm_insert k s (ss_entries t)) \<le> ss_limit t"
  shows "table_inv n (t\<lparr>ss_entries := hm_insert k s (ss_entries t), ss_next := ss_next t + 1\<rparr>)"
proof -
  have next_rank: "unat (ss_next t + 1) = Suc (unat (ss_next t))"
    using assms(1) by (intro room [of _ n]) (simp add: table_inv_def table_wf_def)
  then have "r \<le> ss_next t \<Longrightarrow> r < ss_next t + 1" for r by (simp add: word_less_nat_alt word_le_nat_alt)
  moreover have "distinct (map entry_rank (hm_remove k (ss_entries t)))"
    using assms(1) by (auto simp: table_inv_def table_wf_def hm_remove_def intro: distinct_map_filter)
  ultimately show ?thesis
    using assms next_rank
    by (auto simp: table_inv_def table_wf_def hm_insert_def distinct_remove keys_remove less_imp_le)
      (auto simp: hm_remove_def)
qed

lemma put_order:
  assumes "table_inv n t" "se_rank s = ss_next t"
  shows "use_order (t\<lparr>ss_entries := hm_insert k s (ss_entries t), ss_next := m\<rparr>) =
    filter (\<lambda>x. x \<noteq> k) (use_order t) @ [k]"
  using sort_insert [of "ss_entries t" s k] assms
  by (simp add: table_inv_def table_wf_def use_order_def map_fst_filter)

lemma evict_inv:
  assumes "table_wf n t" "ss_entries t \<noteq> []"
  shows "\<exists>s. evict_least_used t = (Some s, t\<lparr>ss_entries := hm_remove (hd (use_order t)) (ss_entries t),
      ss_evicted := ss_evicted t + 1\<rparr>) \<and> (hd (use_order t), s) \<in> set (ss_entries t) \<and>
    use_order (snd (evict_least_used t)) = tl (use_order t) \<and> table_wf n (snd (evict_least_used t))"
proof -
  let ?es = "ss_entries t"
  obtain k s where least: "min_by_key (\<lambda>(client, s). (se_rank s, client)) ?es = Some (k, s)"
    using assms(2) by (cases "min_by_key (\<lambda>(client, s). (se_rank s, client)) ?es") auto
  have keys: "distinct (map fst ?es)" "distinct (map entry_rank ?es)" using assms(1) by (simp_all add: table_wf_def)
  note first = least_first [OF least keys]
  then have order: "use_order t = k # map fst (sort_key entry_rank (hm_remove k ?es))" by (simp add: use_order_def)
  have entry: "(k, s) \<in> set ?es" using min_by_key_Some [OF least] by simp
  then have get: "map_of ?es k = Some s" using keys(1) by (rule map_of_is_SomeI [rotated])
  have evict: "evict_least_used t = (Some s, t\<lparr>ss_entries := hm_remove k ?es, ss_evicted := ss_evicted t + 1\<rparr>)"
    by (simp add: evict_least_used_def least get)
  have "distinct (map entry_rank (hm_remove k ?es))"
    using keys(2) by (auto simp: hm_remove_def intro: distinct_map_filter)
  then have "table_wf n (snd (evict_least_used t))"
    using assms(1) by (auto simp: evict table_wf_def distinct_remove) (auto simp: hm_remove_def)
  with evict order entry show ?thesis by (simp add: use_order_def)
qed

lemma evict_down_order:
  assumes "table_wf n t"
  shows "use_order (snd (evict_down t)) = drop (length (ss_entries t) - ss_limit t) (use_order t) \<and>
    length (fst (evict_down t)) = length (ss_entries t) - ss_limit t \<and>
    table_inv n (snd (evict_down t)) \<and> ss_limit (snd (evict_down t)) = ss_limit t"
  using assms
proof (induction t rule: evict_down.induct)
  case (1 t)
  show ?case
  proof (cases "length (ss_entries t) > ss_limit t")
    case True
    then have ne: "ss_entries t \<noteq> []" by auto
    obtain s t' where evict: "evict_least_used t = (Some s, t')" "use_order t' = tl (use_order t)" "table_wf n t'"
      "t' = t\<lparr>ss_entries := ss_entries t', ss_evicted := ss_evicted t'\<rparr>"
      using evict_inv [OF 1(2) ne] by auto
    have len: "length (ss_entries t') = length (ss_entries t) - 1"
      using use_order_length [of t] use_order_length [of t'] evict(2) by simp
    have same: "ss_limit t' = ss_limit t" using arg_cong [OF evict(4), of ss_limit] by simp
    have "drop (length (ss_entries t) - 1 - ss_limit t) (tl (use_order t)) =
        drop (length (ss_entries t) - ss_limit t) (use_order t)"
      using True by (simp add: drop_Suc [symmetric] Suc_diff_Suc)
    with 1(1) [OF True evict(1) [symmetric] refl evict(3)] True evict len same show ?thesis
      by (simp add: evict_down.simps [of t] case_prod_unfold)
  next
    case False
    with 1(2) show ?thesis by (simp add: evict_down.simps [of t] table_inv_def)
  qed
qed

lemma retune_order:
  assumes "table_wf n t"
  shows "use_order (snd (retune t limit idle)) =
      drop (length (ss_entries t) - fst (session_settings limit idle)) (use_order t) \<and>
    length (fst (retune t limit idle)) = length (ss_entries t) - fst (session_settings limit idle) \<and>
    table_inv n (snd (retune t limit idle))"
proof -
  obtain l d where ld: "session_settings limit idle = (l, d)" by fastforce
  let ?t = "t\<lparr>ss_limit := l, ss_idle := d\<rparr>"
  have "table_wf n ?t" using assms settings_positive [of limit idle] ld by (simp add: table_wf_def)
  from evict_down_order [OF this] ld show ?thesis by (simp add: retune_def use_order_def)
qed

lemma expire_exact:
  assumes "distinct (map fst (ss_entries t))"
  shows "expire t now = (map snd (filter (\<lambda>e. ss_idle t \<le> idle_for (snd e) now) (ss_entries t)),
    t\<lparr>ss_entries := filter (\<lambda>e. \<not> ss_idle t \<le> idle_for (snd e) now) (ss_entries t),
      ss_expired := ss_expired t + of_nat (length (filter (\<lambda>e. ss_idle t \<le> idle_for (snd e) now) (ss_entries t)))\<rparr>)"
  using hm_drain_filter [OF assms, of "\<lambda>(_, s). idle_for s now \<ge> ss_idle t"]
  by (simp add: expire_def Let_def case_prod_unfold)

lemma retain_exact:
  assumes "distinct (map fst (ss_entries t))"
  shows "retain_sessions t exists =
    (map snd (filter (\<lambda>e. \<not> exists (se_pool (snd e)) (se_member (snd e))) (ss_entries t)),
     t\<lparr>ss_entries := filter (\<lambda>e. exists (se_pool (snd e)) (se_member (snd e))) (ss_entries t)\<rparr>)"
  using hm_drain_filter [OF assms, of "\<lambda>(_, s). \<not> exists (se_pool s) (se_member s)"]
  by (simp add: retain_sessions_def Let_def case_prod_unfold)

lemma filter_inv: "table_inv n t \<Longrightarrow> table_inv n (t\<lparr>ss_entries := filter P (ss_entries t), ss_expired := m\<rparr>)"
proof -
  assume inv: "table_inv n t"
  then show ?thesis
    by (auto simp: table_inv_def table_wf_def intro: distinct_map_filter le_trans [OF length_filter_le])
qed

text \<open>A datagram: the session is refreshed, or one is opened.\<close>

definition touch_session ::
  "string \<Rightarrow> string \<Rightarrow> socket_addr \<Rightarrow> 's \<Rightarrow> instant \<Rightarrow> socket_addr \<Rightarrow> 's sessions \<Rightarrow> 's sessions" where
  "touch_session pool member at socket now client t =
     (case refresh t client now of
        (Some _, t') \<Rightarrow> t'
      | (None, t') \<Rightarrow> snd (insert_session t' client pool member at socket now))"

lemma length_hm_insert: "length (hm_insert k s es) = Suc (length (hm_remove k es))"
  by (simp add: hm_insert_def)

lemma refresh_held:
  assumes "table_inv (Suc n) t" "session_holds t client"
  shows "\<exists>s t'. refresh t client now = (Some s, t') \<and> use_order t' = lru_use (ss_limit t) client (use_order t) \<and>
    table_inv n t' \<and> ss_limit t' = ss_limit t"
proof -
  obtain s where s: "map_of (ss_entries t) client = Some s" using assms(2) by (auto simp: session_holds_def)
  let ?s = "s\<lparr>se_used := now, se_rank := ss_next t\<rparr>"
  have "length (hm_insert client ?s (ss_entries t)) \<le> ss_limit t"
    using hm_remove_shorter [of "ss_entries t" client] s assms(1) by (simp add: length_hm_insert table_inv_def table_wf_def)
  with put_inv [OF assms(1), of ?s client] put_order [OF assms(1), where s = ?s and k = client] s assms(2) show ?thesis
    by (simp add: refresh_def lru_use_def holds_order Let_def)
qed

lemma insert_new:
  assumes inv: "table_inv (Suc n) t" and new: "\<not> session_holds t client"
  shows "\<exists>gone t'. insert_session t client pool member at socket now = (gone, t') \<and>
    use_order t' = lru_use (ss_limit t) client (use_order t) \<and> table_inv n t' \<and> ss_limit t' = ss_limit t \<and>
    (gone = None \<longleftrightarrow> length (ss_entries t) < ss_limit t)"
proof -
  let ?full = "length (ss_entries t) \<ge> ss_limit t"
  define t1 where "t1 = (if ?full then snd (evict_least_used t) else t)"
  have ne: "ss_entries t \<noteq> []" if ?full using that inv by (auto simp: table_inv_def table_wf_def)
  have wf: "table_wf (Suc n) t" using inv by (simp add: table_inv_def)
  have t1: "table_inv (Suc n) t1" "ss_limit t1 = ss_limit t" "ss_next t1 = ss_next t"
    "use_order t1 = (if ?full then tl (use_order t) else use_order t)" "length (ss_entries t1) < ss_limit t1"
    using inv evict_inv [OF wf] ne evict_shorter [of t] by (auto simp: t1_def table_inv_def)
  let ?s = "\<lparr>se_pool = pool, se_member = member, se_address = at, se_socket = socket, se_used = now, se_rank = ss_next t1\<rparr>"
  have gone: "(fst (evict_least_used t) = None) = (\<not> ?full)" if ?full
    using evict_inv [OF wf ne [OF that]] that by auto
  have "length (hm_insert client ?s (ss_entries t1)) \<le> ss_limit t1"
    using t1(5) by (simp add: length_hm_insert hm_remove_def less_eq_Suc_le) (meson le_trans length_filter_le Suc_le_mono)
  with put_inv [OF t1(1), of ?s client] have "table_inv n (t1\<lparr>ss_entries := hm_insert client ?s (ss_entries t1),
      ss_next := ss_next t1 + 1\<rparr>)" by simp
  moreover have "client \<notin> set (use_order t1)" 
    using new t1(4) by (cases "use_order t") (auto simp: holds_order split: if_splits)
  then have "filter (\<lambda>x. x \<noteq> client) (use_order t1) = use_order t1" by (auto simp: filter_id_conv)
  moreover note put_order [OF t1(1), where s = ?s and k = client]
  moreover have "insert_session t client pool member at socket now =
      (if ?full then fst (evict_least_used t) else None,
       t1\<lparr>ss_entries := hm_insert client ?s (ss_entries t1), ss_next := ss_next t1 + 1\<rparr>)"
    using new by (simp add: insert_session_def t1_def Let_def case_prod_unfold)
  ultimately show ?thesis
    using new t1(2,4) gone by (auto simp: lru_use_def holds_order use_order_length not_le)
qed

interpretation session_table: lru_table use_order ss_limit "touch_session pool member at socket now" "\<lambda>k. k" table_inv
proof
  fix n k and t :: "'a sessions"
  show "table_inv n t \<Longrightarrow> distinct (use_order t) \<and> length (use_order t) \<le> ss_limit t \<and> 1 \<le> ss_limit t"
    using use_order_distinct by (auto simp: table_inv_def table_wf_def use_order_length)
  assume inv: "table_inv (Suc n) t"
  have "use_order (touch_session pool member at socket now k t) = lru_use (ss_limit t) k (use_order t)"
    and "ss_limit (touch_session pool member at socket now k t) = ss_limit t"
    and "table_inv n (touch_session pool member at socket now k t)"
    using refresh_held [OF inv, of k now] insert_new [OF inv, of k pool member at socket now]
    by (cases "session_holds t k"; force simp: touch_session_def refresh_def session_holds_def)+
  then show "use_order (touch_session pool member at socket now k t) = lru_use (ss_limit t) k (use_order t) \<or>
      k \<notin> set (use_order t) \<and> use_order (touch_session pool member at socket now k t) = use_order t"
    "ss_limit (touch_session pool member at socket now k t) = ss_limit t"
    "table_inv n (touch_session pool member at socket now k t)" by simp_all
qed

end
