(* ===== verification/Config_Properties.thy ===== *)
theory Config_Properties
  imports Inspection Udp Sticky
begin

text \<open>
  The properties of the configuration crate and of the tables the traffic path keeps from
  it: what validation accepts, what removals keep, the numbers and the order of nodes the
  matrix gives every address, and the sessions of a UDP frontend.
\<close>

section \<open>Validation\<close>

definition sample_config :: config where
  "sample_config = \<lparr>schema_version = SCHEMA_CURRENT,
     nodes = [\<lparr>n_id = ''n1'', n_address = V4 (Ipv4 10 0 0 1), n_roles = [ControlPlane, DataPlane]\<rparr>,
              \<lparr>n_id = ''n2'', n_address = V4 (Ipv4 10 0 0 2), n_roles = [ControlPlane]\<rparr>],
     vips = [\<lparr>v_id = ''web'', v_address = V4 (Ipv4 10 0 0 10), v_prefix_length = 24, v_interface = ''eth0'',
              v_preferred_node = Some ''n2''\<rparr>,
             \<lparr>v_id = ''spare'', v_address = V4 (Ipv4 10 0 0 11), v_prefix_length = 24, v_interface = ''eth0'',
              v_preferred_node = None\<rparr>],
     frontends = [\<lparr>f_id = ''site'', f_vip = ''web'', f_port = 80, f_transport = Tcp, f_application = Http,
       f_tls = None, f_proxy_protocol = ProxyDisabled, f_access_log = default_access_log,
       f_routing_rules =
         [\<lparr>rule_host_pattern = Some ''*.a.com'', rule_path_prefix = None, rule_path_case = Insensitive,
           rule_action = Proxy ''pool'', rule_request_timeout_seconds = None\<rparr>,
          \<lparr>rule_host_pattern = Some ''x.a.com'', rule_path_prefix = Some ''/b'', rule_path_case = Insensitive,
           rule_action = Redirect Permanent, rule_request_timeout_seconds = None\<rparr>],
       f_sni_rules = [], f_default_backend = Some ''pool'', f_http2 = Http2Enabled,
       f_connect_timeout_seconds = 0, f_request_timeout_seconds = 0, f_idle_timeout_seconds = 0,
       f_drain_timeout_seconds = 0, f_udp_session_limit = 0\<rparr>],
     backends = [\<lparr>b_id = ''pool'',
       b_members = [\<lparr>bm_id = ''m'', bm_address = V4 (Ipv4 10 1 0 1), bm_port = 80, bm_weight = 1, bm_admin_state = Enabled\<rparr>],
       b_algorithm = ConsistentHash, b_health_check = None, b_stickiness = SignedCookie ''ek'' SameSiteLax,
       b_connection_pooling = PoolingDisabled, b_connection_pool_size = 0, b_connection_lifetime_seconds = 0\<rparr>],
     certificates = [], dns_providers = [], acme = None,
     stickiness_key = replicate 64 (CHR ''0''), config_log_level = LogInfo, certificate_expiry_warning_days = 30\<rparr>"

lemma sample_valid: "validate sample_config = Inr ()"
proof -
  have key: "hex_length (replicate 64 (CHR ''0'')) = Some 32"
    by (simp add: hex_length_def list_all_iff is_hexdigit_def byte_in_def)
  have name: "is_token ''ek''"
    by (simp add: is_token_def is_alphanumeric_def byte_in_def)
  show ?thesis
    unfolding validate_ok config_ok_def ids_distinct_def
    by (simp add: sample_config_def references_ok_def shape_ok_def pool_ok_def pools_of_def key name
        default_access_log_def)
qed


text \<open>
  What the removal checks let through keeps a configuration valid: an accepted
  configuration is accepted without a virtual address or a certificate whose removal check
  passed, and a passed check means that no frontend uses what is removed.
\<close>

lemma checked_removal_keeps_valid:
  assumes "validate c = Inr ()" "validate_vip_removal c v = Inr ()" "validate_certificate_removal c k = Inr ()"
  shows "validate (without_vip v c) = Inr () \<and> validate (without_certificate k c) = Inr () \<and>
    (\<forall>f \<in> set (frontends c). f_vip f \<noteq> v \<and> \<not> offers f k)"
  using assms without_vip_ok without_certificate_ok
  by (auto simp: validate_ok vip_removal_ok certificate_removal_ok)

text \<open>
  A request is never handed to a pool that is not there: in an accepted configuration
  the pool a frontend decides on is found among the pools and has a member.
\<close>

lemma accepted_routes_resolve:
  assumes "validate c = Inr ()" "f \<in> set (frontends c)" "decide lower f host path = Pool name timeout"
  shows "\<exists>b. find (\<lambda>pool. b_id pool = name) (backends c) = Some b \<and> b_members b \<noteq> []"
proof -
  have "decide_rules lower f rs h p = Pool name timeout \<Longrightarrow>
      f_default_backend f = Some name \<or> (\<exists>rule \<in> set rs. rule_action rule = Proxy name)" for rs h p
    by (induction rs) (auto split: if_splits rule_action.splits option.splits)
  then have "name \<in> pools_of f" using assms(3) by (auto simp: decide_def pools_of_def)
  then obtain b where "b \<in> set (backends c)" "b_id b = name"
    using assms(1,2) unfolding validate_ok config_ok_def references_ok_def by blast
  then have "find (\<lambda>pool. b_id pool = name) (backends c) \<noteq> None" by (auto simp: find_None_iff)
  then obtain b' where b': "find (\<lambda>pool. b_id pool = name) (backends c) = Some b'" by blast
  then have "b' \<in> set (backends c)" by (auto simp: find_Some_iff)
  then have "b_members b' \<noteq> []" using assms(1) by (simp add: validate_ok config_ok_def pool_ok_def)
  with b' show ?thesis by blast
qed



lemma token_cookie_text: "is_token name \<Longrightarrow> cookie_text name"
proof -
  have "\<not> is_space ch \<and> ch \<noteq> CHR '';'' \<and> ch \<noteq> CHR ''=''"
    if "is_alphanumeric ch \<or> ch \<in> set ''!#$%&'' \<or> ch = CHR 0x27 \<or> ch \<in> set ''*+-.^_`|~''" for ch
    using that by (auto simp: is_alphanumeric_def is_space_def byte_in_def Let_def)
  then show "is_token name \<Longrightarrow> cookie_text name" by (simp add: is_token_def cookie_text_def list_all_iff)
qed

lemma hexdigit_value: "is_hexdigit ch \<Longrightarrow> \<exists>v. digit_value 16 ch = Some v"
  by (auto simp: is_hexdigit_def byte_in_def digit_value_def Let_def)

lemma hex_pairs_total: "list_all is_hexdigit key \<Longrightarrow> \<exists>bs. hex_pairs key = Some bs \<and> length bs = length key div 2"
proof (induction key rule: hex_pairs.induct)
  case (1 h l rest)
  then obtain high low where "digit_value 16 h = Some high" "digit_value 16 l = Some low"
    using hexdigit_value [of h] hexdigit_value [of l] by auto
  with 1 show ?case by fastforce
qed simp_all

text \<open>
  The cookie of an accepted configuration works: where a pool asks for one, the key of
  the configuration makes a signer of at least 256 bits, provided HMAC takes keys of any
  length, and the name of the cookie is read back unchanged from the request that carries it.
\<close>

lemma accepted_cookie_usable:
  assumes "validate c = Inr ()" "b \<in> set (backends c)" "sticky_settings b = Some (name, site)" "\<And>k. accepts k"
  shows "\<exists>key. signer_from_hex accepts (stickiness_key c) = Some key \<and> 32 \<le> length key \<and>
    (\<forall>value. cookie_text value \<longrightarrow> read_pair name (name @ ''='' @ value) = Some value)"
proof -
  have "b_stickiness b = SignedCookie name site"
    using assms(3) by (auto simp: sticky_settings_def split: stickiness.splits)
  then have ok: "is_token name" "\<exists>n \<ge> 32. hex_length (stickiness_key c) = Some n"
    using assms(1,2) by (auto simp: validate_ok config_ok_def pool_ok_def)
  then have key: "stickiness_key c \<noteq> []" "length (stickiness_key c) mod 2 = 0"
    "list_all is_hexdigit (stickiness_key c)" "32 \<le> length (stickiness_key c) div 2"
    by (auto simp: hex_length_def split: if_splits)
  then obtain bs where "key_bytes (stickiness_key c) = Some bs" "32 \<le> length bs"
    using hex_pairs_total [of "stickiness_key c"] by (auto simp: key_bytes_def)
  then have "signer_from_hex accepts (stickiness_key c) = Some bs"
    using assms(4) by (simp add: signer_from_hex_def new_signer_def)
  with \<open>32 \<le> length bs\<close> show ?thesis using read_pair_set [OF token_cookie_text [OF ok(1)]] by blast
qed

section \<open>The matrix\<close>

text \<open>
  Every virtual address has a number of its own: for an accepted configuration the
  matrix has one entry for every address, no two share a virtual router number, and none
  has the number zero.
\<close>

lemma every_address_numbered:
  assumes "validate c = Inr ()"
  shows "map r_vip (routers (matrix sha c)) = map v_id (sort_key v_id (vips c)) \<and>
    distinct (map r_vrid (routers (matrix sha c))) \<and> 0 \<notin> set (map r_vrid (routers (matrix sha c)))"
proof -
  have "length (vips c) \<le> 255" using assms by (simp add: validate_ok config_ok_def)
  then show ?thesis
    using number_vips_all [of "{}" "sort_key v_id (vips c)"] number_vips_vrids [of "{}"]
    by (simp add: matrix_def Let_def)
qed

lemma sample_sorted: "map v_id (sort_key v_id (vips sample_config)) = [''spare'', ''web'']"
  by (simp add: sample_config_def less_char_def less_eq_char_def)

text \<open>
  Deleting an address disturbs no other: in an accepted configuration where no address
  had to move aside, the addresses that remain after any are deleted keep their numbers
  and their order of nodes.
\<close>

lemma numbers_survive_deletion:
  assumes "validate c = Inr ()" "moved_aside (matrix sha c) = []"
  shows "routers (matrix sha (without_vip v c)) = filter (\<lambda>r. r_vip r \<noteq> v) (routers (matrix sha c))"
proof -
  let ?vs = "sort_key v_id (vips c)" and ?cs = "carriers (nodes c)"
  let ?r = "\<lambda>x. \<lparr>r_vip = v_id x, r_vrid = first_choice sha (v_id x),
    r_ranking = ranking sha (v_id x) (v_preferred_node x) ?cs, r_vrid_is_first_choice = True\<rparr>"
  have "length ?vs \<le> 255" using assms(1) by (simp add: validate_ok config_ok_def)
  then have all: "map r_vip (number_vips sha ?cs {} ?vs) = map v_id ?vs"
    using number_vips_all [of "{}" ?vs] by simp
  have "\<forall>r \<in> set (number_vips sha ?cs {} ?vs). r_vrid_is_first_choice r"
    using assms(2) by (simp add: moved_aside_def matrix_def filter_empty_conv)
  with number_vips_unmoved [OF all] number_vips_vrids [of "{}" sha ?cs ?vs]
  have apart: "distinct (map (first_choice sha \<circ> v_id) ?vs)" by (simp add: Let_def)
  then have here: "number_vips sha ?cs {} ?vs = map ?r ?vs" by (rule number_vips_first) simp
  have "distinct (map (first_choice sha \<circ> v_id) (filter (\<lambda>x. v_id x \<noteq> v) ?vs))"
    using apart by (rule distinct_map_filter)
  then have there: "number_vips sha ?cs {} (filter (\<lambda>x. v_id x \<noteq> v) ?vs) = map ?r (filter (\<lambda>x. v_id x \<noteq> v) ?vs)"
    by (rule number_vips_first) simp
  show ?thesis
    by (simp add: matrix_def without_vip_def here there filter_map comp_def flip: filter_sort)
qed

text \<open>
  C38: A node that leaves moves only what it held: every address keeps its number and the
  order of the nodes that remain, so an address changes hands only when its holder left.
\<close>

theorem leaving_node_moves_only_its_addresses:
  "list_all2 (\<lambda>r r'. r_vip r' = r_vip r \<and> r_vrid r' = r_vrid r \<and>
      map pl_node (r_ranking r') = filter (\<lambda>n. n \<noteq> gone) (map pl_node (r_ranking r)) \<and>
      (holder r' = holder r \<or> holder r = Some gone))
    (routers (matrix sha c)) (routers (matrix sha (c\<lparr>nodes := filter (\<lambda>n. n_id n \<noteq> gone) (nodes c)\<rparr>)))"
proof -
  have "holder r' = holder r \<or> holder r = Some gone"
    if "map pl_node (r_ranking r') = filter (\<lambda>n. n \<noteq> gone) (map pl_node (r_ranking r))" for r r'
    unfolding holder_hd that by (cases "map pl_node (r_ranking r)") auto
  moreover note number_vips_carriers [OF ranking_without [of sha _ _ gone "carriers (nodes c)"],
      where taken = "{}" and vs = "sort_key v_id (vips c)"]
  ultimately show ?thesis by (simp add: matrix_def carriers_without list_all2_conv_all_nth)
qed

text \<open>
  The ranking is an order of all nodes that carry addresses, the strongest claim first:
  it names each of them once, the preferred node first if it is one of them; every claim lies
  between the floor and the top, and each of the first twenty outranks all that follow.
\<close>

lemma ranking_orders_claims:
  "mset (map pl_node (ranking sha v p cs)) = mset cs \<and>
   (\<forall>x \<in> set (ranking sha v p cs). FLOOR \<le> pl_priority x \<and> pl_priority x \<le> TOP) \<and>
   (\<forall>i j. i < j \<and> j < length cs \<and> i < 20 \<longrightarrow>
      pl_priority (ranking sha v p cs ! j) < pl_priority (ranking sha v p cs ! i)) \<and>
   (\<forall>n \<in> set cs. p = Some n \<longrightarrow> map pl_node (ranking sha v p cs) = n # remove1 n (by_weight_then_id sha v cs))"
proof -
  let ?rank = "ranking sha v p cs"
  have len: "length ?rank = length cs" using arg_cong [OF ranking_priorities, of length] by simp
  have nth: "pl_priority (?rank ! i) = priority i" if "i < length cs" for i
    using arg_cong [OF ranking_priorities [of sha v p cs], of "\<lambda>xs. xs ! i"] that len by simp
  have "FLOOR \<le> priority i \<and> priority i \<le> TOP" for i
    unfolding word_le_nat_alt unat_priority by (simp add: FLOOR_def TOP_def)
  then have "\<forall>x \<in> set ?rank. FLOOR \<le> pl_priority x \<and> pl_priority x \<le> TOP"
    using nth len by (simp add: all_set_conv_all_nth)
  moreover have "priority j < priority i" if "i < j" "i < 20" for i j
    unfolding word_less_nat_alt unat_priority using that by auto
  moreover have "mset (map pl_node ?rank) = mset cs"
    unfolding ranking_nodes by (simp only: mset_preferred_first mset_by_weight)
  moreover have "set (by_weight_then_id sha v cs) = set cs" by (metis mset_by_weight mset_eq_setD)
  then have "map pl_node ?rank = n # remove1 n (by_weight_then_id sha v cs)" if "n \<in> set cs" "p = Some n" for n
    unfolding ranking_nodes using that by (simp add: preferred_first_def)
  ultimately show ?thesis using nth by simp
qed

end
