(* ===== verification/Ipc.thy ===== *)
theory Ipc
  imports Validation Supervise
begin

text \<open>
  \<open>message.rs\<close> and \<open>wire.rs\<close> of the crate between the agent and the traffic path: the
  messages, and one message per line. JSON comes from a library: writing and reading it are
  the parameters \<open>to_json\<close> and \<open>from_json\<close>, each of which may fail with a text.
\<close>

section \<open>Messages\<close>

record certificate_material =
  chain_pem :: string
  key_pem :: string

record config_update =
  u_generation :: u64
  u_config :: config
  u_certificates :: "(string \<times> certificate_material) list"
  u_challenges :: "(string \<times> string) list"

record ping =
  ping_nonce :: u64

record pong =
  pong_nonce :: u64

record hello =
  hello_pid :: u32
  hello_version :: string
  hello_generation :: "u64 option"

record counters =
  requests_handled :: u64
  configs_applied :: u64
  configs_rejected :: u64
  backend_connect_failures :: u64
  udp_sessions_evicted :: u64
  tls_handshakes_refused :: u64
  proxy_headers_without_an_address :: u64
  log_records_dropped :: u64
  passthrough_connections_refused :: u64
  backend_connections_opened :: u64
  backend_connections_reused :: u64

record open_connections_report =
  oc_frontend :: string
  oc_pool :: string
  oc_member :: string
  oc_count :: u64

record udp_sessions_report =
  us_frontend :: string
  us_count :: u64
  us_limit :: u64

record member_health_report =
  mh_pool :: string
  mh_member :: string
  mh_healthy :: bool
  mh_transitions :: u64

record status_report =
  sr_generation :: u64
  sr_state :: data_plane_state
  sr_counters :: counters
  sr_open_connections :: "open_connections_report list"
  sr_member_health :: "member_health_report list"
  sr_udp_sessions :: "udp_sessions_report list"

record config_rejection =
  cr_generation :: u64
  cr_errors :: "validation_error list"

datatype agent_message = ConfigMessage config_update | PingMessage ping

datatype data_plane_message =
  HelloMessage hello | StatusMessage status_report | ConfigRejectedMessage config_rejection | PongMessage pong

section \<open>One message per line\<close>

definition line_feed :: char where "line_feed = CHR 0x0A"
definition carriage_return :: char where "carriage_return = CHR 0x0D"

definition encode_line :: "('m \<Rightarrow> string + string) \<Rightarrow> 'm \<Rightarrow> (string, string) result" where
  "encode_line to_json m = (case to_json m of
     Inl e \<Rightarrow> Inl (''a message could not be written out: '' @ e)
   | Inr line \<Rightarrow> if line_feed \<in> set line then Inl ''a message would have split across lines''
       else Inr (line @ [line_feed]))"

definition decode_line :: "(string \<Rightarrow> string + 'm) \<Rightarrow> string \<Rightarrow> ('m, string) result" where
  "decode_line from_json line =
     (let line = trim_end (\<lambda>c. c = line_feed \<or> c = carriage_return) line in
      if line = [] then Inl ''an empty line is not a message''
      else case from_json line of
        Inl e \<Rightarrow> Inl (''a message could not be read back: '' @ e)
      | Inr m \<Rightarrow> Inr m)"

text \<open>
  The framing gives a message back: what is encoded is one line ended by its only line feed,
  and decoding that line reads the text JSON wrote, provided JSON text is not empty and does
  not end in a carriage return.
\<close>

lemma encode_line_shape:
  "encode_line to_json m = Inr line \<longleftrightarrow> (\<exists>text. to_json m = Inr text \<and> line_feed \<notin> set text \<and> line = text @ [line_feed])"
  by (auto simp: encode_line_def split: sum.splits)

lemma decode_encode_line:
  assumes "encode_line to_json m = Inr line"
    and "\<And>text. to_json m = Inr text \<Longrightarrow> text \<noteq> [] \<and> last text \<noteq> carriage_return \<and> from_json text = Inr m"
  shows "decode_line from_json line = Inr m"
proof -
  obtain json where json: "to_json m = Inr json" "line_feed \<notin> set json" "line = json @ [line_feed]"
    using assms(1) unfolding encode_line_shape by blast
  have "last json \<noteq> line_feed" using json(2) assms(2) [OF json(1)] by (metis last_in_set)
  then have "trim_end (\<lambda>c. c = line_feed \<or> c = carriage_return) line = json"
    using assms(2) [OF json(1)] json(3) by (simp add: trim_end_snoc trim_end_stop)
  then show ?thesis using assms(2) [OF json(1)] by (simp add: decode_line_def)
qed

end
