(* ===== verification/Certs.thy ===== *)
theory Certs
  imports Ipc
begin

text \<open>
  \<open>certs.rs\<close>: which certificate a handshake is answered with. Reading PEM and comparing keys
  are done by OpenSSL: the record \<open>openssl\<close> holds the functions the source calls, over the
  types of a certificate, a private key and a public key. Lower-casing is the parameter
  \<open>lower\<close>.
\<close>

section \<open>Loading\<close>

datatype load_failure = Missing | ChainUnreadable | ChainEmpty | KeyUnreadable | KeyDoesNotMatch

fun load_reason :: "load_failure \<Rightarrow> string" where
  "load_reason Missing = ''no material was delivered for it''"
| "load_reason ChainUnreadable = ''its chain is not readable as PEM''"
| "load_reason ChainEmpty = ''its chain holds no certificate''"
| "load_reason KeyUnreadable = ''its key is not readable as PEM''"
| "load_reason KeyDoesNotMatch = ''its key does not belong to its leaf certificate''"

record ('x, 'k, 'p) openssl =
  stack_from_pem :: "string \<Rightarrow> 'x list option"
  private_key_from_pem :: "string \<Rightarrow> 'k option"
  public_key :: "'x \<Rightarrow> 'p option"
  public_eq :: "'p \<Rightarrow> 'k \<Rightarrow> bool"

record ('x, 'k) loaded =
  l_id :: string
  l_chain :: "'x list"
  l_key :: 'k

definition load_certificate ::
  "('x, 'k, 'p) openssl \<Rightarrow> string \<Rightarrow> certificate_material \<Rightarrow> (('x, 'k) loaded, load_failure) result" where
  "load_certificate ssl i material =
     (case stack_from_pem ssl (chain_pem material) of
        None \<Rightarrow> Inl ChainUnreadable
      | Some [] \<Rightarrow> Inl ChainEmpty
      | Some (leaf # rest) \<Rightarrow>
          (case private_key_from_pem ssl (key_pem material) of
             None \<Rightarrow> Inl KeyUnreadable
           | Some key \<Rightarrow>
               (case public_key ssl leaf of
                  None \<Rightarrow> Inl ChainUnreadable
                | Some public \<Rightarrow>
                    if \<not> public_eq ssl public key then Inl KeyDoesNotMatch
                    else Inr \<lparr>l_id = i, l_chain = leaf # rest, l_key = key\<rparr>)))"

text \<open>\<open>&self.chain[0]\<close> and \<open>&self.chain[1..]\<close>; \<open>load\<close> refuses an empty chain.\<close>

definition leaf_of :: "('x, 'k) loaded \<Rightarrow> 'x" where "leaf_of l = hd (l_chain l)"

definition intermediates :: "('x, 'k) loaded \<Rightarrow> 'x list" where "intermediates l = tl (l_chain l)"

section \<open>What every frontend offers\<close>

record ('x, 'k) offered =
  o_exact :: "(string \<times> ('x, 'k) loaded) list"
  o_wildcard :: "(string \<times> ('x, 'k) loaded) list"
  o_default :: "('x, 'k) loaded option"

definition no_offer :: "('x, 'k) offered" where
  "no_offer = \<lparr>o_exact = [], o_wildcard = [], o_default = None\<rparr>"

record ('x, 'k) certificates_table =
  by_frontend :: "(string \<times> ('x, 'k) offered) list"
  load_failures :: "(string \<times> load_failure) list"

text \<open>\<open>loaded.entry(id).or_insert_with(..)\<close>: each certificate is read once.\<close>

type_synonym ('x, 'k) cache = "(string \<times> ('x, 'k) loaded option) list"

definition load_once ::
  "('x, 'k, 'p) openssl \<Rightarrow> (string \<times> certificate_material) list \<Rightarrow> string
     \<Rightarrow> ('x, 'k) cache \<times> (string \<times> load_failure) list
     \<Rightarrow> ('x, 'k) loaded option \<times> ('x, 'k) cache \<times> (string \<times> load_failure) list" where
  "load_once ssl material i s =
     (case s of (cache, failures) \<Rightarrow>
        (case bt_get i cache of
           Some entry \<Rightarrow> (entry, cache, failures)
         | None \<Rightarrow>
             (case bt_get i material of
                None \<Rightarrow> (None, bt_insert i None cache, failures @ [(i, Missing)])
              | Some m \<Rightarrow>
                  (case load_certificate ssl i m of
                     Inr l \<Rightarrow> (Some l, bt_insert i (Some l) cache, failures)
                   | Inl failure \<Rightarrow> (None, bt_insert i None cache, failures @ [(i, failure)])))))"

definition offer_name ::
  "(string \<Rightarrow> string) \<Rightarrow> ('x, 'k) loaded \<Rightarrow> string \<Rightarrow> ('x, 'k) offered \<Rightarrow> ('x, 'k) offered" where
  "offer_name lower l name off =
     (let name = lower name in
      case strip_prefix ''*.'' name of
        Some suff \<Rightarrow> off\<lparr>o_wildcard := bt_insert suff l (o_wildcard off)\<rparr>
      | None \<Rightarrow> off\<lparr>o_exact := bt_insert name l (o_exact off)\<rparr>)"

definition offer_certificate ::
  "(string \<Rightarrow> string) \<Rightarrow> (string \<times> string list) list \<Rightarrow> tls_settings \<Rightarrow> string \<Rightarrow> ('x, 'k) loaded
     \<Rightarrow> ('x, 'k) offered \<Rightarrow> ('x, 'k) offered" where
  "offer_certificate lower names tls i l off =
     (let off = fold (offer_name lower l) (case bt_get i names of None \<Rightarrow> [] | Some ns \<Rightarrow> ns) off
      in if tls_default_certificate tls = Some i then off\<lparr>o_default := Some l\<rparr> else off)"

fun offer_all ::
  "('x, 'k, 'p) openssl \<Rightarrow> (string \<Rightarrow> string) \<Rightarrow> (string \<times> certificate_material) list \<Rightarrow> (string \<times> string list) list
     \<Rightarrow> tls_settings \<Rightarrow> string list \<Rightarrow> ('x, 'k) offered \<Rightarrow> ('x, 'k) cache \<times> (string \<times> load_failure) list
     \<Rightarrow> ('x, 'k) offered \<times> ('x, 'k) cache \<times> (string \<times> load_failure) list" where
  "offer_all ssl lower material names tls [] off s = (off, s)"
| "offer_all ssl lower material names tls (i # is) off s =
     (case load_once ssl material i s of
        (None, s') \<Rightarrow> offer_all ssl lower material names tls is off s'
      | (Some l, s') \<Rightarrow> offer_all ssl lower material names tls is (offer_certificate lower names tls i l off) s')"

fun build_frontends ::
  "('x, 'k, 'p) openssl \<Rightarrow> (string \<Rightarrow> string) \<Rightarrow> (string \<times> certificate_material) list \<Rightarrow> (string \<times> string list) list
     \<Rightarrow> frontend list \<Rightarrow> (string \<times> ('x, 'k) offered) list \<Rightarrow> ('x, 'k) cache \<times> (string \<times> load_failure) list
     \<Rightarrow> ('x, 'k) certificates_table" where
  "build_frontends ssl lower material names [] table s = \<lparr>by_frontend = table, load_failures = snd s\<rparr>"
| "build_frontends ssl lower material names (f # fs) table s =
     (case f_tls f of
        None \<Rightarrow> build_frontends ssl lower material names fs table s
      | Some tls \<Rightarrow>
          if f_transport f \<noteq> Tcp then build_frontends ssl lower material names fs table s
          else (case offer_all ssl lower material names tls (tls_certificates tls) no_offer s of
            (off, s') \<Rightarrow> build_frontends ssl lower material names fs (bt_insert (f_id f) off table) s'))"

definition sni_names_of :: "config \<Rightarrow> (string \<times> string list) list" where
  "sni_names_of c = fold (\<lambda>k m. bt_insert (c_id k) (c_sni_names k) m) (certificates c) []"

definition build_certificates ::
  "('x, 'k, 'p) openssl \<Rightarrow> (string \<Rightarrow> string) \<Rightarrow> config \<Rightarrow> (string \<times> certificate_material) list
     \<Rightarrow> ('x, 'k) certificates_table" where
  "build_certificates ssl lower c material =
     build_frontends ssl lower material (sni_names_of c) (frontends c) [] ([], [])"

section \<open>Choosing\<close>

definition parent_of :: "string \<Rightarrow> string option" where
  "parent_of name = map_option snd (split_once (CHR ''.'') name)"

definition choose_certificate ::
  "(string \<Rightarrow> string) \<Rightarrow> ('x, 'k) certificates_table \<Rightarrow> string \<Rightarrow> string option \<Rightarrow> ('x, 'k) loaded option" where
  "choose_certificate lower t frontend name =
     (case bt_get frontend (by_frontend t) of
        None \<Rightarrow> None
      | Some off \<Rightarrow>
          (case name of
             None \<Rightarrow> o_default off
           | Some name \<Rightarrow>
               let name = lower name in
               (case bt_get name (o_exact off) of
                  Some l \<Rightarrow> Some l
                | None \<Rightarrow>
                    (case Option.bind (parent_of name) (\<lambda>parent. bt_get parent (o_wildcard off)) of
                       Some l \<Rightarrow> Some l
                     | None \<Rightarrow> o_default off))))"

definition count_certificates :: "('x, 'k) certificates_table \<Rightarrow> string \<Rightarrow> nat" where
  "count_certificates t frontend = (case bt_get frontend (by_frontend t) of
     None \<Rightarrow> 0 | Some off \<Rightarrow> length (o_exact off) + length (o_wildcard off))"

section \<open>Loading once is loading\<close>

lemmas bt_rules = bt_get_insert bt_insert_wf

definition load_result ::
  "('x, 'k, 'p) openssl \<Rightarrow> (string \<times> certificate_material) list \<Rightarrow> string \<Rightarrow> (('x, 'k) loaded, load_failure) result" where
  "load_result ssl material i = (case bt_get i material of None \<Rightarrow> Inl Missing | Some m \<Rightarrow> load_certificate ssl i m)"

definition readable ::
  "('x, 'k, 'p) openssl \<Rightarrow> (string \<times> certificate_material) list \<Rightarrow> string \<Rightarrow> ('x, 'k) loaded option" where
  "readable ssl material i = (case load_result ssl material i of Inl _ \<Rightarrow> None | Inr l \<Rightarrow> Some l)"

text \<open>The cache holds what loading gives, and every failure in it was reported once.\<close>

definition cache_ok ::
  "('x, 'k, 'p) openssl \<Rightarrow> (string \<times> certificate_material) list
     \<Rightarrow> ('x, 'k) cache \<times> (string \<times> load_failure) list \<Rightarrow> bool" where
  "cache_ok ssl material s \<longleftrightarrow> bt_wf (fst s) \<and> (\<forall>i e. bt_get i (fst s) = Some e \<longrightarrow> e = readable ssl material i)
     \<and> distinct (map fst (snd s))
     \<and> set (snd s) = {(i, w) | i w. bt_get i (fst s) \<noteq> None \<and> load_result ssl material i = Inl w}"

lemma load_once_ok:
  assumes "cache_ok ssl material s"
  shows "\<exists>s'. load_once ssl material i s = (readable ssl material i, s') \<and> cache_ok ssl material s' \<and>
    (\<forall>j. bt_get j (fst s') \<noteq> None \<longleftrightarrow> j = i \<or> bt_get j (fst s) \<noteq> None)"
proof -
  obtain cache failures where s: "s = (cache, failures)" by (cases s)
  show ?thesis
  proof (cases "bt_get i cache")
    case (Some e)
    with assms s show ?thesis by (auto simp: load_once_def cache_ok_def)
  next
    case None
    then have new: "i \<notin> fst ` set failures" using assms s by (auto simp: cache_ok_def)
    have wf: "bt_wf cache" using assms s by (simp add: cache_ok_def)
    show ?thesis
    proof (cases "load_result ssl material i")
      case (Inl w)
      then have "load_once ssl material i s = (None, bt_insert i None cache, failures @ [(i, w)])"
        "readable ssl material i = None"
        using None s by (auto simp: load_once_def load_result_def readable_def split: option.splits sum.splits)
      then show ?thesis using assms s wf new Inl None
        by (auto simp: cache_ok_def bt_rules split: if_splits)
    next
      case (Inr l)
      then have "load_once ssl material i s = (Some l, bt_insert i (Some l) cache, failures)"
        "readable ssl material i = Some l"
        using None s by (auto simp: load_once_def load_result_def readable_def split: option.splits sum.splits)
      then show ?thesis using assms s wf new Inr None
        by (auto simp: cache_ok_def bt_rules split: if_splits)
    qed
  qed
qed

definition offer_step ::
  "('x, 'k, 'p) openssl \<Rightarrow> (string \<Rightarrow> string) \<Rightarrow> (string \<times> certificate_material) list \<Rightarrow> (string \<times> string list) list
     \<Rightarrow> tls_settings \<Rightarrow> string \<Rightarrow> ('x, 'k) offered \<Rightarrow> ('x, 'k) offered" where
  "offer_step ssl lower material names tls i off = (case readable ssl material i of
     None \<Rightarrow> off | Some l \<Rightarrow> offer_certificate lower names tls i l off)"

lemma offer_all_ok:
  assumes "cache_ok ssl material s"
  shows "\<exists>s'. offer_all ssl lower material names tls is off s = (fold (offer_step ssl lower material names tls) is off, s')
    \<and> cache_ok ssl material s' \<and> (\<forall>j. bt_get j (fst s') \<noteq> None \<longleftrightarrow> j \<in> set is \<or> bt_get j (fst s) \<noteq> None)"
  using assms
proof (induction "is" arbitrary: off s)
  case (Cons i "is")
  from load_once_ok [OF Cons.prems, of i] obtain s1 where s1:
    "load_once ssl material i s = (readable ssl material i, s1)" "cache_ok ssl material s1"
    "\<forall>j. bt_get j (fst s1) \<noteq> None \<longleftrightarrow> j = i \<or> bt_get j (fst s) \<noteq> None" by blast
  have "offer_all ssl lower material names tls (i # is) off s =
      offer_all ssl lower material names tls is (offer_step ssl lower material names tls i off) s1"
    by (cases "readable ssl material i") (simp_all add: s1(1) offer_step_def)
  with Cons.IH [OF s1(2), of "offer_step ssl lower material names tls i off"] s1(3) show ?case by auto
qed auto

section \<open>What is offered\<close>

text \<open>
  The names a certificate is entered under: an exact name, or what follows the star. The
  three tables hold exactly such entries.
\<close>

definition exact_name :: "(string \<Rightarrow> string) \<Rightarrow> string \<Rightarrow> string \<Rightarrow> bool" where
  "exact_name lower key name \<longleftrightarrow> lower name = key \<and> (\<nexists>suff. key = ''*.'' @ suff)"

definition wild_name :: "(string \<Rightarrow> string) \<Rightarrow> string \<Rightarrow> string \<Rightarrow> bool" where
  "wild_name lower key name \<longleftrightarrow> lower name = ''*.'' @ key"

definition offer_wf :: "('x, 'k) offered \<Rightarrow> bool" where
  "offer_wf off \<longleftrightarrow> bt_wf (o_exact off) \<and> bt_wf (o_wildcard off)"

lemma offer_wf_default [simp]: "offer_wf (off\<lparr>o_default := d\<rparr>) = offer_wf off"
  by (simp add: offer_wf_def)

lemma offer_name_cases:
  "offer_name lower l name off =
     (if \<exists>suff. lower name = ''*.'' @ suff
      then off\<lparr>o_wildcard := bt_insert (drop 2 (lower name)) l (o_wildcard off)\<rparr>
      else off\<lparr>o_exact := bt_insert (lower name) l (o_exact off)\<rparr>)"
proof (cases "strip_prefix ''*.'' (lower name)")
  case None
  then have "\<nexists>suff. lower name = ''*.'' @ suff" by (metis strip_prefix_Some option.distinct(1))
  with None show ?thesis by (simp add: offer_name_def)
next
  case (Some suff)
  then have "lower name = ''*.'' @ suff" by (simp add: strip_prefix_Some)
  with Some show ?thesis by (simp add: offer_name_def)
qed

lemma offer_names:
  assumes "offer_wf off"
  shows "offer_wf (fold (offer_name lower l) ns off)"
    and "bt_get key (o_exact (fold (offer_name lower l) ns off)) =
      (if \<exists>n \<in> set ns. exact_name lower key n then Some l else bt_get key (o_exact off))"
    and "bt_get key (o_wildcard (fold (offer_name lower l) ns off)) =
      (if \<exists>n \<in> set ns. wild_name lower key n then Some l else bt_get key (o_wildcard off))"
    and "o_default (fold (offer_name lower l) ns off) = o_default off"
proof (use assms in \<open>induction ns arbitrary: off\<close>)
  case (Cons n ns)
  have step: "offer_wf (offer_name lower l n off)" "o_default (offer_name lower l n off) = o_default off"
    "bt_get key (o_exact (offer_name lower l n off)) = (if exact_name lower key n then Some l else bt_get key (o_exact off))"
    "bt_get key (o_wildcard (offer_name lower l n off)) = (if wild_name lower key n then Some l else bt_get key (o_wildcard off))"
    if "offer_wf off" for off :: "('a, 'b) offered"
    using that by (auto simp: offer_name_cases offer_wf_def bt_rules exact_name_def wild_name_def)
  {
    case 1
    then show ?case using Cons.IH(1) [OF step(1)] by simp
  next
    case 2
    then show ?case using Cons.IH(2) [OF step(1)] step(3) by auto
  next
    case 3
    then show ?case using Cons.IH(3) [OF step(1)] step(4) by auto
  next
    case 4
    then show ?case using Cons.IH(4) [OF step(1)] step(2) by simp
  }
qed simp_all

lemma readable_id: "readable ssl material i = Some l \<Longrightarrow> l_id l = i \<and> l_chain l \<noteq> []"
  by (auto simp: readable_def load_result_def load_certificate_def split: option.splits sum.splits list.splits if_splits)

text \<open>The entry under a key comes from a listed certificate that loads, and is there if one does.\<close>

definition entered ::
  "('x, 'k, 'p) openssl \<Rightarrow> (string \<times> certificate_material) list \<Rightarrow> (string \<Rightarrow> bool) \<Rightarrow> string list
     \<Rightarrow> ('x, 'k) loaded option \<Rightarrow> bool" where
  "entered ssl material by is entry \<longleftrightarrow> (case entry of
     Some l \<Rightarrow> l_id l \<in> set is \<and> readable ssl material (l_id l) = Some l \<and> by (l_id l)
   | None \<Rightarrow> \<forall>i \<in> set is. by i \<longrightarrow> readable ssl material i = None)"

abbreviation names_under :: "(string \<times> string list) list \<Rightarrow> (string \<Rightarrow> bool) \<Rightarrow> string \<Rightarrow> bool" where
  "names_under names fits i \<equiv> (case bt_get i names of None \<Rightarrow> False | Some ns \<Rightarrow> \<exists>n \<in> set ns. fits n)"

lemma entered_none: "readable ssl material i = None \<Longrightarrow> entered ssl material by is entry \<Longrightarrow>
    entered ssl material by (is @ [i]) entry"
  by (auto simp: entered_def split: option.splits)

lemma entered_some: "readable ssl material i = Some l \<Longrightarrow> entered ssl material by is entry \<Longrightarrow>
    entered ssl material by (is @ [i]) (if by i then Some l else entry)"
  using readable_id [of ssl material i l] by (auto simp: entered_def split: option.splits)

lemma offer_certificate_tables:
  fixes off :: "('x, 'k) offered"
  assumes "offer_wf off"
  shows "offer_wf (offer_certificate lower names tls i l off)"
    and "bt_get key (o_exact (offer_certificate lower names tls i l off)) =
      (if names_under names (exact_name lower key) i then Some l else bt_get key (o_exact off))"
    and "bt_get key (o_wildcard (offer_certificate lower names tls i l off)) =
      (if names_under names (wild_name lower key) i then Some l else bt_get key (o_wildcard off))"
    and "o_default (offer_certificate lower names tls i l off) =
      (if tls_default_certificate tls = Some i then Some l else o_default off)"
  by (simp_all add: offer_certificate_def Let_def offer_names [OF assms] split: option.split)
    blast+

lemma offer_tables:
  fixes ssl :: "('x, 'k, 'p) openssl" and lower material names tls
  defines "tabs \<equiv> \<lambda>is. fold (offer_step ssl lower material names tls) is (no_offer :: ('x, 'k) offered)"
  shows "offer_wf (tabs is) \<and>
    entered ssl material (names_under names (exact_name lower key)) is (bt_get key (o_exact (tabs is))) \<and>
    entered ssl material (names_under names (wild_name lower key)) is (bt_get key (o_wildcard (tabs is))) \<and>
    entered ssl material (\<lambda>i. tls_default_certificate tls = Some i) is (o_default (tabs is))"
proof (induction "is" rule: rev_induct)
  case Nil
  show ?case by (simp add: tabs_def no_offer_def offer_wf_def bt_wf_def bt_get_def entered_def)
next
  case (snoc i "is")
  have step: "tabs (is @ [i]) = offer_step ssl lower material names tls i (tabs is)" by (simp add: tabs_def)
  show ?case
  proof (cases "readable ssl material i")
    case None
    then have "tabs (is @ [i]) = tabs is" by (simp add: step offer_step_def)
    with snoc None show ?thesis by (simp add: entered_none)
  next
    case (Some l)
    then have eq: "tabs (is @ [i]) = offer_certificate lower names tls i l (tabs is)" by (simp add: step offer_step_def)
    have wf: "offer_wf (tabs is)" using snoc by blast
    show ?thesis
      unfolding eq offer_certificate_tables(2-4) [OF wf] using snoc entered_some [OF Some] offer_certificate_tables(1) [OF wf]
      by blast
  qed
qed

definition serves_tls :: "frontend \<Rightarrow> bool" where
  "serves_tls f \<longleftrightarrow> f_tls f \<noteq> None \<and> f_transport f = Tcp"

definition offer_of ::
  "('x, 'k, 'p) openssl \<Rightarrow> (string \<Rightarrow> string) \<Rightarrow> (string \<times> certificate_material) list \<Rightarrow> (string \<times> string list) list
     \<Rightarrow> frontend \<Rightarrow> ('x, 'k) offered" where
  "offer_of ssl lower material names f = (case f_tls f of
     None \<Rightarrow> no_offer
   | Some tls \<Rightarrow> fold (offer_step ssl lower material names tls) (tls_certificates tls) no_offer)"

definition listed_certificates :: "frontend list \<Rightarrow> string set" where
  "listed_certificates fs = {i. \<exists>f \<in> set fs. serves_tls f \<and> i \<in> set (tls_certificates (the (f_tls f)))}"

lemma build_frontends_ok:
  assumes "cache_ok ssl material s" "bt_wf table" "distinct (map f_id fs)"
  shows "let t = build_frontends ssl lower material names fs table s in
    (\<forall>f \<in> set fs. serves_tls f \<longrightarrow> bt_get (f_id f) (by_frontend t) = Some (offer_of ssl lower material names f)) \<and>
    (\<forall>x. (\<forall>f \<in> set fs. serves_tls f \<longrightarrow> f_id f \<noteq> x) \<longrightarrow> bt_get x (by_frontend t) = bt_get x table) \<and>
    distinct (map fst (load_failures t)) \<and>
    set (load_failures t) = {(i, w) | i w. (i \<in> listed_certificates fs \<or> bt_get i (fst s) \<noteq> None) \<and>
      load_result ssl material i = Inl w}"
  using assms
proof (induction fs arbitrary: table s)
  case Nil
  then show ?case by (simp add: Let_def cache_ok_def listed_certificates_def)
next
  case (Cons f fs)
  show ?case
  proof (cases "serves_tls f")
    case False
    then have "build_frontends ssl lower material names (f # fs) table s = build_frontends ssl lower material names fs table s"
      by (auto simp: serves_tls_def split: option.split)
    with Cons.IH [OF Cons.prems(1,2)] Cons.prems(3) False show ?thesis
      by (simp add: Let_def listed_certificates_def)
  next
    case True
    then obtain tls where tls: "f_tls f = Some tls" "f_transport f = Tcp" by (auto simp: serves_tls_def)
    from offer_all_ok [OF Cons.prems(1), of lower names tls "tls_certificates tls" no_offer] obtain s1 where
      s1: "offer_all ssl lower material names tls (tls_certificates tls) no_offer s = (offer_of ssl lower material names f, s1)"
      "cache_ok ssl material s1"
      "\<forall>j. bt_get j (fst s1) \<noteq> None \<longleftrightarrow> j \<in> set (tls_certificates tls) \<or> bt_get j (fst s) \<noteq> None"
      by (auto simp: offer_of_def tls)
    let ?table = "bt_insert (f_id f) (offer_of ssl lower material names f) table"
    let ?t = "build_frontends ssl lower material names fs ?table s1"
    have eq: "build_frontends ssl lower material names (f # fs) table s = ?t" by (simp add: tls s1(1))
    have wf: "bt_wf ?table" using Cons.prems(2) by (rule bt_insert_wf)
    note IH = Cons.IH [OF s1(2) wf, unfolded Let_def]
    have others: "\<forall>g \<in> set fs. f_id g \<noteq> f_id f" using Cons.prems(3) by (auto simp: rev_image_eqI)
    have dist: "distinct (map f_id fs)" using Cons.prems(3) by simp
    have here: "bt_get (f_id f) (by_frontend ?t) = Some (offer_of ssl lower material names f)"
      using IH [OF dist] others Cons.prems(2) by (auto simp: bt_get_insert)
    have rest: "bt_get x (by_frontend ?t) = bt_get x table"
      if "\<forall>g \<in> set (f # fs). serves_tls g \<longrightarrow> f_id g \<noteq> x" for x
      using IH [OF dist] that True Cons.prems(2) by (auto simp: bt_get_insert)
    have "listed_certificates (f # fs) = set (tls_certificates tls) \<union> listed_certificates fs"
      using True tls by (auto simp: listed_certificates_def)
    with IH [OF dist] s1(3) have "set (load_failures ?t) = {(i, w) | i w. (i \<in> listed_certificates (f # fs) \<or>
        bt_get i (fst s) \<noteq> None) \<and> load_result ssl material i = Inl w}" by blast
    with IH [OF dist] here rest eq show ?thesis by (simp add: Let_def)
  qed
qed

lemma build_certificates_ok:
  assumes "distinct (map f_id (frontends c))"
  shows "let t = build_certificates ssl lower c material in
    (\<forall>f \<in> set (frontends c). serves_tls f \<longrightarrow>
      bt_get (f_id f) (by_frontend t) = Some (offer_of ssl lower material (sni_names_of c) f)) \<and>
    (\<forall>x. (\<forall>f \<in> set (frontends c). serves_tls f \<longrightarrow> f_id f \<noteq> x) \<longrightarrow> bt_get x (by_frontend t) = None) \<and>
    distinct (map fst (load_failures t)) \<and>
    set (load_failures t) = {(i, w) | i w. i \<in> listed_certificates (frontends c) \<and> load_result ssl material i = Inl w}"
proof -
  have "cache_ok ssl material ([], [])" by (simp add: cache_ok_def bt_wf_def bt_get_def)
  moreover have "bt_wf []" by (simp add: bt_wf_def)
  ultimately show ?thesis
    using build_frontends_ok [of ssl material "([], [])" "[]" "frontends c" lower "sni_names_of c"] assms
    by (simp add: build_certificates_def bt_get_def)
qed

text \<open>Collecting entries with distinct keys into a map keeps each.\<close>

lemma bt_collect_get:
  assumes "distinct (map f xs)" "x \<in> set xs"
  shows "bt_get (f x) (fold (\<lambda>x m. bt_insert (f x) (g x) m) xs []) = Some (g x)"
proof -
  have "bt_wf m \<Longrightarrow> bt_wf (fold (\<lambda>x m. bt_insert (f x) (g x) m) xs m) \<and>
      (k \<notin> f ` set xs \<longrightarrow> bt_get k (fold (\<lambda>x m. bt_insert (f x) (g x) m) xs m) = bt_get k m)" for k xs m
    by (induction xs arbitrary: m) (auto simp: bt_rules)
  note rest = this
  have "distinct (map f xs) \<Longrightarrow> x \<in> set xs \<Longrightarrow> bt_wf m \<Longrightarrow>
      bt_get (f x) (fold (\<lambda>x m. bt_insert (f x) (g x) m) xs m) = Some (g x)" for xs m
    by (induction xs arbitrary: m) (auto simp: bt_rules rest)
  from this [OF assms, of "[]"] show ?thesis by (simp add: bt_wf_def)
qed

lemma sni_names_get:
  assumes "distinct (map c_id (certificates c))" "k \<in> set (certificates c)"
  shows "bt_get (c_id k) (sni_names_of c) = Some (c_sni_names k)"
  unfolding sni_names_of_def using assms by (rule bt_collect_get)

section \<open>The choice\<close>

text \<open>A name of a certificate covers the name a client asks for.\<close>

definition name_covers :: "(string \<Rightarrow> string) \<Rightarrow> string \<Rightarrow> string \<Rightarrow> bool" where
  "name_covers lower asked name \<longleftrightarrow> exact_name lower (lower asked) name \<or>
     (\<exists>parent. parent_of (lower asked) = Some parent \<and> wild_name lower parent name)"

text \<open>The certificates of a frontend that load and carry a name for what is asked.\<close>

definition fitting ::
  "('x, 'k, 'p) openssl \<Rightarrow> (string \<Rightarrow> string) \<Rightarrow> (string \<times> certificate_material) list \<Rightarrow> config \<Rightarrow> tls_settings \<Rightarrow> string
     \<Rightarrow> ('x, 'k) loaded set" where
  "fitting ssl lower material c tls asked = {l. \<exists>k \<in> set (certificates c). c_id k \<in> set (tls_certificates tls) \<and>
     readable ssl material (c_id k) = Some l \<and> (\<exists>n \<in> set (c_sni_names k). name_covers lower asked n)}"

lemma fitting_names:
  assumes "set (tls_certificates tls) \<subseteq> c_id ` set (certificates c)"
    and "\<And>k. k \<in> set (certificates c) \<Longrightarrow> bt_get (c_id k) names = Some (c_sni_names k)"
  shows "l \<in> fitting ssl lower material c tls asked \<longleftrightarrow> l_id l \<in> set (tls_certificates tls) \<and>
    readable ssl material (l_id l) = Some l \<and> names_under names (name_covers lower asked) (l_id l)" (is "?l \<longleftrightarrow> ?r")
proof
  assume ?l
  then obtain k where k: "k \<in> set (certificates c)" "c_id k \<in> set (tls_certificates tls)"
    "readable ssl material (c_id k) = Some l" "\<exists>n \<in> set (c_sni_names k). name_covers lower asked n"
    by (auto simp: fitting_def)
  with readable_id [OF k(3)] assms(2) [OF k(1)] show ?r by simp
next
  assume r: ?r
  then obtain k where k: "k \<in> set (certificates c)" "c_id k = l_id l" using assms(1) by force
  with r assms(2) [OF k(1)] show ?l unfolding fitting_def by (auto intro!: bexI [of _ k])
qed

lemma choose_entered:
  assumes "bt_get fid (by_frontend t) = Some off"
    "\<And>key. entered ssl material (names_under names (exact_name lower key)) is (bt_get key (o_exact off))"
    "\<And>key. entered ssl material (names_under names (wild_name lower key)) is (bt_get key (o_wildcard off))"
    "entered ssl material by is (o_default off)"
  shows "let covering = (\<lambda>i. names_under names (name_covers lower asked) i) in
    case choose_certificate lower t fid (Some asked) of
      Some l \<Rightarrow> l_id l \<in> set is \<and> readable ssl material (l_id l) = Some l \<and>
        (covering (l_id l) \<or> by (l_id l) \<and> (\<forall>i \<in> set is. covering i \<longrightarrow> readable ssl material i = None))
    | None \<Rightarrow> \<forall>i \<in> set is. covering i \<or> by i \<longrightarrow> readable ssl material i = None"
proof (cases "bt_get (lower asked) (o_exact off)")
  case (Some l)
  then show ?thesis using assms(1) assms(2) [of "lower asked"]
    by (auto simp: choose_certificate_def entered_def name_covers_def split: option.splits)
next
  case None
  note exact = assms(2) [of "lower asked", unfolded None]
  show ?thesis
  proof (cases "Option.bind (parent_of (lower asked)) (\<lambda>p. bt_get p (o_wildcard off))")
    case (Some l)
    then obtain p where p: "parent_of (lower asked) = Some p" "bt_get p (o_wildcard off) = Some l"
      by (auto simp: bind_eq_Some_conv)
    then show ?thesis using assms(1) assms(3) [of p] None
      by (auto simp: choose_certificate_def entered_def name_covers_def split: option.splits)
  next
    case none: None
    have "\<forall>i \<in> set is. names_under names (name_covers lower asked) i \<longrightarrow> readable ssl material i = None"
    proof (cases "parent_of (lower asked)")
      case None
      then show ?thesis using exact by (auto simp: entered_def name_covers_def split: option.splits)
    next
      case (Some p)
      with none have "bt_get p (o_wildcard off) = None" by simp
      with assms(3) [of p] exact Some show ?thesis
        by (auto simp: entered_def name_covers_def split: option.splits) blast
    qed
    then show ?thesis using assms(1,4) None none
      by (auto simp: choose_certificate_def Let_def entered_def split: option.splits)
  qed
qed

end
