(* ===== verification/Challenge.thy ===== *)
theory Challenge
  imports Inspection
begin

text \<open>
  \<open>challenge.rs\<close>: answering the certificate authority on the plain listener. The table of
  challenges is a \<open>BTreeMap\<close> from tokens to answers.
\<close>

definition CHALLENGE_PREFIX :: string where "CHALLENGE_PREFIX = ''/.well-known/acme-challenge/''"

datatype reply = Elsewhere | Unknown | Answer string

definition challenge_reply :: "(string \<times> string) list \<Rightarrow> u16 \<Rightarrow> string \<Rightarrow> reply" where
  "challenge_reply challenges port path =
     (if port \<noteq> HTTP01_PORT then Elsewhere
      else case strip_prefix CHALLENGE_PREFIX (normalise path) of
        None \<Rightarrow> Elsewhere
      | Some tok \<Rightarrow> (case bt_get tok challenges of None \<Rightarrow> Unknown | Some answer \<Rightarrow> Answer answer))"

text \<open>
  The token of a request is the whole of what follows the prefix: a token with a separator
  or an empty one is answered only if it was published as such.
\<close>

lemma challenge_answer_iff:
  "challenge_reply challenges port path = Answer a \<longleftrightarrow>
     port = HTTP01_PORT \<and> (\<exists>tok. normalise path = CHALLENGE_PREFIX @ tok \<and> bt_get tok challenges = Some a)"
proof (cases "strip_prefix CHALLENGE_PREFIX (normalise path)")
  case None
  then have "\<nexists>tok. normalise path = CHALLENGE_PREFIX @ tok" by (metis strip_prefix_Some option.distinct(1))
  with None show ?thesis by (simp add: challenge_reply_def)
next
  case (Some tok)
  then have "normalise path = CHALLENGE_PREFIX @ tok" by (simp add: strip_prefix_Some)
  with Some show ?thesis by (simp add: challenge_reply_def split: option.split)
qed

lemma challenge_elsewhere_iff:
  "challenge_reply challenges port path = Elsewhere \<longleftrightarrow>
     port \<noteq> HTTP01_PORT \<or> (\<nexists>tok. normalise path = CHALLENGE_PREFIX @ tok)"
proof (cases "strip_prefix CHALLENGE_PREFIX (normalise path)")
  case None
  then have "\<nexists>tok. normalise path = CHALLENGE_PREFIX @ tok" by (metis strip_prefix_Some option.distinct(1))
  with None show ?thesis by (simp add: challenge_reply_def)
next
  case (Some tok)
  then have "normalise path = CHALLENGE_PREFIX @ tok" by (simp add: strip_prefix_Some)
  with Some show ?thesis by (auto simp: challenge_reply_def split: option.split)
qed

end
