(* ===== verification/Log_Records.thy ===== *)
theory Log_Records
  imports Text
begin

text \<open>
  \<open>level.rs\<close> and \<open>access.rs\<close> of the log crate: the levels, the code they are stored as, and the
  record of one request. A duration in milliseconds is a number of nanoseconds here, as
  every duration of the development; the floating point division is left out.
\<close>

section \<open>Levels\<close>

datatype level = LevelError | LevelWarn | LevelInfo | LevelDebug | LevelTrace

fun level_name :: "level \<Rightarrow> string" where
  "level_name LevelError = ''error''"
| "level_name LevelWarn = ''warn''"
| "level_name LevelInfo = ''info''"
| "level_name LevelDebug = ''debug''"
| "level_name LevelTrace = ''trace''"

definition LEVELS :: "level list" where
  "LEVELS = [LevelError, LevelWarn, LevelInfo, LevelDebug, LevelTrace]"

fun level_code :: "level \<Rightarrow> byte" where
  "level_code LevelError = 0"
| "level_code LevelWarn = 1"
| "level_code LevelInfo = 2"
| "level_code LevelDebug = 3"
| "level_code LevelTrace = 4"

definition from_code :: "byte \<Rightarrow> level" where
  "from_code code = (if code = 0 then LevelError else if code = 1 then LevelWarn
     else if code = 3 then LevelDebug else if code = 4 then LevelTrace else LevelInfo)"

lemma level_roundtrip: "from_code (level_code l) = l"
  by (cases l) (simp_all add: from_code_def)

section \<open>Access records\<close>

datatype log_protocol = LogHttp | LogTcp | LogUdp

fun protocol_name :: "log_protocol \<Rightarrow> string" where
  "protocol_name LogHttp = ''http''"
| "protocol_name LogTcp = ''tcp''"
| "protocol_name LogUdp = ''udp''"

record access =
  ac_protocol :: log_protocol
  ac_frontend :: string
  ac_client :: string
  ac_duration :: duration
  ac_request_id :: "string option"
  ac_backend_pool :: "string option"
  ac_backend_member :: "string option"
  ac_method :: "string option"
  ac_path :: "string option"
  ac_status :: "u16 option"
  ac_bytes_to_backend :: "u64 option"
  ac_bytes_from_backend :: "u64 option"
  ac_session :: "string option"
  ac_sni :: "string option"

definition new_access :: "log_protocol \<Rightarrow> string \<Rightarrow> string \<Rightarrow> duration \<Rightarrow> access" where
  "new_access protocol f client d = \<lparr>ac_protocol = protocol, ac_frontend = f, ac_client = client,
     ac_duration = d, ac_request_id = None, ac_backend_pool = None, ac_backend_member = None,
     ac_method = None, ac_path = None, ac_status = None, ac_bytes_to_backend = None,
     ac_bytes_from_backend = None, ac_session = None, ac_sni = None\<rparr>"

definition with_sni :: "string \<Rightarrow> access \<Rightarrow> access" where
  "with_sni name a = a\<lparr>ac_sni := Some name\<rparr>"

definition to_backend :: "string \<Rightarrow> string \<Rightarrow> access \<Rightarrow> access" where
  "to_backend pool member a = a\<lparr>ac_backend_pool := Some pool, ac_backend_member := Some member\<rparr>"

definition with_request_id :: "string \<Rightarrow> access \<Rightarrow> access" where
  "with_request_id i a = a\<lparr>ac_request_id := Some i\<rparr>"

definition access_http :: "string \<Rightarrow> string \<Rightarrow> u16 \<Rightarrow> access \<Rightarrow> access" where
  "access_http method path status a = a\<lparr>ac_method := Some method, ac_path := Some path, ac_status := Some status\<rparr>"

definition access_tcp :: "u64 \<Rightarrow> u64 \<Rightarrow> access \<Rightarrow> access" where
  "access_tcp to_b from_b a = a\<lparr>ac_bytes_to_backend := Some to_b, ac_bytes_from_backend := Some from_b\<rparr>"

definition access_udp :: "string \<Rightarrow> access \<Rightarrow> access" where
  "access_udp session a = a\<lparr>ac_session := Some session\<rparr>"

end
