(* ===== verification/Live.thy ===== *)
theory Live
  imports Certs Challenge Balance Log_Records
begin

text \<open>
  \<open>live.rs\<close>: the configuration the traffic path serves from, swapped as a whole, and what it
  counts. The atomics are the numbers they hold and wrap as they do. The counts of a UDP
  frontend are shared by reference: they live in a store, the table holds their places, and
  a frontend that starts again gets a new place. Log output is left out, the level it is set
  to is kept.
\<close>

section \<open>The configuration\<close>

record ('x, 'k) live =
  lv_generation :: u64
  lv_config :: config
  lv_rings :: "(string \<times> ring) list"
  lv_certificates :: "('x, 'k) certificates_table"
  lv_challenges :: "(string \<times> string) list"

definition build_live ::
  "('x, 'k, 'p) openssl \<Rightarrow> (string \<Rightarrow> string) \<Rightarrow> config_update \<Rightarrow> ('x, 'k) live" where
  "build_live ssl lower update =
     \<lparr>lv_generation = u_generation update, lv_config = u_config update,
      lv_rings = fold (\<lambda>pool m. bt_insert (b_id pool) (ring_for pool) m) (backends (u_config update)) [],
      lv_certificates = build_certificates ssl lower (u_config update) (u_certificates update),
      lv_challenges = u_challenges update\<rparr>"

definition live_ring :: "('x, 'k) live \<Rightarrow> string \<Rightarrow> ring" where
  "live_ring lv pool = (case bt_get pool (lv_rings lv) of None \<Rightarrow> [] | Some r \<Rightarrow> r)"

fun level_of :: "log_level \<Rightarrow> level" where
  "level_of LogError = LevelError"
| "level_of LogWarn = LevelWarn"
| "level_of LogInfo = LevelInfo"
| "level_of LogDebug = LevelDebug"
| "level_of LogTrace = LevelTrace"

record ('x, 'k) live_config =
  lc_live :: "('x, 'k) live"
  lc_level :: level

definition new_live_config ::
  "('x, 'k, 'p) openssl \<Rightarrow> (string \<Rightarrow> string) \<Rightarrow> config_update \<Rightarrow> ('x, 'k) live_config" where
  "new_live_config ssl lower update =
     \<lparr>lc_live = build_live ssl lower update, lc_level = level_of (config_log_level (u_config update))\<rparr>"

definition apply_update ::
  "('x, 'k, 'p) openssl \<Rightarrow> (string \<Rightarrow> string) \<Rightarrow> ('x, 'k) live_config \<Rightarrow> config_update
     \<Rightarrow> (unit, validation_error list) result \<times> ('x, 'k) live_config" where
  "apply_update ssl lower lc update =
     (case validate (u_config update) of
        Inl refused \<Rightarrow> (Inl refused, lc)
      | Inr _ \<Rightarrow> (Inr (), \<lparr>lc_live = build_live ssl lower update,
          lc_level = level_of (config_log_level (u_config update))\<rparr>))"

section \<open>Status\<close>

datatype refusal = NoPool | HelloNeverArrived | NotAHandshake

fun refusal_reason :: "refusal \<Rightarrow> string" where
  "refusal_reason NoPool = ''no SNI rule matched it and the frontend names no default pool''"
| "refusal_reason HelloNeverArrived = ''the ClientHello never arrived in full''"
| "refusal_reason NotAHandshake = ''what it sent first was not a TLS handshake''"

record udp_stats =
  us_sessions_now :: u64
  us_evicted_now :: u64
  us_limit_now :: u64

record status =
  st_state :: byte
  st_counters :: counters
  st_balancer :: "balancer option"
  st_udp_poisoned :: bool
  st_udp :: "(string \<times> nat) list"
  st_store :: "udp_stats list"

definition zero_counters :: counters where
  "zero_counters = \<lparr>requests_handled = 0, configs_applied = 0, configs_rejected = 0,
     backend_connect_failures = 0, udp_sessions_evicted = 0, tls_handshakes_refused = 0,
     proxy_headers_without_an_address = 0, log_records_dropped = 0,
     passthrough_connections_refused = 0, backend_connections_opened = 0, backend_connections_reused = 0\<rparr>"

definition new_status :: status where
  "new_status = \<lparr>st_state = 0, st_counters = zero_counters, st_balancer = None,
     st_udp_poisoned = False, st_udp = [], st_store = []\<rparr>"

fun state_code :: "data_plane_state \<Rightarrow> byte" where
  "state_code DpStarting = 0"
| "state_code DpServing = 1"
| "state_code DpDegraded = 2"

definition set_state :: "data_plane_state \<Rightarrow> status \<Rightarrow> status" where
  "set_state s st = st\<lparr>st_state := state_code s\<rparr>"

definition read_state :: "status \<Rightarrow> data_plane_state" where
  "read_state st = (if st_state st = 1 then DpServing else if st_state st = 2 then DpDegraded else DpStarting)"

definition request_handled :: "status \<Rightarrow> status" where
  "request_handled st = st\<lparr>st_counters := (st_counters st)\<lparr>requests_handled := requests_handled (st_counters st) + 1\<rparr>\<rparr>"

definition config_applied :: "status \<Rightarrow> status" where
  "config_applied st = st\<lparr>st_counters := (st_counters st)\<lparr>configs_applied := configs_applied (st_counters st) + 1\<rparr>\<rparr>"

definition config_rejected :: "status \<Rightarrow> status" where
  "config_rejected st = st\<lparr>st_counters := (st_counters st)\<lparr>configs_rejected := configs_rejected (st_counters st) + 1\<rparr>\<rparr>"

definition backend_connect_failed :: "status \<Rightarrow> status" where
  "backend_connect_failed st = st\<lparr>st_counters :=
     (st_counters st)\<lparr>backend_connect_failures := backend_connect_failures (st_counters st) + 1\<rparr>\<rparr>"

definition tls_handshake_refused :: "status \<Rightarrow> status" where
  "tls_handshake_refused st = st\<lparr>st_counters :=
     (st_counters st)\<lparr>tls_handshakes_refused := tls_handshakes_refused (st_counters st) + 1\<rparr>\<rparr>"

definition passthrough_refused :: "status \<Rightarrow> status" where
  "passthrough_refused st = st\<lparr>st_counters :=
     (st_counters st)\<lparr>passthrough_connections_refused := passthrough_connections_refused (st_counters st) + 1\<rparr>\<rparr>"

definition proxy_header_without_an_address :: "status \<Rightarrow> status" where
  "proxy_header_without_an_address st = st\<lparr>st_counters :=
     (st_counters st)\<lparr>proxy_headers_without_an_address := proxy_headers_without_an_address (st_counters st) + 1\<rparr>\<rparr>"

definition backend_connection_opened :: "status \<Rightarrow> status" where
  "backend_connection_opened st = st\<lparr>st_counters :=
     (st_counters st)\<lparr>backend_connections_opened := backend_connections_opened (st_counters st) + 1\<rparr>\<rparr>"

definition backend_connection_reused :: "status \<Rightarrow> status" where
  "backend_connection_reused st = st\<lparr>st_counters :=
     (st_counters st)\<lparr>backend_connections_reused := backend_connections_reused (st_counters st) + 1\<rparr>\<rparr>"

definition watch_balancer :: "balancer \<Rightarrow> status \<Rightarrow> status" where
  "watch_balancer b st = st\<lparr>st_balancer := Some b\<rparr>"

section \<open>Counts of UDP frontends\<close>

definition udp_frontend :: "string \<Rightarrow> nat \<Rightarrow> status \<Rightarrow> nat \<times> status" where
  "udp_frontend f limit st =
     (let at = length (st_store st);
          st1 = st\<lparr>st_store := st_store st @ [\<lparr>us_sessions_now = 0, us_evicted_now = 0, us_limit_now = of_nat limit\<rparr>]\<rparr>
      in (at, if st_udp_poisoned st then st1 else st1\<lparr>st_udp := bt_insert f at (st_udp st1)\<rparr>))"

definition stats_set :: "nat \<Rightarrow> u64 \<Rightarrow> u64 \<Rightarrow> status \<Rightarrow> status" where
  "stats_set at sessions evicted st = st\<lparr>st_store := (st_store st)[at :=
     (st_store st ! at)\<lparr>us_sessions_now := sessions, us_evicted_now := evicted\<rparr>]\<rparr>"

definition stats_set_limit :: "nat \<Rightarrow> u64 \<Rightarrow> status \<Rightarrow> status" where
  "stats_set_limit at limit st = st\<lparr>st_store := (st_store st)[at := (st_store st ! at)\<lparr>us_limit_now := limit\<rparr>]\<rparr>"

definition udp_sessions_of :: "status \<Rightarrow> udp_sessions_report list" where
  "udp_sessions_of st = (if st_udp_poisoned st then []
     else map (\<lambda>(f, at). \<lparr>us_frontend = f, us_count = us_sessions_now (st_store st ! at),
       us_limit = us_limit_now (st_store st ! at)\<rparr>) (st_udp st))"

definition udp_evicted :: "status \<Rightarrow> u64" where
  "udp_evicted st = (if st_udp_poisoned st then 0
     else sum_list (map (\<lambda>(f, at). us_evicted_now (st_store st ! at)) (st_udp st)))"

text \<open>\<open>dropped\<close> is what the logger says it lost.\<close>

definition read_counters :: "u64 \<Rightarrow> status \<Rightarrow> counters" where
  "read_counters dropped st =
     (st_counters st)\<lparr>udp_sessions_evicted := udp_evicted st, log_records_dropped := dropped\<rparr>"

definition status_of :: "u64 \<Rightarrow> u64 \<Rightarrow> status \<Rightarrow> status_report" where
  "status_of dropped generation st =
     \<lparr>sr_generation = generation, sr_state = read_state st, sr_counters = read_counters dropped st,
      sr_open_connections = (case st_balancer st of None \<Rightarrow> []
        | Some b \<Rightarrow> map (\<lambda>(f, p, m, n). \<lparr>oc_frontend = f, oc_pool = p, oc_member = m, oc_count = n\<rparr>) (balance_report b)),
      sr_member_health = (case st_balancer st of None \<Rightarrow> []
        | Some b \<Rightarrow> map (\<lambda>(p, m, up, n). \<lparr>mh_pool = p, mh_member = m, mh_healthy = up, mh_transitions = n\<rparr>)
            (health_report (bal_health b))),
      sr_udp_sessions = udp_sessions_of st\<rparr>"

section \<open>Lemmas\<close>

lemma state_roundtrip: "read_state (set_state s st) = s"
  by (cases s) (simp_all add: read_state_def set_state_def)

text \<open>The ring of a pool is the one built for it.\<close>

lemma live_ring_of:
  assumes "distinct (map b_id (backends (u_config update)))" "pool \<in> set (backends (u_config update))"
  shows "live_ring (build_live ssl lower update) (b_id pool) = ring_for pool"
  by (simp only: live_ring_def build_live_def live.simps bt_collect_get [OF assms] option.case)

text \<open>A refused update changes nothing.\<close>

lemma apply_refused: "fst (apply_update ssl lower lc update) = Inl e \<Longrightarrow> snd (apply_update ssl lower lc update) = lc"
  by (cases "validate (u_config update)") (simp_all add: apply_update_def)

end
