(* ===== verification/Requestid.thy ===== *)
theory Requestid
  imports Validation
begin

text \<open>
  \<open>requestid.rs\<close>: the identity of a request, the client's own when it is fit for a log. The
  static counter is an argument and comes back with the result; the process number is a
  parameter.
\<close>

definition REQUEST_ID_HEADER :: string where "REQUEST_ID_HEADER = ''X-Request-Id''"

definition LONGEST :: nat where "LONGEST = 64"

definition acceptable :: "string \<Rightarrow> bool" where
  "acceptable value \<longleftrightarrow> value \<noteq> [] \<and> length value \<le> LONGEST \<and>
     list_all (\<lambda>ch. is_alphanumeric ch \<or> ch \<in> set ''-_.'') value"

definition generate :: "u32 \<Rightarrow> u64 \<Rightarrow> string \<times> u64" where
  "generate pid counter = (hexadecimal (unat pid) @ ''-'' @ hexadecimal (unat counter), counter + 1)"

definition for_request :: "u32 \<Rightarrow> string option \<Rightarrow> u64 \<Rightarrow> string \<times> u64" where
  "for_request pid arrived counter = (case arrived of
     Some value \<Rightarrow> if acceptable value then (value, counter) else generate pid counter
   | None \<Rightarrow> generate pid counter)"

section \<open>Generated identities\<close>

definition hex_char :: "nat \<Rightarrow> char" where
  "hex_char d = (if d < 10 then char_of (48 + d) else char_of (87 + d))"

lemma in_base_16: "in_base 16 n = (if n < 16 then [hex_char n] else in_base 16 (n div 16) @ [hex_char (n mod 16)])"
  by (subst in_base.simps) (simp add: hex_char_def Let_def)

lemma hex_char_alphanumeric: "d < 16 \<Longrightarrow> is_alphanumeric (hex_char d)"
  by (auto simp: is_alphanumeric_def byte_in_def hex_char_def)

lemma hex_char_inj: "d < 16 \<Longrightarrow> e < 16 \<Longrightarrow> hex_char d = hex_char e \<longleftrightarrow> d = e"
proof -
  have code: "of_char (hex_char d) = (if d < 10 then 48 + d else 87 + d)" if "d < 16" for d :: nat
    using that by (simp add: hex_char_def)
  assume less: "d < 16" "e < 16"
  have "hex_char d = hex_char e \<longleftrightarrow> (of_char (hex_char d) :: nat) = of_char (hex_char e)" by simp
  also have "\<dots> \<longleftrightarrow> d = e" unfolding code [OF less(1)] code [OF less(2)] by (auto split: if_splits)
  finally show ?thesis .
qed

lemma in_base_alphanumeric: "ch \<in> set (in_base 16 n) \<Longrightarrow> is_alphanumeric ch"
proof (induction n rule: less_induct)
  case (less n)
  show ?case
  proof (cases "n < 16")
    case True
    then show ?thesis using less.prems by (simp add: in_base_16 [of n] hex_char_alphanumeric)
  next
    case False
    then have "ch \<in> set (in_base 16 (n div 16)) \<or> ch = hex_char (n mod 16)"
      using less.prems by (simp add: in_base_16 [of n] disj_commute)
    moreover have "n div 16 < n" using False by simp
    ultimately show ?thesis using less.IH hex_char_alphanumeric [of "n mod 16"] by auto
  qed
qed

lemma in_base_nonempty [simp]: "in_base 16 n \<noteq> []"
  by (subst in_base_16) simp

lemma in_base_length: "n < 16 ^ Suc k \<Longrightarrow> length (in_base 16 n) \<le> Suc k"
proof (induction k arbitrary: n)
  case 0
  then show ?case by (subst in_base_16) simp
next
  case (Suc k)
  have "n div 16 < 16 ^ Suc k" using Suc.prems by (simp add: less_mult_imp_div_less mult.commute)
  from Suc.IH [OF this] show ?case by (subst in_base_16) simp
qed

lemma in_base_inj: "in_base 16 m = in_base 16 n \<Longrightarrow> m = n"
proof (induction m arbitrary: n rule: less_induct)
  case (less m)
  have eq: "(if m < 16 then [hex_char m] else in_base 16 (m div 16) @ [hex_char (m mod 16)]) =
      (if n < 16 then [hex_char n] else in_base 16 (n div 16) @ [hex_char (n mod 16)])"
    using less.prems by (subst (asm) (1 2) in_base_16)
  show ?case
  proof (cases "m < 16")
    case True
    then have "n < 16" using eq in_base_nonempty [of "n div 16", symmetric] by (auto split: if_splits)
    with True eq show ?thesis by (simp add: hex_char_inj)
  next
    case False
    with eq have n: "\<not> n < 16" using in_base_nonempty [of "m div 16"] by (auto split: if_splits)
    with eq False have "in_base 16 (m div 16) = in_base 16 (n div 16)" "m mod 16 = n mod 16"
      by (auto simp: hex_char_inj)
    moreover have "m div 16 < m" using False by simp
    ultimately have "m div 16 = n div 16" using less.IH by blast
    with \<open>m mod 16 = n mod 16\<close> show ?thesis by (metis div_mult_mod_eq)
  qed
qed

lemma generated_acceptable: "acceptable (fst (generate pid counter))"
proof -
  have "length (in_base 16 (unat pid)) \<le> 8" using in_base_length [of "unat pid" 7] unat_u32_less [of pid] by simp
  moreover have "length (in_base 16 (unat counter)) \<le> 16"
    using in_base_length [of "unat counter" 15] unsigned_less [where ?'b = 64, of counter] by simp
  moreover have "list_all is_alphanumeric (in_base 16 n)" for n
    using in_base_alphanumeric [of _ n] by (auto simp: list_all_iff)
  ultimately show ?thesis by (auto simp: acceptable_def generate_def hexadecimal_def LONGEST_def list_all_iff)
qed

lemma for_request_acceptable: "acceptable (fst (for_request pid arrived counter))"
  by (auto simp: for_request_def generated_acceptable split: option.split)

lemma generated_distinct:
  "fst (generate pid c) = fst (generate pid d) \<longleftrightarrow> c = d"
  using in_base_inj [of "unat c" "unat d"] by (auto simp: generate_def hexadecimal_def word_unat_eq_iff)

end
