(* ===== verification/Proxy.thy ===== *)
theory Proxy
  imports Live Sticky Pool Proxyproto Requestid
begin

text \<open>
  \<open>proxy.rs\<close>: one HTTP request through the traffic path. The session belongs to the HTTP
  library: the record \<open>request\<close> holds what the source reads from it, and \<open>http\<close> what the
  library decides (which header values are text, which it takes, which status codes exist,
  whether a peer has options). The semaphore of a pool is a library object over a world, as
  in \<open>Pool\<close>; waiting for a slot is the call of \<open>acquire\<close>. What several requests share is the
  record \<open>shared\<close>, changed in the order the source changes it.
\<close>

section \<open>What the source reads\<close>

record request =
  rq_method :: string
  rq_host :: "string option"
  rq_path :: string
  rq_path_and_query :: "string option"
  rq_cookies :: "string list"
  rq_request_id :: "string option"
  rq_client :: "ip_addr option"
  rq_client_text :: "string option"

record http =
  to_str :: "string \<Rightarrow> string option"
  value_ok :: "string \<Rightarrow> bool"
  status_ok :: "u16 \<Rightarrow> bool"
  has_options :: bool

record ('g, 'w) proxy_env =
  e_http :: http
  e_lower :: "string \<Rightarrow> string"
  e_hmac :: "byte list \<Rightarrow> byte list \<Rightarrow> byte list"
  e_accepts :: "byte list \<Rightarrow> bool"
  e_pid :: u32
  e_semaphore :: "u32 \<Rightarrow> 'w \<Rightarrow> 'g \<times> 'w"
  e_acquire :: "'g \<Rightarrow> 'w \<Rightarrow> bool \<times> 'w"

definition NO_MEMBER :: u16 where "NO_MEMBER = 503"
definition TIMED_OUT :: u16 where "TIMED_OUT = 504"
definition FORWARDED_FOR :: string where "FORWARDED_FOR = ''X-Forwarded-For''"
definition FORWARDED_PROTO :: string where "FORWARDED_PROTO = ''X-Forwarded-Proto''"
definition FORWARDED_HOST :: string where "FORWARDED_HOST = ''X-Forwarded-Host''"
definition SHORTEST_TIMER :: duration where "SHORTEST_TIMER = millis 1"

definition client_address :: "request \<Rightarrow> ip_addr" where
  "client_address rq = (case rq_client rq of None \<Rightarrow> V4 (Ipv4 0 0 0 0) | Some ip \<Rightarrow> ip)"

definition cookie_lines :: "http \<Rightarrow> request \<Rightarrow> string list" where
  "cookie_lines h rq = List.map_filter (to_str h) (rq_cookies rq)"

definition asked_for :: "http \<Rightarrow> request \<Rightarrow> string option" where
  "asked_for h rq = Option.bind (rq_host rq) (to_str h)"

section \<open>Answers\<close>

datatype response = Bare u16 | ToHttps u16 string | ChallengeText string

definition bare :: "http \<Rightarrow> u16 \<Rightarrow> response option" where
  "bare h code = (if status_ok h code then Some (Bare code) else None)"

definition redirect_to_https :: "http \<Rightarrow> request \<Rightarrow> u16 \<Rightarrow> response option" where
  "redirect_to_https h rq code = (case asked_for h rq of
     None \<Rightarrow> None
   | Some host \<Rightarrow>
       let name = hd (split_on (CHR '':'') host);
           path = (case rq_path_and_query rq of None \<Rightarrow> ''/'' | Some p \<Rightarrow> p);
           location = ''https://'' @ name @ path
       in if status_ok h code \<and> value_ok h location then Some (ToHttps code location) else None)"

definition answer_challenge :: "http \<Rightarrow> string \<Rightarrow> response option" where
  "answer_challenge h value = (if status_ok h 200 then Some (ChallengeText value) else None)"

section \<open>Peers\<close>

record http_peer =
  peer_address :: socket_addr
  peer_group_key :: u64
  peer_connection_timeout :: "duration option"
  peer_read_timeout :: "duration option"
  peer_idle_timeout :: "duration option"

definition upstream ::
  "bool \<Rightarrow> socket_addr \<Rightarrow> duration option \<Rightarrow> u32 \<Rightarrow> connection_pooling \<Rightarrow> u64 \<Rightarrow> http_peer option" where
  "upstream options address connect request_timeout_seconds pooling share =
     (if \<not> options then None
      else Some \<lparr>peer_address = address, peer_group_key = share, peer_connection_timeout = connect,
        peer_read_timeout = (if request_timeout_seconds > 0 then Some (secs (unat request_timeout_seconds)) else None),
        peer_idle_timeout = (if pooling = PoolingDisabled then Some SHORTEST_TIMER else None)\<rparr>)"

fun socket_of :: "ip_addr \<Rightarrow> u16 \<Rightarrow> socket_addr" where
  "socket_of (V4 a) p = SockV4 a p"
| "socket_of (V6 a) p = SockV6 a p"

section \<open>One request\<close>

record 'g request_context =
  ctx_peer :: "http_peer option"
  ctx_chosen :: "(string \<times> string) option"
  ctx_set_cookie :: "string option"
  ctx_started :: instant
  ctx_request_id :: string
  ctx_logged :: bool
  ctx_slot :: "'g option"

definition new_ctx :: "instant \<Rightarrow> 'g request_context" where
  "new_ctx now = \<lparr>ctx_peer = None, ctx_chosen = None, ctx_set_cookie = None, ctx_started = now,
     ctx_request_id = [], ctx_logged = False, ctx_slot = None\<rparr>"

record ('g, 'w) shared =
  sh_status :: status
  sh_balancer :: balancer
  sh_seen :: u64
  sh_gates :: "'g gates"
  sh_next_id :: u64
  sh_next_group :: u64
  sh_world :: 'w

text \<open>\<open>Ok(true)\<close> with what was written, \<open>Ok(false)\<close>, or an error.\<close>

datatype filtered = Answered "response option" | Forward | Failed string

definition find_frontend :: "('x, 'k) live \<Rightarrow> string \<Rightarrow> frontend option" where
  "find_frontend lv name = find (\<lambda>f. f_id f = name) (frontends (lv_config lv))"

definition find_pool :: "('x, 'k) live \<Rightarrow> string \<Rightarrow> backend option" where
  "find_pool lv name = find (\<lambda>b. b_id b = name) (backends (lv_config lv))"

definition take_slot ::
  "('g, 'w) proxy_env \<Rightarrow> string \<Rightarrow> u32 \<Rightarrow> ('g, 'w) shared \<Rightarrow> 'g option \<times> ('g, 'w) shared" where
  "take_slot env pool slots sh =
     (case gate (e_semaphore env) (sh_gates sh) pool slots (sh_world sh) of
        (None, gs, w) \<Rightarrow> (None, sh\<lparr>sh_gates := gs, sh_world := w\<rparr>)
      | (Some g, gs, w) \<Rightarrow> (case e_acquire env g w of (taken, w') \<Rightarrow>
          (if taken then Some g else None, sh\<lparr>sh_gates := gs, sh_world := w'\<rparr>)))"

definition sticky_for ::
  "('g, 'w) proxy_env \<Rightarrow> ('x, 'k) live \<Rightarrow> backend \<Rightarrow> (string \<times> same_site \<times> signer) option" where
  "sticky_for env lv pool = Option.bind (sticky_settings pool) (\<lambda>(cookie, site).
     map_option (\<lambda>s. (cookie, site, s)) (signer_from_hex (e_accepts env) (stickiness_key (lv_config lv))))"

definition pinned ::
  "('g, 'w) proxy_env \<Rightarrow> balancer \<Rightarrow> backend \<Rightarrow> string \<Rightarrow> (string \<times> same_site \<times> signer) option \<Rightarrow> request
     \<Rightarrow> backend_member option" where
  "pinned env b pool name sticky rq = Option.bind sticky (\<lambda>(cookie, _, s).
     Option.bind (read_cookie (cookie_lines (e_http env) rq) cookie)
       (member_for (e_hmac env) s name (eligible pool (bal_health b))))"

text \<open>The member, the cookie to set, and the balancer after.\<close>

definition pick_member ::
  "('g, 'w) proxy_env \<Rightarrow> ('x, 'k) live \<Rightarrow> frontend \<Rightarrow> backend \<Rightarrow> string \<Rightarrow> request \<Rightarrow> balancer
     \<Rightarrow> (backend_member \<times> string option) option \<times> balancer" where
  "pick_member env lv f pool name rq b =
     (let sticky = sticky_for env lv pool in
      case pinned env b pool name sticky rq of
        Some m \<Rightarrow> (Some (m, None), b)
      | None \<Rightarrow>
          (case choose_member b pool (live_ring lv name) (client_address rq) of
             (None, b') \<Rightarrow> (None, b')
           | (Some m, b') \<Rightarrow> (Some (m, map_option (\<lambda>(cookie, site, s).
               set_cookie cookie (token (e_hmac env) s name (bm_id m)) site (f_tls f \<noteq> None)) sticky), b')))"

definition forward_to ::
  "('g, 'w) proxy_env \<Rightarrow> ('x, 'k) live \<Rightarrow> frontend \<Rightarrow> string \<Rightarrow> u32 \<Rightarrow> request \<Rightarrow> u64
     \<Rightarrow> 'g request_context \<Rightarrow> ('g, 'w) shared \<Rightarrow> filtered \<times> 'g request_context \<times> ('g, 'w) shared" where
  "forward_to env lv f name limit rq now_seconds ctx sh =
     (case find_pool lv name of
        None \<Rightarrow> (Answered (bare (e_http env) NO_MEMBER), ctx, sh)
      | Some pool \<Rightarrow>
          (case take_slot env name (b_connection_pool_size pool) sh of (slot, sh) \<Rightarrow>
           let ctx = ctx\<lparr>ctx_slot := slot\<rparr> in
           (case pick_member env lv f pool name rq (sh_balancer sh) of
              (None, b) \<Rightarrow> (Answered (bare (e_http env) NO_MEMBER), ctx, sh\<lparr>sh_balancer := b\<rparr>)
            | (Some (m, cookie), b) \<Rightarrow>
                let b = opened b (f_id f) name (bm_id m);
                    (share, next) = pool_reuse_group pool (sh_next_group sh) now_seconds;
                    sh = sh\<lparr>sh_balancer := b, sh_next_group := next\<rparr>;
                    ctx = ctx\<lparr>ctx_set_cookie := cookie, ctx_chosen := Some (name, bm_id m)\<rparr>
                in (case upstream (has_options (e_http env)) (socket_of (bm_address m) (bm_port m))
                       (connect_limit f) limit (b_connection_pooling pool) share of
                      None \<Rightarrow> (Failed ''peer has no options to set'', ctx, sh)
                    | Some peer \<Rightarrow> (Forward, ctx\<lparr>ctx_peer := Some peer\<rparr>, sh)))))"

definition serve_http ::
  "('g, 'w) proxy_env \<Rightarrow> ('x, 'k) live \<Rightarrow> frontend \<Rightarrow> request \<Rightarrow> u64
     \<Rightarrow> 'g request_context \<Rightarrow> ('g, 'w) shared \<Rightarrow> filtered \<times> 'g request_context \<times> ('g, 'w) shared" where
  "serve_http env lv f rq now_seconds ctx sh =
     (case challenge_reply (lv_challenges lv) (f_port f) (rq_path rq) of
        Answer value \<Rightarrow> (Answered (answer_challenge (e_http env) value), ctx, sh)
      | Unknown \<Rightarrow> (Answered (bare (e_http env) 404), ctx, sh)
      | Elsewhere \<Rightarrow>
          (case decide (e_lower env) f (asked_for (e_http env) rq) (rq_path rq) of
             RedirectTo code \<Rightarrow>
               (Answered (case redirect_to_https (e_http env) rq code of
                  Some r \<Rightarrow> Some r | None \<Rightarrow> bare (e_http env) 400), ctx, sh)
           | Nowhere \<Rightarrow> (Answered (bare (e_http env) NO_MEMBER), ctx, sh)
           | Pool name limit \<Rightarrow> forward_to env lv f name limit rq now_seconds ctx sh))"

definition request_filter ::
  "('g, 'w) proxy_env \<Rightarrow> string \<Rightarrow> ('x, 'k) live \<Rightarrow> request \<Rightarrow> u64
     \<Rightarrow> 'g request_context \<Rightarrow> ('g, 'w) shared \<Rightarrow> filtered \<times> 'g request_context \<times> ('g, 'w) shared" where
  "request_filter env frontend lv rq now_seconds ctx sh =
     (let sh = sh\<lparr>sh_status := request_handled (sh_status sh)\<rparr>;
          (i, next) = for_request (e_pid env) (Option.bind (rq_request_id rq) (to_str (e_http env))) (sh_next_id sh);
          ctx = ctx\<lparr>ctx_request_id := i\<rparr>;
          sh = sh\<lparr>sh_next_id := next\<rparr>
      in case find_frontend lv frontend of
        None \<Rightarrow> (Answered (bare (e_http env) NO_MEMBER), ctx, sh)
      | Some f \<Rightarrow>
          let ctx = ctx\<lparr>ctx_logged := access_log_writes (f_access_log f) (sh_seen sh)\<rparr>;
              sh = sh\<lparr>sh_seen := sh_seen sh + 1\<rparr>
          in if f_application f \<noteq> Http then (Answered (bare (e_http env) NO_MEMBER), ctx, sh)
             else serve_http env lv f rq now_seconds ctx sh)"

section \<open>The rest of a request\<close>

definition upstream_peer :: "'g request_context \<Rightarrow> (http_peer, string) result" where
  "upstream_peer ctx = (case ctx_peer ctx of None \<Rightarrow> Inl ''no peer was chosen'' | Some peer \<Rightarrow> Inr peer)"

definition connected_to_upstream :: "bool \<Rightarrow> ('g, 'w) shared \<Rightarrow> ('g, 'w) shared" where
  "connected_to_upstream reused sh = sh\<lparr>sh_status :=
     (if reused then backend_connection_reused (sh_status sh) else backend_connection_opened (sh_status sh))\<rparr>"

text \<open>
  A header map: names without case, several values to a name. A value the library does not
  take is left out, which the source ignores.
\<close>

definition lower_ascii :: "char \<Rightarrow> char" where
  "lower_ascii ch = (if byte_in 65 90 ch then char_of ((of_char ch :: nat) + 32) else ch)"

definition header_key :: "string \<Rightarrow> string" where
  "header_key name = map lower_ascii name"

type_synonym headers = "(string \<times> string) list"

definition insert_header :: "http \<Rightarrow> string \<Rightarrow> string \<Rightarrow> headers \<Rightarrow> headers" where
  "insert_header h name value hs = (if value_ok h value
     then filter (\<lambda>(n, _). n \<noteq> header_key name) hs @ [(header_key name, value)] else hs)"

definition append_header :: "http \<Rightarrow> string \<Rightarrow> string \<Rightarrow> headers \<Rightarrow> headers" where
  "append_header h name value hs = (if value_ok h value then hs @ [(header_key name, value)] else hs)"

definition upstream_request_filter :: "http \<Rightarrow> string \<Rightarrow> ('x, 'k) live \<Rightarrow> request \<Rightarrow> headers \<Rightarrow> headers" where
  "upstream_request_filter h frontend lv rq hs =
     (let hs = insert_header h FORWARDED_FOR (display_ip (client_address rq)) hs;
          scheme = (case find_frontend lv frontend of
            Some f \<Rightarrow> if f_tls f \<noteq> None then ''https'' else ''http''
          | None \<Rightarrow> ''http'');
          hs = insert_header h FORWARDED_PROTO scheme hs
      in case rq_host rq of None \<Rightarrow> hs | Some host \<Rightarrow> insert_header h FORWARDED_HOST host hs)"

definition response_filter :: "http \<Rightarrow> 'g request_context \<Rightarrow> headers \<Rightarrow> headers \<times> 'g request_context" where
  "response_filter h ctx hs =
     (let hs = (case ctx_set_cookie ctx of None \<Rightarrow> hs | Some cookie \<Rightarrow> append_header h ''set-cookie'' cookie hs)
      in (insert_header h REQUEST_ID_HEADER (ctx_request_id ctx) hs, ctx\<lparr>ctx_set_cookie := None\<rparr>))"

definition access_of :: "string \<Rightarrow> request \<Rightarrow> u16 option \<Rightarrow> instant \<Rightarrow> 'g request_context \<Rightarrow> access" where
  "access_of frontend rq written now ctx =
     (let status = (case written of None \<Rightarrow> 0 | Some s \<Rightarrow> s);
          client = (case rq_client_text rq of None \<Rightarrow> ''unknown'' | Some t \<Rightarrow> t);
          a = access_http (rq_method rq) (rq_path rq) status (with_request_id (ctx_request_id ctx)
            (new_access LogHttp frontend client (now - ctx_started ctx)))
      in case ctx_chosen ctx of None \<Rightarrow> a | Some (pool, member) \<Rightarrow> to_backend pool member a)"

definition logging ::
  "string \<Rightarrow> request \<Rightarrow> u16 option \<Rightarrow> instant \<Rightarrow> 'g request_context \<Rightarrow> ('g, 'w) shared
     \<Rightarrow> access option \<times> 'g request_context \<times> ('g, 'w) shared" where
  "logging frontend rq written now ctx sh =
     (if ctx_logged ctx then Some (access_of frontend rq written now ctx) else None,
      ctx\<lparr>ctx_chosen := None\<rparr>,
      case ctx_chosen ctx of
        None \<Rightarrow> sh
      | Some (pool, member) \<Rightarrow> sh\<lparr>sh_balancer := closed (sh_balancer sh) frontend pool member\<rparr>)"

datatype proxy_error =
  HTTPStatus u16 | ReadTimedout | WriteTimedout | ConnectTimedout | ConnectRefused | ConnectNoRoute
  | ConnectError | OtherError

fun fail_code :: "proxy_error \<Rightarrow> u16" where
  "fail_code (HTTPStatus code) = code"
| "fail_code ReadTimedout = TIMED_OUT"
| "fail_code WriteTimedout = TIMED_OUT"
| "fail_code ConnectTimedout = TIMED_OUT"
| "fail_code ConnectRefused = NO_MEMBER"
| "fail_code ConnectNoRoute = NO_MEMBER"
| "fail_code ConnectError = NO_MEMBER"
| "fail_code OtherError = 502"

definition fail_to_proxy :: "http \<Rightarrow> proxy_error \<Rightarrow> response option \<times> u16" where
  "fail_to_proxy h e = (let code = fail_code e in (if code > 0 then bare h code else None, code))"

section \<open>Counting what is in flight\<close>

lemma open_on_opened:
  assumes "\<not> bal_poisoned b" "bt_wf (bal_open b)"
  shows "open_on (opened b f p m) f' p' m' = open_on b f' p' m' + (if (f', p', m') = (f, p, m) then 1 else 0)"
  using assms by (auto simp: open_on_def opened_def Let_def bt_get_insert split: option.split)

lemma open_on_closed:
  assumes "\<not> bal_poisoned b" "bt_wf (bal_open b)" "open_on b f p m \<noteq> 0"
  shows "open_on (closed b f p m) f' p' m' = open_on b f' p' m' - (if (f', p', m') = (f, p, m) then 1 else 0)"
  using assms by (auto simp: open_on_def closed_def bt_get_insert split: option.splits)

definition balancer_wf :: "balancer \<Rightarrow> bool" where
  "balancer_wf b \<longleftrightarrow> \<not> bal_poisoned b \<and> bt_wf (bal_open b)"

lemma balancer_wf_ops:
  "balancer_wf b \<Longrightarrow> balancer_wf (opened b f p m)" "balancer_wf b \<Longrightarrow> balancer_wf (closed b f p m)"
  by (auto simp: balancer_wf_def opened_def closed_def Let_def bt_insert_wf split: option.split)

text \<open>Choosing changes nothing but the cursor.\<close>

lemma choose_by_open: "bal_open (snd (choose_by b pool r key)) = bal_open b \<and> bal_poisoned (snd (choose_by b pool r key)) = bal_poisoned b"
  by (auto simp: choose_by_def Let_def split: lb_algorithm.split option.split)

lemma pick_member_open:
  "bal_open (snd (pick_member env lv f pool name rq b)) = bal_open b \<and>
   bal_poisoned (snd (pick_member env lv f pool name rq b)) = bal_poisoned b"
  using choose_by_open [of b pool "live_ring lv name" "as_bytes (display_ip (client_address rq))"]
  by (auto simp: pick_member_def Let_def choose_member_def split: option.split prod.split)

lemma take_slot_balancer: "sh_balancer (snd (take_slot env pool n sh)) = sh_balancer sh"
  by (simp add: take_slot_def split: prod.split option.split)

lemma open_on_cong: "bal_open b' = bal_open b \<Longrightarrow> bal_poisoned b' = bal_poisoned b \<Longrightarrow>
    open_on b' = open_on b \<and> balancer_wf b' = balancer_wf b"
  by (auto simp: open_on_def balancer_wf_def fun_eq_iff)

text \<open>
  What a step of a request does to the counts: the one of the member its context names goes
  up by one, and the context names none unless the request goes on to a member.
\<close>

definition counts_chosen ::
  "string \<Rightarrow> ('g, 'w) shared \<Rightarrow> filtered \<times> 'g request_context \<times> ('g, 'w) shared \<Rightarrow> bool" where
  "counts_chosen fid sh out \<longleftrightarrow> (case out of (r, ctx, sh') \<Rightarrow>
     balancer_wf (sh_balancer sh') \<and>
     (\<forall>f p m. open_on (sh_balancer sh') f p m =
        open_on (sh_balancer sh) f p m + (if f = fid \<and> ctx_chosen ctx = Some (p, m) then 1 else 0)) \<and>
     (case r of Answered _ \<Rightarrow> ctx_chosen ctx = None \<and> ctx_peer ctx = None
      | Forward \<Rightarrow> ctx_chosen ctx \<noteq> None \<and> ctx_peer ctx \<noteq> None
      | Failed _ \<Rightarrow> ctx_chosen ctx \<noteq> None))"

lemma forward_to_counts:
  assumes "balancer_wf (sh_balancer sh)" "ctx_chosen ctx = None" "ctx_peer ctx = None"
  shows "counts_chosen (f_id f) sh (forward_to env lv f name limit rq now ctx sh)"
proof (cases "find_pool lv name")
  case None
  then show ?thesis using assms by (simp add: forward_to_def counts_chosen_def)
next
  case (Some pool)
  obtain slot sh1 where slot: "take_slot env name (b_connection_pool_size pool) sh = (slot, sh1)" by fastforce
  then have b1: "sh_balancer sh1 = sh_balancer sh" using take_slot_balancer [of env name "b_connection_pool_size pool" sh] by simp
  obtain got b where pick: "pick_member env lv f pool name rq (sh_balancer sh1) = (got, b)" by fastforce
  have same: "open_on b = open_on (sh_balancer sh)" "balancer_wf b"
    using pick_member_open [of env lv f pool name rq "sh_balancer sh1"] assms(1) pick b1 open_on_cong [of b "sh_balancer sh"] by auto
  show ?thesis
  proof (cases got)
    case None
    then show ?thesis using Some slot pick same assms by (simp add: forward_to_def counts_chosen_def Let_def)
  next
    case (Some mc)
    obtain m cookie where mc: "mc = (m, cookie)" by fastforce
    obtain share later where share: "pool_reuse_group pool (sh_next_group sh1) now = (share, later)" by fastforce
    have counted: "open_on (opened b (f_id f) name (bm_id m)) f' p' m' =
        open_on (sh_balancer sh) f' p' m' + (if f' = f_id f \<and> name = p' \<and> bm_id m = m' then 1 else 0)" for f' p' m'
      using open_on_opened [of b] same by (auto simp: balancer_wf_def)
    show ?thesis
      using \<open>find_pool lv name = Some pool\<close> slot pick Some mc share counted balancer_wf_ops(1) [OF same(2)]
      by (auto simp: forward_to_def counts_chosen_def Let_def split: option.split)
  qed
qed

lemma request_filter_counts:
  assumes "balancer_wf (sh_balancer sh)"
  shows "counts_chosen fid sh (request_filter env fid lv rq now (new_ctx t) sh)"
proof -
  have still: "counts_chosen fid sh (Answered r, ctx, sh')"
    if "sh_balancer sh' = sh_balancer sh" "ctx_chosen ctx = None" "ctx_peer ctx = None" for r ctx sh'
    using that assms by (simp add: counts_chosen_def)
  have moved: "counts_chosen fid sh out" if "counts_chosen fid sh' out" "sh_balancer sh' = sh_balancer sh" for sh' out
    using that by (simp add: counts_chosen_def)
  have served: "counts_chosen fid sh (serve_http env lv f rq now ctx sh')"
    if "f_id f = fid" "sh_balancer sh' = sh_balancer sh" "ctx_chosen ctx = None" "ctx_peer ctx = None" for f ctx sh'
    using still [of sh' ctx] moved [OF forward_to_counts [of sh' ctx f, unfolded that(1)]] that assms
    by (auto simp: serve_http_def split: reply.split decision.split)
  show ?thesis
    using still served
    by (auto simp: request_filter_def Let_def new_ctx_def find_frontend_def find_Some_iff split: prod.split option.split)
qed

section \<open>Traffic\<close>

text \<open>
  Requests overlap: each starts with \<open>request_filter\<close>, under whatever configuration is live
  then, and ends with \<open>logging\<close>; in between the health of members may change. The state is
  the contexts in flight, each with its frontend, and what they share. A process holds
  fewer requests than a 64 bit count.
\<close>

type_synonym ('g, 'w) traffic_state = "(string \<times> 'g request_context) list \<times> ('g, 'w) shared"

inductive traffic :: "('x, 'k, 'p) openssl \<Rightarrow> ('g, 'w) proxy_env \<Rightarrow> ('g, 'w) traffic_state \<Rightarrow> bool" for ssl env where
  idle: "sh_balancer sh = with_health h \<Longrightarrow> traffic ssl env ([], sh)"
| begins: "traffic ssl env (flight, sh) \<Longrightarrow> Suc (length flight) < 2 ^ 64 \<Longrightarrow>
    request_filter env fid (build_live ssl (e_lower env) update) rq now (new_ctx t) sh = (r, ctx, sh') \<Longrightarrow>
    traffic ssl env ((fid, ctx) # flight, sh')"
| ends: "traffic ssl env (before @ (fid, ctx) # after, sh) \<Longrightarrow>
    logging fid rq written now ctx sh = (a, ctx', sh') \<Longrightarrow> traffic ssl env (before @ after, sh')"
| probed: "traffic ssl env (flight, sh) \<Longrightarrow>
    traffic ssl env (flight, sh\<lparr>sh_balancer := (sh_balancer sh)\<lparr>bal_health := h\<rparr>\<rparr>)"

definition in_flight :: "string \<Rightarrow> string \<Rightarrow> string \<Rightarrow> (string \<times> 'g request_context) list \<Rightarrow> nat" where
  "in_flight f p m flight = length (filter (\<lambda>(fid, ctx). fid = f \<and> ctx_chosen ctx = Some (p, m)) flight)"

lemma in_flight_simps [simp]:
  "in_flight f p m [] = 0"
  "in_flight f p m ((fid, ctx) # fl) = (if fid = f \<and> ctx_chosen ctx = Some (p, m) then 1 else 0) + in_flight f p m fl"
  "in_flight f p m (xs @ ys) = in_flight f p m xs + in_flight f p m ys"
  by (simp_all add: in_flight_def)

lemma in_flight_length: "in_flight f p m flight \<le> length flight"
  by (simp add: in_flight_def)

lemma count_nonzero: "n < 2 ^ 64 \<Longrightarrow> n \<noteq> 0 \<Longrightarrow> (of_nat n :: u64) \<noteq> 0"
  by (simp add: word_of_nat_eq_0_iff nat_dvd_not_less)

lemma traffic_counts:
  assumes "traffic ssl env st"
  shows "balancer_wf (sh_balancer (snd st)) \<and> length (fst st) < 2 ^ 64 \<and>
    (\<forall>f p m. open_on (sh_balancer (snd st)) f p m = of_nat (in_flight f p m (fst st)))"
  using assms
proof induction
  case (idle sh h)
  then show ?case
    by (simp add: with_health_def new_balancer_def balancer_wf_def bt_wf_def open_on_def bt_get_def)
next
  case (begins flight sh fid update rq now t r ctx sh')
  then have "counts_chosen fid sh (r, ctx, sh')" 
    using request_filter_counts [of sh fid env "build_live ssl (e_lower env) update" rq now t] by simp
  with begins show ?case by (auto simp: counts_chosen_def)
next
  case (ends before fid ctx after sh rq written now a ctx' sh')
  show ?case
  proof (cases "ctx_chosen ctx")
    case None
    with ends show ?thesis by (auto simp: logging_def)
  next
    case (Some pm)
    obtain p m where pm: "pm = (p, m)" by fastforce
    let ?all = "before @ (fid, ctx) # after"
    have sh': "sh_balancer sh' = closed (sh_balancer sh) fid p m" using ends.hyps(2) Some pm by (auto simp: logging_def)
    have "in_flight fid p m ?all < 2 ^ 64" using in_flight_length [of fid p m ?all] ends.IH by simp
    moreover have "in_flight fid p m ?all \<noteq> 0" using Some pm by simp
    ultimately have "(of_nat (in_flight fid p m ?all) :: u64) \<noteq> 0"
      by (rule count_nonzero)
    with ends.IH have busy: "open_on (sh_balancer sh) fid p m \<noteq> 0" by simp
    have "open_on (sh_balancer sh') f p' m' = of_nat (in_flight f p' m' (before @ after))" for f p' m'
      using open_on_closed [of "sh_balancer sh" fid p m f p' m'] busy ends.IH Some pm sh'
      by (auto simp: balancer_wf_def)
    with ends.IH sh' balancer_wf_ops(2) show ?thesis by simp
  qed
next
  case (probed flight sh h)
  then show ?case using open_on_cong [of "(sh_balancer sh)\<lparr>bal_health := h\<rparr>" "sh_balancer sh"] by auto
qed

section \<open>Cookies and headers\<close>

text \<open>
  A client that sends back the cookie it was given is pinned to the member it was given for,
  as long as that member may take traffic.
\<close>

lemma pinned_back:
  assumes "sticky_for env lv pool = Some (cookie, site, s)" "cookie_text cookie"
    and "m \<in> set (eligible pool (bal_health b))"
    and "inj_on (\<lambda>x. token (e_hmac env) s name (bm_id x)) (set (eligible pool (bal_health b)))"
    and "read_cookie (cookie_lines (e_http env) rq) cookie = Some (token (e_hmac env) s name (bm_id m))"
  shows "pick_member env lv f pool name rq b = (Some (m, None), b)"
  using assms member_for_inj [OF assms(3,4)] by (simp add: pick_member_def pinned_def)

lemma pick_member_cookie:
  assumes "pick_member env lv f pool name rq b = (Some (m, Some value), b')"
  shows "\<exists>cookie site s. sticky_for env lv pool = Some (cookie, site, s) \<and>
    value = set_cookie cookie (token (e_hmac env) s name (bm_id m)) site (f_tls f \<noteq> None)"
  using assms by (auto simp: pick_member_def Let_def split: option.splits prod.splits)

lemma cookie_read_back:
  assumes "cookie_text name" "list_all (\<lambda>pair. CHR '';'' \<notin> set pair \<and> read_pair name pair = None) others"
    and "value = set_cookie name (token hmac s pool member) site secure"
  shows "read_cookie [join '';'' (others @ [hd (split_on (CHR '';'') value)])] name = Some (token hmac s pool member)"
proof -
  let ?t = "token hmac s pool member"
  have sent: "hd (split_on (CHR '';'') value) = name @ ''='' @ ?t"
    using assms(3) set_cookie_pair [OF assms(1) token_clean] by metis
  have "list_all (\<lambda>p. CHR '';'' \<notin> set p) (others @ [name @ ''='' @ ?t])"
    using assms(1,2) token_clean [of hmac s pool member] by (auto simp: list_all_iff cookie_text_def)
  from split_on_join [OF this] have "read_cookie [join '';'' (others @ [name @ ''='' @ ?t])] name = read_pair name (name @ ''='' @ ?t)"
    using find_map_last [of "read_pair name" others "name @ ''='' @ ?t"] assms(2)
    by (simp add: read_cookie_def list_all_iff split: option.split)
  then show ?thesis using read_pair_set [OF assms(1) token_clean] by (simp add: sent)
qed

lemma insert_header_only:
  "value_ok h value \<Longrightarrow> filter (\<lambda>(n, _). n = header_key name) (insert_header h name value hs) = [(header_key name, value)]"
  by (simp add: insert_header_def filter_empty_conv case_prod_unfold)

lemma insert_header_other:
  "key \<noteq> header_key name \<Longrightarrow> filter (\<lambda>(n, _). n = key) (insert_header h name value hs) = filter (\<lambda>(n, _). n = key) hs"
proof -
  assume other: "key \<noteq> header_key name"
  then have "(n \<noteq> header_key name \<and> n = key) = (n = key)" for n by auto
  with other show ?thesis by (simp add: insert_header_def case_prod_unfold)
qed

section \<open>Where a request goes\<close>

lemma pick_member_eligible:
  assumes "pick_member env lv f pool name rq b = (Some (m, cookie), b')"
  shows "m \<in> set (eligible pool (bal_health b))"
proof (cases "pinned env b pool name (sticky_for env lv pool) rq")
  case None
  with assms have "fst (choose_by b pool (live_ring lv name) (as_bytes (display_ip (client_address rq)))) = Some m"
    by (auto simp: pick_member_def Let_def choose_member_def split: option.splits prod.splits)
  then show ?thesis by (rule choose_by_eligible)
next
  case (Some m')
  with assms have "m' = m" by (simp add: pick_member_def)
  with Some show ?thesis by (auto simp: pinned_def bind_eq_Some_conv dest: member_for_Some)
qed

lemma pick_member_total:
  assumes "eligible pool (bal_health b) \<noteq> []" "\<not> bal_poisoned b"
    and "length (by_weight (eligible pool (bal_health b))) < 2 ^ 64"
    and "b_algorithm pool = ConsistentHash \<Longrightarrow> points_apart pool" "live_ring lv name = ring_for pool"
  shows "fst (pick_member env lv f pool name rq b) \<noteq> None"
  using choose_by_total [OF assms(1-4), of "as_bytes (display_ip (client_address rq))"] assms(5)
  by (auto simp: pick_member_def Let_def choose_member_def split: option.split prod.split)

definition sent_to :: "('g, 'w) proxy_env \<Rightarrow> frontend \<Rightarrow> backend \<Rightarrow> u32 \<Rightarrow> health \<Rightarrow> 'g request_context \<Rightarrow> bool" where
  "sent_to env f pool limit h ctx \<longleftrightarrow> (\<exists>m share. m \<in> set (eligible pool h) \<and>
     ctx_chosen ctx = Some (b_id pool, bm_id m) \<and> ctx_peer ctx =
       upstream (has_options (e_http env)) (socket_of (bm_address m) (bm_port m)) (connect_limit f) limit
         (b_connection_pooling pool) share)"

lemma forward_to_forwards:
  assumes "forward_to env lv f name limit rq now ctx sh = (Forward, ctx', sh')"
  shows "\<exists>pool. find_pool lv name = Some pool \<and> sent_to env f pool limit (bal_health (sh_balancer sh)) ctx'"
proof (cases "find_pool lv name")
  case None
  with assms show ?thesis by (simp add: forward_to_def)
next
  case (Some pool)
  then have name: "b_id pool = name" by (auto simp: find_pool_def find_Some_iff)
  obtain slot sh1 where slot: "take_slot env name (b_connection_pool_size pool) sh = (slot, sh1)" by fastforce
  then have b1: "sh_balancer sh1 = sh_balancer sh" using take_slot_balancer [of env name "b_connection_pool_size pool" sh] by simp
  obtain m cookie b where pick: "pick_member env lv f pool name rq (sh_balancer sh1) = (Some (m, cookie), b)"
    using assms Some slot by (auto simp: forward_to_def Let_def split: prod.splits option.splits)
  from pick_member_eligible [OF pick] b1 have "m \<in> set (eligible pool (bal_health (sh_balancer sh)))" by simp
  with assms Some slot pick name show ?thesis
    by (auto simp: forward_to_def sent_to_def Let_def split: prod.splits option.splits) metis
qed

text \<open>A request of an HTTP frontend, once it has been counted, named and marked for the log.\<close>

definition counted_ctx :: "('g, 'w) proxy_env \<Rightarrow> frontend \<Rightarrow> request \<Rightarrow> 'g request_context \<Rightarrow> ('g, 'w) shared \<Rightarrow> 'g request_context" where
  "counted_ctx env f rq ctx sh = ctx\<lparr>ctx_request_id := fst (for_request (e_pid env)
     (Option.bind (rq_request_id rq) (to_str (e_http env))) (sh_next_id sh)),
     ctx_logged := access_log_writes (f_access_log f) (sh_seen sh)\<rparr>"

definition counted_shared :: "('g, 'w) proxy_env \<Rightarrow> request \<Rightarrow> ('g, 'w) shared \<Rightarrow> ('g, 'w) shared" where
  "counted_shared env rq sh = sh\<lparr>sh_status := request_handled (sh_status sh), sh_next_id := snd (for_request (e_pid env)
     (Option.bind (rq_request_id rq) (to_str (e_http env))) (sh_next_id sh)), sh_seen := sh_seen sh + 1\<rparr>"

lemma request_filter_serves:
  assumes "find_frontend lv fid = Some f" "f_application f = Http"
  shows "request_filter env fid lv rq now ctx sh =
    serve_http env lv f rq now (counted_ctx env f rq ctx sh) (counted_shared env rq sh)"
  using assms by (simp add: request_filter_def counted_ctx_def counted_shared_def Let_def case_prod_unfold)

lemma counted_balancer [simp]: "sh_balancer (counted_shared env rq sh) = sh_balancer sh"
  by (simp add: counted_shared_def)

lemma request_filter_forwards:
  assumes "request_filter env fid lv rq now ctx0 sh = (Forward, ctx, sh')"
  shows "\<exists>f name limit pool. find_frontend lv fid = Some f \<and> f_application f = Http \<and>
    challenge_reply (lv_challenges lv) (f_port f) (rq_path rq) = Elsewhere \<and>
    decide (e_lower env) f (asked_for (e_http env) rq) (rq_path rq) = Pool name limit \<and>
    find_pool lv name = Some pool \<and> sent_to env f pool limit (bal_health (sh_balancer sh)) ctx"
proof -
  obtain f where f: "find_frontend lv fid = Some f" "f_application f = Http"
    using assms by (auto simp: request_filter_def Let_def split: option.splits prod.splits if_splits)
  with assms have "serve_http env lv f rq now (counted_ctx env f rq ctx0 sh) (counted_shared env rq sh) = (Forward, ctx, sh')"
    by (simp add: request_filter_serves)
  then obtain name limit where "challenge_reply (lv_challenges lv) (f_port f) (rq_path rq) = Elsewhere"
    "decide (e_lower env) f (asked_for (e_http env) rq) (rq_path rq) = Pool name limit"
    "forward_to env lv f name limit rq now (counted_ctx env f rq ctx0 sh) (counted_shared env rq sh) = (Forward, ctx, sh')"
    by (auto simp: serve_http_def split: reply.splits decision.splits)
  with forward_to_forwards [of env lv f name limit rq now "counted_ctx env f rq ctx0 sh" "counted_shared env rq sh"] f show ?thesis by auto
qed

lemma forward_has_peer:
  assumes "request_filter env fid lv rq now ctx0 sh = (Forward, ctx, sh')"
  shows "ctx_peer ctx \<noteq> None"
proof -
  have "forward_to env lv f name limit rq now c s = (Forward, ctx, sh') \<Longrightarrow> ctx_peer ctx \<noteq> None" for f name limit c s
    by (auto simp: forward_to_def Let_def split: option.splits prod.splits)
  with assms show ?thesis
    by (auto simp: request_filter_def serve_http_def Let_def
        split: option.splits prod.splits reply.splits decision.splits if_splits)
qed

lemma forward_to_total:
  assumes "find_pool lv name = Some pool" "has_options (e_http env)"
    and "\<And>b. b = sh_balancer sh \<Longrightarrow> fst (pick_member env lv f pool name rq b) \<noteq> None"
  shows "fst (forward_to env lv f name limit rq now ctx sh) = Forward"
proof -
  obtain slot sh1 where slot: "take_slot env name (b_connection_pool_size pool) sh = (slot, sh1)" by fastforce
  then have b1: "sh_balancer sh1 = sh_balancer sh" using take_slot_balancer [of env name "b_connection_pool_size pool" sh] by simp
  obtain m cookie b where pick: "pick_member env lv f pool name rq (sh_balancer sh1) = (Some (m, cookie), b)"
    using assms(3) [OF b1] by (cases "pick_member env lv f pool name rq (sh_balancer sh1)") auto
  then show ?thesis using assms(1,2) slot by (simp add: forward_to_def Let_def upstream_def split: prod.split)
qed

text \<open>Under an accepted configuration a request that a member can serve is forwarded.\<close>

lemma request_filter_total:
  assumes "validate (u_config update) = Inr ()" "find (\<lambda>f. f_id f = fid) (frontends (u_config update)) = Some f"
    and "f_application f = Http" "challenge_reply (u_challenges update) (f_port f) (rq_path rq) = Elsewhere"
    and "decide (e_lower env) f (asked_for (e_http env) rq) (rq_path rq) = Pool name limit"
    and "find (\<lambda>b. b_id b = name) (backends (u_config update)) = Some pool"
    and "eligible pool (bal_health (sh_balancer sh)) \<noteq> []" "has_options (e_http env)" "\<not> bal_poisoned (sh_balancer sh)"
    and "length (by_weight (eligible pool (bal_health (sh_balancer sh)))) < 2 ^ 64"
    and "b_algorithm pool = ConsistentHash \<Longrightarrow> points_apart pool"
  shows "fst (request_filter env fid (build_live ssl (e_lower env) update) rq now ctx sh) = Forward"
proof -
  let ?lv = "build_live ssl (e_lower env) update"
  have find: "find_frontend ?lv fid = Some f" "find_pool ?lv name = Some pool"
    using assms(2,6) by (simp_all add: find_frontend_def find_pool_def build_live_def)
  have pool: "pool \<in> set (backends (u_config update))" "b_id pool = name" using assms(6) by (auto simp: find_Some_iff)
  have "distinct (map b_id (backends (u_config update)))"
    using assms(1) by (simp add: validate_ok config_ok_def ids_distinct_def)
  from live_ring_of [OF this pool(1)] pool(2) have ring: "live_ring ?lv name = ring_for pool" by simp
  have "fst (forward_to env ?lv f name limit rq now (counted_ctx env f rq ctx sh) (counted_shared env rq sh)) = Forward"
    using pick_member_total [OF assms(7,9,10,11) ring] by (intro forward_to_total [OF find(2) assms(8)]) simp
  moreover have "lv_challenges ?lv = u_challenges update" by (simp add: build_live_def)
  ultimately show ?thesis
    using assms(4,5) by (simp add: request_filter_serves [OF find(1) assms(3)] serve_http_def)
qed

text \<open>The identity of a request is settled before anything else and stays.\<close>

lemma forward_to_identity:
  "ctx_request_id (fst (snd (forward_to env lv f name limit rq now ctx sh))) = ctx_request_id ctx"
  by (simp add: forward_to_def Let_def split: option.split prod.split)

lemma request_filter_identity:
  "ctx_request_id (fst (snd (request_filter env fid lv rq now ctx sh))) =
     fst (for_request (e_pid env) (Option.bind (rq_request_id rq) (to_str (e_http env))) (sh_next_id sh))"
  by (simp add: request_filter_def serve_http_def Let_def forward_to_identity
      split: option.split prod.split reply.split decision.split)

end
