(* ===== verification/Udpproxy.thy ===== *)
theory Udpproxy
  imports Proxy Udp
begin

text \<open>
  \<open>udpproxy.rs\<close>: one UDP frontend. Sockets belong to the operating system: the record
  \<open>udp_os\<close> holds binding, connecting and sending, over a world; the task that carries answers
  back to the client is not modelled. The loop of \<open>run\<close> is a step on the event \<open>select!\<close>
  takes: a datagram, a failed read, the sweep, or the signal to stop.
\<close>

definition UDP_MOST :: nat where "UDP_MOST = 9216"
definition SWEEP :: duration where "SWEEP = millis 500"
definition PASSING_LIFE :: duration where "PASSING_LIFE = secs 5"

record ('s, 'w) udp_os =
  udp_bind :: "string \<Rightarrow> 'w \<Rightarrow> 's option \<times> 'w"
  udp_connect :: "'s \<Rightarrow> socket_addr \<Rightarrow> 'w \<Rightarrow> bool \<times> 'w"
  udp_send :: "'s \<Rightarrow> byte list \<Rightarrow> 'w \<Rightarrow> 'w"

record ('s, 'w) udp_state =
  ud_sessions :: "'s sessions"
  ud_status :: status
  ud_balancer :: balancer
  ud_seen :: u64
  ud_next_id :: u64
  ud_world :: 'w

fun is_ipv4 :: "socket_addr \<Rightarrow> bool" where
  "is_ipv4 (SockV4 _ _) = True"
| "is_ipv4 (SockV6 _ _) = False"

fun display_socket :: "socket_addr \<Rightarrow> string" where
  "display_socket (SockV4 a p) = display_v4 a @ '':'' @ decimal (unat p)"
| "display_socket (SockV6 a p) = ''['' @ display_v6 a @ '']:'' @ decimal (unat p)"

definition open_upstream :: "('s, 'w) udp_os \<Rightarrow> socket_addr \<Rightarrow> 'w \<Rightarrow> 's option \<times> 'w" where
  "open_upstream os target w =
     (case udp_bind os (if is_ipv4 target then ''0.0.0.0:0'' else ''[::]:0'') w of
        (None, w) \<Rightarrow> (None, w)
      | (Some s, w) \<Rightarrow> (case udp_connect os s target w of
          (False, w) \<Rightarrow> (None, w) | (True, w) \<Rightarrow> (Some s, w)))"

definition udp_settings :: "('x, 'k) live \<Rightarrow> string \<Rightarrow> u32 \<times> u32" where
  "udp_settings lv fid = (case find_frontend lv fid of
     None \<Rightarrow> (0, 0) | Some f \<Rightarrow> (f_udp_session_limit f, f_idle_timeout_seconds f))"

definition drain_limit :: "('x, 'k) live \<Rightarrow> string \<Rightarrow> duration" where
  "drain_limit lv fid = secs (unat (case find_frontend lv fid of None \<Rightarrow> 0 | Some f \<Rightarrow> f_drain_timeout_seconds f))"

text \<open>What happens to a datagram whose client has no session yet, once a member was chosen.\<close>

definition open_session ::
  "('s, 'w) udp_os \<Rightarrow> u32 \<Rightarrow> frontend \<Rightarrow> string \<Rightarrow> backend_member \<Rightarrow> socket_addr \<Rightarrow> byte list \<Rightarrow> bool \<Rightarrow> instant \<Rightarrow> instant
     \<Rightarrow> ('s, 'w) udp_state \<Rightarrow> access option \<times> ('s, 'w) udp_state" where
  "open_session os pid f name m client datagram draining now later st =
     (let target = socket_of (bm_address m) (bm_port m) in
      case open_upstream os target (ud_world st) of
        (None, w) \<Rightarrow> (None, st\<lparr>ud_world := w, ud_status := backend_connect_failed (ud_status st)\<rparr>)
      | (Some s, w) \<Rightarrow>
          let st = st\<lparr>ud_world := udp_send os s datagram w\<rparr>;
              writes = access_log_writes (f_access_log f) (ud_seen st);
              (i, next) = (if writes then generate pid (ud_next_id st) else ([], ud_next_id st));
              st = st\<lparr>ud_seen := ud_seen st + 1, ud_next_id := next\<rparr>;
              log = (if writes then Some (access_udp (display_socket client) (to_backend name (bm_id m)
                (with_request_id i (new_access LogUdp (f_id f) (display_socket client) (later - now))))) else None)
          in (log, if draining then st
              else st\<lparr>ud_sessions := snd (insert_session (ud_sessions st) client name (bm_id m) target s now)\<rparr>))"

definition udp_forward ::
  "('s, 'w) udp_os \<Rightarrow> u32 \<Rightarrow> ('x, 'k) live \<Rightarrow> string \<Rightarrow> socket_addr \<Rightarrow> byte list \<Rightarrow> bool \<Rightarrow> instant \<Rightarrow> instant
     \<Rightarrow> ('s, 'w) udp_state \<Rightarrow> access option \<times> ('s, 'w) udp_state" where
  "udp_forward os pid lv fid client datagram draining now later st =
     (case refresh (ud_sessions st) client now of
        (Some session, t) \<Rightarrow>
          (None, st\<lparr>ud_sessions := t, ud_world := udp_send os (se_socket session) datagram (ud_world st)\<rparr>)
      | (None, _) \<Rightarrow>
          (case find_frontend lv fid of
             None \<Rightarrow> (None, st)
           | Some f \<Rightarrow>
               (case f_default_backend f of
                  None \<Rightarrow> (None, st)
                | Some name \<Rightarrow>
                    (case find_pool lv name of
                       None \<Rightarrow> (None, st)
                     | Some pool \<Rightarrow>
                         (case choose_by (ud_balancer st) pool (live_ring lv name) (as_bytes (display_socket client)) of
                            (None, b) \<Rightarrow> (None, st\<lparr>ud_balancer := b\<rparr>)
                          | (Some m, b) \<Rightarrow>
                              open_session os pid f name m client datagram draining now later (st\<lparr>ud_balancer := b\<rparr>))))))"

definition drop_missing_members :: "('x, 'k) live \<Rightarrow> balancer \<Rightarrow> 's sessions \<Rightarrow> 's sessions" where
  "drop_missing_members lv b t = snd (retain_sessions t (\<lambda>name member.
     case find_pool lv name of
       None \<Rightarrow> False
     | Some pool \<Rightarrow> list_ex (\<lambda>candidate. bm_id candidate = member) (eligible pool (bal_health b))))"

definition swept :: "('x, 'k) live \<Rightarrow> string \<Rightarrow> balancer \<Rightarrow> instant \<Rightarrow> 's sessions \<Rightarrow> 's sessions" where
  "swept lv fid b now t =
     (let (limit, idle) = udp_settings lv fid;
          t = snd (retune t limit idle);
          t = snd (expire t now)
      in drop_missing_members lv b t)"

section \<open>The loop\<close>

datatype udp_event = Datagram socket_addr "byte list" instant instant | ReadFailed | Sweep instant | Stop instant

record ('s, 'w) udp_run =
  ur_state :: "('s, 'w) udp_state"
  ur_stats :: nat
  ur_draining :: "instant option"
  ur_done :: bool

definition udp_start :: "('x, 'k) live \<Rightarrow> string \<Rightarrow> ('s, 'w) udp_state \<Rightarrow> ('s, 'w) udp_run" where
  "udp_start lv fid st =
     (let (limit, idle) = udp_settings lv fid;
          t = new_sessions limit idle;
          (at, status) = udp_frontend fid (ss_limit t) (ud_status st)
      in \<lparr>ur_state = st\<lparr>ud_sessions := t, ud_status := status\<rparr>, ur_stats = at, ur_draining = None, ur_done = False\<rparr>)"

definition note_stats :: "nat \<Rightarrow> ('s, 'w) udp_state \<Rightarrow> ('s, 'w) udp_state" where
  "note_stats at st = st\<lparr>ud_status :=
     stats_set at (of_nat (length (ss_entries (ud_sessions st)))) (ss_evicted (ud_sessions st)) (ud_status st)\<rparr>"

definition udp_sweep ::
  "('x, 'k) live \<Rightarrow> string \<Rightarrow> instant \<Rightarrow> ('s, 'w) udp_run \<Rightarrow> ('s, 'w) udp_run" where
  "udp_sweep lv fid now run =
     (let st = ur_state run;
          t = swept lv fid (ud_balancer st) now (ud_sessions st);
          st = st\<lparr>ud_sessions := t, ud_status := stats_set_limit (ur_stats run) (of_nat (ss_limit t)) (ud_status st)\<rparr>;
          st = note_stats (ur_stats run) st;
          run = run\<lparr>ur_state := st\<rparr>
      in case ur_draining run of
        None \<Rightarrow> run
      | Some started \<Rightarrow>
          if ss_entries t = [] then run\<lparr>ur_done := True\<rparr>
          else if now - started \<ge> drain_limit lv fid then
            (let t = snd (clear_sessions t);
                 st = st\<lparr>ud_sessions := t, ud_status := stats_set (ur_stats run) 0 (ss_evicted t) (ud_status st)\<rparr>
             in run\<lparr>ur_state := st, ur_done := True\<rparr>)
          else run)"

definition udp_step ::
  "('s, 'w) udp_os \<Rightarrow> u32 \<Rightarrow> ('x, 'k) live \<Rightarrow> string \<Rightarrow> udp_event \<Rightarrow> ('s, 'w) udp_run \<Rightarrow> ('s, 'w) udp_run" where
  "udp_step os pid lv fid e run =
     (if ur_done run then run
      else case e of
        Datagram client datagram now later \<Rightarrow>
          run\<lparr>ur_state := note_stats (ur_stats run)
            (snd (udp_forward os pid lv fid client datagram (ur_draining run \<noteq> None) now later (ur_state run)))\<rparr>
      | ReadFailed \<Rightarrow> run
      | Sweep now \<Rightarrow> udp_sweep lv fid now run
      | Stop now \<Rightarrow>
          if ur_draining run \<noteq> None then run
          else (let run = run\<lparr>ur_draining := Some now\<rparr>
                in if ss_entries (ud_sessions (ur_state run)) = [] then run\<lparr>ur_done := True\<rparr> else run))"

section \<open>Listeners\<close>

record udp_binding =
  ub_frontend :: string
  ub_address :: socket_addr

definition udp_bindings :: "config \<Rightarrow> udp_binding list" where
  "udp_bindings c = List.map_filter (\<lambda>f.
     if f_transport f \<noteq> Udp then None
     else map_option (\<lambda>v. \<lparr>ub_frontend = f_id f, ub_address = socket_of (v_address v) (f_port f)\<rparr>)
       (find (\<lambda>v. v_id v = f_vip f) (vips c))) (frontends c)"

section \<open>The table of a frontend\<close>

lemma table_inv_less: "table_inv (Suc n) t \<Longrightarrow> table_inv n t"
  by (simp add: table_inv_def table_wf_def)

lemma table_inv_mono: "table_inv n t \<Longrightarrow> k \<le> n \<Longrightarrow> table_inv k t"
  by (simp add: table_inv_def table_wf_def)

text \<open>A datagram: the client's session is used, one is opened, or the table is left alone.\<close>

lemma open_session_sessions:
  "ud_sessions (snd (open_session os pid f name m client datagram draining now later st)) = ud_sessions st \<or>
   \<not> draining \<and> (\<exists>s. ud_sessions (snd (open_session os pid f name m client datagram draining now later st)) =
     snd (insert_session (ud_sessions st) client name (bm_id m) (socket_of (bm_address m) (bm_port m)) s now))"
  by (cases "open_upstream os (socket_of (bm_address m) (bm_port m)) (ud_world st)")
    (auto simp: open_session_def Let_def split: option.splits prod.splits)

lemma udp_forward_held:
  assumes "session_holds (ud_sessions st) client"
  shows "\<exists>s t. refresh (ud_sessions st) client now = (Some s, t) \<and>
    ud_sessions (snd (udp_forward os pid lv fid client datagram draining now later st)) = t"
  using assms by (auto simp: session_holds_def refresh_def udp_forward_def Let_def)

lemma udp_forward_new:
  assumes "\<not> session_holds (ud_sessions st) client"
  shows "ud_sessions (snd (udp_forward os pid lv fid client datagram draining now later st)) = ud_sessions st \<or>
    \<not> draining \<and> (\<exists>name m at s. ud_sessions (snd (udp_forward os pid lv fid client datagram draining now later st)) =
      snd (insert_session (ud_sessions st) client name m at s now))"
proof -
  have none: "refresh (ud_sessions st) client now = (None, ud_sessions st)"
    using assms by (simp add: refresh_def session_holds_def)
  have "ud_sessions (snd (open_session os pid f name m client datagram draining now later (st\<lparr>ud_balancer := b\<rparr>))) = ud_sessions st \<or>
      \<not> draining \<and> (\<exists>n m' at s. ud_sessions (snd (open_session os pid f name m client datagram draining now later (st\<lparr>ud_balancer := b\<rparr>))) =
        snd (insert_session (ud_sessions st) client n m' at s now))" for f name m b
    using open_session_sessions [of os pid f name m client datagram draining now later "st\<lparr>ud_balancer := b\<rparr>"] by auto
  then show ?thesis
    unfolding udp_forward_def none by (auto split: option.split prod.split)
qed

text \<open>One datagram of a frontend that is not being drained.\<close>

definition udp_touch ::
  "('s, 'w) udp_os \<Rightarrow> u32 \<Rightarrow> string \<Rightarrow> ('x, 'k) live \<times> socket_addr \<times> byte list \<times> instant \<times> instant
     \<Rightarrow> ('s, 'w) udp_state \<Rightarrow> ('s, 'w) udp_state" where
  "udp_touch os pid fid e st = (case e of (lv, client, datagram, now, later) \<Rightarrow>
     snd (udp_forward os pid lv fid client datagram False now later st))"

lemma udp_forward_order:
  assumes inv: "table_inv (Suc n) (ud_sessions st)"
  shows "(let t' = ud_sessions (snd (udp_forward os pid lv fid client datagram draining now later st)); t = ud_sessions st in
    table_inv n t' \<and> ss_limit t' = ss_limit t \<and>
    (use_order t' = lru_use (ss_limit t) client (use_order t) \<and> (draining \<longrightarrow> client \<in> set (use_order t)) \<or>
      client \<notin> set (use_order t) \<and> use_order t' = use_order t))"
proof (cases "session_holds (ud_sessions st) client")
  case True
  with refresh_held [OF inv True, of now] udp_forward_held [OF True, of now os pid lv fid datagram draining later] show ?thesis
    by (auto simp: Let_def holds_order)
next
  case False
  show ?thesis
  proof (cases "ud_sessions (snd (udp_forward os pid lv fid client datagram draining now later st)) = ud_sessions st")
    case True
    then show ?thesis using False inv table_inv_less [of n] by (simp add: Let_def holds_order)
  next
    case changed: False
    with udp_forward_new [OF False, of os pid lv fid datagram draining now later] obtain name m at s where
      "\<not> draining" "ud_sessions (snd (udp_forward os pid lv fid client datagram draining now later st)) =
        snd (insert_session (ud_sessions st) client name m at s now)" by blast
    with insert_new [OF inv False, of name m at s now] show ?thesis by (auto simp: Let_def)
  qed
qed

interpretation udp_table: lru_table "use_order \<circ> ud_sessions" "ss_limit \<circ> ud_sessions" "udp_touch (os :: ('s, 'w) udp_os) pid fid"
  "\<lambda>e :: ('x, 'k) live \<times> socket_addr \<times> byte list \<times> instant \<times> instant. fst (snd e)" "\<lambda>n st. table_inv n (ud_sessions st)"
proof
  fix n and t :: "('s, 'w) udp_state" and e :: "('x, 'k) live \<times> socket_addr \<times> byte list \<times> instant \<times> instant"
  show "table_inv n (ud_sessions t) \<Longrightarrow> distinct ((use_order \<circ> ud_sessions) t) \<and>
      length ((use_order \<circ> ud_sessions) t) \<le> (ss_limit \<circ> ud_sessions) t \<and> 1 \<le> (ss_limit \<circ> ud_sessions) t"
    using session_table.ok_order by simp
  obtain lv client datagram now later where e: "e = (lv, client, datagram, now, later)" by (metis prod_cases5)
  assume inv: "table_inv (Suc n) (ud_sessions t)"
  from udp_forward_order [OF inv, of os pid lv fid client datagram False now later] show
    "(use_order \<circ> ud_sessions) (udp_touch os pid fid e t) =
       lru_use ((ss_limit \<circ> ud_sessions) t) (fst (snd e)) ((use_order \<circ> ud_sessions) t) \<or>
     fst (snd e) \<notin> set ((use_order \<circ> ud_sessions) t) \<and>
       (use_order \<circ> ud_sessions) (udp_touch os pid fid e t) = (use_order \<circ> ud_sessions) t"
    "(ss_limit \<circ> ud_sessions) (udp_touch os pid fid e t) = (ss_limit \<circ> ud_sessions) t"
    "table_inv n (ud_sessions (udp_touch os pid fid e t))"
    by (auto simp: e udp_touch_def Let_def)
qed

section \<open>A whole run\<close>

lemma retune_keeps:
  "table_inv n t \<Longrightarrow> table_inv n (snd (retune t limit idle)) \<and>
     set (use_order (snd (retune t limit idle))) \<subseteq> set (use_order t)"
  using retune_order [of n t limit idle] by (auto simp: table_inv_def dest: in_set_dropD)

lemma expire_keeps:
  assumes "table_inv n t"
  shows "table_inv n (snd (expire t now)) \<and> set (use_order (snd (expire t now))) \<subseteq> set (use_order t)"
proof -
  have "distinct (map fst (ss_entries t))" using assms by (simp add: table_inv_def table_wf_def)
  with filter_inv [OF assms] show ?thesis by (auto simp: expire_exact use_order_set)
qed

lemma retain_keeps:
  assumes "table_inv n t"
  shows "table_inv n (snd (retain_sessions t P)) \<and> set (use_order (snd (retain_sessions t P))) \<subseteq> set (use_order t) \<and>
    (\<forall>e \<in> set (ss_entries (snd (retain_sessions t P))). P (se_pool (snd e)) (se_member (snd e)))"
proof -
  have "distinct (map fst (ss_entries t))" using assms by (simp add: table_inv_def table_wf_def)
  moreover have "table_inv n (t\<lparr>ss_entries := filter Q (ss_entries t)\<rparr>)" for Q
    using filter_inv [OF assms, where P = Q and m = "ss_expired t"] by simp
  ultimately show ?thesis by (auto simp: retain_exact use_order_set)
qed

lemma swept_keeps:
  assumes "table_inv n t"
  shows "table_inv n (swept lv fid b now t) \<and> set (use_order (swept lv fid b now t)) \<subseteq> set (use_order t)"
proof -
  obtain limit idle where settings: "udp_settings lv fid = (limit, idle)" by fastforce
  have first: "table_inv n (snd (retune t limit idle))" "set (use_order (snd (retune t limit idle))) \<subseteq> set (use_order t)"
    using retune_keeps [OF assms] by simp_all
  have second: "table_inv n (snd (expire (snd (retune t limit idle)) now))"
    "set (use_order (snd (expire (snd (retune t limit idle)) now))) \<subseteq> set (use_order (snd (retune t limit idle)))"
    using expire_keeps [OF first(1)] by simp_all
  from retain_keeps [OF second(1)] second(2) first(2) settings show ?thesis
    by (simp add: swept_def drop_missing_members_def) blast
qed

text \<open>After a sweep every session is with a member that takes new connections, and was used.\<close>

lemma swept_members:
  assumes "table_inv n t" "e \<in> set (ss_entries (swept lv fid b now t))"
  shows "\<exists>pool. find_pool lv (se_pool (snd e)) = Some pool \<and>
    se_member (snd e) \<in> bm_id ` set (eligible pool (bal_health b))"
proof -
  obtain limit idle where settings: "udp_settings lv fid = (limit, idle)" by fastforce
  have "table_inv n (snd (expire (snd (retune t limit idle)) now))"
    using expire_keeps retune_keeps assms(1) by blast
  note kept = conjunct2 [OF conjunct2 [OF retain_keeps [OF this]], rule_format]
  have "e \<in> set (ss_entries (drop_missing_members lv b (snd (expire (snd (retune t limit idle)) now))))"
    using assms(2) settings by (simp add: swept_def)
  from kept [OF this [unfolded drop_missing_members_def]] have
    "case find_pool lv (se_pool (snd e)) of None \<Rightarrow> False
      | Some pool \<Rightarrow> list_ex (\<lambda>candidate. bm_id candidate = se_member (snd e)) (eligible pool (bal_health b))"
    by simp
  then show ?thesis by (auto simp: list_ex_iff split: option.splits intro: rev_image_eqI)
qed

abbreviation run_table :: "('s, 'w) udp_run \<Rightarrow> 's sessions" where
  "run_table run \<equiv> ud_sessions (ur_state run)"

lemma note_stats_table [simp]: "ud_sessions (note_stats at st) = ud_sessions st"
  by (simp add: note_stats_def)

lemma cleared_inv: "table_inv n t \<Longrightarrow> table_inv n (snd (clear_sessions t)) \<and> use_order (snd (clear_sessions t)) = []"
  by (auto simp: clear_sessions_def table_inv_def table_wf_def use_order_def)

lemma udp_sweep_keeps:
  assumes "table_inv n (run_table run)"
  shows "table_inv n (run_table (udp_sweep lv fid now run)) \<and>
    set (use_order (run_table (udp_sweep lv fid now run))) \<subseteq> set (use_order (run_table run)) \<and>
    ur_draining (udp_sweep lv fid now run) = ur_draining run"
  using swept_keeps [OF assms, of lv fid "ud_balancer (ur_state run)" now]
    cleared_inv [of n "swept lv fid (ud_balancer (ur_state run)) now (run_table run)"]
  by (auto simp: udp_sweep_def Let_def split: option.split)

lemma udp_step_keeps:
  assumes inv: "table_inv (Suc n) (run_table run)"
  shows "table_inv n (run_table (udp_step os pid lv fid e run)) \<and>
    (ur_draining run \<noteq> None \<longrightarrow> ur_draining (udp_step os pid lv fid e run) = ur_draining run \<and>
      set (use_order (run_table (udp_step os pid lv fid e run))) \<subseteq> set (use_order (run_table run)))"
proof (cases e)
  case (Datagram client datagram now later)
  from udp_forward_order [OF inv, of os pid lv fid client datagram "ur_draining run \<noteq> None" now later] Datagram table_inv_less [OF inv]
  show ?thesis by (auto simp: udp_step_def Let_def lru_use_def split: if_splits)
next
  case (Sweep now)
  with udp_sweep_keeps [OF table_inv_less [OF inv], of lv fid now] table_inv_less [OF inv] show ?thesis
    by (auto simp: udp_step_def)
qed (use table_inv_less [OF inv] in \<open>auto simp: udp_step_def Let_def\<close>)

text \<open>The events of a run, each with the configuration it is met with.\<close>

definition udp_steps ::
  "('s, 'w) udp_os \<Rightarrow> u32 \<Rightarrow> string \<Rightarrow> (('x, 'k) live \<times> udp_event) list \<Rightarrow> ('s, 'w) udp_run \<Rightarrow> ('s, 'w) udp_run" where
  "udp_steps os pid fid es run = fold (\<lambda>(lv, e). udp_step os pid lv fid e) es run"

lemma udp_steps_keeps:
  assumes "table_inv (n + length es) (run_table run)"
  shows "table_inv n (run_table (udp_steps os pid fid es run)) \<and>
    (ur_draining run \<noteq> None \<longrightarrow> ur_draining (udp_steps os pid fid es run) = ur_draining run \<and>
      set (use_order (run_table (udp_steps os pid fid es run))) \<subseteq> set (use_order (run_table run)))"
  using assms
proof (induction es arbitrary: run)
  case (Cons e es)
  obtain lv ev where e: "e = (lv, ev)" by fastforce
  let ?run = "udp_step os pid lv fid ev run"
  have step: "table_inv (n + length es) (run_table ?run)"
    "ur_draining run \<noteq> None \<Longrightarrow> ur_draining ?run = ur_draining run \<and> set (use_order (run_table ?run)) \<subseteq> set (use_order (run_table run))"
    using udp_step_keeps [of "n + length es" run os pid lv fid ev] Cons.prems by simp_all
  from Cons.IH [OF step(1)] step(2) show ?case by (auto simp: e udp_steps_def)
qed (simp add: udp_steps_def)

lemma udp_start_inv: "n < 2 ^ 64 \<Longrightarrow> table_inv n (run_table (udp_start lv fid st))"
  using new_sessions_inv [of n] by (simp add: udp_start_def Let_def case_prod_unfold)

lemma udp_drain_ends:
  assumes "ur_draining run = Some started" "started + drain_limit lv fid \<le> now" "\<not> ur_done run"
  shows "ur_done (udp_step os pid lv fid (Sweep now) run) \<and>
    ss_entries (run_table (udp_step os pid lv fid (Sweep now) run)) = []"
  using assms by (auto simp: udp_step_def udp_sweep_def Let_def clear_sessions_def)

text \<open>A run that is over has no session left, and stays over.\<close>

lemma udp_step_done:
  "(ur_done run \<Longrightarrow> ss_entries (run_table run) = []) \<Longrightarrow> ur_done (udp_step os pid lv fid e run) \<Longrightarrow>
     ss_entries (run_table (udp_step os pid lv fid e run)) = []"
  by (cases e) (auto simp: udp_step_def udp_sweep_def Let_def clear_sessions_def split: if_splits option.splits)

lemma udp_steps_done:
  "(ur_done run \<Longrightarrow> ss_entries (run_table run) = []) \<Longrightarrow> ur_done (udp_steps os pid fid es run) \<Longrightarrow>
     ss_entries (run_table (udp_steps os pid fid es run)) = []"
proof (induction es arbitrary: run)
  case (Cons e es)
  obtain lv ev where e: "e = (lv, ev)" by fastforce
  have "udp_steps os pid fid (e # es) run = udp_steps os pid fid es (udp_step os pid lv fid ev run)"
    by (simp add: udp_steps_def e)
  with Cons.IH [of "udp_step os pid lv fid ev run"] Cons.prems udp_step_done [of run os pid lv fid ev] show ?case by simp
qed (simp add: udp_steps_def)

end
