(* ===== verification/Traffic_Properties.thy ===== *)
theory Traffic_Properties
  imports Udpproxy Config_Properties
begin

text \<open>
  What the traffic path promises of whole requests, handshakes and UDP clients: it composes
  validation, routing, balancing, cookies and certificates. The sample configuration of the
  configuration crate, under an environment whose library calls always succeed, serves the
  witnesses.
\<close>

section \<open>Requests\<close>

text \<open>
  C11: The open connection counts are exact. Through any interleaving of requests that
  begin and end, under any configurations, and of changes in the health of members, the
  count kept for a frontend, a pool and a member is the number of requests in flight that
  were given that member.
\<close>

theorem open_counts_match_flight:
  assumes "traffic ssl env (flight, sh)"
  shows "open_on (sh_balancer sh) f p m = of_nat (in_flight f p m flight)"
  using traffic_counts [OF assms] by simp

definition sample_http :: http where
  "sample_http = \<lparr>to_str = Some, value_ok = (\<lambda>_. True), status_ok = (\<lambda>_. True), has_options = True\<rparr>"

definition sample_env :: "(unit, unit) proxy_env" where
  "sample_env = \<lparr>e_http = sample_http, e_lower = id, e_hmac = (\<lambda>key message. message), e_accepts = (\<lambda>_. True),
     e_pid = 7, e_semaphore = (\<lambda>n w. ((), w)), e_acquire = (\<lambda>g w. (True, w))\<rparr>"

definition sample_request :: "string list \<Rightarrow> request" where
  "sample_request cookies = \<lparr>rq_method = ''GET'', rq_host = None, rq_path = ''/'', rq_path_and_query = Some ''/'',
     rq_cookies = cookies, rq_request_id = None, rq_client = Some (V4 (Ipv4 192 0 2 7)), rq_client_text = None\<rparr>"

definition sample_shared :: "(unit, unit) shared" where
  "sample_shared = \<lparr>sh_status = new_status, sh_balancer = with_health new_health, sh_seen = 0, sh_gates = new_gates,
     sh_next_id = 0, sh_next_group = 0, sh_world = ()\<rparr>"

definition sample_ssl :: "(unit, unit, unit) openssl" where
  "sample_ssl = \<lparr>stack_from_pem = (\<lambda>t. if t = [] then None else Some [()]), private_key_from_pem = (\<lambda>t. Some ()),
     public_key = (\<lambda>x. Some ()), public_eq = (\<lambda>p k. True)\<rparr>"

definition sample_update :: config_update where
  "sample_update = \<lparr>u_generation = 1, u_config = sample_config, u_certificates = [], u_challenges = []\<rparr>"

abbreviation sample_live :: "(unit, unit) live" where
  "sample_live \<equiv> build_live sample_ssl id sample_update"

theorem open_counts_match_flight_witness:
  "open_on (sh_balancer (snd (snd (request_filter sample_env ''none'' sample_live (sample_request []) 0 (new_ctx 0) sample_shared))))
     ''site'' ''pool'' ''m'' = 0"
proof -
  let ?out = "request_filter sample_env ''none'' sample_live (sample_request []) 0 (new_ctx 0) sample_shared"
  have "traffic sample_ssl sample_env ([], sample_shared)"
    by (rule traffic.idle [of _ new_health]) (simp add: sample_shared_def)
  from traffic.begins [OF this, of "''none''" sample_update "sample_request []" 0 0 "fst ?out" "fst (snd ?out)" "snd (snd ?out)"]
  have "traffic sample_ssl sample_env ([(''none'', fst (snd ?out))], snd (snd ?out))" by (simp add: sample_env_def)
  from open_counts_match_flight [OF this, of "''site''" "''pool''" "''m''"] show ?thesis by simp
qed

lemma sample_pool_found:
  "find (\<lambda>b. b_id b = ''pool'') (backends sample_config) = Some (hd (backends sample_config))"
  "find (\<lambda>f. f_id f = ''site'') (frontends sample_config) = Some (hd (frontends sample_config))"
  by (simp_all add: sample_config_def)

lemma sample_members:
  "eligible (hd (backends sample_config)) new_health =
     [\<lparr>bm_id = ''m'', bm_address = V4 (Ipv4 10 1 0 1), bm_port = 80, bm_weight = 1, bm_admin_state = Enabled\<rparr>]"
  "enabled (hd (backends sample_config)) =
     [\<lparr>bm_id = ''m'', bm_address = V4 (Ipv4 10 1 0 1), bm_port = 80, bm_weight = 1, bm_admin_state = Enabled\<rparr>]"
  by (simp_all add: sample_config_def eligible_def enabled_def is_healthy_def new_health_def bt_get_def)

lemma sample_elsewhere: "challenge_reply [] 80 ''/'' = Elsewhere"
proof -
  have "normalise ''/'' = ''/''" by code_simp
  then show ?thesis unfolding challenge_elsewhere_iff by (simp add: CHALLENGE_PREFIX_def)
qed

lemma sample_servable:
  "f_application (hd (frontends sample_config)) = Http"
  "challenge_reply (u_challenges sample_update) (f_port (hd (frontends sample_config))) (rq_path (sample_request cs)) = Elsewhere"
  "decide (e_lower sample_env) (hd (frontends sample_config)) (asked_for (e_http sample_env) (sample_request cs))
     (rq_path (sample_request cs)) = Pool ''pool'' 0"
  "eligible (hd (backends sample_config)) (bal_health (sh_balancer sample_shared)) \<noteq> []"
  "has_options (e_http sample_env)" "\<not> bal_poisoned (sh_balancer sample_shared)"
  "length (by_weight (eligible (hd (backends sample_config)) (bal_health (sh_balancer sample_shared)))) < 2 ^ 64"
  "points_apart (hd (backends sample_config))"
  using sample_elsewhere
  by (simp_all add: sample_config_def [THEN arg_cong, of frontends] sample_update_def sample_request_def sample_env_def
      sample_http_def sample_shared_def with_health_def new_balancer_def sample_members by_weight_def points_apart_def
      decide_def rule_matches_def asked_for_def)

lemma sample_forward:
  "fst (request_filter sample_env ''site'' sample_live (sample_request cs) 0 (new_ctx 0) sample_shared) = Forward"
  using request_filter_total [where update = sample_update and fid = "''site''" and f = "hd (frontends sample_config)" and
      rq = "sample_request cs" and env = sample_env and name = "''pool''" and limit = 0 and pool = "hd (backends sample_config)"
      and sh = sample_shared and ssl = sample_ssl and now = 0 and ctx = "new_ctx 0"]
    sample_valid sample_pool_found sample_servable
  by (simp add: sample_update_def [THEN arg_cong, of u_config] sample_env_def [THEN arg_cong, of e_lower])

text \<open>
  C12: A request goes only where the configuration says. When a request is forwarded, its
  frontend is configured for HTTP, the path was no challenge of a certificate authority,
  the routing rules decided on a pool that exists, and the connection is for the address
  of an enabled and healthy member of that pool with the time limits of the rule.
\<close>

theorem forwarded_where_decided:
  assumes "request_filter env fid lv rq now ctx0 sh = (Forward, ctx, sh')"
  shows "\<exists>f name limit pool m peer. find_frontend lv fid = Some f \<and> f_application f = Http \<and>
    challenge_reply (lv_challenges lv) (f_port f) (rq_path rq) = Elsewhere \<and>
    decide (e_lower env) f (asked_for (e_http env) rq) (rq_path rq) = Pool name limit \<and>
    find_pool lv name = Some pool \<and> m \<in> set (eligible pool (bal_health (sh_balancer sh))) \<and>
    ctx_peer ctx = Some peer \<and> peer_address peer = socket_of (bm_address m) (bm_port m) \<and>
    peer_connection_timeout peer = connect_limit f \<and>
    peer_read_timeout peer = (if limit = 0 then None else Some (secs (unat limit)))"
proof -
  from request_filter_forwards [OF assms] obtain f name limit pool m share where *:
    "find_frontend lv fid = Some f" "f_application f = Http"
    "challenge_reply (lv_challenges lv) (f_port f) (rq_path rq) = Elsewhere"
    "decide (e_lower env) f (asked_for (e_http env) rq) (rq_path rq) = Pool name limit"
    "find_pool lv name = Some pool" "m \<in> set (eligible pool (bal_health (sh_balancer sh)))"
    "ctx_peer ctx = upstream (has_options (e_http env)) (socket_of (bm_address m) (bm_port m)) (connect_limit f) limit
      (b_connection_pooling pool) share"
    by (auto simp: sent_to_def)
  have "ctx_peer ctx \<noteq> None" using forward_has_peer [OF assms] .
  then obtain peer where peer: "ctx_peer ctx = Some peer" by blast
  then have "peer_address peer = socket_of (bm_address m) (bm_port m)" "peer_connection_timeout peer = connect_limit f"
    "peer_read_timeout peer = (if limit = 0 then None else Some (secs (unat limit)))"
    using *(7) by (auto simp: upstream_def word_gt_0 split: if_splits)
  with * peer show ?thesis by blast
qed

theorem forwarded_where_decided_witness:
  "\<exists>peer. ctx_peer (fst (snd (request_filter sample_env ''site'' sample_live (sample_request []) 0 (new_ctx 0) sample_shared))) =
     Some peer \<and> peer_address peer = SockV4 (Ipv4 10 1 0 1) 80 \<and> peer_read_timeout peer = None"
proof -
  let ?out = "request_filter sample_env ''site'' sample_live (sample_request []) 0 (new_ctx 0) sample_shared"
  have "?out = (Forward, fst (snd ?out), snd (snd ?out))" using sample_forward [of "[]"] by (cases ?out) simp
  from forwarded_where_decided [OF this] obtain f name limit pool m peer where *:
    "find_frontend sample_live ''site'' = Some f" "find_pool sample_live name = Some pool"
    "decide (e_lower sample_env) f (asked_for (e_http sample_env) (sample_request [])) (rq_path (sample_request [])) = Pool name limit"
    "m \<in> set (eligible pool (bal_health (sh_balancer sample_shared)))" "ctx_peer (fst (snd ?out)) = Some peer"
    "peer_address peer = socket_of (bm_address m) (bm_port m)"
    "peer_read_timeout peer = (if limit = 0 then None else Some (secs (unat limit)))" by blast
  have "f = hd (frontends sample_config)" using *(1) sample_pool_found
    by (simp add: find_frontend_def build_live_def sample_update_def)
  with *(3) sample_servable(3) have "name = ''pool''" "limit = 0" by simp_all
  with *(2) sample_pool_found have "pool = hd (backends sample_config)" by (simp add: find_pool_def build_live_def sample_update_def)
  with *(4) have "bm_address m = V4 (Ipv4 10 1 0 1)" "bm_port m = 80"
    by (simp_all add: sample_shared_def with_health_def new_balancer_def sample_members)
  with *(5-7) \<open>limit = 0\<close> show ?thesis by simp
qed

text \<open>
  C13: A request that can be served is served. Under an accepted configuration, a request
  to an HTTP frontend that the rules send to a pool with an enabled and healthy member is
  forwarded; consistent hashing is meant for pools whose members have different points on
  the ring.
\<close>

theorem servable_request_forwarded:
  assumes "validate (u_config update) = Inr ()" "find (\<lambda>f. f_id f = fid) (frontends (u_config update)) = Some f"
    and "f_application f = Http" "challenge_reply (u_challenges update) (f_port f) (rq_path rq) = Elsewhere"
    and "decide (e_lower env) f (asked_for (e_http env) rq) (rq_path rq) = Pool name limit"
    and "find (\<lambda>b. b_id b = name) (backends (u_config update)) = Some pool"
    and "eligible pool (bal_health (sh_balancer sh)) \<noteq> []" "has_options (e_http env)" "\<not> bal_poisoned (sh_balancer sh)"
    and "length (by_weight (eligible pool (bal_health (sh_balancer sh)))) < 2 ^ 64"
    and "b_algorithm pool = ConsistentHash \<Longrightarrow> points_apart pool"
  shows "fst (request_filter env fid (build_live ssl (e_lower env) update) rq now ctx sh) = Forward"
  using assms by (rule request_filter_total)

theorem servable_request_forwarded_witness:
  "fst (request_filter sample_env ''site'' sample_live (sample_request []) 0 (new_ctx 0) sample_shared) = Forward"
  using servable_request_forwarded [where update = sample_update and fid = "''site''" and f = "hd (frontends sample_config)" and
      rq = "sample_request []" and env = sample_env and name = "''pool''" and limit = 0 and pool = "hd (backends sample_config)"
      and sh = sample_shared and ssl = sample_ssl and now = 0 and ctx = "new_ctx 0"]
    sample_valid sample_pool_found sample_servable
  by (simp add: sample_update_def [THEN arg_cong, of u_config] sample_env_def [THEN arg_cong, of e_lower])






section \<open>Handshakes\<close>






text \<open>
  Every certificate that cannot be served is reported, once, with its reason, and no
  other is: the failures of an accepted configuration are exactly the certificates that TLS
  frontends list whose material is missing, unreadable or has the wrong key.
\<close>

lemma certificate_failures_reported:
  assumes "validate c = Inr ()"
  shows "distinct (map fst (load_failures (build_certificates ssl lower c material))) \<and>
    set (load_failures (build_certificates ssl lower c material)) =
      {(i, w). (\<exists>f \<in> set (frontends c). \<exists>tls. f_tls f = Some tls \<and> f_transport f = Tcp \<and> i \<in> set (tls_certificates tls)) \<and>
        load_result ssl material i = Inl w}"
proof -
  have "distinct (map f_id (frontends c))" using assms by (simp add: validate_ok config_ok_def ids_distinct_def)
  moreover have "listed_certificates (frontends c) =
      {i. \<exists>f \<in> set (frontends c). \<exists>tls. f_tls f = Some tls \<and> f_transport f = Tcp \<and> i \<in> set (tls_certificates tls)}"
    by (force simp: listed_certificates_def serves_tls_def)
  ultimately show ?thesis using build_certificates_ok [of c ssl lower material] by (simp add: Let_def)
qed

section \<open>UDP clients\<close>

text \<open>
  The session table of a UDP frontend stays within its bound. From its start, through
  any datagrams, failed reads, sweeps and stops, each under the configuration of its time,
  the table has one session for a client, never more sessions than its limit, and the limit
  is never zero.
\<close>

lemma udp_table_bounded:
  assumes "length es < 2 ^ 64"
  shows "let t = run_table (udp_steps os pid fid es (udp_start lv fid st)) in
    length (ss_entries t) \<le> ss_limit t \<and> distinct (map fst (ss_entries t)) \<and> 1 \<le> ss_limit t"
proof -
  have "table_inv (0 + length es) (run_table (udp_start lv fid st))" using udp_start_inv [OF assms, of lv fid st] by simp
  from udp_steps_keeps [OF this, of os pid fid] show ?thesis by (simp add: table_inv_def table_wf_def Let_def)
qed







end
