(* ===== verification/Failure.thy ===== *)
theory Failure
  imports Text
begin

text \<open>
  \<open>error.rs\<close> of the certificate crate: what can go wrong while a certificate is obtained, as
  a reason to act on and a text for the log.
\<close>

datatype failure_reason =
  Network | Server | Protocol | ChallengeRefused | Crypto | Configuration | NoQuorum | TooManyAttempts

definition REASONS :: "failure_reason list" where
  "REASONS = [Network, Server, Protocol, ChallengeRefused, Crypto, Configuration, NoQuorum, TooManyAttempts]"

fun reason_key :: "failure_reason \<Rightarrow> string" where
  "reason_key Network = ''acme.network''"
| "reason_key Server = ''acme.server''"
| "reason_key Protocol = ''acme.protocol''"
| "reason_key ChallengeRefused = ''acme.challenge''"
| "reason_key Crypto = ''acme.crypto''"
| "reason_key Configuration = ''acme.configuration''"
| "reason_key NoQuorum = ''acme.no_quorum''"
| "reason_key TooManyAttempts = ''acme.too_many_attempts''"

definition reason_worth_retrying :: "failure_reason \<Rightarrow> bool" where
  "reason_worth_retrying r \<longleftrightarrow> r \<in> {Network, Server, Protocol, NoQuorum}"

record failure =
  fl_reason :: failure_reason
  fl_detail :: string

definition new_failure :: "failure_reason \<Rightarrow> string \<Rightarrow> failure" where
  "new_failure r detail = \<lparr>fl_reason = r, fl_detail = detail\<rparr>"

definition worth_retrying :: "failure \<Rightarrow> bool" where
  "worth_retrying f = reason_worth_retrying (fl_reason f)"

lemma REASONS_complete: "r \<in> set REASONS"
  by (cases r) (simp_all add: REASONS_def)

lemma reason_key_inj: "reason_key r = reason_key s \<longleftrightarrow> r = s"
  by (cases r; cases s) simp_all

text \<open>Sequencing: the question mark operator.\<close>

definition and_then :: "('a, 'e) result \<Rightarrow> ('a \<Rightarrow> ('b, 'e) result) \<Rightarrow> ('b, 'e) result" where
  "and_then r f = (case r of Inl e \<Rightarrow> Inl e | Inr a \<Rightarrow> f a)"

definition ok_or :: "'e \<Rightarrow> 'a option \<Rightarrow> ('a, 'e) result" where
  "ok_or e x = (case x of None \<Rightarrow> Inl e | Some a \<Rightarrow> Inr a)"

lemma and_then_simps [simp]: "and_then (Inl e) f = Inl e" "and_then (Inr a) f = f a"
  by (simp_all add: and_then_def)

lemma and_then_Inr: "and_then r f = Inr b \<longleftrightarrow> (\<exists>a. r = Inr a \<and> f a = Inr b)"
  by (cases r) simp_all

lemma ok_or_simps [simp]: "ok_or e None = Inl e" "ok_or e (Some a) = Inr a"
  by (simp_all add: ok_or_def)

lemma ok_or_Inr: "ok_or e x = Inr a \<longleftrightarrow> x = Some a"
  by (cases x) simp_all

text \<open>The same over a world the calls change.\<close>

definition run_then :: "('a, 'e) result \<times> 'w \<Rightarrow> ('a \<Rightarrow> 'w \<Rightarrow> ('b, 'e) result \<times> 'w) \<Rightarrow> ('b, 'e) result \<times> 'w" where
  "run_then r f = (case r of (Inl e, w) \<Rightarrow> (Inl e, w) | (Inr a, w) \<Rightarrow> f a w)"

definition map_err :: "('e \<Rightarrow> 'f) \<Rightarrow> ('a, 'e) result \<times> 'w \<Rightarrow> ('a, 'f) result \<times> 'w" where
  "map_err g r = (case r of (Inl e, w) \<Rightarrow> (Inl (g e), w) | (Inr a, w) \<Rightarrow> (Inr a, w))"

lemma run_then_simps [simp]: "run_then (Inl e, w) f = (Inl e, w)" "run_then (Inr a, w) f = f a w"
  by (simp_all add: run_then_def)

lemma map_err_simps [simp]: "map_err g (Inl e, w) = (Inl (g e), w)" "map_err g (Inr a, w) = (Inr a, w)"
  by (simp_all add: map_err_def)

lemma run_then_Inr: "run_then r f = (Inr b, w') \<longleftrightarrow> (\<exists>a w. r = (Inr a, w) \<and> f a w = (Inr b, w'))"
  by (cases r; cases "fst r") auto

lemma map_err_Inr: "map_err g r = (Inr a, w) \<longleftrightarrow> r = (Inr a, w)"
  by (cases r; cases "fst r") auto

end
