(* ===== verification/Dns_Wire.thy ===== *)
theory Dns_Wire
  imports Failure
begin

text \<open>
  \<open>dns/wire.rs\<close>: DNS messages, written and read by hand. Names are strings of bytes.
\<close>

definition CLASS_IN :: u16 where "CLASS_IN = 1"
definition CLASS_NONE :: u16 where "CLASS_NONE = 254"
definition CLASS_ANY :: u16 where "CLASS_ANY = 255"
definition TYPE_SOA :: u16 where "TYPE_SOA = 6"
definition TYPE_TXT :: u16 where "TYPE_TXT = 16"
definition TYPE_TSIG :: u16 where "TYPE_TSIG = 250"
definition OPCODE_UPDATE :: byte where "OPCODE_UPDATE = 5"
definition MOST_LABEL :: nat where "MOST_LABEL = 63"
definition MOST_NAME :: nat where "MOST_NAME = 255"
definition MOST_STRING :: nat where "MOST_STRING = 255"
definition MOST_POINTERS :: nat where "MOST_POINTERS = 16"

definition dns_short :: failure where
  "dns_short = new_failure Protocol ''the name server sent a message that ends too early''"

section \<open>The header\<close>

record dns_header =
  dh_id :: u16
  dh_flags :: u16
  dh_counts :: "u16 \<times> u16 \<times> u16 \<times> u16"

definition rcode :: "dns_header \<Rightarrow> byte" where
  "rcode h = ucast (dh_flags h AND 0x000F)"

definition is_response :: "dns_header \<Rightarrow> bool" where
  "is_response h \<longleftrightarrow> dh_flags h AND 0x8000 \<noteq> 0"

definition write_dns_header :: "dns_header \<Rightarrow> byte list" where
  "write_dns_header h = (case dh_counts h of (a, b, c, d) \<Rightarrow>
     u16_to_be (dh_id h) @ u16_to_be (dh_flags h) @ u16_to_be a @ u16_to_be b @ u16_to_be c @ u16_to_be d)"

definition be_word :: "byte list \<Rightarrow> nat \<Rightarrow> u16" where
  "be_word bytes at = u16_from_be (bytes ! at) (bytes ! (at + 1))"

definition read_dns_header :: "byte list \<Rightarrow> (dns_header, failure) result" where
  "read_dns_header bytes =
     (if length bytes < 12 then Inl dns_short
      else Inr \<lparr>dh_id = be_word bytes 0, dh_flags = be_word bytes 2,
        dh_counts = (be_word bytes 4, be_word bytes 6, be_word bytes 8, be_word bytes 10)\<rparr>)"

section \<open>Names\<close>

datatype name_case = AsGiven | Canonical

definition lower_byte :: "byte \<Rightarrow> byte" where
  "lower_byte b = (if 65 \<le> b \<and> b \<le> 90 then b + 32 else b)"

fun write_label_bytes :: "name_case \<Rightarrow> string \<Rightarrow> byte list" where
  "write_label_bytes AsGiven label = as_bytes label"
| "write_label_bytes Canonical label = map lower_byte (as_bytes label)"

fun write_labels :: "string \<Rightarrow> name_case \<Rightarrow> string list \<Rightarrow> byte list \<Rightarrow> (byte list, failure) result" where
  "write_labels name c [] out = Inr out"
| "write_labels name c (label # ls) out =
     (if label = [] then Inl (new_failure Protocol (name @ '' has an empty label''))
      else if length label > MOST_LABEL then
        Inl (new_failure Protocol (''a label of '' @ name @ '' is longer than '' @ decimal MOST_LABEL @ '' bytes''))
      else write_labels name c ls (out @ of_nat (length label) # write_label_bytes c label))"

definition write_name :: "string \<Rightarrow> name_case \<Rightarrow> byte list \<Rightarrow> (byte list, failure) result" where
  "write_name name c out =
     (let trimmed = trim_end (\<lambda>ch. ch = CHR ''.'') name in
      and_then (if trimmed = [] then Inr out else write_labels name c (split_on (CHR ''.'') trimmed) out) (\<lambda>out'.
      let out' = out' @ [0] in
      if length out' - length out > MOST_NAME then
        Inl (new_failure Protocol (name @ '' is longer than '' @ decimal MOST_NAME @ '' bytes on the wire''))
      else Inr out'))"

text \<open>
  The loop of \<open>read_name\<close>: the name so far, the position, where reading goes on, the pointers
  followed. It ends because a step moves on in the message or follows one more pointer.
\<close>

function read_name_from ::
  "byte list \<Rightarrow> string \<Rightarrow> nat \<Rightarrow> nat option \<Rightarrow> nat \<Rightarrow> (string \<times> nat, failure) result" where
  "read_name_from bytes name at after jumps =
     (case get_at at bytes of
        None \<Rightarrow> Inl dns_short
      | Some len \<Rightarrow>
          if len AND 0xC0 = 0xC0 then
            (case get_at (at + 1) bytes of
               None \<Rightarrow> Inl dns_short
             | Some low \<Rightarrow>
                 if jumps + 1 > MOST_POINTERS then
                   Inl (new_failure Protocol ''the name compression in this answer leads in a circle'')
                 else read_name_from bytes name (unat (u16_from_be (len AND 0x3F) low))
                   (Some (case after of None \<Rightarrow> at + 2 | Some a \<Rightarrow> a)) (jumps + 1))
          else if len AND 0xC0 \<noteq> 0 then
            Inl (new_failure Protocol ''a label length in this answer uses a reserved form'')
          else if len = 0 then Inr (name, case after of None \<Rightarrow> at + 1 | Some a \<Rightarrow> a)
          else (case get_range (at + 1) (at + 1 + unat len) bytes of
            None \<Rightarrow> Inl dns_short
          | Some label \<Rightarrow> read_name_from bytes
              ((if name = [] then name else name @ ''.'') @ utf8_lossy (text_of label)) (at + 1 + unat len) after jumps))"
  by pat_completeness auto

termination read_name_from
  by (relation "measures [\<lambda>(bytes, name, at, after, jumps). Suc MOST_POINTERS - jumps,
      \<lambda>(bytes, name, at, after, jumps). length bytes - at]") (auto simp: get_at_Some)

declare read_name_from.simps [simp del]

definition read_name :: "byte list \<Rightarrow> nat \<Rightarrow> (string \<times> nat, failure) result" where
  "read_name bytes start = read_name_from bytes [] start None 0"

section \<open>Records\<close>

record dns_record =
  dr_name :: string
  dr_kind :: u16
  dr_class :: u16
  dr_ttl :: u32
  dr_data :: "byte list"

definition txt_data :: "string \<Rightarrow> (byte list, failure) result" where
  "txt_data value =
     (if length value > MOST_STRING then Inl (new_failure Protocol
        (''a TXT value longer than '' @ decimal MOST_STRING @ '' bytes needs more than one string''))
      else Inr (of_nat (length value) # as_bytes value))"

definition add_txt :: "string \<Rightarrow> string \<Rightarrow> u32 \<Rightarrow> (dns_record, failure) result" where
  "add_txt name value ttl = and_then (txt_data value) (\<lambda>data.
     Inr \<lparr>dr_name = name, dr_kind = TYPE_TXT, dr_class = CLASS_IN, dr_ttl = ttl, dr_data = data\<rparr>)"

definition delete_txt_set :: "string \<Rightarrow> dns_record" where
  "delete_txt_set name =
     \<lparr>dr_name = name, dr_kind = TYPE_TXT, dr_class = CLASS_ANY, dr_ttl = 0, dr_data = []\<rparr>"

definition write_record :: "dns_record \<Rightarrow> byte list \<Rightarrow> (byte list, failure) result" where
  "write_record r out = and_then (write_name (dr_name r) AsGiven out) (\<lambda>out.
     if length (dr_data r) \<ge> 2 ^ 16 then
       Inl (new_failure Protocol ''a record carries more data than one record can'')
     else Inr (out @ u16_to_be (dr_kind r) @ u16_to_be (dr_class r) @ u32_to_be (dr_ttl r)
       @ u16_to_be (of_nat (length (dr_data r))) @ dr_data r))"

fun write_records :: "dns_record list \<Rightarrow> byte list \<Rightarrow> (byte list, failure) result" where
  "write_records [] out = Inr out"
| "write_records (r # rs) out = and_then (write_record r out) (write_records rs)"

section \<open>Messages\<close>

definition dns_update :: "u16 \<Rightarrow> string \<Rightarrow> dns_record list \<Rightarrow> (byte list, failure) result" where
  "dns_update i zone changes =
     (if length changes \<ge> 2 ^ 16 then Inl (new_failure Protocol ''more changes than one update message holds'')
      else let message = write_dns_header \<lparr>dh_id = i, dh_flags = push_bit 11 (ucast OPCODE_UPDATE),
             dh_counts = (1, 0, of_nat (length changes), 0)\<rparr> in
        and_then (write_name zone AsGiven message) (\<lambda>message.
        write_records changes (message @ u16_to_be TYPE_SOA @ u16_to_be CLASS_IN)))"

definition dns_question :: "u16 \<Rightarrow> string \<Rightarrow> u16 \<Rightarrow> (byte list, failure) result" where
  "dns_question i name kind = and_then
     (write_name name AsGiven (write_dns_header \<lparr>dh_id = i, dh_flags = 0x0100, dh_counts = (1, 0, 0, 0)\<rparr>))
     (\<lambda>message. Inr (message @ u16_to_be kind @ u16_to_be CLASS_IN))"

text \<open>The character strings of a record; a string that runs past the end is cut.\<close>

function read_strings :: "byte list \<Rightarrow> string" where
  "read_strings [] = []"
| "read_strings (len # rest) = utf8_lossy (text_of (take (unat len) rest)) @ read_strings (drop (unat len) rest)"
  by pat_completeness auto

termination read_strings
  by (relation "measure length") auto

fun skip_questions :: "byte list \<Rightarrow> nat \<Rightarrow> nat \<Rightarrow> (nat, failure) result" where
  "skip_questions bytes 0 at = Inr at"
| "skip_questions bytes (Suc n) at = and_then (read_name bytes at) (\<lambda>(_, next). skip_questions bytes n (next + 4))"

definition get_word :: "failure \<Rightarrow> byte list \<Rightarrow> nat \<Rightarrow> (u16, failure) result" where
  "get_word e bytes at = and_then (ok_or e (get_at at bytes)) (\<lambda>high.
     and_then (ok_or e (get_at (at + 1) bytes)) (\<lambda>low. Inr (u16_from_be high low)))"

fun read_answers :: "byte list \<Rightarrow> nat \<Rightarrow> nat \<Rightarrow> (string list, failure) result" where
  "read_answers bytes 0 at = Inr []"
| "read_answers bytes (Suc n) at = and_then (read_name bytes at) (\<lambda>(_, next).
     and_then (get_word dns_short bytes next) (\<lambda>kind.
     and_then (get_word dns_short bytes (next + 8)) (\<lambda>len.
     let start = next + 10 in
     and_then (ok_or dns_short (get_range start (start + unat len) bytes)) (\<lambda>data.
     and_then (read_answers bytes n (start + unat len)) (\<lambda>values.
     Inr (if kind = TYPE_TXT then read_strings data # values else values))))))"

definition txt_answers :: "byte list \<Rightarrow> (string list, failure) result" where
  "txt_answers bytes = and_then (read_dns_header bytes) (\<lambda>head.
     case dh_counts head of (questions, answers, _, _) \<Rightarrow>
       and_then (skip_questions bytes (unat questions) 12) (read_answers bytes (unat answers)))"

section \<open>Reading stays inside the message\<close>

lemma read_name_from_bounds:
  "read_name_from bytes name at after jumps = Inr (n, pos) \<Longrightarrow> (\<forall>a. after = Some a \<longrightarrow> a \<le> length bytes) \<Longrightarrow>
     pos \<le> length bytes \<and> (after = None \<longrightarrow> at < pos) \<and> (\<forall>a. after = Some a \<longrightarrow> pos = a)"
proof (induction bytes name at after jumps rule: read_name_from.induct)
  case (1 bytes name at after jumps)
  obtain len where len: "get_at at bytes = Some len" using 1(3) by (subst (asm) read_name_from.simps) (auto split: option.splits)
  then have inside: "at < length bytes" by (simp add: get_at_Some)
  note step = 1(3) [unfolded read_name_from.simps [of bytes name at after jumps] len option.case]
  show ?case
  proof (cases "len AND 0xC0 = 0xC0")
    case True
    then obtain low where low: "get_at (at + 1) bytes = Some low" "\<not> jumps + 1 > MOST_POINTERS"
      using step by (auto split: option.splits if_splits)
    then have "at + 2 \<le> length bytes" by (simp add: get_at_Some)
    with 1(1) [OF len True low] step 1(4) True low show ?thesis by (auto split: option.splits)
  next
    case False
    then have plain: "len AND 0xC0 = 0" using step by (auto split: if_splits)
    show ?thesis
    proof (cases "len = 0")
      case True
      with step inside 1(4) show ?thesis by (auto split: option.splits)
    next
      case nonzero: False
      then obtain label where label: "get_range (at + 1) (at + 1 + unat len) bytes = Some label"
        using step plain by (auto split: option.splits)
      with 1(2) [OF len False _ nonzero label] step 1(4) plain nonzero show ?thesis by auto
    qed
  qed
qed

lemma read_name_bounds: "read_name bytes start = Inr (n, pos) \<Longrightarrow> start < pos \<and> pos \<le> length bytes"
  unfolding read_name_def using read_name_from_bounds by fastforce

section \<open>What is written is read back\<close>

definition wire_label :: "string \<Rightarrow> byte list" where
  "wire_label label = of_nat (length label) # as_bytes label"

definition label_ok :: "string \<Rightarrow> bool" where
  "label_ok label \<longleftrightarrow> label \<noteq> [] \<and> length label \<le> MOST_LABEL"

lemma write_labels_given:
  "write_labels name AsGiven ls out = Inr out' \<longleftrightarrow> list_all label_ok ls \<and> out' = out @ concat (map wire_label ls)"
  by (induction ls arbitrary: out) (auto simp: label_ok_def wire_label_def not_less)

lemma small_length_bits:
  assumes "n \<le> 63"
  shows "(of_nat n :: byte) AND 0xC0 = 0" "unat (of_nat n :: byte) = n"
proof -
  show n: "unat (of_nat n :: byte) = n" using assms by (simp add: unat_of_nat)
  have "take_bit 6 (of_nat n :: byte) = of_nat n"
    using assms by (simp add: word_unat_eq_iff unsigned_take_bit_eq n) (simp add: take_bit_eq_mod)
  then have "(of_nat n :: byte) AND 0xC0 = of_nat n AND (mask 6 AND 0xC0)"
    by (metis and.assoc take_bit_eq_mask)
  then show "(of_nat n :: byte) AND 0xC0 = 0" by (simp add: mask_eq_exp_minus_1)
qed

fun dotted :: "string \<Rightarrow> string list \<Rightarrow> string" where
  "dotted name [] = name"
| "dotted name (l # ls) = dotted ((if name = [] then name else name @ ''.'') @ l) ls"

lemma dotted_join: "list_all label_ok ls \<Longrightarrow> dotted name ls =
    (if ls = [] then name else if name = [] then join ''.'' ls else name @ ''.'' @ join ''.'' ls)"
proof (induction ls arbitrary: name)
  case (Cons l ls)
  have "l \<noteq> []" using Cons.prems by (simp add: label_ok_def)
  with Cons.IH [of "(if name = [] then name else name @ ''.'') @ l"] Cons.prems show ?case by (simp add: join_Cons)
qed simp

lemma get_range_middle: "get_range (length xs) (length xs + length ys) (xs @ ys @ zs) = Some ys"
  by (simp add: get_range_def)

lemma get_at_middle: "get_at (length xs) (xs @ y # zs) = Some y"
  by (simp add: get_at_def)

lemma read_labels:
  assumes "list_all label_ok ls" "list_all utf8_valid ls"
  shows "read_name_from (pre @ concat (map wire_label ls) @ 0 # rest) name (length pre) None j =
    Inr (dotted name ls, length pre + length (concat (map wire_label ls)) + 1)"
  using assms
proof (induction ls arbitrary: pre name)
  case Nil
  show ?case by (subst read_name_from.simps) (simp add: get_at_middle)
next
  case (Cons l ls)
  let ?tail = "concat (map wire_label ls) @ 0 # rest"
  let ?bytes = "pre @ of_nat (length l) # as_bytes l @ ?tail"
  have l: "l \<noteq> []" "length l \<le> 63" "utf8_valid l" using Cons.prems by (simp_all add: label_ok_def MOST_LABEL_def)
  note bits = small_length_bits [OF l(2)]
  have nonzero: "(of_nat (length l) :: byte) \<noteq> 0" using l(1) bits(2) by (metis length_0_conv unat_0)
  have "get_range (length pre + 1) (length pre + 1 + length l) ?bytes = Some (as_bytes l)"
    using get_range_middle [of "pre @ [of_nat (length l)]" "as_bytes l" ?tail] by simp
  then have "read_name_from ?bytes name (length pre) None j =
      read_name_from ?bytes ((if name = [] then name else name @ ''.'') @ l) (length pre + 1 + length l) None j"
    using nonzero bits
    by (subst read_name_from.simps) (simp add: get_at_middle utf8_lossy_valid [OF l(3)])
  also have "\<dots> = Inr (dotted name (l # ls), length pre + 1 + length l + length (concat (map wire_label ls)) + 1)"
    using Cons.IH [of "pre @ of_nat (length l) # as_bytes l" "(if name = [] then name else name @ ''.'') @ l"] Cons.prems
    by simp
  finally show ?case by (simp add: wire_label_def [of l] add.assoc del: dotted.simps)
qed

lemma trimmed_labels_valid:
  "utf8_valid name \<Longrightarrow> list_all utf8_valid (split_on (CHR ''.'') (trim_end (\<lambda>ch. ch = CHR ''.'') name))"
  by (intro split_on_valid trim_end_valid) (simp_all add: byte_in_def)

text \<open>A name that can be written is read back without its trailing dots, wherever it stands.\<close>

lemma read_written_name:
  assumes "write_name name AsGiven out = Inr out'" "utf8_valid name"
  shows "\<exists>enc. out' = out @ enc \<and> read_name (out @ enc @ rest) (length out) =
    Inr (trim_end (\<lambda>ch. ch = CHR ''.'') name, length out')"
proof -
  let ?t = "trim_end (\<lambda>ch. ch = CHR ''.'') name"
  let ?ls = "if ?t = [] then [] else split_on (CHR ''.'') ?t"
  have w: "list_all label_ok ?ls" "out' = out @ concat (map wire_label ?ls) @ [0]"
    using assms(1) by (auto simp: write_name_def and_then_Inr write_labels_given Let_def split: if_splits)
  have valid: "list_all utf8_valid ?ls" using trimmed_labels_valid [OF assms(2)] by simp
  have "dotted [] ?ls = ?t" using dotted_join [OF w(1), of "[]"] by (simp add: join_split_on)
  with read_labels [OF w(1) valid, of out rest "[]" 0] w(2) show ?thesis
    unfolding read_name_def by (intro exI [of _ "concat (map wire_label ?ls) @ [0]"]) (simp del: split_on.simps)
qed

lemma unat_u16_length: "length xs < 2 ^ 16 \<Longrightarrow> unat (of_nat (length xs) :: u16) = length xs"
  by (simp add: unat_of_nat)

lemma get_word_middle: "get_word e (xs @ u16_to_be w @ zs) (length xs) = Inr w"
proof -
  obtain a b where ab: "u16_to_be w = [a, b]" "u16_from_be a b = w" by (rule u16_to_be_elems)
  have "get_at (length xs) (xs @ a # b # zs) = Some a" "get_at (length xs + 1) (xs @ a # b # zs) = Some b"
    by (simp_all add: get_at_def nth_append)
  with ab show ?thesis by (simp add: get_word_def)
qed

lemma read_txt_data: "txt_data v = Inr d \<Longrightarrow> utf8_valid v \<Longrightarrow> read_strings d = v \<and> length d < 2 ^ 16"
  by (auto simp: txt_data_def MOST_STRING_def unat_of_nat utf8_lossy_valid split: if_splits)

definition txt_values :: "dns_record list \<Rightarrow> string list" where
  "txt_values rs = map (\<lambda>r. read_strings (dr_data r)) (filter (\<lambda>r. dr_kind r = TYPE_TXT) rs)"

lemma read_answer_step:
  assumes "write_record r out = Inr out'" "utf8_valid (dr_name r)"
  shows "\<exists>enc. out' = out @ enc \<and> read_answers (out' @ rest) (Suc n) (length out) =
    and_then (read_answers (out' @ rest) n (length out')) (\<lambda>values.
      Inr (if dr_kind r = TYPE_TXT then read_strings (dr_data r) # values else values))"
proof -
  obtain out1 where out1: "write_name (dr_name r) AsGiven out = Inr out1" "length (dr_data r) < 2 ^ 16"
    "out' = out1 @ u16_to_be (dr_kind r) @ u16_to_be (dr_class r) @ u32_to_be (dr_ttl r)
       @ u16_to_be (of_nat (length (dr_data r))) @ dr_data r"
    using assms(1) by (auto simp: write_record_def and_then_Inr not_le split: if_splits)
  let ?head = "u16_to_be (dr_kind r) @ u16_to_be (dr_class r) @ u32_to_be (dr_ttl r)"
  let ?size = "u16_to_be (of_nat (length (dr_data r)))"
  obtain enc where enc: "out1 = out @ enc" and name: "read_name (out' @ rest) (length out) =
      Inr (trim_end (\<lambda>ch. ch = CHR ''.'') (dr_name r), length out1)"
    using read_written_name [OF out1(1) assms(2), of "?head @ ?size @ dr_data r @ rest"] out1(3) by auto
  have kind: "get_word dns_short (out' @ rest) (length out1) = Inr (dr_kind r)"
    using get_word_middle [of dns_short out1 "dr_kind r"] out1(3) by simp
  have len: "get_word dns_short (out' @ rest) (length out1 + 8) = Inr (of_nat (length (dr_data r)))"
    using get_word_middle [of dns_short "out1 @ ?head" "of_nat (length (dr_data r))" "dr_data r @ rest"] out1(3)
    by (simp add: length_u16_to_be length_u32_to_be)
  have data: "get_range (length out1 + 10) (length out1 + 10 + length (dr_data r)) (out' @ rest) = Some (dr_data r)"
    using get_range_middle [of "out1 @ ?head @ ?size" "dr_data r" rest] out1(3)
    by (simp add: length_u16_to_be length_u32_to_be add.assoc)
  have "length out' = length out1 + 10 + length (dr_data r)"
    using out1(3) by (simp add: length_u16_to_be length_u32_to_be)
  with name kind len data unat_u16_length [OF out1(2)] enc out1(3) show ?thesis
    by (simp add: Let_def length_u16_to_be length_u32_to_be add.assoc)
qed

lemma write_record_extends: "write_record r out = Inr out' \<Longrightarrow> utf8_valid (dr_name r) \<Longrightarrow> \<exists>enc. out' = out @ enc"
  using read_answer_step by blast

lemma read_written_records:
  assumes "write_records rs out = Inr out'" "list_all (\<lambda>r. utf8_valid (dr_name r)) rs"
  shows "(\<exists>enc. out' = out @ enc) \<and> read_answers (out' @ rest) (length rs) (length out) = Inr (txt_values rs)"
  using assms
proof (induction rs arbitrary: out)
  case (Cons r rs)
  then obtain out1 where out1: "write_record r out = Inr out1" "write_records rs out1 = Inr out'" by (auto simp: and_then_Inr)
  from Cons.IH [OF out1(2)] Cons.prems(2) obtain enc1 where enc1: "out' = out1 @ enc1"
    "read_answers (out' @ rest) (length rs) (length out1) = Inr (txt_values rs)" by auto
  from read_answer_step [OF out1(1), of "enc1 @ rest" "length rs"] Cons.prems(2) obtain enc where
    "out1 = out @ enc" "read_answers (out1 @ enc1 @ rest) (Suc (length rs)) (length out) =
      and_then (read_answers (out1 @ enc1 @ rest) (length rs) (length out1)) (\<lambda>values.
      Inr (if dr_kind r = TYPE_TXT then read_strings (dr_data r) # values else values))" by auto
  with enc1 show ?case by (simp add: txt_values_def)
qed (simp add: txt_values_def)

lemma dns_header_read: "read_dns_header (write_dns_header h @ rest) = Inr h"
proof -
  obtain a b c d where counts: "dh_counts h = (a, b, c, d)" by (metis prod_cases4)
  have word: "be_word (xs @ u16_to_be w @ zs) n = w" if "n = length xs" for xs w zs n
  proof -
    obtain x y where "u16_to_be w = [x, y]" "u16_from_be x y = w" by (rule u16_to_be_elems)
    then show ?thesis using that by (simp add: be_word_def nth_append)
  qed
  note len = length_u16_to_be
  have "be_word (write_dns_header h @ rest) 0 = dh_id h"
    using word [of 0 "[]" "dh_id h"] counts by (simp add: write_dns_header_def)
  moreover have "be_word (write_dns_header h @ rest) 2 = dh_flags h"
    using word [of 2 "u16_to_be (dh_id h)" "dh_flags h"] counts by (simp add: write_dns_header_def len)
  moreover have "be_word (write_dns_header h @ rest) 4 = a"
    using word [of 4 "u16_to_be (dh_id h) @ u16_to_be (dh_flags h)" a] counts by (simp add: write_dns_header_def len)
  moreover have "be_word (write_dns_header h @ rest) 6 = b"
    using word [of 6 "u16_to_be (dh_id h) @ u16_to_be (dh_flags h) @ u16_to_be a" b] counts
    by (simp add: write_dns_header_def len)
  moreover have "be_word (write_dns_header h @ rest) 8 = c"
    using word [of 8 "u16_to_be (dh_id h) @ u16_to_be (dh_flags h) @ u16_to_be a @ u16_to_be b" c] counts
    by (simp add: write_dns_header_def len)
  moreover have "be_word (write_dns_header h @ rest) 10 = d"
    using word [of 10 "u16_to_be (dh_id h) @ u16_to_be (dh_flags h) @ u16_to_be a @ u16_to_be b @ u16_to_be c" d] counts
    by (simp add: write_dns_header_def len)
  ultimately show ?thesis using counts by (simp add: read_dns_header_def write_dns_header_def len)
qed

lemma length_dns_header: "length (write_dns_header h) = 12"
  by (simp add: write_dns_header_def length_u16_to_be split: prod.split)

text \<open>
  A whole answer: the header, the question asked, the records. Its TXT values are read back
  in order.
\<close>

definition answer_bytes :: "dns_header \<Rightarrow> string \<Rightarrow> u16 \<Rightarrow> dns_record list \<Rightarrow> (byte list, failure) result" where
  "answer_bytes h name kind rs = and_then (write_name name AsGiven (write_dns_header h)) (\<lambda>m.
     write_records rs (m @ u16_to_be kind @ u16_to_be CLASS_IN))"

lemma read_whole_answer:
  assumes "answer_bytes h name kind rs = Inr m" "utf8_valid name" "list_all (\<lambda>r. utf8_valid (dr_name r)) rs"
    and "dh_counts h = (1, of_nat (length rs), c, d)" "length rs < 2 ^ 16"
  shows "txt_answers (m @ rest) = Inr (txt_values rs)"
proof -
  obtain m1 where m1: "write_name name AsGiven (write_dns_header h) = Inr m1"
    "write_records rs (m1 @ u16_to_be kind @ u16_to_be CLASS_IN) = Inr m"
    using assms(1) by (auto simp: answer_bytes_def and_then_Inr)
  let ?q = "m1 @ u16_to_be kind @ u16_to_be CLASS_IN"
  from read_written_records [OF m1(2) assms(3), of rest] obtain enc where enc: "m = ?q @ enc"
    "read_answers (m @ rest) (length rs) (length ?q) = Inr (txt_values rs)" by auto
  from read_written_name [OF m1(1) assms(2), of "u16_to_be kind @ u16_to_be CLASS_IN @ enc @ rest"] obtain name_bytes where
    nb: "m1 = write_dns_header h @ name_bytes" "\<exists>n. read_name (m @ rest) 12 = Inr (n, length m1)"
    using enc(1) by (auto simp: length_dns_header)
  have "skip_questions (m @ rest) 1 12 = Inr (length ?q)"
    using nb(2) by (auto simp: length_u16_to_be)
  moreover have "read_dns_header (m @ rest) = Inr h" using enc(1) nb(1) dns_header_read by simp
  ultimately show ?thesis using assms(4) enc(2) unat_u16_length [of rs] assms(5) by (simp add: txt_answers_def)
qed

end
