(* ===== verification/Tsig.thy ===== *)
theory Tsig
  imports Dns_Wire Matrix
begin

text \<open>
  \<open>dns/tsig.rs\<close>: signing an update and checking the signature of its answer. The keyed digest
  belongs to OpenSSL and is the parameter \<open>hmac\<close>, which may fail.
\<close>

definition FUDGE :: u16 where "FUDGE = 300"

record signed =
  sg_message :: "byte list"
  sg_mac :: "byte list"

fun algorithm_name :: "tsig_algorithm \<Rightarrow> string" where
  "algorithm_name HmacSha256 = ''hmac-sha256''"
| "algorithm_name HmacSha512 = ''hmac-sha512''"

definition tsig_missing :: failure where
  "tsig_missing = new_failure Crypto
     ''the name server answered without signing, and an unsigned answer proves nothing''"

definition tsig_variables ::
  "string \<Rightarrow> tsig_algorithm \<Rightarrow> u64 \<Rightarrow> u16 \<Rightarrow> byte list \<Rightarrow> (byte list, failure) result" where
  "tsig_variables key_name alg signed_at error other =
     and_then (write_name key_name Canonical []) (\<lambda>out.
     and_then (write_name (algorithm_name alg) Canonical (out @ u16_to_be CLASS_ANY @ u32_to_be 0)) (\<lambda>out.
     let out = out @ drop 2 (u64_to_be (unat signed_at)) @ u16_to_be FUDGE @ u16_to_be error in
     if length other \<ge> 2 ^ 16 then
       Inl (new_failure Crypto ''a signature carries more trailing data than one record holds'')
     else Inr (out @ u16_to_be (of_nat (length other)) @ other)))"

definition put_word :: "nat \<Rightarrow> u16 \<Rightarrow> byte list \<Rightarrow> byte list" where
  "put_word at w bytes = take at bytes @ u16_to_be w @ drop (at + 2) bytes"

definition tsig_append ::
  "byte list \<Rightarrow> string \<Rightarrow> tsig_algorithm \<Rightarrow> u64 \<Rightarrow> byte list \<Rightarrow> u16 \<Rightarrow> (byte list, failure) result" where
  "tsig_append message key_name alg signed_at mac i =
     and_then (write_name (algorithm_name alg) AsGiven []) (\<lambda>data.
     let data = data @ drop 2 (u64_to_be (unat signed_at)) @ u16_to_be FUDGE in
     if length mac \<ge> 2 ^ 16 then Inl (new_failure Crypto ''the signature is not a signature'')
     else let data = data @ u16_to_be (of_nat (length mac)) @ mac @ u16_to_be i @ u16_to_be 0 @ u16_to_be 0 in
     and_then (write_name key_name AsGiven message) (\<lambda>message.
     let message = message @ u16_to_be TYPE_TSIG @ u16_to_be CLASS_ANY @ u32_to_be 0 in
     if length data \<ge> 2 ^ 16 then Inl (new_failure Crypto ''the signature record does not fit'')
     else let message = message @ u16_to_be (of_nat (length data)) @ data;
              additional = be_word message 10 in
          if additional = - 1 then
            Inl (new_failure Crypto ''the message already carries as many records as it can'')
          else Inr (put_word 10 (additional + 1) message)))"

definition tsig_sign ::
  "(tsig_algorithm \<Rightarrow> byte list \<Rightarrow> byte list \<Rightarrow> (byte list, failure) result) \<Rightarrow> byte list \<Rightarrow> string \<Rightarrow> tsig_algorithm
     \<Rightarrow> byte list \<Rightarrow> u64 \<Rightarrow> (signed, failure) result" where
  "tsig_sign hmac message key_name alg secret signed_at =
     and_then (tsig_variables key_name alg signed_at 0 []) (\<lambda>vars.
     and_then (hmac alg secret (message @ vars)) (\<lambda>mac.
     and_then (read_dns_header message) (\<lambda>head.
     and_then (tsig_append message key_name alg signed_at mac (dh_id head)) (\<lambda>out.
     Inr \<lparr>sg_message = out, sg_mac = mac\<rparr>))))"

section \<open>Reading a signature\<close>

text \<open>Where the last of the remaining records starts.\<close>

fun walk_records :: "byte list \<Rightarrow> nat \<Rightarrow> nat \<Rightarrow> nat \<Rightarrow> (nat, failure) result" where
  "walk_records bytes 0 start at = Inr start"
| "walk_records bytes (Suc n) start at = and_then (read_name bytes at) (\<lambda>(_, next).
     and_then (get_word tsig_missing bytes (next + 8)) (\<lambda>len.
     walk_records bytes n at (next + 10 + unat len)))"

definition last_record :: "byte list \<Rightarrow> (nat option, failure) result" where
  "last_record bytes = and_then (read_dns_header bytes) (\<lambda>head.
     case dh_counts head of (questions, a, b, c) \<Rightarrow>
     and_then (skip_questions bytes (unat questions) 12) (\<lambda>at.
     let records = unat a + unat b + unat c in
     if records = 0 then Inr None
     else and_then (walk_records bytes records at at) (\<lambda>start. Inr (Some start))))"

record rdata =
  rd_algorithm :: string
  rd_signed_at :: u64
  rd_fudge :: u16
  rd_mac :: "byte list"
  rd_error :: u16
  rd_other :: "byte list"

definition rdata_field :: "byte list \<Rightarrow> nat \<Rightarrow> nat \<Rightarrow> (byte list, failure) result" where
  "rdata_field data start len =
     ok_or (new_failure Crypto ''the signature record ends too early'') (get_range start (start + len) data)"

definition rdata_word :: "byte list \<Rightarrow> nat \<Rightarrow> (u16, failure) result" where
  "rdata_word data start = and_then (rdata_field data start 2) (\<lambda>bs. Inr (u16_from_be (bs ! 0) (bs ! 1)))"

definition read_rdata :: "byte list \<Rightarrow> (rdata, failure) result" where
  "read_rdata data =
     and_then (read_name data 0) (\<lambda>(alg, at).
     and_then (rdata_field data at 6) (\<lambda>time.
     let signed_at = foldl (\<lambda>carried b. push_bit 8 carried OR ucast b) 0 time in
     and_then (rdata_word data (at + 6)) (\<lambda>fudge.
     and_then (rdata_word data (at + 8)) (\<lambda>mac_size.
     and_then (rdata_field data (at + 10) (unat mac_size)) (\<lambda>mac.
     let rest = at + 10 + unat mac_size in
     and_then (rdata_word data (rest + 2)) (\<lambda>error.
     and_then (rdata_word data (rest + 4)) (\<lambda>other_size.
     and_then (rdata_field data (rest + 6) (unat other_size)) (\<lambda>other.
     Inr \<lparr>rd_algorithm = alg, rd_signed_at = signed_at, rd_fudge = fudge, rd_mac = mac,
       rd_error = error, rd_other = other\<rparr>))))))))"

definition eq_ignore_ascii_case :: "string \<Rightarrow> string \<Rightarrow> bool" where
  "eq_ignore_ascii_case a b \<longleftrightarrow> map lower_byte (as_bytes a) = map lower_byte (as_bytes b)"

definition abs_diff :: "u64 \<Rightarrow> u64 \<Rightarrow> nat" where
  "abs_diff a b = (if b \<le> a then unat a - unat b else unat b - unat a)"

definition tsig_refusal :: "u16 \<Rightarrow> string" where
  "tsig_refusal error =
     (if error = 16 then ''the name server does not hold the key this update was signed with; the shared key stored here and the one in its configuration differ''
      else if error = 17 then ''the name server knows no key by this name''
      else if error = 18 then ''the name server and this machine disagree about the time by more than the signature allows''
      else ''the name server refused the signature with code '' @ decimal (unat error))"

text \<open>The signature record of an answer: where it starts and what it holds, once its name fits.\<close>

definition signature_of :: "byte list \<Rightarrow> string \<Rightarrow> (nat \<times> rdata, failure) result" where
  "signature_of response key_name =
     and_then (last_record response) (\<lambda>last.
     and_then (ok_or tsig_missing last) (\<lambda>at.
     and_then (read_name response at) (\<lambda>(name, after).
     and_then (get_word tsig_missing response after) (\<lambda>kind.
     if kind \<noteq> TYPE_TSIG then Inl tsig_missing
     else if \<not> eq_ignore_ascii_case name (trim_end (\<lambda>ch. ch = CHR ''.'') key_name) then
       Inl (new_failure Crypto (''the name server signed its answer as '' @ name @ '', not as '' @ key_name))
     else
     and_then (get_word tsig_missing response (after + 8)) (\<lambda>len.
     let start = after + 10 in
     and_then (ok_or (new_failure Crypto ''the signature record ends too early'')
       (get_range start (start + unat len) response)) (\<lambda>data.
     and_then (read_rdata data) (\<lambda>held. Inr (at, held))))))))"

definition tsig_verify ::
  "(tsig_algorithm \<Rightarrow> byte list \<Rightarrow> byte list \<Rightarrow> (byte list, failure) result) \<Rightarrow> byte list \<Rightarrow> string \<Rightarrow> tsig_algorithm
     \<Rightarrow> byte list \<Rightarrow> byte list \<Rightarrow> u64 \<Rightarrow> (unit, failure) result" where
  "tsig_verify hmac response key_name alg secret request_mac now =
     and_then (signature_of response key_name) (\<lambda>(at, held).
     if \<not> eq_ignore_ascii_case (rd_algorithm held) (algorithm_name alg) then
       Inl (new_failure Crypto (''the name server signed its answer with '' @ rd_algorithm held @ '', not with '' @ algorithm_name alg))
     else if rd_error held \<noteq> 0 then Inl (new_failure Configuration (tsig_refusal (rd_error held)))
     else if abs_diff now (rd_signed_at held) > unat (rd_fudge held) then
       Inl (new_failure Crypto (''the answer was signed '' @ decimal (abs_diff now (rd_signed_at held))
         @ ''s away from this clock, more than the '' @ decimal (unat (rd_fudge held)) @ ''s allowed''))
     else
       let stripped = take at response; additional = be_word stripped 10 in
       if additional = 0 then
         Inl (new_failure Crypto ''the answer carries a signature it does not count'')
       else
         let stripped = put_word 10 (additional - 1) stripped in
         and_then (tsig_variables key_name alg (rd_signed_at held) (rd_error held) (rd_other held)) (\<lambda>vars.
         if length request_mac \<ge> 2 ^ 16 then
           Inl (new_failure Crypto ''the request signature is not a signature'')
         else
           and_then (hmac alg secret (u16_to_be (of_nat (length request_mac)) @ request_mac @ stripped @ vars)) (\<lambda>expected.
           if length expected \<noteq> length (rd_mac held) \<or> expected \<noteq> rd_mac held then
             Inl (new_failure Crypto ''the answer's signature does not match the key this update was signed with'')
           else Inr ())))"

section \<open>What an accepted answer proves\<close>

lemma verify_proves:
  assumes "tsig_verify hmac response key_name alg secret request_mac now = Inr ()"
  shows "\<exists>at held vars. signature_of response key_name = Inr (at, held) \<and> rd_error held = 0 \<and>
    abs_diff now (rd_signed_at held) \<le> unat (rd_fudge held) \<and>
    tsig_variables key_name alg (rd_signed_at held) 0 (rd_other held) = Inr vars \<and>
    hmac alg secret (u16_to_be (of_nat (length request_mac)) @ request_mac @
      put_word 10 (be_word (take at response) 10 - 1) (take at response) @ vars) = Inr (rd_mac held)"
  using assms
  by (auto simp: tsig_verify_def and_then_Inr Let_def split: if_splits)

section \<open>An answer that was signed is accepted\<close>

lemma write_labels_shift:
  "write_labels name c ls out = (case write_labels name c ls [] of Inl e \<Rightarrow> Inl e | Inr enc \<Rightarrow> Inr (out @ enc))"
proof (induction ls arbitrary: out)
  case (Cons l ls)
  show ?case
    using Cons.IH [of "out @ of_nat (length l) # write_label_bytes c l"] Cons.IH [of "of_nat (length l) # write_label_bytes c l"]
    by (simp split: sum.split)
qed simp

lemma write_name_shift:
  "write_name name c out = (case write_name name c [] of Inl e \<Rightarrow> Inl e | Inr enc \<Rightarrow> Inr (out @ enc))"
  using write_labels_shift [of name c "split_on (CHR ''.'') (trim_end (\<lambda>ch. ch = CHR ''.'') name)" out]
  by (simp add: write_name_def Let_def and_then_def split: sum.split)

lemma write_record_shift:
  "write_record r out = (case write_record r [] of Inl e \<Rightarrow> Inl e | Inr enc \<Rightarrow> Inr (out @ enc))"
  using write_name_shift [of "dr_name r" AsGiven out]
  by (simp add: write_record_def and_then_def split: sum.split)

lemma write_records_shift:
  "write_records rs out = (case write_records rs [] of Inl e \<Rightarrow> Inl e | Inr enc \<Rightarrow> Inr (out @ enc))"
proof (induction rs arbitrary: out)
  case (Cons r rs)
  show ?case
  proof (cases "write_record r []")
    case (Inl e)
    then show ?thesis using write_record_shift [of r out] by simp
  next
    case (Inr enc)
    then show ?thesis using write_record_shift [of r out] Cons.IH [of "out @ enc"] Cons.IH [of enc] by (simp split: sum.split)
  qed
qed simp

lemma write_records_append:
  "write_records (rs @ ss) out = and_then (write_records rs out) (write_records ss)"
  by (induction rs arbitrary: out) (auto simp: and_then_def split: sum.split)

text \<open>An answer with another header differs in the header only.\<close>

lemma answer_bytes_header:
  assumes "answer_bytes h name kind rs = Inr m"
  shows "\<exists>body. m = write_dns_header h @ body \<and> (\<forall>h'. answer_bytes h' name kind rs = Inr (write_dns_header h' @ body))"
proof -
  obtain enc where enc: "write_name name AsGiven [] = Inr enc"
    using assms write_name_shift [of name AsGiven "write_dns_header h"]
    by (cases "write_name name AsGiven []") (simp_all add: answer_bytes_def)
  then have whole: "write_records rs (write_dns_header h @ enc @ u16_to_be kind @ u16_to_be CLASS_IN) = Inr m"
    using assms write_name_shift [of name AsGiven "write_dns_header h"] by (simp add: answer_bytes_def)
  then obtain recs where recs: "write_records rs [] = Inr recs"
    using write_records_shift [of rs "write_dns_header h @ enc @ u16_to_be kind @ u16_to_be CLASS_IN"]
    by (cases "write_records rs []") simp_all
  have "answer_bytes h' name kind rs = Inr (write_dns_header h' @ enc @ u16_to_be kind @ u16_to_be CLASS_IN @ recs)" for h'
    using enc recs write_name_shift [of name AsGiven "write_dns_header h'"]
      write_records_shift [of rs "write_dns_header h' @ enc @ u16_to_be kind @ u16_to_be CLASS_IN"]
    by (simp add: answer_bytes_def)
  with assms show ?thesis by auto
qed

lemma put_count:
  assumes "dh_counts h = (a, b, c, d)"
  shows "be_word (write_dns_header h @ body) 10 = d"
    "put_word 10 w (write_dns_header h @ body) = write_dns_header (h\<lparr>dh_counts := (a, b, c, w)\<rparr>) @ body"
proof -
  have "read_dns_header (write_dns_header h @ body) = Inr h" by (rule dns_header_read)
  then show "be_word (write_dns_header h @ body) 10 = d"
    using assms by (auto simp: read_dns_header_def split: if_splits dest: arg_cong [of _ _ dh_counts])
  show "put_word 10 w (write_dns_header h @ body) = write_dns_header (h\<lparr>dh_counts := (a, b, c, w)\<rparr>) @ body"
    using assms by (simp add: put_word_def write_dns_header_def u16_to_be_def)
qed

text \<open>The record a signature is appended as.\<close>

definition tsig_data :: "tsig_algorithm \<Rightarrow> u64 \<Rightarrow> byte list \<Rightarrow> u16 \<Rightarrow> byte list \<Rightarrow> byte list" where
  "tsig_data alg signed_at mac i alg_bytes = alg_bytes @ drop 2 (u64_to_be (unat signed_at)) @ u16_to_be FUDGE
     @ u16_to_be (of_nat (length mac)) @ mac @ u16_to_be i @ u16_to_be 0 @ u16_to_be 0"

definition tsig_record :: "string \<Rightarrow> byte list \<Rightarrow> dns_record" where
  "tsig_record key_name data =
     \<lparr>dr_name = key_name, dr_kind = TYPE_TSIG, dr_class = CLASS_ANY, dr_ttl = 0, dr_data = data\<rparr>"

lemma tsig_append_record:
  assumes "tsig_append message key_name alg signed_at mac i = Inr out"
  shows "\<exists>alg_bytes whole. write_name (algorithm_name alg) AsGiven [] = Inr alg_bytes \<and> length mac < 2 ^ 16 \<and>
    write_record (tsig_record key_name (tsig_data alg signed_at mac i alg_bytes)) message = Inr whole \<and>
    be_word whole 10 \<noteq> - 1 \<and> out = put_word 10 (be_word whole 10 + 1) whole"
  using assms
  by (auto simp: tsig_append_def and_then_Inr Let_def write_record_def tsig_record_def tsig_data_def not_le split: if_splits)

section \<open>Reading a signature record back\<close>

lemma length_u64_to_be [simp]: "length (u64_to_be n) = 8"
  by (simp add: u64_to_be_def)

lemma fold_time: "foldl (\<lambda>carried b. push_bit 8 carried OR ucast b) (0 :: u64) (bs :: byte list) =
    of_nat (foldl (\<lambda>a b. a * 256 + b) 0 (map unat bs))"
proof (induction bs rule: rev_induct)
  case (snoc b bs)
  have "push_bit 8 x OR ucast b = x * 256 + (ucast b :: u64)" for x :: u64
  proof -
    have "push_bit 8 x + ucast b = push_bit 8 x OR (ucast b :: u64)"
      by (rule disjunctive_add) (auto simp: bit_push_bit_iff bit_ucast_iff dest: bit_imp_le_length)
    then show ?thesis by (simp add: push_bit_eq_mult)
  qed
  with snoc show ?case by (simp add: of_nat_unat mult.commute)
qed simp

lemma time_bytes:
  assumes "unat (t :: u64) < 2 ^ 48"
  shows "foldl (\<lambda>carried b. push_bit 8 carried OR ucast b) 0 (drop 2 (u64_to_be (unat t))) = t"
    "length (drop 2 (u64_to_be (unat t))) = 6"
proof -
  have "drop 2 (u64_to_be n) = map (\<lambda>i. of_nat (n div 256 ^ (6 - Suc i) mod 256)) [0..<6]" for n
    by (simp add: u64_to_be_def upt_rec)
  then have "map unat (drop 2 (u64_to_be n)) = map (\<lambda>i. n div 256 ^ (6 - Suc i) mod 256) [0..<6]" for n
    by (simp add: unat_byte_of_nat comp_def)
  then have "foldl (\<lambda>a b. a * 256 + b) 0 (map unat (drop 2 (u64_to_be n))) = n mod 256 ^ 6" for n
    by (simp only: be_digits)
  moreover have "unat t mod 256 ^ 6 = unat t" using assms by simp
  ultimately have digits: "foldl (\<lambda>a b. a * 256 + b) 0 (map unat (drop 2 (u64_to_be (unat t)))) = unat t" by metis
  show "foldl (\<lambda>carried b. push_bit 8 carried OR ucast b) 0 (drop 2 (u64_to_be (unat t))) = t"
    unfolding fold_time digits by simp
  show "length (drop 2 (u64_to_be (unat t))) = 6" by (simp add: u64_to_be_def)
qed

lemma rdata_field_middle: "rdata_field (xs @ ys @ zs) (length xs) (length ys) = Inr ys"
  using get_range_middle [of xs ys zs] by (simp add: rdata_field_def)

lemma rdata_word_middle: "rdata_word (xs @ u16_to_be w @ zs) (length xs) = Inr w"
proof -
  obtain a b where "u16_to_be w = [a, b]" "u16_from_be a b = w" by (rule u16_to_be_elems)
  then show ?thesis using rdata_field_middle [of xs "u16_to_be w" zs] by (simp add: rdata_word_def numeral_2_eq_2)
qed

lemma algorithm_name_trim: "trim_end (\<lambda>ch. ch = CHR ''.'') (algorithm_name alg) = algorithm_name alg"
  by (cases alg) (simp_all add: trim_end_def)

lemma algorithm_name_valid: "utf8_valid (algorithm_name alg)"
  by (rule utf8_valid_ascii) (cases alg; simp add: byte_in_def)

lemma read_tsig_data:
  assumes "write_name (algorithm_name alg) AsGiven [] = Inr alg_bytes" "unat t < 2 ^ 48" "length mac < 2 ^ 16"
  shows "read_rdata (tsig_data alg t mac i alg_bytes) = Inr \<lparr>rd_algorithm = algorithm_name alg, rd_signed_at = t,
    rd_fudge = FUDGE, rd_mac = mac, rd_error = 0, rd_other = []\<rparr>"
proof -
  let ?time = "drop 2 (u64_to_be (unat t))" and ?size = "u16_to_be (of_nat (length mac))"
  let ?data = "tsig_data alg t mac i alg_bytes"
  note len = length_u16_to_be and data = tsig_data_def
  have name: "read_name ?data 0 = Inr (algorithm_name alg, length alg_bytes)"
    using read_written_name [OF assms(1) algorithm_name_valid, of "drop (length alg_bytes) ?data"]
    by (auto simp: algorithm_name_trim data)
  have time: "rdata_field ?data (length alg_bytes) 6 = Inr ?time"
    using rdata_field_middle [of alg_bytes ?time] by (simp add: data)
  have fudge: "rdata_word ?data (length alg_bytes + 6) = Inr FUDGE"
    using rdata_word_middle [of "alg_bytes @ ?time" FUDGE] by (simp add: data len)
  have size: "rdata_word ?data (length alg_bytes + 8) = Inr (of_nat (length mac))"
    using rdata_word_middle [of "alg_bytes @ ?time @ u16_to_be FUDGE" "of_nat (length mac)"] by (simp add: data len)
  have held: "rdata_field ?data (length alg_bytes + 10) (length mac) = Inr mac"
    using rdata_field_middle [of "alg_bytes @ ?time @ u16_to_be FUDGE @ ?size" mac] by (simp add: data len)
  have error: "rdata_word ?data (length alg_bytes + 10 + length mac + 2) = Inr 0"
    using rdata_word_middle [of "alg_bytes @ ?time @ u16_to_be FUDGE @ ?size @ mac @ u16_to_be i" 0]
    by (simp add: data len ac_simps)
  have other: "rdata_word ?data (length alg_bytes + 10 + length mac + 4) = Inr 0"
    using rdata_word_middle [of "alg_bytes @ ?time @ u16_to_be FUDGE @ ?size @ mac @ u16_to_be i @ u16_to_be 0" 0 "[]"]
    by (simp add: data len ac_simps)
  have rest: "rdata_field ?data (length alg_bytes + 10 + length mac + 6) 0 = Inr []"
    using rdata_field_middle [of ?data "[]" "[]"] by (simp add: data len ac_simps)
  from name time fudge size held error other rest show ?thesis
    by (simp add: read_rdata_def Let_def unat_u16_length [OF assms(3)] time_bytes(1) [OF assms(2)])
qed

section \<open>Walking to the signature\<close>

lemma walk_step:
  assumes "write_record r out = Inr out'" "utf8_valid (dr_name r)"
  shows "walk_records (out' @ rest) (Suc n) start (length out) = walk_records (out' @ rest) n (length out) (length out')"
proof -
  obtain out1 where out1: "write_name (dr_name r) AsGiven out = Inr out1" "length (dr_data r) < 2 ^ 16"
    "out' = out1 @ u16_to_be (dr_kind r) @ u16_to_be (dr_class r) @ u32_to_be (dr_ttl r)
       @ u16_to_be (of_nat (length (dr_data r))) @ dr_data r"
    using assms(1) by (auto simp: write_record_def and_then_Inr not_le split: if_splits)
  let ?head = "u16_to_be (dr_kind r) @ u16_to_be (dr_class r) @ u32_to_be (dr_ttl r)"
  let ?size = "u16_to_be (of_nat (length (dr_data r)))"
  have name: "read_name (out' @ rest) (length out) = Inr (trim_end (\<lambda>ch. ch = CHR ''.'') (dr_name r), length out1)"
    using read_written_name [OF out1(1) assms(2), of "?head @ ?size @ dr_data r @ rest"] out1(3) by auto
  have "get_word tsig_missing (out' @ rest) (length out1 + 8) = Inr (of_nat (length (dr_data r)))"
    using get_word_middle [of tsig_missing "out1 @ ?head" "of_nat (length (dr_data r))" "dr_data r @ rest"] out1(3)
    by (simp add: length_u16_to_be length_u32_to_be)
  with name unat_u16_length [OF out1(2)] out1(3) show ?thesis
    by (simp add: length_u16_to_be length_u32_to_be ac_simps)
qed

lemma walk_written:
  assumes "write_records rs out = Inr out'" "list_all (\<lambda>r. utf8_valid (dr_name r)) rs"
  shows "\<exists>start'. walk_records (out' @ rest) (length rs + n) start (length out) = walk_records (out' @ rest) n start' (length out')"
  using assms
proof (induction rs arbitrary: out start)
  case (Cons r rs)
  then obtain out1 where out1: "write_record r out = Inr out1" "write_records rs out1 = Inr out'" by (auto simp: and_then_Inr)
  from read_written_records [OF out1(2), of rest] Cons.prems(2) obtain enc where enc: "out' = out1 @ enc" by auto
  have "walk_records (out' @ rest) (Suc (length rs + n)) start (length out) =
      walk_records (out' @ rest) (length rs + n) (length out) (length out1)"
    using walk_step [OF out1(1), of "enc @ rest"] Cons.prems(2) enc by simp
  with Cons.IH [OF out1(2)] Cons.prems(2) show ?case by auto
qed auto

text \<open>The signature is the last record of an answer that ends with it.\<close>

lemma last_record_written:
  assumes "answer_bytes h name kind (rs @ [r]) = Inr m" "answer_bytes h name kind rs = Inr m0"
    and "utf8_valid name" "list_all (\<lambda>r. utf8_valid (dr_name r)) rs" "utf8_valid (dr_name r)"
    and "dh_counts h = (1, a, b, c)" "unat a + unat b + unat c = Suc (length rs)"
  shows "last_record m = Inr (Some (length m0)) \<and> write_record r m0 = Inr m"
proof -
  obtain m1 where m1: "write_name name AsGiven (write_dns_header h) = Inr m1"
    using assms(1) by (auto simp: answer_bytes_def and_then_Inr)
  let ?q = "m1 @ u16_to_be kind @ u16_to_be CLASS_IN"
  have m0: "write_records rs ?q = Inr m0" and m: "write_record r m0 = Inr m"
    using assms(1,2) m1 by (simp_all add: answer_bytes_def write_records_append and_then_Inr)
  from write_record_extends [OF m assms(5)] obtain enc where enc: "m = m0 @ enc" by blast
  from read_written_records [OF m0 assms(4), of enc] obtain recs where recs: "m0 = ?q @ recs" by auto
  from read_written_name [OF m1 assms(3), of "u16_to_be kind @ u16_to_be CLASS_IN @ recs @ enc"] obtain name_bytes where
    nb: "m1 = write_dns_header h @ name_bytes" "\<exists>n. read_name m 12 = Inr (n, length m1)"
    using enc recs by (auto simp: length_dns_header)
  have skip: "skip_questions m 1 12 = Inr (length ?q)" using nb(2) by (auto simp: length_u16_to_be)
  obtain start' where "walk_records (m0 @ enc) (length rs + 1) (length ?q) (length ?q) = walk_records (m0 @ enc) 1 start' (length m0)"
    using walk_written [OF m0 assms(4), of enc 1] by blast
  also have "\<dots> = Inr (length m0)" using walk_step [OF m assms(5), of "[]" 0] enc by simp
  finally have walk: "walk_records m (Suc (length rs)) (length ?q) (length ?q) = Inr (length m0)" using enc by simp
  have "read_dns_header m = Inr h" using enc recs nb(1) dns_header_read by simp
  moreover have "(unat a + unat b + unat c = 0) = False" using assms(7) by simp
  then have "0 < unat a \<or> 0 < unat b \<or> 0 < unat c" by arith
  ultimately show ?thesis using skip walk assms(6,7) m by (simp add: last_record_def Let_def)
qed

text \<open>
  How a name server signs its answer (RFC 8945): over the request's signature, the answer
  and the variables.
\<close>

definition sign_answer ::
  "(tsig_algorithm \<Rightarrow> byte list \<Rightarrow> byte list \<Rightarrow> (byte list, failure) result) \<Rightarrow> byte list \<Rightarrow> string \<Rightarrow> tsig_algorithm
     \<Rightarrow> byte list \<Rightarrow> byte list \<Rightarrow> u64 \<Rightarrow> (byte list, failure) result" where
  "sign_answer hmac reply key_name alg secret request_mac signed_at =
     and_then (tsig_variables key_name alg signed_at 0 []) (\<lambda>vars.
     and_then (hmac alg secret (u16_to_be (of_nat (length request_mac)) @ request_mac @ reply @ vars)) (\<lambda>mac.
     and_then (read_dns_header reply) (\<lambda>head. tsig_append reply key_name alg signed_at mac (dh_id head))))"

lemma signed_record:
  assumes "answer_bytes h name kind rs = Inr reply" "utf8_valid name" "list_all (\<lambda>r. utf8_valid (dr_name r)) rs"
    and "dh_counts h = (1, of_nat (length rs), 0, 0)" "length rs < 2 ^ 16" "utf8_valid key_name"
    and "tsig_append reply key_name alg t mac i = Inr out" "unat t < 2 ^ 48"
  shows "signature_of out key_name = Inr (length reply, \<lparr>rd_algorithm = algorithm_name alg, rd_signed_at = t,
      rd_fudge = FUDGE, rd_mac = mac, rd_error = 0, rd_other = []\<rparr>) \<and>
    be_word (take (length reply) out) 10 = 1 \<and> put_word 10 0 (take (length reply) out) = reply"
proof -
  let ?counted = "h\<lparr>dh_counts := (1, of_nat (length rs), 0, 1)\<rparr>"
  from tsig_append_record [OF assms(7)] obtain alg_bytes whole where w:
    "write_name (algorithm_name alg) AsGiven [] = Inr alg_bytes" "length mac < 2 ^ 16"
    "write_record (tsig_record key_name (tsig_data alg t mac i alg_bytes)) reply = Inr whole"
    "out = put_word 10 (be_word whole 10 + 1) whole" by blast
  let ?r = "tsig_record key_name (tsig_data alg t mac i alg_bytes)"
  have r: "utf8_valid (dr_name ?r)" "dr_kind ?r = TYPE_TSIG" "dr_data ?r = tsig_data alg t mac i alg_bytes"
    using assms(6) by (simp_all add: tsig_record_def)
  obtain body where body: "reply = write_dns_header h @ body"
    "\<And>h'. answer_bytes h' name kind rs = Inr (write_dns_header h' @ body)"
    using answer_bytes_header [OF assms(1)] by blast
  have "answer_bytes h name kind (rs @ [?r]) = Inr whole"
    using assms(1) w(3) by (auto simp: answer_bytes_def write_records_append and_then_Inr)
  then obtain body' where body': "whole = write_dns_header h @ body'"
    "\<And>h'. answer_bytes h' name kind (rs @ [?r]) = Inr (write_dns_header h' @ body')"
    using answer_bytes_header by blast
  have out: "out = write_dns_header ?counted @ body'"
    using w(4) put_count [OF assms(4), where body = body'] body'(1) by simp
  let ?reply = "write_dns_header ?counted @ body"
  have "unat (of_nat (length rs) :: u16) + unat (0 :: u16) + unat (1 :: u16) = Suc (length rs)"
    using unat_u16_length [OF assms(5)] by simp
  then have last: "last_record out = Inr (Some (length ?reply))" "write_record ?r ?reply = Inr out"
    using last_record_written [OF body'(2) body(2), of ?counted] assms(2,3) r(1) out by simp_all
  have lens: "length ?reply = length reply" using body(1) by (simp add: length_dns_header)
  from last(2) obtain out1 where out1: "write_name key_name AsGiven ?reply = Inr out1"
    "length (dr_data ?r) < 2 ^ 16"
    "out = out1 @ u16_to_be TYPE_TSIG @ u16_to_be CLASS_ANY @ u32_to_be 0 @ u16_to_be (of_nat (length (dr_data ?r))) @ dr_data ?r"
    by (auto simp: write_record_def and_then_Inr not_le tsig_record_def split: if_splits)
  let ?head = "u16_to_be TYPE_TSIG @ u16_to_be CLASS_ANY @ u32_to_be 0"
  let ?size = "u16_to_be (of_nat (length (dr_data ?r)))"
  have taken: "take (length reply) out = ?reply"
    using write_record_extends [OF last(2) r(1)] lens by auto
  have nm: "read_name out (length reply) = Inr (trim_end (\<lambda>ch. ch = CHR ''.'') key_name, length out1)"
    using read_written_name [OF out1(1) assms(6), of "?head @ ?size @ dr_data ?r"] out1(3) lens by auto
  have kd: "get_word tsig_missing out (length out1) = Inr TYPE_TSIG"
    using get_word_middle [of tsig_missing out1 TYPE_TSIG] out1(3) by simp
  have sz: "get_word tsig_missing out (length out1 + 8) = Inr (of_nat (length (dr_data ?r)))"
    using get_word_middle [of tsig_missing "out1 @ ?head" "of_nat (length (dr_data ?r))" "dr_data ?r"] out1(3)
    by (simp add: length_u16_to_be length_u32_to_be)
  have dt: "get_range (length out1 + 10) (length out1 + 10 + length (dr_data ?r)) out = Some (dr_data ?r)"
    using get_range_middle [of "out1 @ ?head @ ?size" "dr_data ?r" "[]"] out1(3)
    by (simp add: length_u16_to_be length_u32_to_be ac_simps)
  have sig: "signature_of out key_name = Inr (length reply, \<lparr>rd_algorithm = algorithm_name alg, rd_signed_at = t,
      rd_fudge = FUDGE, rd_mac = mac, rd_error = 0, rd_other = []\<rparr>)"
    using last(1) lens nm kd sz dt unat_u16_length [OF out1(2)] read_tsig_data [OF w(1) assms(8) w(2), of i] r(3)
    by (simp add: signature_of_def eq_ignore_ascii_case_def Let_def)
  have same: "h\<lparr>dh_counts := (1, of_nat (length rs), 0, 0)\<rparr> = h" using assms(4) by (cases h) simp
  have "be_word (take (length reply) out) 10 = 1" "put_word 10 0 (take (length reply) out) = reply"
    using taken put_count [of ?counted 1 "of_nat (length rs)" 0 1, where body = body] body(1) same by simp_all
  with sig show ?thesis by blast
qed

lemma signed_answer_accepted:
  assumes "answer_bytes h name kind rs = Inr reply" "utf8_valid name" "list_all (\<lambda>r. utf8_valid (dr_name r)) rs"
    and "dh_counts h = (1, of_nat (length rs), 0, 0)" "length rs < 2 ^ 16" "utf8_valid key_name"
    and "sign_answer hmac reply key_name alg secret request_mac t = Inr out" "unat t < 2 ^ 48"
    and "abs_diff now t \<le> unat FUDGE" "length request_mac < 2 ^ 16"
  shows "tsig_verify hmac out key_name alg secret request_mac now = Inr ()"
proof -
  from assms(7) obtain vars mac i where *: "tsig_variables key_name alg t 0 [] = Inr vars"
    "hmac alg secret (u16_to_be (of_nat (length request_mac)) @ request_mac @ reply @ vars) = Inr mac"
    "tsig_append reply key_name alg t mac i = Inr out"
    by (auto simp: sign_answer_def and_then_Inr)
  note sig = signed_record [OF assms(1-6) *(3) assms(8)]
  show ?thesis using sig *(1,2) assms(9,10) by (simp add: tsig_verify_def Let_def eq_ignore_ascii_case_def)
qed

end
