(* ===== verification/Cloudflare.thy ===== *)
theory Cloudflare
  imports Failure
begin

text \<open>
  \<open>dns/cloudflare.rs\<close>: writing a challenge record through the API. A document is a value of
  \<open>json\<close>, the shapes of \<open>serde_json::Value\<close> (a number that is no integer keeps its text); reading one from text belongs to the library and is
  the parameter \<open>parse\<close>. The transport is the parameter \<open>call\<close>, as the trait \<open>Api\<close> has it.
\<close>

datatype json = JNull | JBool bool | JNumber int | JFraction string | JString string | JArray "json list" | JObject "(string \<times> json) list"

fun json_get :: "string \<Rightarrow> json \<Rightarrow> json option" where
  "json_get key (JObject fs) = map_of fs key"
| "json_get key _ = None"

fun as_array :: "json \<Rightarrow> json list option" where
  "as_array (JArray xs) = Some xs"
| "as_array _ = None"

fun as_bool :: "json \<Rightarrow> bool option" where
  "as_bool (JBool b) = Some b"
| "as_bool _ = None"

fun as_str :: "json \<Rightarrow> string option" where
  "as_str (JString s) = Some s"
| "as_str _ = None"

fun as_i64 :: "json \<Rightarrow> int option" where
  "as_i64 (JNumber n) = (if - (2 ^ 63) \<le> n \<and> n < 2 ^ 63 then Some n else None)"
| "as_i64 _ = None"

type_synonym 'w api_call =
  "string \<Rightarrow> string \<Rightarrow> string \<Rightarrow> string option \<Rightarrow> 'w \<Rightarrow> (u16 \<times> string, failure) result \<times> 'w"

record api_connection =
  ac_base :: string
  ac_zone_id :: string
  ac_token :: string

definition API_RECORD_TTL :: u32 where "API_RECORD_TTL = 60"

definition ascii_alphanumeric :: "char \<Rightarrow> bool" where
  "ascii_alphanumeric c \<longleftrightarrow> byte_in 48 57 c \<or> byte_in 65 90 c \<or> byte_in 97 122 c"

definition url_safe :: "string \<Rightarrow> bool" where
  "url_safe s \<longleftrightarrow> list_all (\<lambda>c. ascii_alphanumeric c \<or> c \<in> set ''-._*'') s"

definition api_escape :: "string \<Rightarrow> (string, failure) result" where
  "api_escape s = (if url_safe s then Inr s
     else Inl (new_failure Protocol ''a name or an identity carries a character that cannot be sent as it is''))"

definition show_int :: "int \<Rightarrow> string" where
  "show_int n = (if n < 0 then ''-'' @ decimal (nat (- n)) else decimal (nat n))"

definition first_code :: "(string \<Rightarrow> (json, string) result) \<Rightarrow> string \<Rightarrow> string" where
  "first_code parse body = (case parse body of
     Inl _ \<Rightarrow> []
   | Inr document \<Rightarrow>
       (case Option.bind (json_get ''errors'' document) as_array of
          None \<Rightarrow> []
        | Some [] \<Rightarrow> []
        | Some (e # _) \<Rightarrow>
            '': code '' @ show_int (case Option.bind (json_get ''code'' e) as_i64 of None \<Rightarrow> 0 | Some n \<Rightarrow> n) @ '', ''
            @ (case Option.bind (json_get ''message'' e) as_str of None \<Rightarrow> [] | Some m \<Rightarrow> m)))"

definition api_read :: "(string \<Rightarrow> (json, string) result) \<Rightarrow> u16 \<Rightarrow> string \<Rightarrow> (json, failure) result" where
  "api_read parse status body =
     (if status = 401 \<or> status = 403 then
        Inl (new_failure Configuration (''the API refused the token ('' @ decimal (unat status)
          @ ''); it is wrong, expired, or lacks DNS edit permission on this zone'' @ first_code parse body))
      else case parse body of
        Inl e \<Rightarrow> Inl (new_failure Protocol (''the API answered something that is not JSON: '' @ e))
      | Inr document \<Rightarrow>
          if status \<ge> 400 \<or> Option.bind (json_get ''success'' document) as_bool \<noteq> Some True then
            Inl (new_failure (if status \<ge> 500 then Server else Configuration)
              (''the API refused the change ('' @ decimal (unat status) @ '')'' @ first_code parse body))
          else Inr document)"

record held_record =
  hr_id :: string
  hr_content :: string

definition held_of :: "json \<Rightarrow> held_record option" where
  "held_of r = Option.bind (Option.bind (json_get ''id'' r) as_str) (\<lambda>i.
     map_option (\<lambda>c. \<lparr>hr_id = i, hr_content = c\<rparr>) (Option.bind (json_get ''content'' r) as_str))"

definition api_records ::
  "(string \<Rightarrow> (json, string) result) \<Rightarrow> 'w api_call \<Rightarrow> api_connection \<Rightarrow> string \<Rightarrow> 'w
     \<Rightarrow> (held_record list, failure) result \<times> 'w" where
  "api_records parse call c name w =
     run_then (api_escape name, w) (\<lambda>name w.
     run_then (call ''GET'' (ac_base c @ ''/zones/'' @ ac_zone_id c @ ''/dns_records?type=TXT&name='' @ name) (ac_token c) None w)
       (\<lambda>(status, answered) w.
     run_then (api_read parse status answered, w) (\<lambda>document w.
     run_then (ok_or (new_failure Protocol ''the API answered a list request without a list'')
       (Option.bind (json_get ''result'' document) as_array), w) (\<lambda>listed w.
     (Inr (List.map_filter held_of listed), w)))))"

definition api_published ::
  "(string \<Rightarrow> (json, string) result) \<Rightarrow> 'w api_call \<Rightarrow> api_connection \<Rightarrow> string \<Rightarrow> 'w
     \<Rightarrow> (string list, failure) result \<times> 'w" where
  "api_published parse call c name w =
     run_then (api_records parse call c name w) (\<lambda>rs w. (Inr (map hr_content rs), w))"

definition api_identities ::
  "(string \<Rightarrow> (json, string) result) \<Rightarrow> 'w api_call \<Rightarrow> api_connection \<Rightarrow> string \<Rightarrow> 'w
     \<Rightarrow> (string list, failure) result \<times> 'w" where
  "api_identities parse call c name w =
     run_then (api_records parse call c name w) (\<lambda>rs w. (Inr (map hr_id rs), w))"

fun delete_each ::
  "(string \<Rightarrow> (json, string) result) \<Rightarrow> 'w api_call \<Rightarrow> api_connection \<Rightarrow> string list \<Rightarrow> 'w \<Rightarrow> (unit, failure) result \<times> 'w" where
  "delete_each parse call c [] w = (Inr (), w)"
| "delete_each parse call c (i # is) w =
     run_then (api_escape i, w) (\<lambda>i w.
     run_then (call ''DELETE'' (ac_base c @ ''/zones/'' @ ac_zone_id c @ ''/dns_records/'' @ i) (ac_token c) None w)
       (\<lambda>(status, answered) w.
     run_then (api_read parse status answered, w) (\<lambda>_ w. delete_each parse call c is w)))"

definition api_withdraw ::
  "(string \<Rightarrow> (json, string) result) \<Rightarrow> 'w api_call \<Rightarrow> api_connection \<Rightarrow> string \<Rightarrow> 'w \<Rightarrow> (unit, failure) result \<times> 'w" where
  "api_withdraw parse call c name w =
     run_then (api_identities parse call c name w) (\<lambda>is w. delete_each parse call c is w)"

definition txt_body :: "string \<Rightarrow> string \<Rightarrow> string" where
  "txt_body name value = ''{'' @ [CHR 0x22] @ ''type'' @ [CHR 0x22] @ '':'' @ [CHR 0x22] @ ''TXT'' @ [CHR 0x22] @ '','' @
     [CHR 0x22] @ ''name'' @ [CHR 0x22] @ '':'' @ [CHR 0x22] @ name @ [CHR 0x22] @ '','' @
     [CHR 0x22] @ ''content'' @ [CHR 0x22] @ '':'' @ [CHR 0x22] @ value @ [CHR 0x22] @ '','' @
     [CHR 0x22] @ ''ttl'' @ [CHR 0x22] @ '':'' @ decimal (unat API_RECORD_TTL) @ ''}''"

fun post_each ::
  "(string \<Rightarrow> (json, string) result) \<Rightarrow> 'w api_call \<Rightarrow> api_connection \<Rightarrow> string \<Rightarrow> string list \<Rightarrow> 'w
     \<Rightarrow> (unit, failure) result \<times> 'w" where
  "post_each parse call c name [] w = (Inr (), w)"
| "post_each parse call c name (v # vs) w =
     run_then (api_escape name, w) (\<lambda>n w.
     run_then (api_escape v, w) (\<lambda>v w.
     run_then (call ''POST'' (ac_base c @ ''/zones/'' @ ac_zone_id c @ ''/dns_records'') (ac_token c) (Some (txt_body n v)) w)
       (\<lambda>(status, answered) w.
     run_then (api_read parse status answered, w) (\<lambda>_ w. post_each parse call c name vs w))))"

definition api_publish ::
  "(string \<Rightarrow> (json, string) result) \<Rightarrow> 'w api_call \<Rightarrow> api_connection \<Rightarrow> string \<Rightarrow> string list \<Rightarrow> 'w
     \<Rightarrow> (unit, failure) result \<times> 'w" where
  "api_publish parse call c name values w =
     run_then (api_withdraw parse call c name w) (\<lambda>_ w. post_each parse call c name values w)"

section \<open>Escaping and refusals\<close>

text \<open>
  What is pasted into a URL or a document passed the check unchanged, and an answer is
  worth another attempt only when the server failed or its answer cannot be read.
\<close>

lemma api_escape_Inr: "api_escape s = Inr t \<longleftrightarrow> t = s \<and> url_safe s"
  by (auto simp: api_escape_def)

lemma refused_token_no_retry:
  "status = 401 \<or> status = 403 \<Longrightarrow> \<exists>f. api_read parse status body = Inl f \<and> \<not> worth_retrying f"
  by (auto simp: api_read_def worth_retrying_def reason_worth_retrying_def new_failure_def)

lemma api_read_retry:
  "api_read parse status body = Inl f \<Longrightarrow> worth_retrying f \<Longrightarrow> status \<ge> 500 \<or> (\<exists>e. parse body = Inl e)"
  by (auto simp: api_read_def worth_retrying_def reason_worth_retrying_def new_failure_def split: if_splits sum.splits)

end
