(* ===== verification/Dns.thy ===== *)
theory Dns
  imports Tsig Cloudflare Proxyproto
begin

text \<open>
  \<open>dns/resolver.rs\<close>, \<open>dns/rfc2136.rs\<close> and \<open>dns/mod.rs\<close>: exchanging messages with a name
  server, writing the records of a challenge and waiting for them. The connection, the random
  source, the clock and the file system are the record \<open>dns_os\<close>, over a world; base64 and the
  keyed digest belong to OpenSSL.
\<close>

definition EXCHANGE_TIMEOUT :: duration where "EXCHANGE_TIMEOUT = secs 10"
definition RESOLV_CONF :: string where "RESOLV_CONF = ''/etc/resolv.conf''"
definition DNS_PORT :: u16 where "DNS_PORT = 53"

record ('s, 'w) dns_os =
  tcp_connect :: "socket_addr \<Rightarrow> duration \<Rightarrow> 'w \<Rightarrow> ('s, string) result \<times> 'w"
  tcp_timeouts :: "'s \<Rightarrow> duration \<Rightarrow> 'w \<Rightarrow> (unit, string) result \<times> 'w"
  tcp_write_all :: "'s \<Rightarrow> byte list \<Rightarrow> 'w \<Rightarrow> (unit, string) result \<times> 'w"
  tcp_read_exact :: "'s \<Rightarrow> nat \<Rightarrow> 'w \<Rightarrow> (byte list, string) result \<times> 'w"
  rand_bytes :: "nat \<Rightarrow> 'w \<Rightarrow> (byte list, string) result \<times> 'w"
  read_to_string :: "string \<Rightarrow> 'w \<Rightarrow> (string, string) result \<times> 'w"
  since_epoch :: "'w \<Rightarrow> (u64, string) result \<times> 'w"
  parse_ip :: "string \<Rightarrow> ip_addr option"
  base64_decode :: "string \<Rightarrow> (byte list, string) result"
  dns_hmac :: "tsig_algorithm \<Rightarrow> byte list \<Rightarrow> byte list \<Rightarrow> (byte list, failure) result"

fun show_socket :: "socket_addr \<Rightarrow> string" where
  "show_socket (SockV4 a p) = display_v4 a @ '':'' @ decimal (unat p)"
| "show_socket (SockV6 a p) = ''['' @ display_v6 a @ '']:'' @ decimal (unat p)"

definition unreachable :: "socket_addr \<Rightarrow> string \<Rightarrow> failure" where
  "unreachable server error = new_failure Network (''the name server at '' @ show_socket server @ '' did not answer: '' @ error)"

section \<open>The resolver\<close>

definition exchange :: "('s, 'w) dns_os \<Rightarrow> socket_addr \<Rightarrow> byte list \<Rightarrow> 'w \<Rightarrow> (byte list, failure) result \<times> 'w" where
  "exchange os server message w =
     (if length message \<ge> 2 ^ 16 then
        (Inl (new_failure Protocol ''the message is longer than the protocol carries''), w)
      else
        run_then (map_err (unreachable server) (tcp_connect os server EXCHANGE_TIMEOUT w)) (\<lambda>s w.
        run_then (map_err (unreachable server) (tcp_timeouts os s EXCHANGE_TIMEOUT w)) (\<lambda>_ w.
        run_then (map_err (unreachable server) (tcp_write_all os s (u16_to_be (of_nat (length message)) @ message) w)) (\<lambda>_ w.
        run_then (map_err (unreachable server) (tcp_read_exact os s 2 w)) (\<lambda>n w.
        map_err (unreachable server) (tcp_read_exact os s (unat (u16_from_be (n ! 0) (n ! 1))) w))))))"

definition message_id :: "('s, 'w) dns_os \<Rightarrow> 'w \<Rightarrow> (u16, failure) result \<times> 'w" where
  "message_id os w =
     run_then (map_err (\<lambda>e. new_failure Crypto (''a message identity could not be drawn: '' @ e)) (rand_bytes os 2 w))
       (\<lambda>bs w. (Inr (u16_from_be (bs ! 0) (bs ! 1)), w))"

definition resolver_txt :: "('s, 'w) dns_os \<Rightarrow> socket_addr \<Rightarrow> string \<Rightarrow> 'w \<Rightarrow> (string list, failure) result \<times> 'w" where
  "resolver_txt os server name w =
     run_then (message_id os w) (\<lambda>i w.
     run_then (dns_question i name TYPE_TXT, w) (\<lambda>message w.
     run_then (exchange os server message w) (\<lambda>answer w.
     run_then (read_dns_header answer, w) (\<lambda>head w.
     if rcode head \<noteq> 0 \<and> rcode head \<noteq> 3 then
       (Inl (new_failure Protocol (''the name server at '' @ show_socket server @ '' answered the question about ''
          @ name @ '' with code '' @ decimal (unat (rcode head)))), w)
     else (txt_answers answer, w)))))"

text \<open>\<open>str::lines\<close>: a line ends at a line feed, and loses one carriage return before it.\<close>

definition strip_cr :: "string \<Rightarrow> string" where
  "strip_cr s = (if s \<noteq> [] \<and> last s = CHR 0x0D then butlast s else s)"

definition lines :: "string \<Rightarrow> string list" where
  "lines s = (let ls = split_on (CHR 0x0A) s;
      ended = map strip_cr (butlast ls) in
      if last ls = [] then ended else ended @ [last ls])"

definition first_nameserver :: "('s, 'w) dns_os \<Rightarrow> string \<Rightarrow> socket_addr option" where
  "first_nameserver os content =
     find_map (\<lambda>address. map_option (\<lambda>a. case a of V4 x \<Rightarrow> SockV4 x DNS_PORT | V6 x \<Rightarrow> SockV6 x DNS_PORT) (parse_ip os address))
       (map (\<lambda>address. hd (split_on (CHR ''%'') address))
         (map trim (List.map_filter (strip_prefix ''nameserver'')
           (map (\<lambda>line. trim (hd (split_on (CHR ''#'') line))) (lines content)))))"

definition system_resolver :: "('s, 'w) dns_os \<Rightarrow> 'w \<Rightarrow> (socket_addr, failure) result \<times> 'w" where
  "system_resolver os w =
     run_then (map_err (\<lambda>e. new_failure Configuration (RESOLV_CONF @ '' could not be read: '' @ e)) (read_to_string os RESOLV_CONF w))
       (\<lambda>content w. (ok_or (new_failure Configuration (RESOLV_CONF @ '' names no name server to ask'')) (first_nameserver os content), w))"

section \<open>Dynamic updates\<close>

definition RECORD_TTL :: u32 where "RECORD_TTL = 60"

record update_connection =
  uc_server :: socket_addr
  uc_zone :: string
  uc_key_name :: string
  uc_algorithm :: tsig_algorithm
  uc_secret :: "byte list"

definition refused :: "byte \<Rightarrow> socket_addr \<Rightarrow> failure" where
  "refused code server =
     (let (r, said) =
        (if code = 1 then (Protocol, ''the update was malformed'')
         else if code = 2 then (Server, ''the name server failed while applying it'')
         else if code = 3 then (Configuration, ''the zone does not exist there'')
         else if code = 4 then (Configuration, ''the name server does not do dynamic updates'')
         else if code = 5 then (Configuration, ''the name server refused the update; the key is not allowed to write this zone'')
         else if 6 \<le> code \<and> code \<le> 8 then (Protocol, ''the zone did not hold what the update expected'')
         else if code = 9 then (Configuration, ''the name server did not accept the key this update was signed with'')
         else if code = 10 then (Configuration, ''the name is not inside the zone this provider is configured with'')
         else (Protocol, ''the name server answered with a code this client does not know''))
      in new_failure r (show_socket server @ '': '' @ said @ '' (code '' @ decimal (unat code) @ '')''))"

definition seconds_now :: "('s, 'w) dns_os \<Rightarrow> 'w \<Rightarrow> (u64, failure) result \<times> 'w" where
  "seconds_now os w = map_err (\<lambda>e. new_failure Crypto (''this machine's clock is before the epoch: '' @ e)) (since_epoch os w)"

definition apply_changes :: "('s, 'w) dns_os \<Rightarrow> update_connection \<Rightarrow> dns_record list \<Rightarrow> 'w \<Rightarrow> (unit, failure) result \<times> 'w" where
  "apply_changes os c changes w =
     run_then (message_id os w) (\<lambda>i w.
     run_then (dns_update i (uc_zone c) changes, w) (\<lambda>message w.
     run_then (seconds_now os w) (\<lambda>now w.
     run_then (tsig_sign (dns_hmac os) message (uc_key_name c) (uc_algorithm c) (uc_secret c) now, w) (\<lambda>sg w.
     run_then (exchange os (uc_server c) (sg_message sg) w) (\<lambda>answer w.
     run_then (read_dns_header answer, w) (\<lambda>head w.
     if dh_id head \<noteq> i then (Inl (new_failure Protocol ''the name server answered an update nobody sent''), w)
     else
       run_then (tsig_verify (dns_hmac os) answer (uc_key_name c) (uc_algorithm c) (uc_secret c) (sg_mac sg) now, w) (\<lambda>_ w.
       if rcode head \<noteq> 0 then (Inl (refused (rcode head) (uc_server c)), w) else (Inr (), w))))))))"

fun txt_changes :: "string \<Rightarrow> string list \<Rightarrow> (dns_record list, failure) result" where
  "txt_changes name [] = Inr []"
| "txt_changes name (v # vs) = and_then (add_txt name v RECORD_TTL) (\<lambda>r. and_then (txt_changes name vs) (\<lambda>rs. Inr (r # rs)))"

definition update_publish :: "('s, 'w) dns_os \<Rightarrow> update_connection \<Rightarrow> string \<Rightarrow> string list \<Rightarrow> 'w \<Rightarrow> (unit, failure) result \<times> 'w" where
  "update_publish os c name values w =
     run_then (txt_changes name values, w) (\<lambda>rs w. apply_changes os c (delete_txt_set name # rs) w)"

definition update_withdraw :: "('s, 'w) dns_os \<Rightarrow> update_connection \<Rightarrow> string \<Rightarrow> 'w \<Rightarrow> (unit, failure) result \<times> 'w" where
  "update_withdraw os c name w = apply_changes os c [delete_txt_set name] w"

section \<open>Waiting\<close>

definition CHALLENGE_LABEL :: string where "CHALLENGE_LABEL = ''_acme-challenge''"
definition LOOK_INTERVAL :: duration where "LOOK_INTERVAL = secs 2"
definition API_TIMEOUT :: duration where "API_TIMEOUT = secs 30"

definition challenge_name :: "string \<Rightarrow> string" where
  "challenge_name identifier =
     CHALLENGE_LABEL @ ''.'' @ (case strip_prefix ''*.'' identifier of None \<Rightarrow> identifier | Some base \<Rightarrow> base)"

definition as_secs :: "duration \<Rightarrow> nat" where "as_secs d = d div 1000000000"

text \<open>One look at every record: the first name that lacks a value, or none.\<close>

fun first_missing ::
  "(string \<Rightarrow> 'w \<Rightarrow> (string list, failure) result \<times> 'w) \<Rightarrow> (string \<times> string list) list \<Rightarrow> 'w
     \<Rightarrow> (string option, failure) result \<times> 'w" where
  "first_missing look [] w = (Inr None, w)"
| "first_missing look ((name, values) # rs) w =
     run_then (look name w) (\<lambda>held w.
       if list_ex (\<lambda>v. v \<notin> set held) values then (Inr (Some name), w) else first_missing look rs w)"

definition never_visible :: "string \<Rightarrow> duration \<Rightarrow> failure" where
  "never_visible name allowed = new_failure ChallengeRefused
     (name @ '' was written but is still not answered with what it has to carry after ''
      @ decimal (as_secs allowed) @ ''s; raise this provider's propagation timeout or check that it serves this zone'')"

function settle_from ::
  "(string \<Rightarrow> 'w \<Rightarrow> (string list, failure) result \<times> 'w) \<Rightarrow> (duration \<Rightarrow> 'w \<Rightarrow> 'w) \<Rightarrow> (string \<times> string list) list
     \<Rightarrow> duration \<Rightarrow> duration \<Rightarrow> 'w \<Rightarrow> (unit, failure) result \<times> 'w" where
  "settle_from look pause records allowed waited w =
     (case first_missing look records w of
        (Inl e, w) \<Rightarrow> (Inl e, w)
      | (Inr None, w) \<Rightarrow> (Inr (), w)
      | (Inr (Some name), w) \<Rightarrow>
          if waited \<ge> allowed then
            (Inl (never_visible name allowed), w)
          else settle_from look pause records allowed (waited + LOOK_INTERVAL) (pause LOOK_INTERVAL w))"
  by pat_completeness auto

lemma LOOK_INTERVAL_pos: "0 < LOOK_INTERVAL"
  by (simp add: LOOK_INTERVAL_def secs_def)

termination settle_from
  by (relation "measure (\<lambda>(look, pause, records, allowed, waited, w). allowed - waited)") (use LOOK_INTERVAL_pos in auto)

declare settle_from.simps [simp del]

definition settle ::
  "(string \<Rightarrow> 'w \<Rightarrow> (string list, failure) result \<times> 'w) \<Rightarrow> (duration \<Rightarrow> 'w \<Rightarrow> 'w) \<Rightarrow> (string \<times> string list) list
     \<Rightarrow> duration \<Rightarrow> 'w \<Rightarrow> (unit, failure) result \<times> 'w" where
  "settle look pause records allowed w = settle_from look pause records allowed 0 w"

section \<open>Providers\<close>

definition mismatched :: "dns_provider \<Rightarrow> failure" where
  "mismatched p = new_failure Configuration (d_id p @ '' was reached as a kind of provider it is not'')"

fun socket_at :: "ip_addr \<Rightarrow> u16 \<Rightarrow> socket_addr" where
  "socket_at (V4 a) p = SockV4 a p"
| "socket_at (V6 a) p = SockV6 a p"

definition update_connection_of :: "('s, 'w) dns_os \<Rightarrow> dns_provider \<Rightarrow> string \<Rightarrow> (update_connection, failure) result" where
  "update_connection_of os p secret = (case d_connection p of
     Cloudflare _ _ _ \<Rightarrow> Inl (mismatched p)
   | Rfc2136 server port zone key_name alg _ \<Rightarrow>
       (case base64_decode os (trim secret) of
          Inl e \<Rightarrow> Inl (new_failure Configuration (''the shared key of '' @ d_id p @ '' is not readable as base64: '' @ e))
        | Inr decoded \<Rightarrow>
            if decoded = [] then Inl (new_failure Configuration (''the shared key of '' @ d_id p @ '' is empty''))
            else Inr \<lparr>uc_server = socket_at server port, uc_zone = zone, uc_key_name = key_name,
              uc_algorithm = alg, uc_secret = decoded\<rparr>))"

definition api_connection_of :: "dns_provider \<Rightarrow> string \<Rightarrow> (api_connection, failure) result" where
  "api_connection_of p secret = (case d_connection p of
     Rfc2136 _ _ _ _ _ _ \<Rightarrow> Inl (mismatched p)
   | Cloudflare zone_id _ api_base \<Rightarrow>
       let tok = trim secret in
       if tok = [] then Inl (new_failure Configuration (''the API token of '' @ d_id p @ '' is empty''))
       else Inr \<lparr>ac_base = trim_end (\<lambda>c. c = CHR ''/'') (if api_base = [] then CLOUDFLARE_API_BASE else api_base),
         ac_zone_id = zone_id, ac_token = tok\<rparr>)"

definition asking :: "('s, 'w) dns_os \<Rightarrow> dns_provider \<Rightarrow> 'w \<Rightarrow> (socket_addr, failure) result \<times> 'w" where
  "asking os p w = (case d_connection p of
     Rfc2136 server port _ _ _ _ \<Rightarrow> (Inr (socket_at server port), w)
   | Cloudflare _ _ _ \<Rightarrow> system_resolver os w)"

definition publish_one ::
  "('s, 'w) dns_os \<Rightarrow> (string \<Rightarrow> (json, string) result) \<Rightarrow> 'w api_call \<Rightarrow> dns_provider \<Rightarrow> string \<Rightarrow> string \<Rightarrow> string list \<Rightarrow> 'w
     \<Rightarrow> (unit, failure) result \<times> 'w" where
  "publish_one os parse call p secret name values w = (case d_connection p of
     Rfc2136 _ _ _ _ _ _ \<Rightarrow> run_then (update_connection_of os p secret, w) (\<lambda>c w. update_publish os c name values w)
   | Cloudflare _ _ _ \<Rightarrow> run_then (api_connection_of p secret, w) (\<lambda>c w. api_publish parse call c name values w))"

fun publish_each ::
  "('s, 'w) dns_os \<Rightarrow> (string \<Rightarrow> (json, string) result) \<Rightarrow> 'w api_call \<Rightarrow> dns_provider \<Rightarrow> string
     \<Rightarrow> (string \<times> string list) list \<Rightarrow> 'w \<Rightarrow> (unit, failure) result \<times> 'w" where
  "publish_each os parse call p secret [] w = (Inr (), w)"
| "publish_each os parse call p secret ((name, values) # rs) w =
     run_then (publish_one os parse call p secret name values w) (\<lambda>_ w. publish_each os parse call p secret rs w)"

definition dns_publish ::
  "('s, 'w) dns_os \<Rightarrow> (string \<Rightarrow> (json, string) result) \<Rightarrow> 'w api_call \<Rightarrow> (duration \<Rightarrow> 'w \<Rightarrow> 'w) \<Rightarrow> dns_provider \<Rightarrow> string
     \<Rightarrow> (string \<times> string list) list \<Rightarrow> 'w \<Rightarrow> (unit, failure) result \<times> 'w" where
  "dns_publish os parse call pause p secret records w =
     run_then (publish_each os parse call p secret records w) (\<lambda>_ w.
     run_then (asking os p w) (\<lambda>server w.
     settle (resolver_txt os server) pause records (secs (unat (d_propagation_timeout_secs p))) w))"

definition withdraw_one ::
  "('s, 'w) dns_os \<Rightarrow> (string \<Rightarrow> (json, string) result) \<Rightarrow> 'w api_call \<Rightarrow> dns_provider \<Rightarrow> string \<Rightarrow> string \<Rightarrow> 'w
     \<Rightarrow> (unit, failure) result \<times> 'w" where
  "withdraw_one os parse call p secret name w = (case d_connection p of
     Rfc2136 _ _ _ _ _ _ \<Rightarrow> run_then (update_connection_of os p secret, w) (\<lambda>c w. update_withdraw os c name w)
   | Cloudflare _ _ _ \<Rightarrow> run_then (api_connection_of p secret, w) (\<lambda>c w. api_withdraw parse call c name w))"

fun withdraw_each ::
  "('s, 'w) dns_os \<Rightarrow> (string \<Rightarrow> (json, string) result) \<Rightarrow> 'w api_call \<Rightarrow> dns_provider \<Rightarrow> string \<Rightarrow> string list
     \<Rightarrow> failure option \<Rightarrow> 'w \<Rightarrow> failure option \<times> 'w" where
  "withdraw_each os parse call p secret [] first w = (first, w)"
| "withdraw_each os parse call p secret (name # names) first w =
     (case withdraw_one os parse call p secret name w of
        (Inr _, w) \<Rightarrow> withdraw_each os parse call p secret names first w
      | (Inl e, w) \<Rightarrow> withdraw_each os parse call p secret names (case first of None \<Rightarrow> Some e | Some f \<Rightarrow> Some f) w)"

definition dns_withdraw ::
  "('s, 'w) dns_os \<Rightarrow> (string \<Rightarrow> (json, string) result) \<Rightarrow> 'w api_call \<Rightarrow> dns_provider \<Rightarrow> string \<Rightarrow> string list \<Rightarrow> 'w
     \<Rightarrow> (unit, failure) result \<times> 'w" where
  "dns_withdraw os parse call p secret names w =
     (case withdraw_each os parse call p secret names None w of
        (None, w) \<Rightarrow> (Inr (), w) | (Some e, w) \<Rightarrow> (Inl e, w))"

section \<open>Waiting ends, and says what was seen\<close>

text \<open>Where looking leaves the world alone, one look finds what every name answers.\<close>

definition all_visible :: "(string \<Rightarrow> 'w \<Rightarrow> string list) \<Rightarrow> (string \<times> string list) list \<Rightarrow> 'w \<Rightarrow> bool" where
  "all_visible held records w \<longleftrightarrow> (\<forall>(name, values) \<in> set records. set values \<subseteq> set (held name w))"

lemma first_missing_pure:
  assumes "\<And>name. look name w = (Inr (held name w), w)"
  shows "\<exists>m. first_missing look records w = (Inr m, w) \<and> (m = None \<longleftrightarrow> all_visible held records w)"
proof (induction records)
  case (Cons r records)
  obtain name vs where r: "r = (name, vs)" by fastforce
  from Cons obtain m where m: "first_missing look records w = (Inr m, w)" "m = None \<longleftrightarrow> all_visible held records w" by blast
  show ?case
  proof (cases "set vs \<subseteq> set (held name w)")
    case True
    then have "\<not> list_ex (\<lambda>v. v \<notin> set (held name w)) vs" by (auto simp: list_ex_iff)
    with m True r assms show ?thesis by (simp add: all_visible_def)
  next
    case False
    then have "list_ex (\<lambda>v. v \<notin> set (held name w)) vs" by (auto simp: list_ex_iff)
    with False r assms show ?thesis by (simp add: all_visible_def)
  qed
qed (simp add: all_visible_def)

lemma settle_from_visible:
  assumes look: "\<And>name w. look name w = (Inr (held name w), w)"
  shows "fst (settle_from look pause records allowed waited w) = Inr () \<longleftrightarrow>
    (\<exists>k. (k = 0 \<or> waited + (k - 1) * LOOK_INTERVAL < allowed) \<and> all_visible held records ((pause LOOK_INTERVAL ^^ k) w))"
proof (induction "allowed - waited" arbitrary: waited w rule: less_induct)
  case less
  obtain m where m: "first_missing look records w = (Inr m, w)" "m = None \<longleftrightarrow> all_visible held records w"
    using first_missing_pure [of look w held records] look by blast
  show ?case
  proof (cases m)
    case None
    then show ?thesis using m by (subst settle_from.simps) (auto intro: exI [of _ 0])
  next
    case (Some name)
    then have hidden: "\<not> all_visible held records w" using m(2) by simp
    show ?thesis
    proof (cases "waited \<ge> allowed")
      case True
      then have "fst (settle_from look pause records allowed waited w) \<noteq> Inr ()"
        using m(1) Some by (subst settle_from.simps) simp
      moreover have "k = 0" if "k = 0 \<or> waited + (k - 1) * LOOK_INTERVAL < allowed" for k using that True by auto
      ultimately show ?thesis using hidden by (metis funpow_0)
    next
      case False
      let ?P = "\<lambda>waited w k. (k = 0 \<or> waited + (k - 1) * LOOK_INTERVAL < allowed) \<and>
        all_visible held records ((pause LOOK_INTERVAL ^^ k) w)"
      have shift: "?P waited w (Suc k) \<longleftrightarrow> ?P (waited + LOOK_INTERVAL) (pause LOOK_INTERVAL w) k" for k
        using False by (cases k) (auto simp: funpow_swap1 algebra_simps)
      have "(\<exists>k. ?P waited w k) \<longleftrightarrow> (\<exists>k. ?P waited w (Suc k))"
        using hidden by (metis funpow_0 nat.exhaust)
      then have "(\<exists>k. ?P waited w k) \<longleftrightarrow> (\<exists>k. ?P (waited + LOOK_INTERVAL) (pause LOOK_INTERVAL w) k)" using shift by simp
      moreover have "settle_from look pause records allowed waited w =
          settle_from look pause records allowed (waited + LOOK_INTERVAL) (pause LOOK_INTERVAL w)"
        using m(1) Some False by (subst settle_from.simps) simp
      moreover have "allowed - (waited + LOOK_INTERVAL) < allowed - waited" using False LOOK_INTERVAL_pos by simp
      ultimately show ?thesis using less [of "waited + LOOK_INTERVAL" "pause LOOK_INTERVAL w"] by simp
    qed
  qed
qed

text \<open>An update is taken as done only on an answer that proves the key over this request.\<close>

lemma apply_changes_done:
  assumes "apply_changes os c changes w = (Inr (), w')"
  shows "\<exists>message i now sg answer w1. dns_update i (uc_zone c) changes = Inr message \<and>
    tsig_sign (dns_hmac os) message (uc_key_name c) (uc_algorithm c) (uc_secret c) now = Inr sg \<and>
    exchange os (uc_server c) (sg_message sg) w1 = (Inr answer, w') \<and>
    (\<exists>head. read_dns_header answer = Inr head \<and> dh_id head = i \<and> rcode head = 0) \<and>
    tsig_verify (dns_hmac os) answer (uc_key_name c) (uc_algorithm c) (uc_secret c) (sg_mac sg) now = Inr ()"
  using assms by (auto simp: apply_changes_def run_then_Inr split: if_splits) blast

end
