(* ===== verification/Certificate_Properties.thy ===== *)
theory Certificate_Properties
  imports Dns
begin

text \<open>
  Properties of the certificate crate: what is read back from a name server, what a signed
  answer proves, and how long a challenge is waited for. Each property is followed by a
  witness.
\<close>

lemma txt_changes_values:
  "txt_changes name vs = Inr rs \<Longrightarrow> list_all utf8_valid vs \<Longrightarrow> utf8_valid name \<Longrightarrow>
     txt_values rs = vs \<and> list_all (\<lambda>r. utf8_valid (dr_name r)) rs"
  by (induction vs arbitrary: rs) (auto simp: and_then_Inr add_txt_def txt_values_def read_txt_data)

lemma length_txt_changes: "txt_changes name vs = Inr rs \<Longrightarrow> length rs = length vs"
  by (induction vs arbitrary: rs) (auto simp: and_then_Inr)

text \<open>
  C35: What was written to a name server is read back: an answer that carries the TXT records
  published for a name, whatever follows them in the message, gives their values in order.
\<close>

theorem published_values_read_back:
  assumes "txt_changes name vs = Inr rs" "answer_bytes h name TYPE_TXT rs = Inr m"
    and "utf8_valid name" "list_all utf8_valid vs"
    and "dh_counts h = (1, of_nat (length vs), c, d)" "length vs < 2 ^ 16"
  shows "txt_answers (m @ rest) = Inr vs"
  using read_whole_answer [OF assms(2,3)] txt_changes_values [OF assms(1,4,3)] length_txt_changes [OF assms(1)] assms(5,6)
  by simp

lemma plain_text_valid: "utf8_valid ''a.b''" "utf8_valid ''xy''" "utf8_valid ''z''" "utf8_valid ''k''"
  by (simp_all add: utf8_valid_Cons byte_in_def)

lemmas dns_eval = answer_bytes_def write_name_def write_record_def write_dns_header_def trim_end_def add_txt_def txt_data_def
  MOST_LABEL_def MOST_NAME_def MOST_STRING_def TYPE_TXT_def CLASS_IN_def RECORD_TTL_def Let_def as_bytes_def

theorem published_values_read_back_witness:
  "\<exists>rs m. txt_changes ''a.b'' [''xy'', ''z''] = Inr rs \<and>
     answer_bytes \<lparr>dh_id = 7, dh_flags = 0x8180, dh_counts = (1, 2, 0, 0)\<rparr> ''a.b'' TYPE_TXT rs = Inr m \<and>
     txt_answers (m @ [1, 2]) = Inr [''xy'', ''z'']"
proof -
  obtain rs where rs: "txt_changes ''a.b'' [''xy'', ''z''] = Inr rs" by (simp add: dns_eval)
  let ?h = "\<lparr>dh_id = 7, dh_flags = 0x8180, dh_counts = (1, 2, 0, 0)\<rparr>"
  obtain m where m: "answer_bytes ?h ''a.b'' TYPE_TXT rs = Inr m" using rs by (auto simp: dns_eval)
  have "txt_answers (m @ [1, 2]) = Inr [''xy'', ''z'']"
    by (rule published_values_read_back [OF rs m]) (simp_all add: plain_text_valid)
  with rs m show ?thesis by blast
qed

text \<open>
  An answer that a holder of the key signed over this request within the allowed time is
  accepted, whatever the answer carries.
\<close>

lemma signed_answer_taken:
  assumes "answer_bytes h name kind rs = Inr reply" "utf8_valid name" "list_all (\<lambda>r. utf8_valid (dr_name r)) rs"
    and "dh_counts h = (1, of_nat (length rs), 0, 0)" "length rs < 2 ^ 16" "utf8_valid key_name"
    and "sign_answer hmac reply key_name alg secret request_mac t = Inr out" "unat t < 2 ^ 48"
    and "abs_diff now t \<le> unat FUDGE" "length request_mac < 2 ^ 16"
  shows "tsig_verify hmac out key_name alg secret request_mac now = Inr ()"
  using signed_answer_accepted [OF assms] .

definition sample_digest :: "tsig_algorithm \<Rightarrow> byte list \<Rightarrow> byte list \<Rightarrow> (byte list, failure) result" where
  "sample_digest alg secret message = Inr (take 2 (secret @ message))"

lemmas sign_eval = dns_eval sign_answer_def tsig_variables_def tsig_append_def sample_digest_def CLASS_ANY_def TYPE_TSIG_def
  FUDGE_def read_dns_header_def be_word_def put_word_def TYPE_SOA_def



text \<open>
  C34: A record counts as published only when the name server the key is configured for said so:
  the answer read from it names this update, has code zero, was signed within the allowed time
  and carries the digest under the shared key over the signature of the request, which asked to
  replace the values of the name by exactly these.
\<close>

theorem published_only_when_proved:
  assumes "update_publish os c name values w = (Inr (), w')"
  shows "\<exists>rs message i now sg answer w1 at held vars head.
    txt_changes name values = Inr rs \<and> dns_update i (uc_zone c) (delete_txt_set name # rs) = Inr message \<and>
    tsig_sign (dns_hmac os) message (uc_key_name c) (uc_algorithm c) (uc_secret c) now = Inr sg \<and>
    exchange os (uc_server c) (sg_message sg) w1 = (Inr answer, w') \<and>
    read_dns_header answer = Inr head \<and> dh_id head = i \<and> rcode head = 0 \<and>
    signature_of answer (uc_key_name c) = Inr (at, held) \<and> rd_error held = 0 \<and>
    abs_diff now (rd_signed_at held) \<le> unat (rd_fudge held) \<and>
    tsig_variables (uc_key_name c) (uc_algorithm c) (rd_signed_at held) 0 (rd_other held) = Inr vars \<and>
    dns_hmac os (uc_algorithm c) (uc_secret c) (u16_to_be (of_nat (length (sg_mac sg))) @ sg_mac sg @
      put_word 10 (be_word (take at answer) 10 - 1) (take at answer) @ vars) = Inr (rd_mac held)"
proof -
  from assms obtain rs where rs: "txt_changes name values = Inr rs" "apply_changes os c (delete_txt_set name # rs) w = (Inr (), w')"
    by (auto simp: update_publish_def run_then_Inr)
  from apply_changes_done [OF rs(2)] verify_proves rs(1) show ?thesis by metis
qed

text \<open>A name server that answers every update with one signed answer.\<close>

definition sample_reply :: "byte list" where
  "sample_reply = [0, 7, 0xA8, 0, 0, 1, 0, 0, 0, 0, 0, 1, 1, 98, 0, 0, 6, 0, 1,
     1, 107, 0, 0, 250, 0, 255, 0, 0, 0, 0, 0, 31, 11, 104, 109, 97, 99, 45, 115, 104, 97, 50, 53, 54, 0,
     0, 0, 0, 0, 3, 232, 1, 44, 0, 2, 5, 0, 0, 7, 0, 0, 0, 0]"

definition sample_dns :: "(unit, unit) dns_os" where
  "sample_dns = \<lparr>tcp_connect = (\<lambda>_ _ w. (Inr (), w)), tcp_timeouts = (\<lambda>_ _ w. (Inr (), w)),
     tcp_write_all = (\<lambda>_ _ w. (Inr (), w)),
     tcp_read_exact = (\<lambda>_ n w. (Inr (if n = 2 then u16_to_be (of_nat (length sample_reply)) else take n sample_reply), w)),
     rand_bytes = (\<lambda>_ w. (Inr [0, 7], w)), read_to_string = (\<lambda>_ w. (Inr [], w)), since_epoch = (\<lambda>w. (Inr 1000, w)),
     parse_ip = (\<lambda>_. None), base64_decode = (\<lambda>_. Inr []), dns_hmac = sample_digest\<rparr>"

definition sample_zone :: update_connection where
  "sample_zone = \<lparr>uc_server = SockV4 (Ipv4 1 2 3 4) 53, uc_zone = ''b'', uc_key_name = ''k'', uc_algorithm = HmacSha256, uc_secret = [5]\<rparr>"

lemma sample_reply_signed:
  "sign_answer sample_digest (take 11 sample_reply @ 0 # drop 12 (take 19 sample_reply)) ''k'' HmacSha256 [5] [5, b] 1000 =
    Inr sample_reply"
  by (simp add: sign_eval length_u16_to_be u16_to_be_def u16_from_be_def u32_to_be_def u64_to_be_def sample_reply_def byte_of_def drop_map upt_conv_Cons)

lemma sample_reply_accepted: "tsig_verify sample_digest sample_reply ''k'' HmacSha256 [5] [5, b] 1000 = Inr ()"
proof (rule signed_answer_accepted [OF _ _ _ _ _ _ sample_reply_signed])
  show "answer_bytes \<lparr>dh_id = 7, dh_flags = 0xA800, dh_counts = (1, of_nat (length []), 0, 0)\<rparr> ''b'' TYPE_SOA [] =
      Inr (take 11 sample_reply @ 0 # drop 12 (take 19 sample_reply))"
    by (simp add: sign_eval sample_reply_def u16_to_be_def byte_of_def)
qed (simp_all add: plain_text_valid abs_diff_def utf8_valid_Cons byte_in_def)

lemma sample_exchange: "length message < 2 ^ 16 \<Longrightarrow> exchange sample_dns server message w = (Inr sample_reply, w)"
  by (simp add: exchange_def sample_dns_def sample_reply_def u16_to_be_def u16_from_be_def)

lemma sample_signed:
  assumes "length rest < 1000"
  shows "\<exists>sg b. tsig_sign sample_digest ([0, 7, 0x28, 0, 0, 1, 0, 0, 0, 2, 0, 0] @ rest) ''k'' HmacSha256 [5] 1000 = Inr sg \<and>
    sg_mac sg = [5, b] \<and> length (sg_message sg) < 2 ^ 16"
  using assms
  by (simp add: tsig_sign_def sign_eval length_u16_to_be length_u32_to_be u16_to_be_def u16_from_be_def)

lemma sample_update: "update_publish sample_dns sample_zone ''a.b'' [''xy''] () = (Inr (), ())"
proof -
  obtain rs where rs: "txt_changes ''a.b'' [''xy''] = Inr rs" by (simp add: dns_eval)
  obtain rest where m: "dns_update 7 ''b'' (delete_txt_set ''a.b'' # rs) =
      Inr ([0, 7, 0x28, 0, 0, 1, 0, 0, 0, 2, 0, 0] @ rest)" "length rest < 1000"
    using rs by (auto simp: dns_update_def delete_txt_set_def OPCODE_UPDATE_def sign_eval u16_to_be_def length_u32_to_be)
  obtain sg b where sg: "tsig_sign sample_digest ([0, 7, 0x28, 0, 0, 1, 0, 0, 0, 2, 0, 0] @ rest) ''k'' HmacSha256 [5] 1000 = Inr sg"
    "sg_mac sg = [5, b]" "length (sg_message sg) < 2 ^ 16" using sample_signed [OF m(2)] by blast
  have head: "read_dns_header sample_reply = Inr \<lparr>dh_id = 7, dh_flags = 0xA800, dh_counts = (1, 0, 0, 1)\<rparr>"
    by (simp add: read_dns_header_def be_word_def u16_from_be_def sample_reply_def)
  have env: "message_id sample_dns w = (Inr 7, w)" "seconds_now sample_dns w = (Inr 1000, w)" "dns_hmac sample_dns = sample_digest" for w
    by (simp_all add: sample_dns_def message_id_def seconds_now_def u16_from_be_def)
  have zone: "uc_zone sample_zone = ''b''" "uc_key_name sample_zone = ''k''" "uc_algorithm sample_zone = HmacSha256" "uc_secret sample_zone = [5]"
    by (simp_all add: sample_zone_def)
  show ?thesis
    unfolding update_publish_def apply_changes_def rs env zone
    using m(1) sg sample_exchange [OF sg(3)] head sample_reply_accepted by (simp add: rcode_def)
qed

theorem published_only_when_proved_witness:
  "\<exists>now (sg :: signed) answer w1 held at. update_publish sample_dns sample_zone ''a.b'' [''xy''] () = (Inr (), ()) \<and>
     exchange sample_dns (uc_server sample_zone) (sg_message sg) w1 = (Inr answer, ()) \<and>
     signature_of answer (uc_key_name sample_zone) = Inr (at, held) \<and> abs_diff now (rd_signed_at held) \<le> unat (rd_fudge held)"
  using published_only_when_proved [OF sample_update] sample_update by blast

end
