(* ===== verification/Jws.thy ===== *)
theory Jws
  imports Dns Sticky
begin

text \<open>
  \<open>jws.rs\<close>: the signed envelope of a request and the answers of a challenge. Keys, numbers,
  digests, signatures and base64 belong to OpenSSL: they are the record \<open>ec_ssl\<close>, where \<open>'k\<close> is
  a private key and \<open>'e\<close> its curve form. Signing draws randomness, so it passes a world on.
\<close>

record ('k, 'e, 'w) ec_ssl =
  ec_key :: "'k \<Rightarrow> ('e, string) result"
  bn_context :: "(unit, string) result"
  bn_new :: "(unit, string) result"
  affine_coordinates :: "'e \<Rightarrow> (nat \<times> nat, string) result"
  to_vec_padded :: "nat \<Rightarrow> nat \<Rightarrow> (byte list, string) result"
  sha256_hash :: "byte list \<Rightarrow> (byte list, string) result"
  ecdsa_sign :: "byte list \<Rightarrow> 'e \<Rightarrow> 'w \<Rightarrow> (nat \<times> nat, string) result \<times> 'w"
  encode_block :: "byte list \<Rightarrow> string"

definition COORDINATE :: nat where "COORDINATE = 32"

definition crypto :: "string \<Rightarrow> ('a, string) result \<Rightarrow> ('a, failure) result" where
  "crypto said r = (case r of Inl e \<Rightarrow> Inl (new_failure Crypto (said @ e)) | Inr a \<Rightarrow> Inr a)"

lemma crypto_simps [simp]: "crypto said (Inl e) = Inl (new_failure Crypto (said @ e))" "crypto said (Inr a) = Inr a"
  by (simp_all add: crypto_def)

section \<open>Encoding\<close>

definition url_alphabet :: "char \<Rightarrow> char" where
  "url_alphabet c = (if c = CHR ''+'' then CHR ''-'' else if c = CHR ''/'' then CHR ''_'' else c)"

definition base64url :: "('k, 'e, 'w) ec_ssl \<Rightarrow> byte list \<Rightarrow> string" where
  "base64url ssl bytes = map url_alphabet (trim_end (\<lambda>c. c = CHR ''='') (encode_block ssl bytes))"

definition quoted :: "string \<Rightarrow> string" where
  "quoted s = CHR 0x22 # s @ [CHR 0x22]"

definition pair_of :: "string \<Rightarrow> string \<Rightarrow> string" where
  "pair_of key shown = quoted key @ '':'' @ shown"

definition object_of :: "string list \<Rightarrow> string" where
  "object_of pairs = ''{'' @ join '','' pairs @ ''}''"

definition escape_char :: "char \<Rightarrow> string" where
  "escape_char c =
     (if c = CHR 0x22 then [CHR 0x5C, CHR 0x22]
      else if c = CHR 0x5C then [CHR 0x5C, CHR 0x5C]
      else if c = CHR 0x0A then [CHR 0x5C, CHR ''n'']
      else if c = CHR 0x0D then [CHR 0x5C, CHR ''r'']
      else if c = CHR 0x09 then [CHR 0x5C, CHR ''t'']
      else if of_char c < (0x20 :: nat) then CHR 0x5C # CHR ''u'' # ''00'' @ hex_byte (byte_of c)
      else [c])"

definition jws_escape :: "string \<Rightarrow> string" where
  "jws_escape s = concat (map escape_char s)"

section \<open>Keys\<close>

definition jwk :: "('k, 'e, 'w) ec_ssl \<Rightarrow> 'k \<Rightarrow> (string, failure) result" where
  "jwk ssl key =
     and_then (crypto ''not an EC key: '' (ec_key ssl key)) (\<lambda>ec.
     and_then (crypto ''no context: '' (bn_context ssl)) (\<lambda>_.
     and_then (crypto ''no number: '' (bn_new ssl)) (\<lambda>_.
     and_then (crypto ''no number: '' (bn_new ssl)) (\<lambda>_.
     and_then (crypto ''the public point does not read: '' (affine_coordinates ssl ec)) (\<lambda>(x, y).
     and_then (crypto ''x does not fit: '' (to_vec_padded ssl x COORDINATE)) (\<lambda>x.
     and_then (crypto ''y does not fit: '' (to_vec_padded ssl y COORDINATE)) (\<lambda>y.
     Inr (object_of [pair_of ''crv'' (quoted ''P-256''), pair_of ''kty'' (quoted ''EC''),
       pair_of ''x'' (quoted (base64url ssl x)), pair_of ''y'' (quoted (base64url ssl y))]))))))))"

definition thumbprint :: "('k, 'e, 'w) ec_ssl \<Rightarrow> 'k \<Rightarrow> (string, failure) result" where
  "thumbprint ssl key =
     and_then (jwk ssl key) (\<lambda>j.
     and_then (crypto ''no digest: '' (sha256_hash ssl (as_bytes j))) (\<lambda>digest.
     Inr (base64url ssl digest)))"

definition key_authorization :: "string \<Rightarrow> string \<Rightarrow> string" where
  "key_authorization tok print = tok @ ''.'' @ print"

definition record_value :: "('k, 'e, 'w) ec_ssl \<Rightarrow> string \<Rightarrow> string \<Rightarrow> (string, failure) result" where
  "record_value ssl tok print =
     and_then (crypto ''the challenge answer could not be digested: ''
       (sha256_hash ssl (as_bytes (key_authorization tok print)))) (\<lambda>digest.
     Inr (base64url ssl digest))"

section \<open>Signing\<close>

datatype identify = IdKey | IdAccount

definition raw_signature :: "('k, 'e, 'w) ec_ssl \<Rightarrow> 'k \<Rightarrow> byte list \<Rightarrow> 'w \<Rightarrow> (string, failure) result \<times> 'w" where
  "raw_signature ssl key message w =
     run_then (crypto ''not an EC key: '' (ec_key ssl key), w) (\<lambda>ec w.
     run_then (crypto ''no digest: '' (sha256_hash ssl message), w) (\<lambda>digest w.
     run_then (case ecdsa_sign ssl digest ec w of (sig, w) \<Rightarrow> (crypto ''no signature: '' sig, w)) (\<lambda>(r, s) w.
     run_then (crypto ''r does not fit: '' (to_vec_padded ssl r COORDINATE), w) (\<lambda>rb w.
     run_then (crypto ''s does not fit: '' (to_vec_padded ssl s COORDINATE), w) (\<lambda>sb w.
     (Inr (base64url ssl (rb @ sb)), w))))))"

definition jws_header ::
  "('k, 'e, 'w) ec_ssl \<Rightarrow> 'k \<Rightarrow> identify \<Rightarrow> string option \<Rightarrow> string \<Rightarrow> string \<Rightarrow> (string, failure) result" where
  "jws_header ssl key who account url nonce =
     (let ends = [pair_of ''nonce'' (quoted (jws_escape nonce)), pair_of ''url'' (quoted (jws_escape url))] in
      case who of
        IdKey \<Rightarrow> and_then (jwk ssl key) (\<lambda>j.
          Inr (object_of ([pair_of ''alg'' (quoted ''ES256''), pair_of ''jwk'' j] @ ends)))
      | IdAccount \<Rightarrow> and_then (ok_or (new_failure Protocol ''the server named no account to sign as'') account) (\<lambda>a.
          Inr (object_of ([pair_of ''alg'' (quoted ''ES256''), pair_of ''kid'' (quoted (jws_escape a))] @ ends))))"

definition jws_sign ::
  "('k, 'e, 'w) ec_ssl \<Rightarrow> 'k \<Rightarrow> identify \<Rightarrow> string option \<Rightarrow> string \<Rightarrow> string \<Rightarrow> string option \<Rightarrow> 'w
     \<Rightarrow> (string, failure) result \<times> 'w" where
  "jws_sign ssl key who account url nonce payload w =
     run_then (jws_header ssl key who account url nonce, w) (\<lambda>header w.
     let protected = base64url ssl (as_bytes header);
         body = base64url ssl (as_bytes (case payload of None \<Rightarrow> [] | Some p \<Rightarrow> p)) in
     run_then (raw_signature ssl key (as_bytes (protected @ ''.'' @ body)) w) (\<lambda>sig w.
     (Inr (object_of [pair_of ''protected'' (quoted protected), pair_of ''payload'' (quoted body),
        pair_of ''signature'' (quoted sig)]), w)))"

section \<open>A header says only what this program put there\<close>

text \<open>
  How a reader of JSON takes a string apart (RFC 8259): up to the closing quotation mark,
  with the escapes undone.
\<close>

definition unescaped :: "char \<Rightarrow> char option" where
  "unescaped e =
     (if e = CHR 0x22 \<or> e = CHR 0x5C then Some e
      else if e = CHR ''n'' then Some (CHR 0x0A)
      else if e = CHR ''r'' then Some (CHR 0x0D)
      else if e = CHR ''t'' then Some (CHR 0x09)
      else None)"

definition low_unicode :: "string \<Rightarrow> char option" where
  "low_unicode s = (if take 2 s = ''00'' \<and> 4 \<le> length s then
     (case (digit_value 16 (s ! 2), digit_value 16 (s ! 3)) of
        (Some a, Some b) \<Rightarrow> Some (char_of (16 * a + b)) | _ \<Rightarrow> None)
     else None)"

function json_string :: "string \<Rightarrow> (string \<times> string) option" where
  "json_string [] = None"
| "json_string (c # s) =
     (if c = CHR 0x22 then Some ([], s)
      else if c = CHR 0x5C then
        (case s of
           [] \<Rightarrow> None
         | e # r \<Rightarrow>
             if e = CHR ''u'' then Option.bind (low_unicode r) (\<lambda>d. map_option (apfst (Cons d)) (json_string (drop 4 r)))
             else Option.bind (unescaped e) (\<lambda>d. map_option (apfst (Cons d)) (json_string r)))
      else if of_char c < (0x20 :: nat) then None
      else map_option (apfst (Cons c)) (json_string s))"
  by pat_completeness auto

termination json_string
  by (relation "measure length") auto

lemma json_string_escaped: "json_string (escape_char c @ s) = map_option (apfst (Cons c)) (json_string s)"
proof -
  have ctl: "low_unicode (''00'' @ hex_byte (byte_of c) @ s) = Some c" if "of_char c < (0x20 :: nat)"
    using that by (simp add: low_unicode_def hex_byte_def hex_digit_value byte_of_def unat_of_nat)
  show ?thesis
  proof (cases "c \<in> {CHR 0x22, CHR 0x5C, CHR 0x0A, CHR 0x0D, CHR 0x09}")
    case True
    then show ?thesis by (auto simp: escape_char_def unescaped_def)
  next
    case False
    then show ?thesis using ctl by (simp add: escape_char_def hex_byte_def)
  qed
qed

lemma json_string_jws_escape: "json_string (jws_escape v @ CHR 0x22 # rest) = Some (v, rest)"
  by (induction v) (simp_all add: jws_escape_def json_string_escaped)

end
