(* ===== verification/Order.thy ===== *)
theory Order
  imports Jws Btree_Map
begin

text \<open>
  \<open>order.rs\<close>: the flow of an ACME order with no network in it. The flow is a record; \<open>accept\<close>
  takes one answer and gives what it did together with the flow as the code leaves it, also
  when the answer is refused. Reading a document and printing a string for debugging belong
  to libraries: they are the record \<open>text_lib\<close>.
\<close>

record text_lib =
  json_parse :: "string \<Rightarrow> (json, string) result"
  debug_str :: "string \<Rightarrow> string"

definition MOST_POLLS :: nat where "MOST_POLLS = 60"
definition MOST_NONCE_RETRIES :: nat where "MOST_NONCE_RETRIES = 5"

datatype challenge = Http01 | Dns01

fun wire_name :: "challenge \<Rightarrow> string" where
  "wire_name Http01 = ''http-01''"
| "wire_name Dns01 = ''dns-01''"

record publication =
  pub_kind :: "challenge option"
  pub_entries :: "(string \<times> string list) list"

definition no_publication :: publication where
  "no_publication = \<lparr>pub_kind = None, pub_entries = []\<rparr>"

definition pub_is_empty :: "publication \<Rightarrow> bool" where
  "pub_is_empty p \<longleftrightarrow> pub_entries p = []"

definition meant_for :: "publication \<Rightarrow> challenge \<Rightarrow> (unit, failure) result" where
  "meant_for p kind = (case pub_kind p of
     Some c \<Rightarrow> if c \<noteq> kind then Inl (new_failure Protocol (''a '' @ wire_name c
         @ '' answer cannot be published where a '' @ wire_name kind @ '' answer goes''))
       else Inr ()
   | None \<Rightarrow> Inr ())"

definition BAD_NONCE :: string where "BAD_NONCE = ''urn:ietf:params:acme:error:badNonce''"

datatype ask = ReadAsk string | SendAsk string "string option" identify

fun ask_url :: "ask \<Rightarrow> string" where
  "ask_url (ReadAsk url) = url"
| "ask_url (SendAsk url _ _) = url"

datatype progress = Moved | Again

record acme_answer =
  an_status :: u16
  an_body :: string
  an_location :: "string option"

datatype stage = StDirectory | StNonce | StAccount | StOrder | StResume | StAuthorization | StAccept
  | StPoll | StFinalize | StDownload | StDone

record directory =
  new_nonce :: string
  new_account :: string
  new_order :: string

record flow =
  fw_stage :: stage
  fw_directory_url :: string
  fw_names :: "string list"
  fw_thumbprint :: string
  fw_contact :: string
  fw_csr :: string
  fw_directory :: directory
  fw_account :: "string option"
  fw_order :: "string option"
  fw_finalize :: "string option"
  fw_certificate :: "string option"
  fw_waiting :: "string list"
  fw_challenge :: "string option"
  fw_kind :: challenge
  fw_published :: publication
  fw_chain :: "string option"
  fw_polls :: nat
  fw_resuming :: bool

definition new_flow :: "string \<Rightarrow> string list \<Rightarrow> string \<Rightarrow> string \<Rightarrow> string \<Rightarrow> challenge \<Rightarrow> flow" where
  "new_flow directory_url names print contact csr kind =
     \<lparr>fw_stage = StDirectory, fw_directory_url = directory_url, fw_names = names, fw_thumbprint = print,
      fw_contact = contact, fw_csr = csr, fw_directory = \<lparr>new_nonce = [], new_account = [], new_order = []\<rparr>,
      fw_account = None, fw_order = None, fw_finalize = None, fw_certificate = None, fw_waiting = [],
      fw_challenge = None, fw_kind = kind, fw_published = no_publication, fw_chain = None, fw_polls = 0,
      fw_resuming = False\<rparr>"

definition resume_flow :: "string \<Rightarrow> string list \<Rightarrow> string \<Rightarrow> string \<Rightarrow> string \<Rightarrow> challenge \<Rightarrow> string \<Rightarrow> flow" where
  "resume_flow directory_url names print contact csr kind order_url =
     (new_flow directory_url names print contact csr kind)\<lparr>fw_order := Some order_url, fw_resuming := True\<rparr>"

section \<open>Asking\<close>

definition account_payload :: "flow \<Rightarrow> string" where
  "account_payload f =
     (if fw_contact f = [] then object_of [pair_of ''termsOfServiceAgreed'' ''true'']
      else object_of [pair_of ''termsOfServiceAgreed'' ''true'',
        pair_of ''contact'' (''['' @ quoted (''mailto:'' @ fw_contact f) @ '']'')])"

definition order_payload :: "flow \<Rightarrow> string" where
  "order_payload f = object_of [pair_of ''identifiers''
     (''['' @ join '','' (map (\<lambda>name. object_of [pair_of ''type'' (quoted ''dns''), pair_of ''value'' (quoted name)]) (fw_names f)) @ '']'')]"

definition next_ask :: "flow \<Rightarrow> ask option" where
  "next_ask f = (case fw_stage f of
     StDirectory \<Rightarrow> Some (ReadAsk (fw_directory_url f))
   | StNonce \<Rightarrow> Some (ReadAsk (new_nonce (fw_directory f)))
   | StAccount \<Rightarrow> Some (SendAsk (new_account (fw_directory f)) (Some (account_payload f)) IdKey)
   | StOrder \<Rightarrow> Some (SendAsk (new_order (fw_directory f)) (Some (order_payload f)) IdAccount)
   | StResume \<Rightarrow> map_option (\<lambda>url. SendAsk url None IdAccount) (fw_order f)
   | StAuthorization \<Rightarrow> (case fw_waiting f of [] \<Rightarrow> None | url # _ \<Rightarrow> Some (SendAsk url None IdAccount))
   | StAccept \<Rightarrow> map_option (\<lambda>url. SendAsk url (Some ''{}'') IdAccount) (fw_challenge f)
   | StPoll \<Rightarrow> map_option (\<lambda>url. SendAsk url None IdAccount) (fw_order f)
   | StFinalize \<Rightarrow> map_option (\<lambda>url. SendAsk url (Some (object_of [pair_of ''csr'' (quoted (fw_csr f))])) IdAccount) (fw_finalize f)
   | StDownload \<Rightarrow> map_option (\<lambda>url. SendAsk url None IdAccount) (fw_certificate f)
   | StDone \<Rightarrow> None)"

definition finished_flow :: "flow \<Rightarrow> bool" where
  "finished_flow f \<longleftrightarrow> fw_stage f = StDone"

definition waiting_on_server :: "flow \<Rightarrow> bool" where
  "waiting_on_server f \<longleftrightarrow> fw_stage f = StPoll"

section \<open>Reading answers\<close>

fun kind_of :: "stage \<Rightarrow> string" where
  "kind_of StDirectory = ''reading the directory''"
| "kind_of StNonce = ''collecting a nonce''"
| "kind_of StAccount = ''creating the account''"
| "kind_of StOrder = ''placing the order''"
| "kind_of StResume = ''taking over the order''"
| "kind_of StAuthorization = ''reading an authorization''"
| "kind_of StAccept = ''handing over the challenge''"
| "kind_of StPoll = ''reading the order''"
| "kind_of StFinalize = ''finalising the order''"
| "kind_of StDownload = ''collecting the certificate''"
| "kind_of StDone = ''nothing''"

definition order_parse :: "text_lib \<Rightarrow> string \<Rightarrow> (json, failure) result" where
  "order_parse lib body = (case json_parse lib body of
     Inl e \<Rightarrow> Inl (new_failure Protocol (''the server sent something that is not JSON: '' @ e))
   | Inr document \<Rightarrow> Inr document)"

definition text_at :: "string \<Rightarrow> json \<Rightarrow> string option" where
  "text_at key document = Option.bind (json_get key document) as_str"

definition order_text :: "json \<Rightarrow> string \<Rightarrow> (string, failure) result" where
  "order_text document key = ok_or (new_failure Protocol (''the answer carries no '' @ key)) (text_at key document)"

definition problem_type :: "text_lib \<Rightarrow> string \<Rightarrow> string option" where
  "problem_type lib body = (case json_parse lib body of Inl _ \<Rightarrow> None | Inr document \<Rightarrow> text_at ''type'' document)"

definition server_said :: "text_lib \<Rightarrow> flow \<Rightarrow> acme_answer \<Rightarrow> failure" where
  "server_said lib f a =
     (let kind = (case problem_type lib (an_body a) of None \<Rightarrow> ''no type'' | Some k \<Rightarrow> k);
          detail = (case order_parse lib (an_body a) of Inl _ \<Rightarrow> []
            | Inr document \<Rightarrow> (case text_at ''detail'' document of None \<Rightarrow> [] | Some d \<Rightarrow> d)) in
      new_failure Server (decimal (unat (an_status a)) @ '' while '' @ kind_of (fw_stage f) @ '': '' @ kind @ '' '' @ detail))"

definition read_directory :: "text_lib \<Rightarrow> flow \<Rightarrow> acme_answer \<Rightarrow> (progress, failure) result \<times> flow" where
  "read_directory lib f a =
     run_then (order_parse lib (an_body a), f) (\<lambda>document f.
     run_then (order_text document ''newNonce'', f) (\<lambda>nonce f.
     run_then (order_text document ''newAccount'', f) (\<lambda>account f.
     run_then (order_text document ''newOrder'', f) (\<lambda>order f.
     (Inr Moved, f\<lparr>fw_directory := \<lparr>new_nonce = nonce, new_account = account, new_order = order\<rparr>, fw_stage := StNonce\<rparr>)))))"

definition read_account :: "flow \<Rightarrow> acme_answer \<Rightarrow> (progress, failure) result \<times> flow" where
  "read_account f a =
     run_then (ok_or (new_failure Protocol ''the server named no account'') (an_location a), f) (\<lambda>account f.
     (Inr Moved, f\<lparr>fw_account := Some account, fw_stage := (if fw_resuming f then StResume else StOrder)\<rparr>))"

definition authorizations_of :: "json \<Rightarrow> (string list, failure) result" where
  "authorizations_of document =
     and_then (ok_or (new_failure Protocol ''the order names no authorizations'')
       (Option.bind (json_get ''authorizations'' document) as_array))
       (\<lambda>listed. Inr (List.map_filter as_str listed))"

definition after_waiting :: "flow \<Rightarrow> stage" where
  "after_waiting f = (if fw_waiting f = [] then StPoll else StAuthorization)"

definition unknown_state :: "text_lib \<Rightarrow> string option \<Rightarrow> failure" where
  "unknown_state lib state = new_failure Protocol (''the order is in a state this client does not know: ''
     @ (case state of None \<Rightarrow> ''None'' | Some s \<Rightarrow> ''Some('' @ debug_str lib s @ '')''))"

definition order_issued :: "json \<Rightarrow> flow \<Rightarrow> (progress, failure) result \<times> flow" where
  "order_issued document f =
     run_then (order_text document ''certificate'', f) (\<lambda>url f.
     (Inr Moved, f\<lparr>fw_certificate := Some url, fw_stage := StDownload\<rparr>))"

definition read_resumed :: "text_lib \<Rightarrow> flow \<Rightarrow> acme_answer \<Rightarrow> (progress, failure) result \<times> flow" where
  "read_resumed lib f a =
     run_then (order_parse lib (an_body a), f) (\<lambda>document f.
     run_then (order_text document ''finalize'', f) (\<lambda>url f.
     let f = f\<lparr>fw_finalize := Some url\<rparr> in
     run_then (authorizations_of document, f) (\<lambda>waiting f.
     let f = f\<lparr>fw_waiting := waiting\<rparr>; state = text_at ''status'' document in
     if state = Some ''valid'' then order_issued document f
     else if state = Some ''ready'' then (Inr Moved, f\<lparr>fw_stage := StFinalize\<rparr>)
     else if state = Some ''pending'' then (Inr Moved, f\<lparr>fw_stage := after_waiting f\<rparr>)
     else if state = Some ''processing'' then (Inr Moved, f\<lparr>fw_stage := StPoll\<rparr>)
     else if state = Some ''invalid'' then
       (Inl (new_failure ChallengeRefused (''the order that was taken over had already failed for '' @ join '', '' (fw_names f))), f)
     else (Inl (unknown_state lib state), f))))"

definition read_order :: "text_lib \<Rightarrow> flow \<Rightarrow> acme_answer \<Rightarrow> (progress, failure) result \<times> flow" where
  "read_order lib f a =
     run_then (order_parse lib (an_body a), f) (\<lambda>document f.
     run_then (ok_or (new_failure Protocol ''the server named no order'') (an_location a), f) (\<lambda>order f.
     let f = f\<lparr>fw_order := Some order\<rparr> in
     run_then (order_text document ''finalize'', f) (\<lambda>url f.
     let f = f\<lparr>fw_finalize := Some url\<rparr> in
     run_then (authorizations_of document, f) (\<lambda>waiting f.
     let f = f\<lparr>fw_waiting := waiting\<rparr> in
     (Inr Moved, f\<lparr>fw_stage := after_waiting f\<rparr>)))))"

text \<open>What is published for one challenge, as the kind of the order asks.\<close>

definition publish_answer ::
  "('k, 'e, 'w) ec_ssl \<Rightarrow> flow \<Rightarrow> json \<Rightarrow> string \<Rightarrow> ((string \<times> string list) list, failure) result" where
  "publish_answer ssl f document tok = (case fw_kind f of
     Http01 \<Rightarrow>
       if CHR ''/'' \<in> set tok then Inl (new_failure Protocol ''the server sent a token that cannot name a path'')
       else Inr (bt_insert tok [key_authorization tok (fw_thumbprint f)] (pub_entries (fw_published f)))
   | Dns01 \<Rightarrow>
       and_then (ok_or (new_failure Protocol ''the authorization names no identifier'')
         (Option.bind (json_get ''identifier'' document) (text_at ''value''))) (\<lambda>name.
       and_then (record_value ssl tok (fw_thumbprint f)) (\<lambda>answer.
       let record = challenge_name name; entries = pub_entries (fw_published f) in
       Inr (bt_insert record ((case bt_get record entries of None \<Rightarrow> [] | Some vs \<Rightarrow> vs) @ [answer]) entries))))"

definition read_authorization ::
  "('k, 'e, 'w) ec_ssl \<Rightarrow> text_lib \<Rightarrow> flow \<Rightarrow> acme_answer \<Rightarrow> (progress, failure) result \<times> flow" where
  "read_authorization ssl lib f a =
     run_then (order_parse lib (an_body a), f) (\<lambda>document f.
     let f = f\<lparr>fw_waiting := tl (fw_waiting f)\<rparr> in
     if text_at ''status'' document = Some ''valid'' then (Inr Moved, f\<lparr>fw_stage := after_waiting f\<rparr>)
     else
     run_then (ok_or (new_failure Protocol ''the authorization names no challenges'')
       (Option.bind (json_get ''challenges'' document) as_array), f) (\<lambda>challenges f.
     let wanted = wire_name (fw_kind f) in
     run_then (ok_or (new_failure ChallengeRefused (''the server offers no '' @ wanted @ '' challenge for this name''))
       (List.find (\<lambda>c. text_at ''type'' c = Some wanted) challenges), f) (\<lambda>chosen f.
     run_then (order_text chosen ''token'', f) (\<lambda>tok f.
     if tok = [] then (Inl (new_failure Protocol ''the server sent an empty challenge token''), f)
     else
     run_then (publish_answer ssl f document tok, f) (\<lambda>entries f.
     let f = f\<lparr>fw_published := \<lparr>pub_kind = Some (fw_kind f), pub_entries = entries\<rparr>\<rparr> in
     run_then (order_text chosen ''url'', f) (\<lambda>url f.
     (Inr Moved, f\<lparr>fw_challenge := Some url, fw_stage := StAccept\<rparr>)))))))"

definition read_progress :: "text_lib \<Rightarrow> flow \<Rightarrow> acme_answer \<Rightarrow> (progress, failure) result \<times> flow" where
  "read_progress lib f a =
     run_then (order_parse lib (an_body a), f) (\<lambda>document f.
     let state = text_at ''status'' document in
     if state = Some ''valid'' then order_issued document f
     else if state = Some ''ready'' then (Inr Moved, f\<lparr>fw_stage := StFinalize\<rparr>)
     else if state = Some ''pending'' \<or> state = Some ''processing'' then
       (let f = f\<lparr>fw_polls := fw_polls f + 1\<rparr> in
        if fw_polls f > MOST_POLLS then
          (Inl (new_failure Network (''the server was still deciding after '' @ decimal MOST_POLLS @ '' reads'')), f)
        else (Inr Moved, f\<lparr>fw_stage := StPoll\<rparr>))
     else if state = Some ''invalid'' then
       (Inl (new_failure ChallengeRefused (''the server refused the challenge for '' @ join '', '' (fw_names f))), f)
     else (Inl (unknown_state lib state), f))"

definition clear_entries :: "publication \<Rightarrow> publication" where
  "clear_entries p = p\<lparr>pub_entries := []\<rparr>"

definition accept :: "('k, 'e, 'w) ec_ssl \<Rightarrow> text_lib \<Rightarrow> flow \<Rightarrow> acme_answer \<Rightarrow> (progress, failure) result \<times> flow" where
  "accept ssl lib f a =
     (if an_status a = 400 \<and> problem_type lib (an_body a) = Some BAD_NONCE then (Inr Again, f)
      else if an_status a \<ge> 400 then (Inl (server_said lib f a), f)
      else case fw_stage f of
        StDirectory \<Rightarrow> read_directory lib f a
      | StNonce \<Rightarrow> (Inr Moved, f\<lparr>fw_stage := StAccount\<rparr>)
      | StAccount \<Rightarrow> read_account f a
      | StOrder \<Rightarrow> read_order lib f a
      | StResume \<Rightarrow> read_resumed lib f a
      | StAuthorization \<Rightarrow> read_authorization ssl lib f a
      | StAccept \<Rightarrow> (Inr Moved, f\<lparr>fw_challenge := None, fw_stage := after_waiting f\<rparr>)
      | StPoll \<Rightarrow> read_progress lib f a
      | StFinalize \<Rightarrow> read_progress lib (f\<lparr>fw_polls := 0, fw_stage := StPoll\<rparr>) a
      | StDownload \<Rightarrow>
          if trim (an_body a) = [] then (Inl (new_failure Protocol ''the server sent an empty certificate''), f)
          else (Inr Moved, f\<lparr>fw_chain := Some (an_body a), fw_published := clear_entries (fw_published f), fw_stage := StDone\<rparr>)
      | StDone \<Rightarrow> (Inr Moved, f))"

definition abandon :: "flow \<Rightarrow> flow" where
  "abandon f = f\<lparr>fw_published := clear_entries (fw_published f), fw_stage := StDone\<rparr>"

section \<open>Every answer but one moves the flow on\<close>

lemmas reader_defs = read_directory_def read_account_def read_order_def read_resumed_def read_authorization_def
  read_progress_def order_issued_def

fun phase :: "stage \<Rightarrow> nat" where
  "phase StDirectory = 8"
| "phase StNonce = 7"
| "phase StAccount = 6"
| "phase StOrder = 5"
| "phase StResume = 5"
| "phase StAuthorization = 4"
| "phase StAccept = 4"
| "phase StFinalize = 3"
| "phase StPoll = 2"
| "phase StDownload = 1"
| "phase StDone = 0"

definition open_checks :: "flow \<Rightarrow> nat" where
  "open_checks f = (case fw_stage f of
     StAuthorization \<Rightarrow> 2 * length (fw_waiting f) | StAccept \<Rightarrow> 2 * length (fw_waiting f) + 1 | _ \<Rightarrow> 0)"

definition flow_less :: "(flow \<times> flow) set" where
  "flow_less = measures [\<lambda>f. phase (fw_stage f), open_checks, \<lambda>f. Suc MOST_POLLS - fw_polls f]"

lemma wf_flow_less: "wf flow_less"
  by (simp add: flow_less_def)

definition says_ready :: "text_lib \<Rightarrow> acme_answer \<Rightarrow> bool" where
  "says_ready lib a \<longleftrightarrow> (case json_parse lib (an_body a) of Inl _ \<Rightarrow> False | Inr document \<Rightarrow> text_at ''status'' document = Some ''ready'')"

lemma order_parse_Inr: "order_parse lib body = Inr document \<longleftrightarrow> json_parse lib body = Inr document"
  by (auto simp: order_parse_def split: sum.splits)

lemma order_parse_simps [simp]:
  "json_parse lib body = Inr document \<Longrightarrow> order_parse lib body = Inr document"
  "json_parse lib body = Inl e \<Longrightarrow> order_parse lib body = Inl (new_failure Protocol (''the server sent something that is not JSON: '' @ e))"
  by (simp_all add: order_parse_def)

lemma order_issued_moves: "order_issued document f = (Inr p, f') \<Longrightarrow>
    p = Moved \<and> (\<exists>url. f' = f\<lparr>fw_certificate := Some url, fw_stage := StDownload\<rparr>)"
  by (cases "text_at ''certificate'' document") (auto simp: order_issued_def order_text_def)

lemma read_progress_moves:
  assumes "read_progress lib f a = (Inr p, f')"
  shows "p = Moved \<and> (fw_stage f' = StDownload \<or> fw_stage f' = StFinalize \<and> says_ready lib a \<or>
    fw_stage f' = StPoll \<and> fw_polls f' = fw_polls f + 1 \<and> fw_polls f' \<le> MOST_POLLS)"
proof (cases "json_parse lib (an_body a)")
  case (Inr document)
  let ?s = "text_at ''status'' document"
  show ?thesis
  proof (cases "?s = Some ''valid'' \<or> ?s = Some ''ready''")
    case True
    then show ?thesis using assms Inr order_issued_moves [of document f p f']
      by (auto simp: read_progress_def says_ready_def)
  next
    case False
    then show ?thesis using assms Inr by (simp add: read_progress_def Let_def split: if_split_asm) auto
  qed
qed (use assms in \<open>simp add: read_progress_def\<close>)

lemma accept_again: "accept ssl lib f a = (Inr Again, f') \<Longrightarrow> f' = f"
  by (auto simp: accept_def reader_defs run_then_Inr Let_def split: if_splits stage.splits)

lemma read_authorization_moves:
  assumes "read_authorization ssl lib f a = (Inr p, f')"
  shows "p = Moved \<and> fw_waiting f' = tl (fw_waiting f) \<and> (fw_stage f' = StAccept \<or> fw_stage f' = after_waiting f')"
proof (cases "json_parse lib (an_body a)")
  case (Inr document)
  let ?f = "f\<lparr>fw_waiting := tl (fw_waiting f)\<rparr>"
  show ?thesis
  proof (cases "text_at ''status'' document = Some ''valid''")
    case True
    then have "f' = ?f\<lparr>fw_stage := after_waiting ?f\<rparr> \<and> p = Moved" using assms Inr by (auto simp: read_authorization_def Let_def)
    then show ?thesis by (simp add: after_waiting_def)
  next
    case False
    with assms Inr show ?thesis
      unfolding read_authorization_def by (simp add: Let_def run_then_Inr split: if_split_asm) auto
  qed
qed (use assms in \<open>simp add: read_authorization_def\<close>)

lemma read_resumed_moves:
  assumes "read_resumed lib f a = (Inr p, f')"
  shows "p = Moved \<and> fw_stage f' \<in> {StDownload, StFinalize, StPoll, StAuthorization}"
proof (cases "json_parse lib (an_body a)")
  case (Inr document)
  show ?thesis
  proof (cases "text_at ''status'' document = Some ''valid''")
    case True
    with assms Inr show ?thesis
      by (simp add: read_resumed_def Let_def run_then_Inr) (auto dest!: order_issued_moves)
  next
    case False
    with assms Inr show ?thesis
      by (simp add: read_resumed_def Let_def run_then_Inr split: if_split_asm) (auto simp: after_waiting_def split: if_splits)
  qed
qed (use assms in \<open>simp add: read_resumed_def\<close>)

lemma accept_moves:
  assumes acc: "accept ssl lib f a = (Inr Moved, f')" and ask: "next_ask f = Some q"
  shows "(f', f) \<in> flow_less \<or> says_ready lib a \<and> fw_stage f' = StFinalize"
proof (cases "fw_stage f")
  case StPoll
  then have "read_progress lib f a = (Inr Moved, f')" using acc by (simp add: accept_def split: if_split_asm)
  from read_progress_moves [OF this] StPoll show ?thesis by (auto simp: flow_less_def open_checks_def)
next
  case StFinalize
  then have "read_progress lib (f\<lparr>fw_polls := 0, fw_stage := StPoll\<rparr>) a = (Inr Moved, f')"
    using acc by (simp add: accept_def split: if_split_asm)
  from read_progress_moves [OF this] StFinalize show ?thesis by (auto simp: flow_less_def)
next
  case StAuthorization
  then obtain u us where w: "fw_waiting f = u # us" using ask by (auto simp: next_ask_def split: list.splits)
  have "read_authorization ssl lib f a = (Inr Moved, f')" using acc StAuthorization by (simp add: accept_def split: if_split_asm)
  from read_authorization_moves [OF this] show ?thesis using StAuthorization w
    by (auto simp: flow_less_def open_checks_def after_waiting_def split: if_splits)
next
  case StAccept
  then have "f' = f\<lparr>fw_challenge := None, fw_stage := after_waiting f\<rparr>" using acc by (simp add: accept_def split: if_split_asm)
  then show ?thesis using StAccept by (auto simp: flow_less_def open_checks_def after_waiting_def)
next
  case StResume
  then have "read_resumed lib f a = (Inr Moved, f')" using acc by (simp add: accept_def split: if_split_asm)
  from read_resumed_moves [OF this] show ?thesis using StResume by (auto simp: flow_less_def)
next
  case StDone
  then show ?thesis using ask by (simp add: next_ask_def)
next
  case StDirectory
  then have "read_directory lib f a = (Inr Moved, f')" using acc by (simp add: accept_def split: if_split_asm)
  then have "fw_stage f' = StNonce" by (auto simp: read_directory_def run_then_Inr)
  then show ?thesis using StDirectory by (simp add: flow_less_def)
next
  case StOrder
  then have "read_order lib f a = (Inr Moved, f')" using acc by (simp add: accept_def split: if_split_asm)
  then have "fw_stage f' = after_waiting f'" by (auto simp: read_order_def run_then_Inr Let_def after_waiting_def)
  then show ?thesis using StOrder by (simp add: flow_less_def after_waiting_def)
next
  case StAccount
  then have "read_account f a = (Inr Moved, f')" using acc by (simp add: accept_def split: if_split_asm)
  then have "fw_stage f' = (if fw_resuming f then StResume else StOrder)" by (auto simp: read_account_def run_then_Inr)
  then show ?thesis using StAccount by (simp add: flow_less_def)
next
  case StNonce
  then have "fw_stage f' = StAccount" using acc by (auto simp: accept_def split: if_split_asm)
  then show ?thesis using StNonce by (simp add: flow_less_def)
next
  case StDownload
  then have "fw_stage f' = StDone" using acc by (auto simp: accept_def split: if_split_asm)
  then show ?thesis using StDownload by (simp add: flow_less_def)
qed

text \<open>
  The exception: finalising clears the count of reads, and an order that is still ready is
  finalised again, so nothing bounds how often that happens.
\<close>

lemma ready_changes_nothing:
  assumes "fw_stage f = StFinalize" "fw_polls f = 0" "an_status a < 400" "says_ready lib a"
  shows "accept ssl lib f a = (Inr Moved, f)"
proof -
  obtain document where "json_parse lib (an_body a) = Inr document" "text_at ''status'' document = Some ''ready''"
    using assms(4) by (auto simp: says_ready_def split: sum.splits)
  moreover have "an_status a \<noteq> 400" using assms(3) by auto
  ultimately show ?thesis using assms by (simp add: accept_def read_progress_def)
qed

section \<open>What stays published\<close>

lemma snd_run_then: "snd (run_then (r, f) g) = (case r of Inl _ \<Rightarrow> f | Inr a \<Rightarrow> snd (g a f))"
  by (cases r) simp_all

lemma readers_keep_published [simp]:
  "fw_published (snd (read_directory lib f a)) = fw_published f"
  "fw_published (snd (read_account f a)) = fw_published f"
  "fw_published (snd (read_order lib f a)) = fw_published f"
  "fw_published (snd (order_issued document f)) = fw_published f"
  by (simp_all add: read_directory_def read_account_def read_order_def order_issued_def snd_run_then Let_def split: sum.split)

lemma orders_keep_published [simp]:
  "fw_published (snd (read_resumed lib f a)) = fw_published f"
  "fw_published (snd (read_progress lib f a)) = fw_published f"
proof -
  show "fw_published (snd (read_resumed lib f a)) = fw_published f"
    unfolding read_resumed_def by (simp add: snd_run_then Let_def split: sum.split)
  show "fw_published (snd (read_progress lib f a)) = fw_published f"
    unfolding read_progress_def by (simp add: snd_run_then Let_def split: sum.split)
qed

lemma bt_insert_not_empty [simp]: "bt_insert k v m \<noteq> []"
  by (cases m) (auto split: if_splits)

lemma publish_answer_not_empty: "publish_answer ssl f document tok = Inr entries \<Longrightarrow> entries \<noteq> []"
  by (auto simp: publish_answer_def and_then_Inr Let_def split: challenge.splits if_splits)

lemma read_authorization_published:
  "fw_published (snd (read_authorization ssl lib f a)) = fw_published f \<or>
   pub_entries (fw_published (snd (read_authorization ssl lib f a))) \<noteq> []"
  using publish_answer_not_empty [of ssl]
  by (auto simp: read_authorization_def snd_run_then Let_def split: sum.split)

lemma accept_keeps_open:
  assumes "accept ssl lib f a = (r, f')" "pub_entries (fw_published f) \<noteq> []"
  shows "fw_stage f' = StDone \<or> pub_entries (fw_published f') \<noteq> []"
proof -
  have f': "f' = snd (accept ssl lib f a)" using assms(1) by simp
  show ?thesis
  proof (cases "an_status a \<ge> 400 \<or> fw_stage f = StAuthorization")
    case True
    then show ?thesis using assms(2) read_authorization_published [of ssl lib f a]
      by (auto simp: f' accept_def)
  next
    case False
    then show ?thesis using assms(2) by (auto simp: f' accept_def split: stage.split)
  qed
qed

text \<open>The answer a challenge with this token is checked against, as an authorization asks for it.\<close>

definition answers_challenge ::
  "('k, 'e, 'w) ec_ssl \<Rightarrow> flow \<Rightarrow> json \<Rightarrow> string \<Rightarrow> (string \<times> string list) list \<Rightarrow> bool" where
  "answers_challenge ssl f document tok entries = (case fw_kind f of
     Http01 \<Rightarrow> bt_get tok entries = Some [key_authorization tok (fw_thumbprint f)]
   | Dns01 \<Rightarrow> (\<exists>name v vs. Option.bind (json_get ''identifier'' document) (text_at ''value'') = Some name \<and>
       record_value ssl tok (fw_thumbprint f) = Inr v \<and> bt_get (challenge_name name) entries = Some vs \<and> v \<in> set vs))"

lemma publish_answer_answers:
  assumes "publish_answer ssl f document tok = Inr entries" "bt_wf (pub_entries (fw_published f))"
  shows "answers_challenge ssl f document tok entries \<and> bt_wf entries \<and>
    (\<forall>name vs. fw_kind f = Dns01 \<longrightarrow> bt_get name (pub_entries (fw_published f)) = Some vs \<longrightarrow>
      (\<exists>vs'. bt_get name entries = Some vs' \<and> set vs \<subseteq> set vs'))"
proof (cases "fw_kind f")
  case Http01
  then show ?thesis using assms
    by (auto simp: publish_answer_def answers_challenge_def bt_get_insert bt_insert_wf split: if_splits)
next
  case Dns01
  then obtain name v where *: "Option.bind (json_get ''identifier'' document) (text_at ''value'') = Some name"
    "record_value ssl tok (fw_thumbprint f) = Inr v"
    "entries = bt_insert (challenge_name name) ((case bt_get (challenge_name name) (pub_entries (fw_published f)) of
        None \<Rightarrow> [] | Some vs \<Rightarrow> vs) @ [v]) (pub_entries (fw_published f))"
    using assms(1) by (auto simp: publish_answer_def and_then_Inr ok_or_Inr Let_def)
  then show ?thesis using assms(2) Dns01
    by (auto simp: answers_challenge_def bt_get_insert bt_insert_wf)
qed

lemma authorization_published:
  assumes "read_authorization ssl lib f a = (Inr Moved, f')" "fw_stage f' = StAccept" "bt_wf (pub_entries (fw_published f))"
  shows "\<exists>document challenges chosen tok url. json_parse lib (an_body a) = Inr document \<and>
    Option.bind (json_get ''challenges'' document) as_array = Some challenges \<and> chosen \<in> set challenges \<and>
    text_at ''type'' chosen = Some (wire_name (fw_kind f)) \<and> text_at ''token'' chosen = Some tok \<and> tok \<noteq> [] \<and>
    text_at ''url'' chosen = Some url \<and> fw_challenge f' = Some url \<and>
    answers_challenge ssl f document tok (pub_entries (fw_published f')) \<and> pub_kind (fw_published f') = Some (fw_kind f)"
proof (cases "json_parse lib (an_body a)")
  case (Inr document)
  let ?f = "f\<lparr>fw_waiting := tl (fw_waiting f)\<rparr>"
  have "text_at ''status'' document \<noteq> Some ''valid''"
    using assms(1,2) Inr by (auto simp: read_authorization_def Let_def after_waiting_def split: if_splits)
  then obtain challenges chosen tok entries url where *:
    "Option.bind (json_get ''challenges'' document) as_array = Some challenges"
    "List.find (\<lambda>c. text_at ''type'' c = Some (wire_name (fw_kind f))) challenges = Some chosen"
    "order_text chosen ''token'' = Inr tok" "tok \<noteq> []" "publish_answer ssl ?f document tok = Inr entries"
    "order_text chosen ''url'' = Inr url"
    "f' = ?f\<lparr>fw_published := \<lparr>pub_kind = Some (fw_kind f), pub_entries = entries\<rparr>, fw_challenge := Some url, fw_stage := StAccept\<rparr>"
    using assms(1) Inr by (auto simp: read_authorization_def Let_def run_then_Inr ok_or_Inr split: if_splits)
  have "answers_challenge ssl f document tok entries"
    using publish_answer_answers [OF *(5)] assms(3) by (cases "fw_kind f") (simp_all add: answers_challenge_def)
  moreover have "chosen \<in> set challenges" "text_at ''type'' chosen = Some (wire_name (fw_kind f))"
    using *(2) by (auto simp: find_Some_iff)
  ultimately show ?thesis using Inr * by (auto simp: order_text_def ok_or_Inr)
qed (use assms(1) in \<open>simp add: read_authorization_def\<close>)

lemma accept_published_wf:
  assumes "accept ssl lib f a = (r, f')" "bt_wf (pub_entries (fw_published f))"
  shows "bt_wf (pub_entries (fw_published f'))"
proof -
  have f': "f' = snd (accept ssl lib f a)" using assms(1) by simp
  have auth: "bt_wf (pub_entries (fw_published (snd (read_authorization ssl lib f a))))"
    using publish_answer_answers [of ssl "f\<lparr>fw_waiting := tl (fw_waiting f)\<rparr>"] assms(2)
    by (auto simp: read_authorization_def snd_run_then Let_def split: sum.split)
  have "bt_wf ([] :: (string \<times> string list) list)" by (rule btree.wf_empty)
  then show ?thesis using assms(2) auth by (simp add: f' accept_def clear_entries_def split: stage.split)
qed

end
