(* ===== verification/Acme.thy ===== *)
theory Acme
  imports Order
begin

text \<open>
  \<open>acme.rs\<close>, \<open>attempt.rs\<close> and \<open>csr.rs\<close>: carrying an order over the network, with the transport,
  the recorder and the wait passed in as the code has them (the record \<open>acme_os\<close>, over a
  world). Building a signing request and writing a key belong to OpenSSL (\<open>csr_ssl\<close>). The loop
  of one attempt may run for ever, so it is a partial function into option.
\<close>

section \<open>Attempts\<close>

definition ATTEMPTS :: nat where "ATTEMPTS = 5"
definition ATTEMPT_WAIT :: duration where "ATTEMPT_WAIT = secs 60"

definition wait_before :: "nat \<Rightarrow> duration option" where
  "wait_before attempt =
     (if attempt = 0 \<or> attempt > ATTEMPTS then None
      else if attempt = 1 then Some 0
      else Some (ATTEMPT_WAIT * 2 ^ (attempt - 2)))"

definition whole_run :: duration where
  "whole_run = fold (\<lambda>wait total. total + wait) (List.map_filter wait_before [1..<ATTEMPTS + 1]) 0"

section \<open>Signing requests\<close>

record 'k csr_request =
  csr_key :: 'k
  csr_der :: "byte list"

record ('k, 'w) csr_ssl =
  ec_generate :: "'w \<Rightarrow> ('k, failure) result \<times> 'w"
  x509_request :: "string \<Rightarrow> string list \<Rightarrow> 'k \<Rightarrow> 'w \<Rightarrow> (byte list, failure) result \<times> 'w"
  key_to_pkcs8 :: "'k \<Rightarrow> (byte list, string) result"

definition csr_encoded :: "('k, 'e, 'w) ec_ssl \<Rightarrow> 'k csr_request \<Rightarrow> string" where
  "csr_encoded ssl r = base64url ssl (csr_der r)"

definition csr_key_pem :: "('k, 'w) csr_ssl \<Rightarrow> 'k csr_request \<Rightarrow> (byte list, failure) result" where
  "csr_key_pem x r = crypto ''the key does not write: '' (key_to_pkcs8 x (csr_key r))"

definition request_with :: "('k, 'w) csr_ssl \<Rightarrow> string list \<Rightarrow> 'k \<Rightarrow> 'w \<Rightarrow> ('k csr_request, failure) result \<times> 'w" where
  "request_with x names key w = (case names of
     [] \<Rightarrow> (Inl (new_failure Configuration ''a certificate covering no name was asked for''), w)
   | first # _ \<Rightarrow> run_then (x509_request x first names key w) (\<lambda>der w. (Inr \<lparr>csr_key = key, csr_der = der\<rparr>, w)))"

definition fresh_request :: "('k, 'w) csr_ssl \<Rightarrow> string list \<Rightarrow> 'w \<Rightarrow> ('k csr_request, failure) result \<times> 'w" where
  "fresh_request x names w = run_then (ec_generate x w) (\<lambda>key w. request_with x names key w)"

section \<open>One attempt\<close>

definition POLL_INTERVAL :: duration where "POLL_INTERVAL = secs 1"

record acme_reply =
  rp_answer :: acme_answer
  rp_nonce :: "string option"

record reached =
  re_order_url :: "string option"
  re_publication :: publication

record 'w acme_os =
  tr_call :: "string \<Rightarrow> string option \<Rightarrow> 'w \<Rightarrow> (acme_reply, failure) result \<times> 'w"
  os_record :: "reached \<Rightarrow> 'w \<Rightarrow> (unit, failure) result \<times> 'w"
  os_pause :: "duration \<Rightarrow> 'w \<Rightarrow> 'w"

definition reached_of :: "flow \<Rightarrow> reached" where
  "reached_of f = \<lparr>re_order_url = fw_order f, re_publication = fw_published f\<rparr>"

definition note_reached :: "'w acme_os \<Rightarrow> flow \<Rightarrow> reached \<Rightarrow> 'w \<Rightarrow> (unit, failure) result \<times> reached \<times> 'w" where
  "note_reached os f live w =
     (if reached_of f \<noteq> live then
        (case os_record os (reached_of f) w of (r, w) \<Rightarrow> (r, reached_of f, w))
      else (Inr (), live, w))"

definition send_ask ::
  "('k, 'e, 'w) ec_ssl \<Rightarrow> 'w acme_os \<Rightarrow> 'k \<Rightarrow> flow \<Rightarrow> string option \<Rightarrow> ask \<Rightarrow> 'w \<Rightarrow> (acme_reply, failure) result \<times> 'w" where
  "send_ask ssl os key f nonce a w = (case a of
     ReadAsk url \<Rightarrow> tr_call os url None w
   | SendAsk url payload who \<Rightarrow>
       run_then (ok_or (new_failure Protocol ''the server sent no nonce to sign with'') nonce, w) (\<lambda>held w.
       run_then (jws_sign ssl key who (fw_account f) url held payload w) (\<lambda>body w.
       tr_call os url (Some body) w)))"

text \<open>One turn of the loop: the nonce and the count of refused nonces for the next one.\<close>

definition drive_turn ::
  "('k, 'e, 'w) ec_ssl \<Rightarrow> text_lib \<Rightarrow> 'w acme_os \<Rightarrow> 'k \<Rightarrow> ask \<Rightarrow> flow \<Rightarrow> string option \<Rightarrow> reached \<Rightarrow> nat \<Rightarrow> 'w
     \<Rightarrow> (string option \<times> nat, failure) result \<times> flow \<times> reached \<times> 'w" where
  "drive_turn ssl lib os key a f nonce live rejected w =
     (case note_reached os f live w of
        (Inl e, live, w) \<Rightarrow> (Inl e, f, live, w)
      | (Inr _, live, w) \<Rightarrow>
          let w = (if waiting_on_server f then os_pause os POLL_INTERVAL w else w) in
          (case send_ask ssl os key f nonce a w of
             (Inl e, w) \<Rightarrow> (Inl e, f, live, w)
           | (Inr reply, w) \<Rightarrow>
               (case accept ssl lib f (rp_answer reply) of
                  (Inl e, f) \<Rightarrow> (Inl e, f, live, w)
                | (Inr Moved, f) \<Rightarrow> (Inr (rp_nonce reply, 0), f, live, w)
                | (Inr Again, f) \<Rightarrow>
                    if rejected + 1 > MOST_NONCE_RETRIES then
                      (Inl (new_failure Server (''the server rejected '' @ decimal MOST_NONCE_RETRIES @ '' nonces in a row'')), f, live, w)
                    else if rp_nonce reply = None then
                      (Inl (new_failure Protocol ''the server rejected the nonce and sent no replacement''), f, live, w)
                    else (Inr (rp_nonce reply, rejected + 1), f, live, w))))"

partial_function (option) drive ::
  "('k, 'e, 'w) ec_ssl \<Rightarrow> text_lib \<Rightarrow> 'w acme_os \<Rightarrow> 'k \<Rightarrow> flow \<Rightarrow> string option \<Rightarrow> reached \<Rightarrow> nat \<Rightarrow> 'w
     \<Rightarrow> ((string, failure) result \<times> flow \<times> reached \<times> 'w) option" where
  "drive ssl lib os key f nonce live rejected w =
     (case next_ask f of
        None \<Rightarrow> Some (ok_or (new_failure Protocol ''the order finished without a certificate'') (fw_chain f), f, live, w)
      | Some a \<Rightarrow>
          (case drive_turn ssl lib os key a f nonce live rejected w of
             (Inl e, f, live, w) \<Rightarrow> Some (Inl e, f, live, w)
           | (Inr (nonce, rejected), f, live, w) \<Rightarrow> drive ssl lib os key f nonce live rejected w))"

definition close_path :: "'w acme_os \<Rightarrow> reached \<Rightarrow> 'w \<Rightarrow> (unit, failure) result \<times> 'w" where
  "close_path os live w =
     (if pub_is_empty (re_publication live) then (Inr (), w)
      else os_record os \<lparr>re_order_url = re_order_url live,
        re_publication = \<lparr>pub_kind = pub_kind (re_publication live), pub_entries = []\<rparr>\<rparr> w)"

definition run_attempt ::
  "('k, 'e, 'w) ec_ssl \<Rightarrow> text_lib \<Rightarrow> 'w acme_os \<Rightarrow> 'k \<Rightarrow> flow \<Rightarrow> 'w \<Rightarrow> ((string, failure) result \<times> flow \<times> 'w) option" where
  "run_attempt ssl lib os key f w =
     (case drive ssl lib os key f None (reached_of f) 0 w of
        None \<Rightarrow> None
      | Some (outcome, f, live, w) \<Rightarrow>
          (case close_path os live w of (closed, w) \<Rightarrow>
             Some (case outcome of
                 Inl e \<Rightarrow> Inl e
               | Inr chain \<Rightarrow> (case closed of Inl close \<Rightarrow> Inl close | Inr _ \<Rightarrow> Inr chain),
               abandon f, w)))"

section \<open>A certificate\<close>

record obtained =
  ob_chain_pem :: "byte list"
  ob_key_pem :: "byte list"

record 'k acme_plan =
  ap_key :: "'k option"
  ap_resume :: "string option"

definition default_plan :: "'k acme_plan" where
  "default_plan = \<lparr>ap_key = None, ap_resume = None\<rparr>"

definition show_failure :: "failure \<Rightarrow> string" where
  "show_failure e = reason_key (fl_reason e) @ '': '' @ fl_detail e"

definition attempt_flow ::
  "('k, 'e, 'w) ec_ssl \<Rightarrow> acme_settings \<Rightarrow> string list \<Rightarrow> string \<Rightarrow> challenge \<Rightarrow> 'k acme_plan \<Rightarrow> nat \<Rightarrow> 'k csr_request \<Rightarrow> flow" where
  "attempt_flow ssl settings names print kind plan attempt request =
     (case (if attempt = 1 then ap_resume plan else None) of
        Some url \<Rightarrow> resume_flow (a_directory_url settings) names print (a_contact_email settings) (csr_encoded ssl request) kind url
      | None \<Rightarrow> new_flow (a_directory_url settings) names print (a_contact_email settings) (csr_encoded ssl request) kind)"

definition wait_for :: "'w acme_os \<Rightarrow> nat \<Rightarrow> 'w \<Rightarrow> 'w" where
  "wait_for os attempt w = (case wait_before attempt of
     Some wait \<Rightarrow> if wait \<noteq> 0 then os_pause os wait w else w
   | None \<Rightarrow> w)"

fun attempts_from ::
  "('k, 'e, 'w) ec_ssl \<Rightarrow> ('k, 'w) csr_ssl \<Rightarrow> text_lib \<Rightarrow> 'w acme_os \<Rightarrow> acme_settings \<Rightarrow> 'k \<Rightarrow> string list \<Rightarrow> string \<Rightarrow> challenge
     \<Rightarrow> 'k acme_plan \<Rightarrow> nat list \<Rightarrow> failure option \<Rightarrow> 'w \<Rightarrow> ((obtained, failure) result \<times> 'w) option" where
  "attempts_from ssl x lib os settings account names print kind plan [] latest w =
     Some (Inl (case latest of
         None \<Rightarrow> new_failure TooManyAttempts (''no attempt was made for '' @ join '', '' names)
       | Some e \<Rightarrow> new_failure TooManyAttempts (decimal ATTEMPTS @ '' attempts failed, last: '' @ show_failure e)), w)"
| "attempts_from ssl x lib os settings account names print kind plan (attempt # rest) latest w =
     (case (case ap_key plan of
          Some key \<Rightarrow> request_with x names key (wait_for os attempt w)
        | None \<Rightarrow> fresh_request x names (wait_for os attempt w)) of
        (Inl e, w) \<Rightarrow> Some (Inl e, w)
      | (Inr request, w) \<Rightarrow>
          (case run_attempt ssl lib os account (attempt_flow ssl settings names print kind plan attempt request) w of
             None \<Rightarrow> None
           | Some (Inr chain, _, w) \<Rightarrow>
               Some (and_then (csr_key_pem x request) (\<lambda>pem. Inr \<lparr>ob_chain_pem = as_bytes chain, ob_key_pem = pem\<rparr>), w)
           | Some (Inl e, _, w) \<Rightarrow>
               if \<not> worth_retrying e then Some (Inl e, w)
               else attempts_from ssl x lib os settings account names print kind plan rest (Some e) w))"

definition obtain_planned_over ::
  "('k, 'e, 'w) ec_ssl \<Rightarrow> ('k, 'w) csr_ssl \<Rightarrow> text_lib \<Rightarrow> 'w acme_os \<Rightarrow> acme_settings \<Rightarrow> 'k \<Rightarrow> string list \<Rightarrow> challenge
     \<Rightarrow> 'k acme_plan \<Rightarrow> 'w \<Rightarrow> ((obtained, failure) result \<times> 'w) option" where
  "obtain_planned_over ssl x lib os settings account names kind plan w =
     (case thumbprint ssl account of
        Inl e \<Rightarrow> Some (Inl e, w)
      | Inr print \<Rightarrow> attempts_from ssl x lib os settings account names print kind plan [1..<ATTEMPTS + 1] None w)"

definition obtain_over ::
  "('k, 'e, 'w) ec_ssl \<Rightarrow> ('k, 'w) csr_ssl \<Rightarrow> text_lib \<Rightarrow> 'w acme_os \<Rightarrow> acme_settings \<Rightarrow> 'k \<Rightarrow> string list \<Rightarrow> challenge
     \<Rightarrow> 'w \<Rightarrow> ((obtained, failure) result \<times> 'w) option" where
  "obtain_over ssl x lib os settings account names kind w =
     obtain_planned_over ssl x lib os settings account names kind default_plan w"

section \<open>An attempt ends\<close>

text \<open>
  What a server has to keep for an attempt to end: it says that an order is ready only so
  many times. The number is read off the world, and nothing else the loop does raises it.
\<close>

definition ready_rarely :: "('k, 'e, 'w) ec_ssl \<Rightarrow> text_lib \<Rightarrow> 'w acme_os \<Rightarrow> ('w \<Rightarrow> nat) \<Rightarrow> bool" where
  "ready_rarely ssl lib os budget \<longleftrightarrow>
     (\<forall>url body w reply w'. tr_call os url body w = (Inr reply, w') \<longrightarrow>
       budget w' \<le> budget w \<and> (says_ready lib (rp_answer reply) \<longrightarrow> budget w' < budget w)) \<and>
     (\<forall>r w. budget (snd (os_record os r w)) \<le> budget w) \<and>
     (\<forall>d w. budget (os_pause os d w) \<le> budget w) \<and>
     (\<forall>m e w. budget (snd (ecdsa_sign ssl m e w)) \<le> budget w)"

lemma run_then_pure [simp]: "snd (run_then r (\<lambda>a w. (f a, w))) = snd r"
  by (cases r; cases "fst r") auto

lemma snd_raw_signature:
  "snd (raw_signature ssl key m w) = w \<or> (\<exists>d e. snd (raw_signature ssl key m w) = snd (ecdsa_sign ssl d e w))"
proof (cases "ec_key ssl key")
  case (Inr ec)
  show ?thesis
  proof (cases "sha256_hash ssl m")
    case inr: (Inr digest)
    obtain sig w' where sig: "ecdsa_sign ssl digest ec w = (sig, w')" by fastforce
    have "snd (raw_signature ssl key m w) = w'"
    proof (cases sig)
      case inr2: (Inr rs)
      obtain r t where "rs = (r, t)" by fastforce
      then show ?thesis using Inr inr sig inr2
        by (cases "to_vec_padded ssl r COORDINATE"; cases "to_vec_padded ssl t COORDINATE") (simp_all add: raw_signature_def)
    qed (use Inr inr sig in \<open>simp add: raw_signature_def\<close>)
    then show ?thesis using sig by (metis snd_conv)
  qed (use Inr in \<open>simp add: raw_signature_def\<close>)
qed (simp add: raw_signature_def)

lemma snd_jws_sign:
  "snd (jws_sign ssl key who account url nonce payload w) = w \<or>
   (\<exists>d e. snd (jws_sign ssl key who account url nonce payload w) = snd (ecdsa_sign ssl d e w))"
  by (cases "jws_header ssl key who account url nonce") (simp_all add: jws_sign_def Let_def snd_raw_signature)

lemma send_ask_Inr:
  assumes "send_ask ssl os key f nonce a w = (Inr reply, w')"
  shows "\<exists>body w1. tr_call os (ask_url a) body w1 = (Inr reply, w') \<and> (w1 = w \<or> (\<exists>d e. w1 = snd (ecdsa_sign ssl d e w)))"
proof (cases a)
  case (ReadAsk url)
  then show ?thesis using assms by (auto simp: send_ask_def)
next
  case (SendAsk url payload who)
  then obtain held body w1 where "jws_sign ssl key who (fw_account f) url held payload w = (Inr body, w1)"
    "tr_call os url (Some body) w1 = (Inr reply, w')"
    using assms by (auto simp: send_ask_def run_then_Inr)
  then show ?thesis using snd_jws_sign [of ssl key who "fw_account f" url held payload w] SendAsk by auto
qed

lemma drive_turn_Inr:
  assumes "drive_turn ssl lib os key a f nonce live rejected w = (Inr (nonce', rejected'), f', live', w')"
  shows "\<exists>w1 reply p. note_reached os f live w = (Inr (), live', w1) \<and>
    send_ask ssl os key f nonce a (if waiting_on_server f then os_pause os POLL_INTERVAL w1 else w1) = (Inr reply, w') \<and>
    accept ssl lib f (rp_answer reply) = (Inr p, f') \<and> nonce' = rp_nonce reply \<and>
    (p = Moved \<and> rejected' = 0 \<or> p = Again \<and> rejected' = rejected + 1 \<and> rejected' \<le> MOST_NONCE_RETRIES)"
proof -
  obtain r live1 w1 where n: "note_reached os f live w = (r, live1, w1)" by (metis prod_cases3)
  then obtain u where r: "r = Inr u" using assms by (cases r) (simp_all add: drive_turn_def)
  let ?w = "if waiting_on_server f then os_pause os POLL_INTERVAL w1 else w1"
  obtain s w2 where s: "send_ask ssl os key f nonce a ?w = (s, w2)" by fastforce
  then obtain reply where reply: "s = Inr reply" using assms n r by (cases s) (simp_all add: drive_turn_def Let_def)
  obtain q f1 where q: "accept ssl lib f (rp_answer reply) = (q, f1)" by fastforce
  then obtain p where p: "q = Inr p" using assms n r s reply by (cases q) (simp_all add: drive_turn_def Let_def)
  show ?thesis
    using assms n r s reply q p by (cases p) (simp_all add: drive_turn_def Let_def not_less split: if_split_asm)
qed

definition drive_less :: "('w \<Rightarrow> nat) \<Rightarrow> ((flow \<times> nat \<times> 'w) \<times> (flow \<times> nat \<times> 'w)) set" where
  "drive_less budget = inv_image (less_than <*lex*> flow_less <*lex*> less_than)
     (\<lambda>(f, rejected, w). (budget w, f, MOST_NONCE_RETRIES - rejected))"

lemma wf_drive_less: "wf (drive_less budget)"
  unfolding drive_less_def by (intro wf_inv_image wf_lex_prod wf_less_than wf_flow_less)

lemma ready_rarely_call:
  assumes "ready_rarely ssl lib os budget" "tr_call os url body w = (Inr reply, w')"
  shows "budget w' \<le> budget w \<and> (says_ready lib (rp_answer reply) \<longrightarrow> budget w' < budget w)"
  using assms unfolding ready_rarely_def by blast

lemma drive_turn_less:
  assumes kept: "ready_rarely ssl lib os budget" and ask: "next_ask f = Some a"
    and turn: "drive_turn ssl lib os key a f nonce live rejected w = (Inr (nonce', rejected'), f', live', w')"
  shows "((f', rejected', w'), (f, rejected, w)) \<in> drive_less budget"
proof -
  from drive_turn_Inr [OF turn] obtain w1 reply p where t:
    "note_reached os f live w = (Inr (), live', w1)"
    "send_ask ssl os key f nonce a (if waiting_on_server f then os_pause os POLL_INTERVAL w1 else w1) = (Inr reply, w')"
    "accept ssl lib f (rp_answer reply) = (Inr p, f')"
    "p = Moved \<and> rejected' = 0 \<or> p = Again \<and> rejected' = rejected + 1 \<and> rejected' \<le> MOST_NONCE_RETRIES" by blast
  let ?w = "if waiting_on_server f then os_pause os POLL_INTERVAL w1 else w1"
  have "w1 = w \<or> w1 = snd (os_record os (reached_of f) w)"
    using t(1) by (auto simp: note_reached_def split: if_split_asm prod.splits)
  then have "budget w1 \<le> budget w" using kept unfolding ready_rarely_def by auto
  moreover have "budget ?w \<le> budget w1" using kept unfolding ready_rarely_def by simp
  moreover obtain body w2 where c: "tr_call os (ask_url a) body w2 = (Inr reply, w')"
      "w2 = ?w \<or> (\<exists>d e. w2 = snd (ecdsa_sign ssl d e ?w))" using send_ask_Inr [OF t(2)] by blast
  then have "budget w2 \<le> budget ?w" using kept unfolding ready_rarely_def by auto
  moreover have "budget w' \<le> budget w2" "says_ready lib (rp_answer reply) \<Longrightarrow> budget w' < budget w2"
    using ready_rarely_call [OF kept c(1)] by blast+
  ultimately have le: "budget w' \<le> budget w" "says_ready lib (rp_answer reply) \<Longrightarrow> budget w' < budget w" by auto
  show ?thesis
  proof (cases p)
    case Moved
    with accept_moves [OF _ ask] t(3) le show ?thesis by (auto simp: drive_less_def)
  next
    case Again
    then have "f' = f" "rejected' = rejected + 1" "rejected' \<le> MOST_NONCE_RETRIES" using t(3,4) accept_again by auto
    with le(1) show ?thesis by (auto simp: drive_less_def)
  qed
qed

lemma drive_returns:
  assumes "ready_rarely ssl lib os budget"
  shows "\<exists>out. drive ssl lib os key f nonce live rejected w = Some out"
proof (induction "(f, rejected, w)" arbitrary: f nonce live rejected w rule: wf_induct_rule [OF wf_drive_less [of budget]])
  case 1
  show ?case
  proof (cases "next_ask f")
    case (Some a)
    obtain r f' live' w' where turn: "drive_turn ssl lib os key a f nonce live rejected w = (r, f', live', w')" by (metis prod_cases4)
    show ?thesis
    proof (cases r)
      case (Inr nr)
      obtain nonce' rejected' where nr: "nr = (nonce', rejected')" by fastforce
      from 1 drive_turn_less [OF assms Some] turn Inr nr show ?thesis
        by (subst drive.simps) (simp add: Some)
    qed (subst drive.simps, simp add: Some turn)
  qed (subst drive.simps, simp)
qed

text \<open>
  Without that promise an attempt need not end: a server that keeps answering that the order
  is ready is asked again and again, with no wait between.
\<close>

lemma ready_for_ever:
  assumes f: "fw_stage f = StFinalize" "fw_polls f = 0" "fw_finalize f = Some url"
    and signs: "\<And>nonce w. \<exists>body w'. jws_sign ssl key IdAccount (fw_account f) url nonce
      (Some (object_of [pair_of ''csr'' (quoted (fw_csr f))])) w = (Inr body, w')"
    and ready: "\<And>body w. \<exists>a n w'. tr_call os url body w = (Inr \<lparr>rp_answer = a, rp_nonce = Some n\<rparr>, w') \<and>
      an_status a < 400 \<and> says_ready lib a"
  shows "drive ssl lib os key f (Some nonce) (reached_of f) rejected w = None"
proof -
  define payload where "payload = Some (object_of [pair_of ''csr'' (quoted (fw_csr f))])"
  have ask: "next_ask f = Some (SendAsk url payload IdAccount)" using f by (simp add: next_ask_def payload_def)
  have turn: "\<exists>n' w'. drive_turn ssl lib os key (SendAsk url payload IdAccount) f (Some n) (reached_of f) r w =
      (Inr (Some n', 0), f, reached_of f, w')" for n r w
  proof -
    obtain body w1 where "jws_sign ssl key IdAccount (fw_account f) url n payload w = (Inr body, w1)"
      using signs payload_def by blast
    moreover obtain a n' w' where "tr_call os url (Some body) w1 = (Inr \<lparr>rp_answer = a, rp_nonce = Some n'\<rparr>, w')"
      "an_status a < 400" "says_ready lib a" using ready by blast
    ultimately show ?thesis using f ready_changes_nothing [OF f(1,2), of a lib ssl]
      by (simp add: drive_turn_def note_reached_def waiting_on_server_def send_ask_def)
  qed
  have "drive ssl' lib' os' key' g no live r w = Some out \<Longrightarrow>
      (ssl', lib', os', key', g, live) = (ssl, lib, os, key, f, reached_of f) \<Longrightarrow> no \<noteq> None \<Longrightarrow> False"
    for ssl' lib' os' key' g no live r w out
  proof (induction rule: drive.raw_induct [rotated, consumes 1, case_names step])
    case (step drive ssl' lib' os' key' g no live r w out)
    then obtain n where n: "no = Some n" by blast
    obtain n' w' where t: "drive_turn ssl lib os key (SendAsk url payload IdAccount) f (Some n) (reached_of f) r w =
      (Inr (Some n', 0), f, reached_of f, w')" using turn by blast
    have "drive ssl lib os key f (Some n') (reached_of f) 0 w' = Some out" using step(2,3) ask n t by simp
    from step(1) [OF this] show ?case by simp
  qed
  then show ?thesis by (metis not_None_eq option.distinct(1))
qed

section \<open>What can be reached from outside\<close>

text \<open>
  The challenge answers that can be reached are read off the world. A recording that
  succeeds makes exactly its entries reachable; one that fails may or may not have; nothing
  else the loop does changes them.
\<close>

definition shows_recorded :: "('k, 'e, 'w) ec_ssl \<Rightarrow> 'w acme_os \<Rightarrow> ('w \<Rightarrow> (string \<times> string list) list) \<Rightarrow> bool" where
  "shows_recorded ssl os shown \<longleftrightarrow>
     (\<forall>r w w'. os_record os r w = (Inr (), w') \<longrightarrow> shown w' = pub_entries (re_publication r)) \<and>
     (\<forall>r w e w'. os_record os r w = (Inl e, w') \<longrightarrow> shown w' = shown w \<or> shown w' = pub_entries (re_publication r)) \<and>
     (\<forall>url body w. shown (snd (tr_call os url body w)) = shown w) \<and>
     (\<forall>d w. shown (os_pause os d w) = shown w) \<and>
     (\<forall>m e w. shown (snd (ecdsa_sign ssl m e w)) = shown w)"

lemma send_ask_shown:
  assumes "shows_recorded ssl os shown"
  shows "shown (snd (send_ask ssl os key f nonce a w)) = shown w"
proof -
  have call: "shown (snd (tr_call os url body w)) = shown w" and sign: "shown (snd (ecdsa_sign ssl m e w)) = shown w" for url body m e w
    using assms unfolding shows_recorded_def by blast+
  have signed: "shown (snd (jws_sign ssl key who account url n payload w)) = shown w" for who account url n payload
    using snd_jws_sign [of ssl key who account url n payload w] sign by metis
  show ?thesis
  proof (cases a)
    case (SendAsk url payload who)
    show ?thesis
    proof (cases nonce)
      case (Some n)
      obtain r w1 where j: "jws_sign ssl key who (fw_account f) url n payload w = (r, w1)" by fastforce
      then have "shown w1 = shown w" using signed [of who "fw_account f" url n payload] by simp
      then show ?thesis using j call SendAsk Some by (cases r) (simp_all add: send_ask_def)
    qed (simp add: SendAsk send_ask_def)
  qed (simp add: send_ask_def call)
qed

definition path_inv :: "('w \<Rightarrow> (string \<times> string list) list) \<Rightarrow> flow \<Rightarrow> reached \<Rightarrow> 'w \<Rightarrow> bool" where
  "path_inv shown f live w \<longleftrightarrow>
     (pub_entries (re_publication live) = [] \<longrightarrow> shown w = []) \<and>
     (fw_stage f \<noteq> StDone \<longrightarrow> pub_entries (re_publication live) \<noteq> [] \<longrightarrow> pub_entries (fw_published f) \<noteq> [])"

lemma note_reached_path:
  assumes "shows_recorded ssl os shown" "path_inv shown f live w" "fw_stage f \<noteq> StDone" "note_reached os f live w = (r, live', w')"
  shows "live' = reached_of f \<and> path_inv shown f live' w'"
proof (cases "reached_of f = live")
  case False
  then obtain r1 where rec: "os_record os (reached_of f) w = (r1, w')" "live' = reached_of f"
    using assms(4) by (auto simp: note_reached_def split: prod.splits)
  have "shown w' = shown w \<or> shown w' = pub_entries (fw_published f)"
  proof (cases r1)
    case (Inl e)
    then have "shown w' = shown w \<or> shown w' = pub_entries (re_publication (reached_of f))"
      using assms(1) rec(1) unfolding shows_recorded_def by blast
    then show ?thesis by (simp add: reached_of_def)
  next
    case (Inr u)
    then have "shown w' = pub_entries (re_publication (reached_of f))"
      using assms(1) rec(1) unfolding shows_recorded_def by (metis old.unit.exhaust)
    then show ?thesis by (simp add: reached_of_def)
  qed
  then show ?thesis using assms(2,3) rec(2) by (auto simp: path_inv_def reached_of_def)
qed (use assms in \<open>auto simp: note_reached_def\<close>)

lemma drive_turn_path:
  assumes os: "shows_recorded ssl os shown" and inv: "path_inv shown f live w" "fw_stage f \<noteq> StDone"
    and turn: "drive_turn ssl lib os key a f nonce live rejected w = (r, f', live', w')"
  shows "path_inv shown f' live' w'"
proof -
  obtain n live1 w1 where noted: "note_reached os f live w = (n, live1, w1)" by (metis prod_cases3)
  have l1: "live1 = reached_of f" "path_inv shown f live1 w1" using note_reached_path [OF os inv noted] by blast+
  let ?w = "if waiting_on_server f then os_pause os POLL_INTERVAL w1 else w1"
  have pause: "shown ?w = shown w1" using os unfolding shows_recorded_def by simp
  obtain s w2 where s: "send_ask ssl os key f nonce a ?w = (s, w2)" by fastforce
  then have w2: "shown w2 = shown w1" using send_ask_shown [OF os, of key f nonce a ?w] pause by simp
  show ?thesis
  proof (cases "n \<in> range Inl \<or> s \<in> range Inl")
    case True
    then have "f' = f \<and> live' = live1 \<and> (w' = w1 \<or> w' = w2)" using turn noted s by (cases n) (auto simp: drive_turn_def Let_def)
    then show ?thesis using l1 w2 by (auto simp: path_inv_def)
  next
    case False
    then obtain u reply where ok: "n = Inr u" "s = Inr reply" by (metis rangeI sum.exhaust)
    obtain q f1 where q: "accept ssl lib f (rp_answer reply) = (q, f1)" by fastforce
    have "f' = f1 \<and> live' = live1 \<and> w' = w2"
      using turn noted s ok q by (cases q; cases "projr q") (auto simp: drive_turn_def Let_def split: if_splits)
    then show ?thesis using l1 w2 accept_keeps_open [OF q] by (auto simp: path_inv_def reached_of_def)
  qed
qed

lemma drive_path:
  "drive ssl lib os key f nonce live rejected w = Some (out, f', live', w') \<Longrightarrow> shows_recorded ssl os shown \<Longrightarrow>
     path_inv shown f live w \<Longrightarrow> pub_entries (re_publication live') = [] \<longrightarrow> shown w' = []"
proof (induction "(out, f', live', w')" arbitrary: rule: drive.raw_induct [rotated, consumes 1, case_names step])
  case (step drive ssl lib os key f nonce live rejected w)
  show ?case
  proof (cases "next_ask f")
    case None
    then show ?thesis using step(2,4) by (auto simp: path_inv_def)
  next
    case (Some a)
    then have open_stage: "fw_stage f \<noteq> StDone" by (auto simp: next_ask_def)
    obtain r f1 live1 w1 where turn: "drive_turn ssl lib os key a f nonce live rejected w = (r, f1, live1, w1)" by (metis prod_cases4)
    have inv: "path_inv shown f1 live1 w1" by (rule drive_turn_path [OF step(3,4) open_stage turn])
    show ?thesis
    proof (cases r)
      case (Inl e)
      then show ?thesis using step(2) Some turn inv by (auto simp: path_inv_def)
    next
      case (Inr nr)
      then have "drive ssl lib os key f1 (fst nr) live1 (snd nr) w1 = Some (out, f', live', w')"
        using step(2) Some turn by (simp add: split_def)
      then show ?thesis using step(1) step(3) inv by blast
    qed
  qed
qed

section \<open>The states of an attempt\<close>

text \<open>What the loop goes through while nothing fails: the flow, nonce, record, refused nonces and world.\<close>

inductive driving ::
  "('k, 'e, 'w) ec_ssl \<Rightarrow> text_lib \<Rightarrow> 'w acme_os \<Rightarrow> 'k \<Rightarrow> flow \<Rightarrow> 'w
     \<Rightarrow> flow \<Rightarrow> string option \<Rightarrow> reached \<Rightarrow> nat \<Rightarrow> 'w \<Rightarrow> bool"
  for ssl lib os key f\<^sub>0 w\<^sub>0 where
  start: "driving ssl lib os key f\<^sub>0 w\<^sub>0 f\<^sub>0 None (reached_of f\<^sub>0) 0 w\<^sub>0"
| turn: "driving ssl lib os key f\<^sub>0 w\<^sub>0 f nonce live rejected w \<Longrightarrow> next_ask f = Some a \<Longrightarrow>
    drive_turn ssl lib os key a f nonce live rejected w = (Inr (nonce', rejected'), f', live', w') \<Longrightarrow>
    driving ssl lib os key f\<^sub>0 w\<^sub>0 f' nonce' live' rejected' w'"

lemma note_reached_shown:
  assumes "shows_recorded ssl os shown" "shown w = pub_entries (re_publication live)" "note_reached os f live w = (Inr (), live', w')"
  shows "live' = reached_of f \<and> shown w' = pub_entries (fw_published f)"
proof (cases "reached_of f = live")
  case True
  then show ?thesis using assms(2,3) by (auto simp: note_reached_def reached_of_def)
next
  case False
  then have "os_record os (reached_of f) w = (Inr (), w')" "live' = reached_of f"
    using assms(3) by (auto simp: note_reached_def split: prod.splits)
  moreover from this(1) have "shown w' = pub_entries (re_publication (reached_of f))"
    using assms(1) unfolding shows_recorded_def by blast
  ultimately show ?thesis by (simp add: reached_of_def)
qed

lemma driving_shown:
  assumes "driving ssl lib os key f\<^sub>0 w\<^sub>0 f nonce live rejected w" "shows_recorded ssl os shown"
    and "shown w\<^sub>0 = pub_entries (fw_published f\<^sub>0)" "bt_wf (pub_entries (fw_published f\<^sub>0))"
  shows "shown w = pub_entries (re_publication live) \<and> bt_wf (pub_entries (fw_published f))"
  using assms
proof induction
  case start
  then show ?case by (simp add: reached_of_def)
next
  case (turn f nonce live rejected w a nonce' rejected' f' live' w')
  from drive_turn_Inr [OF turn(3)] obtain w1 reply p where t:
    "note_reached os f live w = (Inr (), live', w1)"
    "send_ask ssl os key f nonce a (if waiting_on_server f then os_pause os POLL_INTERVAL w1 else w1) = (Inr reply, w')"
    "accept ssl lib f (rp_answer reply) = (Inr p, f')" by blast
  have ih: "shown w = pub_entries (re_publication live)" "bt_wf (pub_entries (fw_published f))" using turn by blast+
  have "shown (if waiting_on_server f then os_pause os POLL_INTERVAL w1 else w1) = shown w1"
    using turn(5) unfolding shows_recorded_def by simp
  then have "shown w' = shown w1"
    using send_ask_shown [OF turn(5), of key f nonce a "if waiting_on_server f then os_pause os POLL_INTERVAL w1 else w1"] t(2) by simp
  then show ?case using note_reached_shown [OF turn(5) ih(1) t(1)] accept_published_wf [OF t(3) ih(2)] by (simp add: reached_of_def)
qed

section \<open>What is left of a failure\<close>

lemma request_final:
  assumes "\<And>n ns k w e w'. x509_request x n ns k w = (Inl e, w') \<Longrightarrow> \<not> worth_retrying e"
    and "\<And>w e w'. ec_generate x w = (Inl e, w') \<Longrightarrow> \<not> worth_retrying e"
    and "(case pinned of Some key \<Rightarrow> request_with x names key w | None \<Rightarrow> fresh_request x names w) = (Inl e, w')"
  shows "\<not> worth_retrying e"
proof -
  have made: "\<not> worth_retrying e" if "request_with x names key w = (Inl e, w')" for key w
  proof (cases names)
    case Nil
    then show ?thesis using that by (auto simp: request_with_def worth_retrying_def reason_worth_retrying_def new_failure_def)
  next
    case (Cons n ns)
    obtain r w1 where "x509_request x n names key w = (r, w1)" by fastforce
    with that Cons assms(1) show ?thesis by (cases r) (auto simp: request_with_def)
  qed
  show ?thesis
  proof (cases pinned)
    case None
    obtain r w1 where r: "ec_generate x w = (r, w1)" by fastforce
    show ?thesis using assms(2,3) made None r by (cases r) (auto simp: fresh_request_def)
  qed (use assms(3) made in simp)
qed

lemma crypto_final: "crypto said r = Inl e \<Longrightarrow> \<not> worth_retrying e"
  by (auto simp: crypto_def worth_retrying_def reason_worth_retrying_def new_failure_def split: sum.splits)

lemma attempts_final:
  assumes "\<And>n ns k w e w'. x509_request x n ns k w = (Inl e, w') \<Longrightarrow> \<not> worth_retrying e"
    and "\<And>w e w'. ec_generate x w = (Inl e, w') \<Longrightarrow> \<not> worth_retrying e"
    and "attempts_from ssl x lib os settings account names print kind plan left latest w = Some (Inl e, w')"
  shows "\<not> worth_retrying e"
  using assms(3)
proof (induction left arbitrary: latest w)
  case Nil
  then show ?case by (cases latest) (auto simp: worth_retrying_def reason_worth_retrying_def new_failure_def)
next
  case (Cons attempt left)
  let ?made = "case ap_key plan of Some key \<Rightarrow> request_with x names key (wait_for os attempt w) | None \<Rightarrow> fresh_request x names (wait_for os attempt w)"
  obtain r w1 where r: "?made = (r, w1)" by fastforce
  show ?case
  proof (cases r)
    case (Inl e1)
    then show ?thesis using Cons.prems r request_final [OF assms(1,2), where pinned = "ap_key plan"] by simp
  next
    case (Inr request)
    let ?run = "run_attempt ssl lib os account (attempt_flow ssl settings names print kind plan attempt request) w1"
    obtain out f2 w2 where run: "?run = Some (out, f2, w2)"
      using Cons.prems r Inr by (cases ?run) auto
    show ?thesis
    proof (cases out)
      case (Inl e2)
      then show ?thesis using Cons r Inr run by (cases "worth_retrying e2") simp_all
    next
      case inr: (Inr chain)
      then have "and_then (csr_key_pem x request) (\<lambda>pem. Inr \<lparr>ob_chain_pem = as_bytes chain, ob_key_pem = pem\<rparr>) = Inl e"
        using Cons.prems r Inr run by simp
      then have "csr_key_pem x request = Inl e" by (cases "csr_key_pem x request") simp_all
      then show ?thesis using crypto_final by (auto simp: csr_key_pem_def)
    qed
  qed
qed

end
