(* ===== verification/Store.thy ===== *)
theory Store
  imports Validation Cloudflare Btree_Map "HOL-Library.AList"
begin

text \<open>
  \<open>crates/ek-ek-store\<close>: the state a cluster agrees on (\<open>store.rs\<close>, \<open>order.rs\<close>, \<open>membership.rs\<close>,
  \<open>cluster.rs\<close>, \<open>version.rs\<close>, \<open>journal.rs\<close>), the comparison of two configurations (\<open>diff.rs\<close>)
  and the steps that bring an old document forward (\<open>migration.rs\<close>). Rendering an object as a
  document and reading one belong to the serialisation library and are parameters. Identities
  are the strings they wrap, a secret the bytes it wraps.
\<close>

section \<open>Failures\<close>

datatype store_error_kind = DataDirectory | MasterKeyMissing | MasterKeyPermissions | MasterKeyMalformed | Storage
  | Decryption | Serialisation | UnknownVersion | SchemaMismatch | Clock

record store_error =
  se_kind :: store_error_kind
  se_diagnostic :: string

definition new_store_error :: "store_error_kind \<Rightarrow> string \<Rightarrow> store_error" where
  "new_store_error k d = \<lparr>se_kind = k, se_diagnostic = d\<rparr>"

section \<open>The state\<close>

datatype order_challenge = OrderHttp01 | OrderDns01

fun order_challenge_key :: "order_challenge \<Rightarrow> string" where
  "order_challenge_key OrderHttp01 = ''http-01''"
| "order_challenge_key OrderDns01 = ''dns-01''"

definition order_challenge_from_key :: "string \<Rightarrow> order_challenge option" where
  "order_challenge_from_key s =
     (if s = ''http-01'' then Some OrderHttp01 else if s = ''dns-01'' then Some OrderDns01 else None)"

record order_record =
  or_names :: "string list"
  or_challenge :: order_challenge
  or_order_url :: "string option"
  or_key :: string
  or_answers :: "(string \<times> string) list"
  or_driven_by :: "string option"
  or_started_at_unix :: int

definition placed :: "order_record \<Rightarrow> bool" where
  "placed r \<longleftrightarrow> or_order_url r \<noteq> None"

record join_record =
  jr_secret_digest :: string
  jr_expires_at_unix :: int
  jr_used_by :: "string option"
  jr_issued_by :: string
  jr_issued_at_unix :: int

definition join_usable :: "join_record \<Rightarrow> int \<Rightarrow> bool" where
  "join_usable r now_unix \<longleftrightarrow> jr_used_by r = None \<and> now_unix < jr_expires_at_unix r"

definition join_expired :: "join_record \<Rightarrow> int \<Rightarrow> bool" where
  "join_expired r now_unix \<longleftrightarrow> now_unix \<ge> jr_expires_at_unix r"

type_synonym cluster_identity = string

record snapshot =
  sn_config :: config
  sn_secrets :: "(string \<times> byte list) list"
  sn_cluster :: "cluster_identity option"
  sn_joins :: "(string \<times> join_record) list"
  sn_removed :: "string set"
  sn_orders :: "(string \<times> order_record) list"

definition new_snapshot :: "config \<Rightarrow> snapshot" where
  "new_snapshot c = \<lparr>sn_config = c, sn_secrets = [], sn_cluster = None, sn_joins = [], sn_removed = {}, sn_orders = []\<rparr>"

definition with_order :: "string \<Rightarrow> order_record \<Rightarrow> snapshot \<Rightarrow> snapshot" where
  "with_order i r s = s\<lparr>sn_orders := bt_insert i r (sn_orders s)\<rparr>"

definition with_join :: "string \<Rightarrow> join_record \<Rightarrow> snapshot \<Rightarrow> snapshot" where
  "with_join i r s = s\<lparr>sn_joins := bt_insert i r (sn_joins s)\<rparr>"

definition with_removed :: "string \<Rightarrow> snapshot \<Rightarrow> snapshot" where
  "with_removed n s = s\<lparr>sn_removed := insert n (sn_removed s)\<rparr>"

definition with_secret :: "string \<Rightarrow> byte list \<Rightarrow> snapshot \<Rightarrow> snapshot" where
  "with_secret i b s = s\<lparr>sn_secrets := bt_insert i b (sn_secrets s)\<rparr>"

definition with_cluster :: "cluster_identity \<Rightarrow> snapshot \<Rightarrow> snapshot" where
  "with_cluster i s = s\<lparr>sn_cluster := Some i\<rparr>"

text \<open>\<open>BTreeMap::remove\<close>.\<close>

definition bt_remove :: "'k \<Rightarrow> ('k \<times> 'v) list \<Rightarrow> ('k \<times> 'v) list" where
  "bt_remove k m = bt_retain (\<lambda>e. fst e \<noteq> k) m"

section \<open>Versions and the journal\<close>

definition MAX_VERSIONS :: nat where "MAX_VERSIONS = 100"

record change =
  ch_author :: string
  ch_description :: string

type_synonym version_id = int

datatype change_kind = WriteChange | RollbackChange version_id

record version_record =
  vr_id :: version_id
  vr_recorded_at_unix :: int
  vr_author :: string
  vr_description :: string
  vr_schema_version :: schema_version
  vr_kind :: change_kind

record pruning_record =
  pr_recorded_at_unix :: int
  pr_author :: string
  pr_removed :: version_id

record journal_record =
  jl_index :: u64
  jl_payload :: string

record stored_version =
  sv_id :: version_id
  sv_recorded_at_unix :: int
  sv_author :: string
  sv_description :: string
  sv_schema_version :: u32
  sv_restored_from :: "version_id option"
  sv_document :: string

record audit_record =
  ar_recorded_at_unix :: int
  ar_actor :: string
  ar_action :: string
  ar_subject :: "string option"
  ar_detail :: "string option"

record full_state =
  fs_snapshot :: "snapshot option"
  fs_versions :: "stored_version list"
  fs_audit :: "audit_record list"

section \<open>Comparing configurations\<close>

datatype object_kind = NodeObject | VipObject | FrontendObject | BackendObject | CertificateObject | DnsProviderObject

fun object_kind_key :: "object_kind \<Rightarrow> string" where
  "object_kind_key NodeObject = ''node''"
| "object_kind_key VipObject = ''vip''"
| "object_kind_key FrontendObject = ''frontend''"
| "object_kind_key BackendObject = ''backend''"
| "object_kind_key CertificateObject = ''certificate''"
| "object_kind_key DnsProviderObject = ''dns_provider''"

datatype object_change = Added | Removed | Modified

record diff_entry =
  de_kind :: object_kind
  de_id :: string
  de_change :: object_change

type_synonym config_diff = "diff_entry list"

definition diff_contains :: "config_diff \<Rightarrow> object_kind \<Rightarrow> string \<Rightarrow> object_change \<Rightarrow> bool" where
  "diff_contains d k i c \<longleftrightarrow> list_ex (\<lambda>e. de_kind e = k \<and> de_id e = i \<and> de_change e = c) d"

definition diff_of :: "config_diff \<Rightarrow> object_change \<Rightarrow> diff_entry list" where
  "diff_of d c = filter (\<lambda>e. de_change e = c) d"

text \<open>Rendering an object of each kind as a document, which may fail.\<close>

record renderers =
  render_node :: "node \<Rightarrow> (json, string) result"
  render_vip :: "vip \<Rightarrow> (json, string) result"
  render_frontend :: "frontend \<Rightarrow> (json, string) result"
  render_backend :: "backend \<Rightarrow> (json, string) result"
  render_certificate :: "certificate \<Rightarrow> (json, string) result"
  render_dns_provider :: "dns_provider \<Rightarrow> (json, string) result"

fun index_objects ::
  "('t \<Rightarrow> (json, string) result) \<Rightarrow> ('t \<Rightarrow> string) \<Rightarrow> 't list \<Rightarrow> (string \<times> json) list \<Rightarrow> ((string \<times> json) list, store_error) result" where
  "index_objects rendering identity [] m = Inr m"
| "index_objects rendering identity (x # xs) m = (case rendering x of
     Inl e \<Rightarrow> Inl (new_store_error Serialisation (''an object could not be rendered for comparison: '' @ e))
   | Inr v \<Rightarrow> index_objects rendering identity xs (bt_insert (identity x) v m))"

definition compare_one :: "object_kind \<Rightarrow> (string \<times> json) list \<Rightarrow> string \<times> json \<Rightarrow> diff_entry list" where
  "compare_one kind later e = (case bt_get (fst e) later of
     None \<Rightarrow> [\<lparr>de_kind = kind, de_id = fst e, de_change = Removed\<rparr>]
   | Some new \<Rightarrow> if new = snd e then [] else [\<lparr>de_kind = kind, de_id = fst e, de_change = Modified\<rparr>])"

definition compare_objects :: "object_kind \<Rightarrow> (string \<times> json) list \<Rightarrow> (string \<times> json) list \<Rightarrow> diff_entry list" where
  "compare_objects kind earlier later =
     concat (map (compare_one kind later) earlier) @
     map (\<lambda>e. \<lparr>de_kind = kind, de_id = fst e, de_change = Added\<rparr>) (filter (\<lambda>e. bt_get (fst e) earlier = None) later)"

definition diff_kind ::
  "object_kind \<Rightarrow> ('t \<Rightarrow> (json, string) result) \<Rightarrow> ('t \<Rightarrow> string) \<Rightarrow> 't list \<Rightarrow> 't list \<Rightarrow> (diff_entry list, store_error) result" where
  "diff_kind kind rendering identity earlier later =
     and_then (index_objects rendering identity earlier []) (\<lambda>a.
     and_then (index_objects rendering identity later []) (\<lambda>b.
     Inr (compare_objects kind a b)))"

definition config_diff :: "renderers \<Rightarrow> config \<Rightarrow> config \<Rightarrow> (config_diff, store_error) result" where
  "config_diff r before later =
     and_then (diff_kind NodeObject (render_node r) n_id (nodes before) (nodes later)) (\<lambda>a.
     and_then (diff_kind VipObject (render_vip r) v_id (vips before) (vips later)) (\<lambda>b.
     and_then (diff_kind FrontendObject (render_frontend r) f_id (frontends before) (frontends later)) (\<lambda>c.
     and_then (diff_kind BackendObject (render_backend r) b_id (backends before) (backends later)) (\<lambda>d.
     and_then (diff_kind CertificateObject (render_certificate r) c_id (certificates before) (certificates later)) (\<lambda>e.
     and_then (diff_kind DnsProviderObject (render_dns_provider r) d_id (dns_providers before) (dns_providers later)) (\<lambda>f.
     Inr (a @ b @ c @ d @ e @ f)))))))"

section \<open>Bringing a document forward\<close>

record migration =
  mg_to :: schema_version
  mg_apply :: "json \<Rightarrow> (json, store_error) result"

definition MIGRATIONS :: "migration list" where "MIGRATIONS = []"

definition target_version :: "migration list \<Rightarrow> schema_version" where
  "target_version steps =
     (case steps of [] \<Rightarrow> SCHEMA_CURRENT | _ \<Rightarrow> max (Max (set (map mg_to steps))) SCHEMA_CURRENT)"

fun as_u64_json :: "json \<Rightarrow> nat option" where
  "as_u64_json (JNumber n) = (if 0 \<le> n \<and> n < 2 ^ 64 then Some (nat n) else None)"
| "as_u64_json _ = None"

definition document_version :: "json \<Rightarrow> (schema_version, store_error) result" where
  "document_version document =
     and_then (ok_or (new_store_error Serialisation ''a stored document carries no schema version'')
       (Option.bind (json_get ''schema_version'' document) as_u64_json)) (\<lambda>n.
     if n < 2 ^ 32 then Inr (of_nat n)
     else Inl (new_store_error Serialisation (''a schema version of '' @ decimal n @ '' cannot be read'')))"

fun set_version :: "json \<Rightarrow> schema_version \<Rightarrow> (json, store_error) result" where
  "set_version (JObject fs) v = Inr (JObject (AList.update ''schema_version'' (JNumber (uint v)) fs))"
| "set_version _ v = Inl (new_store_error Serialisation ''a stored document is not an object'')"

fun migrate_steps :: "migration list \<Rightarrow> schema_version \<Rightarrow> json \<Rightarrow> (schema_version, store_error) result \<times> json" where
  "migrate_steps [] at document = (Inr at, document)"
| "migrate_steps (step # steps) at document =
     (if mg_to step \<le> at then migrate_steps steps at document
      else case mg_apply step document of
        Inl e \<Rightarrow> (Inl e, document)
      | Inr document \<Rightarrow>
          (case set_version document (mg_to step) of
             Inl e \<Rightarrow> (Inl e, document)
           | Inr document \<Rightarrow> migrate_steps steps (mg_to step) document))"

definition migrate_document :: "json \<Rightarrow> migration list \<Rightarrow> (schema_version, store_error) result \<times> json" where
  "migrate_document document steps = (case document_version document of
     Inl e \<Rightarrow> (Inl e, document)
   | Inr v \<Rightarrow>
       if v > target_version steps then
         (Inl (new_store_error SchemaMismatch (''a record written against schema '' @ decimal (unat v)
            @ '' cannot be read by a build that reaches '' @ decimal (unat (target_version steps)))), document)
       else migrate_steps steps v document)"

definition migrate_into_config ::
  "(json \<Rightarrow> (config, string) result) \<Rightarrow> json \<Rightarrow> migration list \<Rightarrow> (config, store_error) result \<times> json" where
  "migrate_into_config from_value document steps = (case migrate_document document steps of
     (Inl e, document) \<Rightarrow> (Inl e, document)
   | (Inr _, document) \<Rightarrow>
       ((case from_value document of
           Inl e \<Rightarrow> Inl (new_store_error Serialisation (''a migrated document does not fit the current model: '' @ e))
         | Inr c \<Rightarrow> Inr c), document))"

section \<open>A comparison names exactly what changed\<close>

lemma bt_get_None: "bt_get k m = None \<longleftrightarrow> k \<notin> fst ` set m"
  by (simp add: bt_get_def map_of_eq_None_iff)

text \<open>The last object of an identity is the one the index holds.\<close>

definition object_at :: "('t \<Rightarrow> (json, string) result) \<Rightarrow> ('t \<Rightarrow> string) \<Rightarrow> 't list \<Rightarrow> string \<Rightarrow> json option" where
  "object_at rendering identity xs i =
     map_of (rev (map (\<lambda>x. (identity x, projr (rendering x))) xs)) i"

lemma index_objects_get:
  assumes "index_objects rendering identity xs m = Inr m'" "bt_wf m"
  shows "bt_wf m' \<and> bt_get i m' = (case object_at rendering identity xs i of None \<Rightarrow> bt_get i m | Some v \<Rightarrow> Some v)"
  using assms
proof (induction xs arbitrary: m)
  case (Cons x xs)
  then obtain v where v: "rendering x = Inr v" "index_objects rendering identity xs (bt_insert (identity x) v m) = Inr m'"
    by (auto split: sum.splits)
  from Cons.IH [OF v(2)] Cons.prems(2) v(1) show ?case
    by (auto simp: bt_insert_wf bt_get_insert object_at_def map_add_def split: option.splits)
qed (simp add: object_at_def)

lemma compare_one_id: "e \<in> set (compare_one kind b p) \<Longrightarrow> de_id e = fst p"
  by (auto simp: compare_one_def split: option.splits if_splits)

lemma compare_objects_contains:
  assumes "bt_wf a" "bt_wf b"
  shows "\<lparr>de_kind = kind', de_id = i, de_change = c\<rparr> \<in> set (compare_objects kind a b) \<longleftrightarrow> kind' = kind \<and>
    (case (bt_get i a, bt_get i b) of
       (None, Some _) \<Rightarrow> c = Added
     | (Some _, None) \<Rightarrow> c = Removed
     | (Some v, Some v') \<Rightarrow> v \<noteq> v' \<and> c = Modified
     | (None, None) \<Rightarrow> False)"
proof -
  have a: "(i, v) \<in> set a \<longleftrightarrow> bt_get i a = Some v" for v using btree.entries_get [OF assms(1)] by simp
  have b: "(i, v) \<in> set b \<longleftrightarrow> bt_get i b = Some v" for v using btree.entries_get [OF assms(2)] by simp
  have "\<lparr>de_kind = kind', de_id = i, de_change = c\<rparr> \<in> set (concat (map (compare_one kind b) a)) \<longleftrightarrow>
      (\<exists>v. (i, v) \<in> set a \<and> \<lparr>de_kind = kind', de_id = i, de_change = c\<rparr> \<in> set (compare_one kind b (i, v)))"
    (is "?L \<longleftrightarrow> ?R")
  proof
    assume ?L
    then obtain j v where jv: "(j, v) \<in> set a" "\<lparr>de_kind = kind', de_id = i, de_change = c\<rparr> \<in> set (compare_one kind b (j, v))" by auto
    then show ?R using compare_one_id [OF jv(2)] by auto
  qed auto
  moreover have "\<lparr>de_kind = kind', de_id = i, de_change = c\<rparr> \<in>
      set (map (\<lambda>e. \<lparr>de_kind = kind, de_id = fst e, de_change = Added\<rparr>) (filter (\<lambda>e. bt_get (fst e) a = None) b)) \<longleftrightarrow>
      kind' = kind \<and> c = Added \<and> bt_get i a = None \<and> (\<exists>v. (i, v) \<in> set b)"
    by force
  ultimately show ?thesis unfolding compare_objects_def set_append Un_iff a b
    by (cases "bt_get i a"; cases "bt_get i b") (auto simp: compare_one_def)
qed

lemma diff_kind_contains:
  assumes "diff_kind kind rendering identity xs ys = Inr d"
  shows "\<lparr>de_kind = kind', de_id = i, de_change = c\<rparr> \<in> set d \<longleftrightarrow> kind' = kind \<and>
    (case (object_at rendering identity xs i, object_at rendering identity ys i) of
       (None, Some _) \<Rightarrow> c = Added
     | (Some _, None) \<Rightarrow> c = Removed
     | (Some v, Some v') \<Rightarrow> v \<noteq> v' \<and> c = Modified
     | (None, None) \<Rightarrow> False)"
proof -
  obtain a b where ab: "index_objects rendering identity xs [] = Inr a" "index_objects rendering identity ys [] = Inr b"
    "d = compare_objects kind a b"
    using assms by (auto simp: diff_kind_def and_then_Inr)
  have empty: "bt_wf ([] :: (string \<times> json) list)" "bt_get i ([] :: (string \<times> json) list) = None"
    by (rule btree.wf_empty btree.get_empty)+
  have "bt_wf a" "bt_get i a = object_at rendering identity xs i"
    using index_objects_get [OF ab(1) empty(1)] empty(2) by (simp_all split: option.split)
  moreover have "bt_wf b" "bt_get i b = object_at rendering identity ys i"
    using index_objects_get [OF ab(2) empty(1)] empty(2) by (simp_all split: option.split)
  ultimately show ?thesis using compare_objects_contains [of a b kind' i c kind] ab(3) by simp
qed

lemma migrate_steps_reach:
  assumes "migrate_steps steps at document = (Inr v, document')" "sorted (map mg_to steps)"
  shows "v = (if steps = [] then at else max at (mg_to (last steps)))"
  using assms
proof (induction steps arbitrary: at document)
  case (Cons step steps)
  have mono: "steps \<noteq> [] \<Longrightarrow> mg_to step \<le> mg_to (last steps)" using Cons.prems(2) by simp
  show ?case
  proof (cases "mg_to step \<le> at")
    case True
    then have "v = (if steps = [] then at else max at (mg_to (last steps)))" using Cons by simp
    then show ?thesis using True by simp
  next
    case False
    then obtain d where "migrate_steps steps (mg_to step) d = (Inr v, document')"
      using Cons.prems(1) by (auto split: sum.splits)
    then have "v = (if steps = [] then mg_to step else max (mg_to step) (mg_to (last steps)))" using Cons by simp
    then show ?thesis using False mono by (auto simp: max_def)
  qed
qed simp

lemma set_version_reads: "set_version d v = Inr d' \<Longrightarrow> document_version d' = Inr v"
proof (cases d)
  case (JObject fs)
  assume "set_version d v = Inr d'"
  then have "d' = JObject (AList.update ''schema_version'' (JNumber (uint v)) fs)" using JObject by simp
  moreover have "uint v < 2 ^ 32" using uint_lt2p [of v] by simp
  moreover have "nat (uint v) < 2 ^ 32" "word_of_nat (nat (uint v)) = v" using unat_u32_less [of v] by simp_all
  ultimately show ?thesis by (simp add: document_version_def update_conv')
qed simp_all

lemma migrate_steps_version:
  "migrate_steps steps at document = (Inr v, document') \<Longrightarrow> document_version document = Inr at \<Longrightarrow> document_version document' = Inr v"
proof (induction steps arbitrary: at document)
  case (Cons step steps)
  then show ?case by (auto split: if_splits sum.splits dest: set_version_reads)
qed simp

end
