(* ===== verification/Renewal.thy ===== *)
theory Renewal
  imports Store Inspection
begin

text \<open>
  \<open>renewal.rs\<close>, \<open>record.rs\<close> and \<open>metrics.rs\<close> of the certificate crate: when a certificate is
  ordered again, what a failed order leads to, where the material of a certificate is filed and
  what a monitoring system reads. Times are 64 bit signed seconds; additions saturate as written.
\<close>

definition saturate_i64 :: "int \<Rightarrow> int" where
  "saturate_i64 n = max (- (2 ^ 63)) (min (2 ^ 63 - 1) n)"

lemma saturate_i64_id: "- (2 ^ 63) \<le> n \<Longrightarrow> n < 2 ^ 63 \<Longrightarrow> saturate_i64 n = n"
  by (simp add: saturate_i64_def)

definition RENEW_AT :: int where "RENEW_AT = 3"
definition RENEW_ALARM_AFTER :: u32 where "RENEW_ALARM_AFTER = 3"
definition FIRST_BACKOFF :: nat where "FIRST_BACKOFF = 3600"
definition LONGEST_BACKOFF :: nat where "LONGEST_BACKOFF = 86400"
definition GROWING_WAITS :: u32 where "GROWING_WAITS = 4"

section \<open>What is due\<close>

datatype because = NeverObtained | RunningOut

record due_certificate =
  du_certificate :: certificate
  du_because :: because

definition time_left :: "certificate_validity \<Rightarrow> int \<Rightarrow> int" where
  "time_left validity now_unix = saturate_i64 (not_after_unix validity - now_unix)"

definition renewable :: "certificate \<Rightarrow> bool" where
  "renewable c = (case c_source c of AcmeHttp01 \<Rightarrow> True | AcmeDns01 _ \<Rightarrow> True | ManualUpload \<Rightarrow> False)"

definition why :: "certificate \<Rightarrow> int \<Rightarrow> because option" where
  "why c now_unix =
     (if \<not> renewable c then None
      else case c_validity c of
        None \<Rightarrow> Some NeverObtained
      | Some validity \<Rightarrow>
          let lifetime = saturate_i64 (not_after_unix validity - not_before_unix validity) in
          if lifetime \<le> 0 then Some RunningOut
          else if time_left validity now_unix \<le> lifetime div RENEW_AT then Some RunningOut else None)"

definition due_certificates :: "certificate list \<Rightarrow> int \<Rightarrow> due_certificate list" where
  "due_certificates cs now_unix =
     List.map_filter (\<lambda>c. map_option (\<lambda>b. \<lparr>du_certificate = c, du_because = b\<rparr>) (why c now_unix)) cs"

section \<open>Failed orders\<close>

text \<open>A wait in seconds.\<close>

definition backoff :: "u32 \<Rightarrow> nat" where
  "backoff failed =
     (if failed = 0 then 0 else if failed > GROWING_WAITS then LONGEST_BACKOFF
      else FIRST_BACKOFF * 2 ^ (unat failed - 1))"

record attempts =
  at_failures :: u32
  at_first_failed_unix :: int
  at_last_reason :: string
  at_next_attempt_unix :: int

definition no_attempts :: attempts where
  "no_attempts = \<lparr>at_failures = 0, at_first_failed_unix = 0, at_last_reason = [], at_next_attempt_unix = 0\<rparr>"

definition attempt_failed :: "string \<Rightarrow> int \<Rightarrow> attempts \<Rightarrow> attempts" where
  "attempt_failed why_failed now_unix a =
     (let a = (if at_failures a = 0 then a\<lparr>at_first_failed_unix := now_unix\<rparr> else a);
          a = a\<lparr>at_failures := saturating_inc (at_failures a), at_last_reason := why_failed\<rparr> in
      a\<lparr>at_next_attempt_unix := saturate_i64 (now_unix + int (backoff (at_failures a)))\<rparr>)"

definition alarming :: "attempts \<Rightarrow> bool" where
  "alarming a \<longleftrightarrow> at_failures a \<ge> RENEW_ALARM_AFTER"

definition ready_again :: "attempts \<Rightarrow> int \<Rightarrow> bool" where
  "ready_again a now_unix \<longleftrightarrow> now_unix \<ge> at_next_attempt_unix a"

section \<open>Filing material\<close>

definition CHAIN_SUFFIX :: string where "CHAIN_SUFFIX = ''.chain''"
definition KEY_SUFFIX :: string where "KEY_SUFFIX = ''.key''"
definition ORDER_KEY_SUFFIX :: string where "ORDER_KEY_SUFFIX = ''.order-key''"

definition chain_id :: "string \<Rightarrow> string" where "chain_id i = i @ CHAIN_SUFFIX"
definition key_id :: "string \<Rightarrow> string" where "key_id i = i @ KEY_SUFFIX"
definition order_key_id :: "string \<Rightarrow> string" where "order_key_id i = i @ ORDER_KEY_SUFFIX"

record upload =
  up_sni_names :: "string list"
  up_validity :: certificate_validity
  up_chain :: "byte list"
  up_key :: "byte list"
  up_warnings :: "warning_code report list"

fun replace_or_push :: "certificate \<Rightarrow> certificate list \<Rightarrow> certificate list" where
  "replace_or_push r [] = [r]"
| "replace_or_push r (c # cs) = (if c_id c = c_id r then r # cs else c # replace_or_push r cs)"

definition install :: "snapshot \<Rightarrow> string \<Rightarrow> certificate_source \<Rightarrow> upload \<Rightarrow> snapshot" where
  "install s i source u =
     (let r = \<lparr>c_id = i, c_sni_names = up_sni_names u, c_source = source, c_validity = Some (up_validity u),
            c_chain = Some (chain_id i), c_private_key = Some (key_id i)\<rparr>;
          s = s\<lparr>sn_config := (sn_config s)\<lparr>certificates := replace_or_push r (certificates (sn_config s))\<rparr>\<rparr> in
      s\<lparr>sn_secrets := bt_insert (key_id i) (up_key u) (bt_insert (chain_id i) (up_chain u) (sn_secrets s))\<rparr>)"

definition carry_one :: "certificate list \<Rightarrow> certificate \<Rightarrow> certificate" where
  "carry_one held c = (case List.find (\<lambda>h. c_id h = c_id c) held of
     None \<Rightarrow> c
   | Some h \<Rightarrow> c\<lparr>c_validity := c_validity h, c_chain := c_chain h, c_private_key := c_private_key h\<rparr>)"

definition carry_obtained :: "config \<Rightarrow> config \<Rightarrow> config" where
  "carry_obtained document stored =
     document\<lparr>certificates := map (carry_one (certificates stored)) (certificates document)\<rparr>"

definition remove_certificate :: "snapshot \<Rightarrow> string \<Rightarrow> snapshot" where
  "remove_certificate s i =
     s\<lparr>sn_config := (sn_config s)\<lparr>certificates := filter (\<lambda>c. c_id c \<noteq> i) (certificates (sn_config s))\<rparr>,
       sn_secrets := bt_remove (key_id i) (bt_remove (chain_id i) (sn_secrets s))\<rparr>"

section \<open>Metrics\<close>

definition EXPIRY_METRIC :: string where "EXPIRY_METRIC = ''ek_ek_certificate_expiry_seconds''"
definition OBTAINED_METRIC :: string where "OBTAINED_METRIC = ''ek_ek_certificate_obtained''"

fun source_of :: "certificate_source \<Rightarrow> string" where
  "source_of AcmeHttp01 = ''acme_http01''"
| "source_of (AcmeDns01 _) = ''acme_dns01''"
| "source_of ManualUpload = ''manual_upload''"

definition label_char :: "char \<Rightarrow> string" where
  "label_char c =
     (if c = CHR 0x5C then [CHR 0x5C, CHR 0x5C] else if c = CHR 0x22 then [CHR 0x5C, CHR 0x22]
      else if c = CHR 0x0A then [CHR 0x5C, CHR ''n''] else [c])"

definition label_escape :: "string \<Rightarrow> string" where
  "label_escape s = concat (map label_char s)"

definition metric_labels :: "certificate \<Rightarrow> string" where
  "metric_labels c = ''{certificate='' @ [CHR 0x22] @ label_escape (c_id c) @ [CHR 0x22] @ '',source='' @ [CHR 0x22]
     @ source_of (c_source c) @ [CHR 0x22] @ ''}''"

definition metric_line :: "string \<Rightarrow> certificate \<Rightarrow> string \<Rightarrow> string" where
  "metric_line metric c number = metric @ metric_labels c @ '' '' @ number @ [CHR 0x0A]"

definition exposition :: "certificate list \<Rightarrow> int \<Rightarrow> string" where
  "exposition cs now_unix =
     ''# HELP '' @ EXPIRY_METRIC @ '' Seconds until the certificate stops being usable.'' @ [CHR 0x0A] @
     ''# TYPE '' @ EXPIRY_METRIC @ '' gauge'' @ [CHR 0x0A] @
     concat (map (\<lambda>c. case c_validity c of None \<Rightarrow> []
       | Some validity \<Rightarrow> metric_line EXPIRY_METRIC c (show_int (time_left validity now_unix))) cs) @
     ''# HELP '' @ OBTAINED_METRIC @ '' 1 when material has been obtained for the certificate, 0 when it has not.'' @ [CHR 0x0A] @
     ''# TYPE '' @ OBTAINED_METRIC @ '' gauge'' @ [CHR 0x0A] @
     concat (map (\<lambda>c. metric_line OBTAINED_METRIC c (if c_validity c \<noteq> None then ''1'' else ''0'')) cs)"

section \<open>The last third\<close>

text \<open>Times a certificate can carry: their differences stay inside 64 bits.\<close>

definition usual_time :: "int \<Rightarrow> bool" where
  "usual_time t \<longleftrightarrow> - (2 ^ 62) \<le> t \<and> t < 2 ^ 62"

lemma saturate_difference: "usual_time a \<Longrightarrow> usual_time b \<Longrightarrow> saturate_i64 (a - b) = a - b"
  by (rule saturate_i64_id) (simp_all add: usual_time_def)

lemma why_last_third:
  assumes "renewable c" "c_validity c = Some v" "usual_time (not_before_unix v)" "usual_time (not_after_unix v)" "usual_time now"
  shows "why c now \<noteq> None \<longleftrightarrow> not_after_unix v \<le> not_before_unix v \<or>
    3 * (not_after_unix v - now) \<le> not_after_unix v - not_before_unix v"
proof -
  have "saturate_i64 (not_after_unix v - not_before_unix v) = not_after_unix v - not_before_unix v"
    "time_left v now = not_after_unix v - now"
    using assms saturate_difference by (simp_all add: time_left_def)
  moreover have "x \<le> n div 3 \<longleftrightarrow> 3 * x \<le> n" for x n :: int by presburger
  ultimately show ?thesis using assms(1,2) by (simp add: why_def Let_def RENEW_AT_def)
qed

section \<open>Runs of failures\<close>

text \<open>Orders that fail one after the other, each made only when another one may be.\<close>

fun fail_run :: "attempts \<Rightarrow> (string \<times> int) list \<Rightarrow> attempts option" where
  "fail_run a [] = Some a"
| "fail_run a ((r, t) # ts) = (if ready_again a t then fail_run (attempt_failed r t a) ts else None)"

lemma attempt_failed_simps [simp]:
  "at_failures (attempt_failed r t a) = saturating_inc (at_failures a)"
  "at_first_failed_unix (attempt_failed r t a) = (if at_failures a = 0 then t else at_first_failed_unix a)"
  "at_next_attempt_unix (attempt_failed r t a) = saturate_i64 (t + int (backoff (saturating_inc (at_failures a))))"
  by (simp_all add: attempt_failed_def Let_def)

lemma backoff_bound: "backoff n \<le> LONGEST_BACKOFF"
proof (cases "n = 0 \<or> n > GROWING_WAITS")
  case False
  then have "unat n \<le> 4" "n \<noteq> 0" by (auto simp: GROWING_WAITS_def word_le_nat_alt not_less)
  then have "unat n - 1 \<le> 3" by simp
  then have "(2::nat) ^ (unat n - 1) \<le> 2 ^ 3" by (rule power_increasing) simp
  with False show ?thesis by (simp add: backoff_def FIRST_BACKOFF_def LONGEST_BACKOFF_def)
qed (auto simp: backoff_def)

lemma next_attempt: "usual_time t \<Longrightarrow> saturate_i64 (t + int (backoff n)) = t + int (backoff n)"
  using backoff_bound [of n] by (intro saturate_i64_id) (simp_all add: usual_time_def LONGEST_BACKOFF_def)

lemma fail_run_failures: "fail_run a ts = Some a' \<Longrightarrow> unat (at_failures a') \<le> unat (at_failures a) + length ts"
proof (induction a ts rule: fail_run.induct)
  case (2 a r t ts)
  then have "unat (at_failures a') \<le> unat (saturating_inc (at_failures a)) + length ts" by (simp split: if_splits)
  then show ?case by (simp add: unat_saturating_inc split: if_splits)
qed simp

lemma fail_run_later:
  "fail_run a ts = Some a' \<Longrightarrow> list_all (\<lambda>(r, t). usual_time t) ts \<Longrightarrow> ts \<noteq> [] \<Longrightarrow> at_next_attempt_unix a \<le> snd (last ts)"
proof (induction a ts rule: fail_run.induct)
  case (2 a r t ts)
  then have "ready_again a t" "fail_run (attempt_failed r t a) ts = Some a'" by (simp_all split: if_splits)
  then show ?case using 2 next_attempt [of t] by (cases ts) (force simp: ready_again_def)+
qed simp

lemma saturating_inc_pos: "saturating_inc n \<noteq> 0"
  by (simp add: word_unat_eq_iff unat_saturating_inc)

lemma fail_run_first:
  "fail_run a ts = Some a' \<Longrightarrow> at_failures a \<noteq> 0 \<Longrightarrow> at_first_failed_unix a' = at_first_failed_unix a"
  by (induction a ts rule: fail_run.induct) (auto simp: saturating_inc_pos split: if_splits)

lemma alarm_spread:
  assumes "fail_run no_attempts ts = Some a" "alarming a" "list_all (\<lambda>(r, t). usual_time t) ts"
  shows "at_first_failed_unix a + 10800 \<le> snd (last ts)"
proof -
  have "3 \<le> unat (at_failures a)" using assms(2) by (simp add: alarming_def RENEW_ALARM_AFTER_def word_le_nat_alt)
  then have "3 \<le> length ts" using fail_run_failures [OF assms(1)] by (simp add: no_attempts_def)
  then obtain r1 t1 r2 t2 r3 t3 rest where ts: "ts = (r1, t1) # (r2, t2) # (r3, t3) # rest"
    by (auto simp: Suc_le_length_iff numeral_3_eq_3)
  let ?a1 = "attempt_failed r1 t1 no_attempts" let ?a2 = "attempt_failed r2 t2 ?a1" let ?a3 = "attempt_failed r3 t3 ?a2"
  have t: "usual_time t1" "usual_time t2" "usual_time t3" using assms(3) ts by simp_all
  have run: "ready_again ?a1 t2" "ready_again ?a2 t3" "fail_run ?a3 rest = Some a"
    using assms(1) ts by (simp_all split: if_splits)
  have inc: "saturating_inc 0 = 1" "saturating_inc 1 = 2" by (simp_all add: saturating_inc_def)
  have n: "at_failures ?a1 = 1" "at_failures ?a2 = 2" by (simp_all add: no_attempts_def inc)
  have "t1 + 3600 \<le> t2" using run(1) t(1) next_attempt [OF t(1), of 1]
    by (simp add: ready_again_def no_attempts_def inc backoff_def GROWING_WAITS_def FIRST_BACKOFF_def)
  moreover have "t2 + 7200 \<le> t3" using run(2) next_attempt [OF t(2), of 2] n
    by (simp add: ready_again_def inc backoff_def GROWING_WAITS_def FIRST_BACKOFF_def)
  moreover have "t3 \<le> snd (last ts)"
    using fail_run_later [OF run(3)] assms(3) ts next_attempt [OF t(3)] by (cases rest) force+
  moreover have "at_first_failed_unix a = t1"
    using fail_run_first [OF run(3)] n by (simp add: saturating_inc_pos no_attempts_def inc)
  ultimately show ?thesis by simp
qed

section \<open>Material belongs to one certificate\<close>

lemma material_ids [simp]:
  "chain_id i = chain_id j \<longleftrightarrow> i = j" "key_id i = key_id j \<longleftrightarrow> i = j"
  by (simp_all add: chain_id_def key_id_def)

lemma material_kinds [simp]:
  "chain_id i \<noteq> key_id j" "key_id j \<noteq> chain_id i" "order_key_id i \<noteq> key_id j" "order_key_id i \<noteq> chain_id j"
  "key_id j \<noteq> order_key_id i" "chain_id j \<noteq> order_key_id i"
proof -
  have key: "last (butlast (butlast (butlast (key_id j)))) = CHR ''.'' \<and> last (key_id j) = CHR ''y''" for j
    by (simp add: key_id_def KEY_SUFFIX_def butlast_append)
  have order: "last (butlast (butlast (butlast (order_key_id i)))) = CHR ''-'' \<and> last (order_key_id i) = CHR ''y''" for i
    by (simp add: order_key_id_def ORDER_KEY_SUFFIX_def butlast_append)
  have chain: "last (chain_id i) = CHR ''n''" for i
    by (simp add: chain_id_def CHAIN_SUFFIX_def)
  have "CHR ''y'' \<noteq> CHR ''n''" "CHR ''.'' \<noteq> CHR ''-''" by simp_all
  then show "chain_id i \<noteq> key_id j" "order_key_id i \<noteq> key_id j" "order_key_id i \<noteq> chain_id j"
    "key_id j \<noteq> chain_id i" "key_id j \<noteq> order_key_id i" "chain_id j \<noteq> order_key_id i"
    using key order chain by metis+
qed

lemma find_replace_or_push:
  "List.find (\<lambda>c. c_id c = j) (replace_or_push r cs) =
     (if j = c_id r then Some r else List.find (\<lambda>c. c_id c = j) cs)"
  by (induction cs) auto

lemma bt_remove_insert: "bt_wf m \<Longrightarrow> k \<notin> fst ` set m \<Longrightarrow> bt_remove k (bt_insert k v m) = m"
proof (induction k v m rule: bt_insert.induct)
  case (2 k v k' v' rest)
  then have "bt_wf rest" by (simp add: bt_wf_def)
  moreover have "filter (\<lambda>e. fst e \<noteq> k) rest = rest" using 2(3) by (auto simp: filter_id_conv)
  ultimately show ?case using 2 by (auto simp: bt_remove_def bt_retain_def)
qed (simp add: bt_remove_def bt_retain_def)

lemma replace_or_push_fresh: "c_id r \<notin> c_id ` set cs \<Longrightarrow> replace_or_push r cs = cs @ [r]"
  by (induction cs) auto

lemma remove_installed:
  assumes "bt_wf (sn_secrets s)" "chain_id i \<notin> fst ` set (sn_secrets s)" "key_id i \<notin> fst ` set (sn_secrets s)"
    and "i \<notin> c_id ` set (certificates (sn_config s))"
  shows "remove_certificate (install s i source u) i = s"
proof -
  let ?m = "bt_insert (chain_id i) (up_chain u) (sn_secrets s)"
  have "bt_remove (key_id i) (bt_remove (chain_id i) (bt_insert (key_id i) (up_key u) ?m)) =
      bt_remove (chain_id i) (bt_remove (key_id i) (bt_insert (key_id i) (up_key u) ?m))"
    by (simp add: bt_remove_def bt_retain_def conj_commute)
  also have "\<dots> = sn_secrets s"
    using bt_remove_insert [OF bt_insert_wf [OF assms(1)], of "key_id i" "chain_id i" "up_chain u" "up_key u"]
      bt_remove_insert [OF assms(1,2)] assms(3) bt_insert_keys [of "chain_id i" "up_chain u" "sn_secrets s"]
    by simp
  finally have secrets: "bt_remove (key_id i) (bt_remove (chain_id i) (bt_insert (key_id i) (up_key u) ?m)) = sn_secrets s" .
  have "filter (\<lambda>c. c_id c \<noteq> i) (certificates (sn_config s)) = certificates (sn_config s)"
    using assms(4) by (auto simp: filter_id_conv)
  with secrets show ?thesis using assms(4)
    by (simp add: remove_certificate_def install_def Let_def replace_or_push_fresh)
qed

section \<open>One line per certificate\<close>

lemma newlines_label: "CHR 0x0A \<notin> set (label_escape s)"
  by (induction s) (auto simp: label_escape_def label_char_def)

end
