(* ===== verification/Inspect.thy ===== *)
theory Inspect
  imports Renewal
begin

text \<open>
  \<open>inspect.rs\<close>: reading what an operator uploaded. Certificates \<open>'x\<close> and keys \<open>'k\<close> are OpenSSL's,
  and what is read from them is the record \<open>x509_lib\<close>: a name is a list of entries, each with
  the short name of its kind and its text where they can be read.
\<close>

record ('x, 'k) x509_lib =
  stack_from_pem :: "byte list \<Rightarrow> 'x list option"
  public_matches :: "'x \<Rightarrow> 'k \<Rightarrow> bool"
  key_from_pem_passphrase :: "byte list \<Rightarrow> byte list \<Rightarrow> 'k option"
  key_from_pem_plain :: "byte list \<Rightarrow> 'k option"
  key_to_pem :: "'k \<Rightarrow> byte list option"
  x509_to_pem :: "'x \<Rightarrow> byte list option"
  common_names :: "'x \<Rightarrow> string option list"
  alternative_names :: "'x \<Rightarrow> string option list option"
  since_epoch_before :: "'x \<Rightarrow> (int \<times> int) option"
  since_epoch_after :: "'x \<Rightarrow> (int \<times> int) option"
  issuer_entries :: "'x \<Rightarrow> (string option \<times> string option) list"
  subject_entries :: "'x \<Rightarrow> (string option \<times> string option) list"

definition MOST_CERTIFICATES :: nat where "MOST_CERTIFICATES = 16"

definition one_error :: "error_code \<Rightarrow> string \<Rightarrow> validation_error list" where
  "one_error code name = [new_report code (field root name)]"

definition read_chain :: "('x, 'k) x509_lib \<Rightarrow> byte list \<Rightarrow> ('x list, validation_error list) result" where
  "read_chain lib pem = (case stack_from_pem lib pem of
     None \<Rightarrow> Inl (one_error CertificateChainUnreadable ''chain'')
   | Some chain \<Rightarrow>
       if chain = [] then Inl (one_error CertificateChainEmpty ''chain'')
       else if length chain > MOST_CERTIFICATES then
         Inl [with_number ''limit'' (i64_of_len MOST_CERTIFICATES)
           (with_number ''certificate_count'' (i64_of_len (length chain))
             (new_report CertificateChainTooLong (field root ''chain'')))]
       else Inr chain)"

fun contains_text :: "string \<Rightarrow> string \<Rightarrow> bool" where
  "contains_text [] t \<longleftrightarrow> t = []"
| "contains_text (c # s) t \<longleftrightarrow> strip_prefix t (c # s) \<noteq> None \<or> contains_text s t"

definition encrypted :: "byte list \<Rightarrow> bool" where
  "encrypted pem = (let t = utf8_lossy (text_of pem) in
     contains_text t ''BEGIN ENCRYPTED PRIVATE KEY'' \<or> contains_text t ''Proc-Type: 4,ENCRYPTED'')"

definition read_key :: "('x, 'k) x509_lib \<Rightarrow> byte list \<Rightarrow> string option \<Rightarrow> ('k, validation_error list) result" where
  "read_key lib pem passphrase =
     (case (case passphrase of Some word \<Rightarrow> if word = [] then None else Some word | None \<Rightarrow> None) of
        Some word \<Rightarrow>
          (case key_from_pem_passphrase lib pem (as_bytes word) of
             Some key \<Rightarrow> Inr key
           | None \<Rightarrow>
               (case key_from_pem_plain lib pem of
                  Some key \<Rightarrow> Inr key
                | None \<Rightarrow> Inl (if encrypted pem then one_error CertificateKeyPassphraseWrong ''passphrase''
                    else one_error CertificateKeyUnreadable ''private_key'')))
      | None \<Rightarrow>
          (case key_from_pem_plain lib pem of
             Some key \<Rightarrow> Inr key
           | None \<Rightarrow> Inl (if encrypted pem then one_error CertificateKeyPassphraseRequired ''passphrase''
               else one_error CertificateKeyUnreadable ''private_key'')))"

fun keep_first :: "string list \<Rightarrow> string list \<Rightarrow> string list" where
  "keep_first seen [] = []"
| "keep_first seen (n # ns) = (if n \<in> set seen then keep_first seen ns else n # keep_first (seen @ [n]) ns)"

definition leaf_names :: "('x, 'k) x509_lib \<Rightarrow> 'x \<Rightarrow> string list" where
  "leaf_names lib leaf =
     keep_first [] (filter (\<lambda>n. n \<noteq> [])
       (List.map_filter id (common_names lib leaf) @
        (case alternative_names lib leaf of None \<Rightarrow> [] | Some ns \<Rightarrow> List.map_filter id ns)))"

definition unix_time :: "(int \<times> int) option \<Rightarrow> int option" where
  "unix_time = map_option (\<lambda>(days, seconds). days * 86400 + seconds)"

definition window :: "('x, 'k) x509_lib \<Rightarrow> 'x \<Rightarrow> (certificate_validity, validation_error list) result" where
  "window lib leaf =
     and_then (ok_or (one_error CertificateChainUnreadable ''chain'') (unix_time (since_epoch_before lib leaf))) (\<lambda>b.
     and_then (ok_or (one_error CertificateChainUnreadable ''chain'') (unix_time (since_epoch_after lib leaf))) (\<lambda>a.
     Inr \<lparr>not_before_unix = b, not_after_unix = a\<rparr>))"

definition name_text :: "(string option \<times> string option) list \<Rightarrow> string" where
  "name_text entries = join '','' (List.map_filter (\<lambda>(kind, v).
     map_option (\<lambda>v. (case kind of None \<Rightarrow> ''?'' | Some k \<Rightarrow> k) @ ''='' @ v) v) entries)"

definition issued_by :: "('x, 'k) x509_lib \<Rightarrow> 'x \<Rightarrow> 'x \<Rightarrow> bool" where
  "issued_by lib c issuer \<longleftrightarrow> name_text (issuer_entries lib c) = name_text (subject_entries lib issuer)"

fun incomplete :: "('x, 'k) x509_lib \<Rightarrow> 'x list \<Rightarrow> string option" where
  "incomplete lib [] = None"
| "incomplete lib [c] = (if issued_by lib c c then None else Some (name_text (issuer_entries lib c)))"
| "incomplete lib (c # d # cs) =
     (if \<not> issued_by lib c d then Some (name_text (issuer_entries lib c)) else incomplete lib (d # cs))"

fun written :: "('x, 'k) x509_lib \<Rightarrow> 'x list \<Rightarrow> (byte list, validation_error list) result" where
  "written lib [] = Inr []"
| "written lib (c # cs) =
     and_then (ok_or (one_error CertificateChainUnreadable ''chain'') (x509_to_pem lib c)) (\<lambda>one.
     and_then (written lib cs) (\<lambda>rest. Inr (one @ rest)))"

definition upload_warnings :: "('x, 'k) x509_lib \<Rightarrow> 'x list \<Rightarrow> certificate_validity \<Rightarrow> int \<Rightarrow> warning_code report list" where
  "upload_warnings lib chain validity now_unix =
     (if not_after_unix validity \<le> now_unix then
        [with_number ''not_after_unix'' (not_after_unix validity) (new_report CertificateExpired (field root ''chain''))]
      else []) @
     (case incomplete lib chain of None \<Rightarrow> []
      | Some missing \<Rightarrow> [with_id ''issuer'' missing (new_report CertificateChainIncomplete (field root ''chain''))])"

definition inspect_upload ::
  "('x, 'k) x509_lib \<Rightarrow> byte list \<Rightarrow> byte list \<Rightarrow> string option \<Rightarrow> int \<Rightarrow> (upload, validation_error list) result" where
  "inspect_upload lib chain_pem key_pem passphrase now_unix =
     and_then (read_chain lib chain_pem) (\<lambda>chain.
     and_then (read_key lib key_pem passphrase) (\<lambda>key.
     case chain of
       [] \<Rightarrow> Inl (one_error CertificateChainEmpty ''chain'')
     | leaf # _ \<Rightarrow>
         if \<not> public_matches lib leaf key then Inl (one_error CertificateKeyMismatch ''private_key'')
         else
         and_then (window lib leaf) (\<lambda>validity.
         and_then (written lib chain) (\<lambda>chain_pem.
         and_then (ok_or (one_error CertificateKeyUnreadable ''private_key'') (key_to_pem lib key)) (\<lambda>key_pem.
         Inr \<lparr>up_sni_names = leaf_names lib leaf, up_validity = validity, up_chain = chain_pem, up_key = key_pem,
           up_warnings = upload_warnings lib chain validity now_unix\<rparr>)))))"

section \<open>What an accepted upload is\<close>

text \<open>A chain that ends at a certificate that issued itself, every other issued by the next one.\<close>

definition complete_chain :: "('x, 'k) x509_lib \<Rightarrow> 'x list \<Rightarrow> bool" where
  "complete_chain lib chain \<longleftrightarrow> chain = [] \<or>
     (\<forall>i. Suc i < length chain \<longrightarrow> issued_by lib (chain ! i) (chain ! Suc i)) \<and> issued_by lib (last chain) (last chain)"

lemma incomplete_None: "incomplete lib chain = None \<longleftrightarrow> complete_chain lib chain"
proof (induction lib chain rule: incomplete.induct)
  case (3 lib c d cs)
  have "(\<forall>i. Suc i < length (c # d # cs) \<longrightarrow> issued_by lib ((c # d # cs) ! i) ((c # d # cs) ! Suc i)) \<longleftrightarrow>
      issued_by lib c d \<and> (\<forall>i. Suc i < length (d # cs) \<longrightarrow> issued_by lib ((d # cs) ! i) ((d # cs) ! Suc i))"
    by (auto simp: nth_Cons split: nat.splits)
  then show ?case using 3 by (auto simp: complete_chain_def)
qed (simp_all add: complete_chain_def)

lemma keep_first_distinct:
  "distinct (keep_first seen ns) \<and> set (keep_first seen ns) = set ns - set seen"
  by (induction seen ns rule: keep_first.induct) auto

end
