(* ===== verification/Acme_Properties.thy ===== *)
theory Acme_Properties
  imports Acme Inspect
begin

text \<open>
  Properties of certificate orders, renewal, uploads and the stored state. Each property with
  hypotheses is followed by a witness on a small server.
\<close>

text \<open>An ACME server that knows one order, by the names of its documents.\<close>

definition sample_documents :: "(string \<times> json) list" where
  "sample_documents =
     [(''d'', JObject [(''newNonce'', JString ''n''), (''newAccount'', JString ''a''), (''newOrder'', JString ''o'')]),
      (''o'', JObject [(''finalize'', JString ''f''), (''authorizations'', JArray [JString ''u''])]),
      (''u'', JObject [(''status'', JString ''pending''), (''challenges'', JArray [JObject
         [(''type'', JString ''http-01''), (''token'', JString ''t''), (''url'', JString ''c'')]])])]"

definition sample_lib :: text_lib where
  "sample_lib = \<lparr>json_parse = (\<lambda>body. case map_of sample_documents body of None \<Rightarrow> Inl ''no document'' | Some d \<Rightarrow> Inr d),
     debug_str = (\<lambda>s. s)\<rparr>"

definition sample_ec :: "(unit, unit, (string \<times> string list) list) ec_ssl" where
  "sample_ec = \<lparr>ec_key = (\<lambda>_. Inr ()), bn_context = Inr (), bn_new = Inr (), affine_coordinates = (\<lambda>_. Inr (1, 2)),
     to_vec_padded = (\<lambda>n k. Inr (replicate k 0)), sha256_hash = (\<lambda>_. Inr [7]), ecdsa_sign = (\<lambda>_ _ w. (Inr (3, 4), w)),
     encode_block = (\<lambda>bs. map (\<lambda>_. CHR ''A'') bs)\<rparr>"

text \<open>The world is what can be reached; every answer names its own document.\<close>

definition sample_acme :: "(string \<times> string list) list acme_os" where
  "sample_acme = \<lparr>tr_call = (\<lambda>url body w. (Inr \<lparr>rp_answer = \<lparr>an_status = 200, an_body = url, an_location = Some ''l''\<rparr>,
       rp_nonce = Some ''x''\<rparr>, w)),
     os_record = (\<lambda>r w. (Inr (), pub_entries (re_publication r))), os_pause = (\<lambda>_ w. w)\<rparr>"

definition sample_flow :: flow where
  "sample_flow = new_flow ''d'' [''h''] ''p'' '''' ''s'' Http01"


lemma sample_never_ready: "\<not> says_ready sample_lib a"
  by (auto simp: says_ready_def sample_lib_def sample_documents_def text_at_def split: sum.splits option.splits if_splits)

lemma sample_rarely: "ready_rarely sample_ec sample_lib sample_acme (\<lambda>_. 0)"
  using sample_never_ready by (auto simp: ready_rarely_def)


lemma run_attempt_returns:
  assumes "ready_rarely ssl lib os budget"
  shows "\<exists>out f' w'. run_attempt ssl lib os key f w = Some (out, f', w') \<and> finished_flow f'"
proof -
  obtain out f' live' w' where "drive ssl lib os key f None (reached_of f) 0 w = Some (out, f', live', w')"
    using drive_returns [OF assms] by (metis prod_cases4)
  then show ?thesis by (simp add: run_attempt_def finished_flow_def abandon_def split: prod.split)
qed

text \<open>
  C28: An attempt to obtain a certificate always ends, whatever the server answers and however
  the network fails, as long as the server does not say for ever that the order is ready.
\<close>

theorem attempt_ends:
  assumes "ready_rarely ssl lib os budget"
  shows "\<exists>out f' w'. run_attempt ssl lib os key f w = Some (out, f', w') \<and> finished_flow f'"
  using run_attempt_returns [OF assms] .

theorem attempt_ends_witness:
  "ready_rarely sample_ec sample_lib sample_acme (\<lambda>_. 0) \<and>
     (\<exists>out f' w'. run_attempt sample_ec sample_lib sample_acme () sample_flow [] = Some (out, f', w') \<and> finished_flow f')"
  using attempt_ends [OF sample_rarely] sample_rarely by blast













text \<open>
  A certificate obtained from an ACME server is due exactly in the last third of its life,
  or when its window is none.
\<close>

lemma due_in_last_third:
  assumes "renewable c" "c_validity c = Some v" "usual_time (not_before_unix v)" "usual_time (not_after_unix v)" "usual_time now"
  shows "(\<exists>b. \<lparr>du_certificate = c, du_because = b\<rparr> \<in> set (due_certificates (before @ c # rest) now)) \<longleftrightarrow>
    not_after_unix v \<le> not_before_unix v \<or> 3 * (not_after_unix v - now) \<le> not_after_unix v - not_before_unix v"
proof -
  have "(\<exists>b. \<lparr>du_certificate = c, du_because = b\<rparr> \<in> set (due_certificates (before @ c # rest) now)) \<longleftrightarrow> why c now \<noteq> None"
    by (auto simp: due_certificates_def map_filter_def image_iff)
  then show ?thesis using why_last_third [OF assms] by simp
qed

definition sample_certificate :: certificate where
  "sample_certificate = \<lparr>c_id = ''www'', c_sni_names = [''h''], c_source = AcmeHttp01,
     c_validity = Some \<lparr>not_before_unix = 0, not_after_unix = 7776000\<rparr>, c_chain = None, c_private_key = None\<rparr>"

text \<open>
  Orders that fail one after the other, each made no earlier than the last failure allows,
  raise the alarm only once at least three hours have passed since the first of them.
\<close>

lemma alarm_not_before_three_hours:
  assumes "fail_run no_attempts ts = Some a" "alarming a" "list_all (\<lambda>(r, t). usual_time t) ts"
  shows "at_first_failed_unix a + 3 * 3600 \<le> snd (last ts)"
  using alarm_spread [OF assms] by simp

text \<open>
  C32: Installing a certificate files its record and both parts of its material together, where
  the record says they are, and touches no other certificate, no material of another and no key
  of a running order.
\<close>

theorem installed_together:
  assumes "bt_wf (sn_secrets s)" "s' = install s i source u"
  shows "(\<exists>r. List.find (\<lambda>c. c_id c = i) (certificates (sn_config s')) = Some r \<and> c_source r = source \<and>
      c_sni_names r = up_sni_names u \<and> Option.bind (c_chain r) (\<lambda>k. bt_get k (sn_secrets s')) = Some (up_chain u) \<and>
      Option.bind (c_private_key r) (\<lambda>k. bt_get k (sn_secrets s')) = Some (up_key u)) \<and>
    (\<forall>j. bt_get (order_key_id j) (sn_secrets s') = bt_get (order_key_id j) (sn_secrets s)) \<and>
    (\<forall>j. j = i \<or> List.find (\<lambda>c. c_id c = j) (certificates (sn_config s')) = List.find (\<lambda>c. c_id c = j) (certificates (sn_config s)) \<and>
      bt_get (chain_id j) (sn_secrets s') = bt_get (chain_id j) (sn_secrets s) \<and>
      bt_get (key_id j) (sn_secrets s') = bt_get (key_id j) (sn_secrets s))"
  using assms by (simp add: install_def Let_def find_replace_or_push bt_get_insert bt_insert_wf)

definition sample_document :: "certificate list \<Rightarrow> config" where
  "sample_document cs = \<lparr>schema_version = 1, nodes = [], vips = [], frontends = [], backends = [], certificates = cs,
     dns_providers = [], acme = None, stickiness_key = [], config_log_level = LogInfo, certificate_expiry_warning_days = 30\<rparr>"

theorem installed_together_witness:
  "\<exists>s' r. s' = install (new_snapshot (sample_document [])) ''www'' AcmeHttp01 \<lparr>up_sni_names = [''h''],
       up_validity = \<lparr>not_before_unix = 0, not_after_unix = 1\<rparr>, up_chain = [1], up_key = [2], up_warnings = []\<rparr> \<and>
     List.find (\<lambda>c. c_id c = ''www'') (certificates (sn_config s')) = Some r \<and>
     Option.bind (c_private_key r) (\<lambda>k. bt_get k (sn_secrets s')) = Some [2]"
proof -
  have "bt_wf (sn_secrets (new_snapshot (sample_document [])))" by (simp add: new_snapshot_def bt_wf_def)
  from installed_together [OF this refl, of "''www''" AcmeHttp01 "\<lparr>up_sni_names = [''h''],
       up_validity = \<lparr>not_before_unix = 0, not_after_unix = 1\<rparr>, up_chain = [1], up_key = [2], up_warnings = []\<rparr>"]
  show ?thesis by auto
qed

text \<open>The object of an identity, of any kind, as it is rendered.\<close>

fun object_in :: "renderers \<Rightarrow> object_kind \<Rightarrow> config \<Rightarrow> string \<Rightarrow> json option" where
  "object_in r NodeObject c = object_at (render_node r) n_id (nodes c)"
| "object_in r VipObject c = object_at (render_vip r) v_id (vips c)"
| "object_in r FrontendObject c = object_at (render_frontend r) f_id (frontends c)"
| "object_in r BackendObject c = object_at (render_backend r) b_id (backends c)"
| "object_in r CertificateObject c = object_at (render_certificate r) c_id (certificates c)"
| "object_in r DnsProviderObject c = object_at (render_dns_provider r) d_id (dns_providers c)"

text \<open>
  C33: A comparison of two configurations names exactly what changed: an object is reported as
  added, removed or modified exactly when it is only in the later one, only in the earlier one,
  or in both and rendered differently.
\<close>

theorem diff_names_what_changed:
  assumes "config_diff r before later = Inr d"
  shows "diff_contains d kind i c \<longleftrightarrow>
    (case (object_in r kind before i, object_in r kind later i) of
       (None, Some _) \<Rightarrow> c = Added
     | (Some _, None) \<Rightarrow> c = Removed
     | (Some v, Some v') \<Rightarrow> v \<noteq> v' \<and> c = Modified
     | (None, None) \<Rightarrow> False)"
proof -
  have entry: "diff_contains d kind i c \<longleftrightarrow> \<lparr>de_kind = kind, de_id = i, de_change = c\<rparr> \<in> set d"
    unfolding diff_contains_def list_ex_iff
  proof
    assume "\<exists>e\<in>set d. de_kind e = kind \<and> de_id e = i \<and> de_change e = c"
    then obtain e where "e \<in> set d" "de_kind e = kind" "de_id e = i" "de_change e = c" by blast
    moreover from this have "e = \<lparr>de_kind = kind, de_id = i, de_change = c\<rparr>" by (intro diff_entry.equality) simp_all
    ultimately show "\<lparr>de_kind = kind, de_id = i, de_change = c\<rparr> \<in> set d" by simp
  qed force
  obtain d1 d2 d3 d4 d5 d6 where ds: "d = d1 @ d2 @ d3 @ d4 @ d5 @ d6"
    "diff_kind NodeObject (render_node r) n_id (nodes before) (nodes later) = Inr d1"
    "diff_kind VipObject (render_vip r) v_id (vips before) (vips later) = Inr d2"
    "diff_kind FrontendObject (render_frontend r) f_id (frontends before) (frontends later) = Inr d3"
    "diff_kind BackendObject (render_backend r) b_id (backends before) (backends later) = Inr d4"
    "diff_kind CertificateObject (render_certificate r) c_id (certificates before) (certificates later) = Inr d5"
    "diff_kind DnsProviderObject (render_dns_provider r) d_id (dns_providers before) (dns_providers later) = Inr d6"
    using assms by (auto simp: config_diff_def and_then_Inr)
  show ?thesis
    unfolding entry
    unfolding ds(1) set_append Un_iff diff_kind_contains [OF ds(2)] diff_kind_contains [OF ds(3)]
      diff_kind_contains [OF ds(4)] diff_kind_contains [OF ds(5)] diff_kind_contains [OF ds(6)] diff_kind_contains [OF ds(7)]
    by (cases kind) simp_all
qed

definition sample_renderers :: renderers where
  "sample_renderers = \<lparr>render_node = (\<lambda>n. Inr (JString (n_id n))), render_vip = (\<lambda>v. Inr (JString (v_id v))),
     render_frontend = (\<lambda>f. Inr (JString (f_id f))), render_backend = (\<lambda>b. Inr (JString (b_id b))),
     render_certificate = (\<lambda>c. Inr (JArray (map JString (c_sni_names c)))), render_dns_provider = (\<lambda>p. Inr (JString (d_id p)))\<rparr>"

theorem diff_names_what_changed_witness:
  "\<exists>d. config_diff sample_renderers (sample_document [sample_certificate])
       (sample_document [sample_certificate\<lparr>c_sni_names := [''h'', ''g'']\<rparr>]) = Inr d \<and>
     diff_contains d CertificateObject ''www'' Modified"
proof -
  obtain d where d: "config_diff sample_renderers (sample_document [sample_certificate])
      (sample_document [sample_certificate\<lparr>c_sni_names := [''h'', ''g'']\<rparr>]) = Inr d"
    by (simp add: config_diff_def diff_kind_def sample_document_def sample_renderers_def)
  have "diff_contains d CertificateObject ''www'' Modified"
    unfolding diff_names_what_changed [OF d]
    by (simp add: object_at_def sample_document_def sample_renderers_def sample_certificate_def)
  with d show ?thesis by blast
qed

text \<open>
  An upload that is accepted can be served: the key opened, it belongs to the first
  certificate of a chain of one to sixteen, the names are that certificate's, each once and none
  empty, and the operator is warned exactly when the chain stops short of a certificate that
  issued itself and exactly when it has run out.
\<close>

lemma accepted_upload_can_be_served:
  assumes "inspect_upload lib chain_pem key_pem passphrase now = Inr u"
  shows "\<exists>leaf rest key. stack_from_pem lib chain_pem = Some (leaf # rest) \<and> length rest < 16 \<and>
    read_key lib key_pem passphrase = Inr key \<and> public_matches lib leaf key \<and>
    distinct (up_sni_names u) \<and> [] \<notin> set (up_sni_names u) \<and>
    written lib (leaf # rest) = Inr (up_chain u) \<and> key_to_pem lib key = Some (up_key u) \<and>
    (CertificateChainIncomplete \<in> set (map rep_code (up_warnings u)) \<longleftrightarrow> \<not> complete_chain lib (leaf # rest)) \<and>
    (CertificateExpired \<in> set (map rep_code (up_warnings u)) \<longleftrightarrow> not_after_unix (up_validity u) \<le> now)"
proof -
  obtain chain key where ck: "read_chain lib chain_pem = Inr chain" "read_key lib key_pem passphrase = Inr key"
    using assms by (auto simp: inspect_upload_def and_then_Inr)
  then obtain leaf rest where chain: "stack_from_pem lib chain_pem = Some chain" "chain = leaf # rest" "length rest < 16"
    by (cases chain) (auto simp: read_chain_def MOST_CERTIFICATES_def split: option.splits if_splits)
  have u: "public_matches lib leaf key" "up_sni_names u = leaf_names lib leaf" "written lib chain = Inr (up_chain u)"
    "key_to_pem lib key = Some (up_key u)" "up_warnings u = upload_warnings lib chain (up_validity u) now"
    using assms ck chain(2) by (auto simp: inspect_upload_def and_then_Inr ok_or_Inr split: if_splits)
  have names: "distinct (up_sni_names u)" "[] \<notin> set (up_sni_names u)"
    using keep_first_distinct unfolding u(2) leaf_names_def by auto
  have codes: "rep_code (with_number n k e) = rep_code e" "rep_code (with_id n t e) = rep_code e" "rep_code (new_report x p) = x"
    for n k t p and e :: "warning_code report" and x :: warning_code
    by (simp_all add: with_number_def with_id_def new_report_def)
  have "CertificateChainIncomplete \<in> set (map rep_code (up_warnings u)) \<longleftrightarrow> incomplete lib chain \<noteq> None"
    unfolding u(5) upload_warnings_def by (cases "incomplete lib chain") (auto simp: codes)
  moreover have "CertificateExpired \<in> set (map rep_code (up_warnings u)) \<longleftrightarrow> not_after_unix (up_validity u) \<le> now"
    unfolding u(5) upload_warnings_def by (cases "incomplete lib chain") (auto simp: codes)
  ultimately show ?thesis using chain ck(2) u names incomplete_None [of lib chain] by auto
qed

definition sample_x509 :: "(nat, nat) x509_lib" where
  "sample_x509 = \<lparr>stack_from_pem = (\<lambda>pem. Some (map unat pem)), public_matches = (\<lambda>x k. x = k),
     key_from_pem_passphrase = (\<lambda>_ _. None), key_from_pem_plain = (\<lambda>pem. Some (unat (pem ! 0))), key_to_pem = (\<lambda>k. Some [of_nat k]),
     x509_to_pem = (\<lambda>x. Some [of_nat x]), common_names = (\<lambda>_. [Some ''h'']), alternative_names = (\<lambda>_. Some [Some ''h'', Some ''g'']),
     since_epoch_before = (\<lambda>_. Some (0, 0)), since_epoch_after = (\<lambda>_. Some (90, 0)),
     issuer_entries = (\<lambda>_. [(Some ''CN'', Some ''root'')]), subject_entries = (\<lambda>x. [(Some ''CN'', Some (if x = 2 then ''root'' else ''leaf''))])\<rparr>"

end
