(* ===== verification/Template.thy ===== *)
theory Template
  imports Validation
begin

text \<open>
  \<open>template.rs\<close> of the configuration crate: the templates that ship with the product, what
  each asks for, what applying one makes of a configuration, how that is undone, and how a
  frontend is saved as a template of the operator's own. The configuration and the list of
  created objects, both mutable references in the source, are threaded as a pair. A
  \<open>BTreeMap\<close> of arguments is its list of entries in key order; a \<open>BTreeSet\<close> is a set.
\<close>

section \<open>What a template is\<close>

datatype verification = Verified string | Unverified

fun verification_key :: "verification \<Rightarrow> string" where
  "verification_key (Verified _) = ''template.verification.verified''"
| "verification_key Unverified = ''template.verification.unverified''"

datatype parameter_kind = KindText | KindAddress | KindPort | KindNode | KindMembers

record parameter =
  p_name :: string
  p_label_key :: string
  p_kind :: parameter_kind

datatype argument =
    ArgText string
  | ArgAddress ip_addr
  | ArgPort u16
  | ArgNode string
  | ArgMembers "backend_member list"

fun argument_kind :: "argument \<Rightarrow> parameter_kind" where
  "argument_kind (ArgText _) = KindText"
| "argument_kind (ArgAddress _) = KindAddress"
| "argument_kind (ArgPort _) = KindPort"
| "argument_kind (ArgNode _) = KindNode"
| "argument_kind (ArgMembers _) = KindMembers"

type_synonym arguments = "(string \<times> argument) list"

definition no_arguments :: arguments where "no_arguments = []"

definition with_argument :: "arguments \<Rightarrow> string \<Rightarrow> argument \<Rightarrow> arguments" where
  "with_argument args name v = bt_insert name v args"

definition arg_text :: "arguments \<Rightarrow> string \<Rightarrow> string option" where
  "arg_text args name = (case bt_get name args of Some (ArgText v) \<Rightarrow> Some v | _ \<Rightarrow> None)"

definition arg_address :: "arguments \<Rightarrow> string \<Rightarrow> ip_addr option" where
  "arg_address args name = (case bt_get name args of Some (ArgAddress v) \<Rightarrow> Some v | _ \<Rightarrow> None)"

definition arg_port :: "arguments \<Rightarrow> string \<Rightarrow> u16 option" where
  "arg_port args name = (case bt_get name args of Some (ArgPort v) \<Rightarrow> Some v | _ \<Rightarrow> None)"

definition arg_node :: "arguments \<Rightarrow> string \<Rightarrow> string option" where
  "arg_node args name = (case bt_get name args of Some (ArgNode v) \<Rightarrow> Some v | _ \<Rightarrow> None)"

definition arg_members :: "arguments \<Rightarrow> string \<Rightarrow> backend_member list option" where
  "arg_members args name = (case bt_get name args of Some (ArgMembers v) \<Rightarrow> Some v | _ \<Rightarrow> None)"

datatype created_kind = MadeVip | MadeFrontend | MadeBackend | MadeCertificate

text \<open>One created object: its kind and its identity.\<close>

type_synonym created = "created_kind \<times> string"

record applied =
  ap_config :: config
  ap_created :: "created list"

record template =
  t_id :: string
  t_name_key :: string
  t_description_key :: string
  t_parameters :: "parameter list"
  t_verification :: verification

record user_template =
  u_id :: string
  u_name :: string
  u_frontend :: frontend
  u_backends :: "backend list"

section \<open>The templates that ship\<close>

definition make_parameter :: "string \<Rightarrow> parameter_kind \<Rightarrow> parameter" where
  "make_parameter name kind =
     \<lparr>p_name = name, p_label_key = ''template.parameter.'' @ name @ ''.label'', p_kind = kind\<rparr>"

definition make_template :: "string \<Rightarrow> parameter list \<Rightarrow> verification \<Rightarrow> template" where
  "make_template i parameters verification =
     \<lparr>t_id = i, t_name_key = ''template.'' @ i @ ''.name'',
      t_description_key = ''template.'' @ i @ ''.description'',
      t_parameters = parameters, t_verification = verification\<rparr>"

definition website_template :: template where
  "website_template = make_template ''website''
     [make_parameter ''name'' KindText,
      make_parameter ''domain'' KindText,
      make_parameter ''address'' KindAddress,
      make_parameter ''interface'' KindText,
      make_parameter ''node'' KindNode,
      make_parameter ''members'' KindMembers]
     (Verified ''nginx 1.24, Apache 2.4'')"

definition dns_template :: template where
  "dns_template = make_template ''dns''
     [make_parameter ''name'' KindText,
      make_parameter ''address'' KindAddress,
      make_parameter ''interface'' KindText,
      make_parameter ''node'' KindNode,
      make_parameter ''members'' KindMembers]
     (Verified ''BIND 9.18'')"

definition exchange_template :: template where
  "exchange_template = make_template ''exchange''
     [make_parameter ''name'' KindText,
      make_parameter ''domain'' KindText,
      make_parameter ''address'' KindAddress,
      make_parameter ''interface'' KindText,
      make_parameter ''node'' KindNode,
      make_parameter ''members'' KindMembers]
     Unverified"

definition smtp_relay_template :: template where
  "smtp_relay_template = make_template ''smtp_relay''
     [make_parameter ''name'' KindText,
      make_parameter ''address'' KindAddress,
      make_parameter ''interface'' KindText,
      make_parameter ''node'' KindNode,
      make_parameter ''members'' KindMembers]
     (Verified ''Postfix 3.7'')"

definition generic_tcp_template :: template where
  "generic_tcp_template = make_template ''generic_tcp''
     [make_parameter ''name'' KindText,
      make_parameter ''address'' KindAddress,
      make_parameter ''interface'' KindText,
      make_parameter ''node'' KindNode,
      make_parameter ''port'' KindPort,
      make_parameter ''members'' KindMembers]
     (Verified [])"

definition embedded :: "template list" where
  "embedded = [website_template, dns_template, exchange_template, smtp_relay_template, generic_tcp_template]"

definition embedded_by_id :: "string \<Rightarrow> template option" where
  "embedded_by_id i = find (\<lambda>t. t_id t = i) embedded"

section \<open>The arguments\<close>

definition parameter_report :: "error_code \<Rightarrow> string \<Rightarrow> validation_error" where
  "parameter_report code name =
     with_id ''parameter'' name (new_report code (field (field root ''parameters'') name))"

definition check_parameter :: "arguments \<Rightarrow> parameter \<Rightarrow> validation_error list" where
  "check_parameter args p =
     (case bt_get (p_name p) args of
        None \<Rightarrow> [parameter_report TemplateParameterMissing (p_name p)]
      | Some argument \<Rightarrow> if argument_kind argument \<noteq> p_kind p
          then [parameter_report TemplateParameterWrongKind (p_name p)] else [])"

definition check_arguments :: "template \<Rightarrow> arguments \<Rightarrow> (unit, validation_error list) result" where
  "check_arguments t args =
     (let declared = p_name ` set (t_parameters t);
          errors = concat (map (check_parameter args) (t_parameters t))
            @ concat (map (\<lambda>name. if name \<notin> declared
                then [parameter_report TemplateParameterUnknown name] else []) (map fst args))
      in if errors = [] then Inr () else Inl errors)"

record common =
  cm_name :: string
  cm_address :: ip_addr
  cm_interface :: string
  cm_node :: "string option"
  cm_members :: "backend_member list"

definition unwrap_or :: "'a option \<Rightarrow> 'a \<Rightarrow> 'a" where
  "unwrap_or x otherwise = (case x of None \<Rightarrow> otherwise | Some v \<Rightarrow> v)"

definition gather_common :: "arguments \<Rightarrow> common" where
  "gather_common args =
     \<lparr>cm_name = unwrap_or (arg_text args ''name'') ''service'',
      cm_address = unwrap_or (arg_address args ''address'') (V4 (Ipv4 0 0 0 0)),
      cm_interface = unwrap_or (arg_text args ''interface'') ''eth0'',
      cm_node = arg_node args ''node'',
      cm_members = unwrap_or (arg_members args ''members'') []\<rparr>"

section \<open>Adding objects\<close>

type_synonym building = "config \<times> created list"

definition is_ipv4 :: "ip_addr \<Rightarrow> bool" where
  "is_ipv4 a \<longleftrightarrow> (case a of V4 _ \<Rightarrow> True | V6 _ \<Rightarrow> False)"

definition add_vip :: "common \<Rightarrow> building \<Rightarrow> string \<times> building" where
  "add_vip values = (\<lambda>(c, created).
     let i = ''vip-'' @ cm_name values in
     (i, c\<lparr>vips := vips c @ [\<lparr>v_id = i, v_address = cm_address values,
            v_prefix_length = (if is_ipv4 (cm_address values) then 24 else 64),
            v_interface = cm_interface values, v_preferred_node = cm_node values\<rparr>]\<rparr>,
         created @ [(MadeVip, i)]))"

definition add_backend :: "string \<Rightarrow> backend_member list \<Rightarrow> lb_algorithm \<Rightarrow> health_check option
    \<Rightarrow> connection_pooling \<Rightarrow> building \<Rightarrow> string \<times> building" where
  "add_backend i members algorithm check pooling = (\<lambda>(c, created).
     (i, c\<lparr>backends := backends c @ [\<lparr>b_id = i, b_members = members, b_algorithm = algorithm,
            b_health_check = check, b_stickiness = StickinessDisabled, b_connection_pooling = pooling,
            b_connection_pool_size = default_pool_size,
            b_connection_lifetime_seconds = default_connection_lifetime_seconds\<rparr>]\<rparr>,
         created @ [(MadeBackend, i)]))"

definition add_frontend :: "frontend \<Rightarrow> building \<Rightarrow> building" where
  "add_frontend f = (\<lambda>(c, created).
     (c\<lparr>frontends := frontends c @ [f]\<rparr>, created @ [(MadeFrontend, f_id f)]))"

definition add_certificate :: "certificate \<Rightarrow> building \<Rightarrow> building" where
  "add_certificate k = (\<lambda>(c, created).
     (c\<lparr>certificates := certificates c @ [k]\<rparr>, created @ [(MadeCertificate, c_id k)]))"

definition members_on :: "backend_member list \<Rightarrow> string \<Rightarrow> u16 \<Rightarrow> backend_member list" where
  "members_on members ending port = map (\<lambda>m.
     \<lparr>bm_id = bm_id m @ ''-'' @ ending, bm_address = bm_address m, bm_port = port,
      bm_weight = bm_weight m, bm_admin_state = Enabled\<rparr>) members"

definition http_check :: "string \<Rightarrow> string option \<Rightarrow> health_check" where
  "http_check path host = \<lparr>hc_probe = HttpProbe path [200, 401] None host,
     hc_interval_ms = 5000, hc_timeout_ms = 3000, hc_healthy_threshold = 2, hc_unhealthy_threshold = 3\<rparr>"

definition banner_check :: "string \<Rightarrow> health_check" where
  "banner_check expected =
     \<lparr>hc_probe = SendExpect (PayloadText [CHR 13, CHR 10]) (PayloadText expected) Tcp,
      hc_interval_ms = 10000, hc_timeout_ms = 5000, hc_healthy_threshold = 2, hc_unhealthy_threshold = 3\<rparr>"

definition raw_frontend :: "string \<Rightarrow> string \<Rightarrow> u16 \<Rightarrow> string \<Rightarrow> proxy_protocol \<Rightarrow> frontend" where
  "raw_frontend i v port backend proxy =
     \<lparr>f_id = i, f_vip = v, f_port = port, f_transport = Tcp, f_application = Raw, f_tls = None,
      f_proxy_protocol = proxy, f_access_log = default_access_log, f_routing_rules = [], f_sni_rules = [],
      f_default_backend = Some backend, f_http2 = Http2Enabled, f_connect_timeout_seconds = 5,
      f_request_timeout_seconds = 0, f_idle_timeout_seconds = 0, f_drain_timeout_seconds = 30,
      f_udp_session_limit = 0\<rparr>"

section \<open>The five builders\<close>

definition website_https :: "string \<Rightarrow> string \<Rightarrow> string \<Rightarrow> string \<Rightarrow> frontend" where
  "website_https name v certificate backend =
     \<lparr>f_id = name @ ''-https'', f_vip = v, f_port = 443, f_transport = Tcp, f_application = Http,
      f_tls = Some \<lparr>tls_certificates = [certificate], tls_default_certificate = None, tls_policy = Balanced\<rparr>,
      f_proxy_protocol = ProxyDisabled, f_access_log = default_access_log, f_routing_rules = [],
      f_sni_rules = [], f_default_backend = Some backend, f_http2 = Http2Enabled,
      f_connect_timeout_seconds = 5, f_request_timeout_seconds = 60, f_idle_timeout_seconds = 0,
      f_drain_timeout_seconds = 30, f_udp_session_limit = 0\<rparr>"

definition website_http :: "string \<Rightarrow> string \<Rightarrow> frontend" where
  "website_http name v =
     \<lparr>f_id = name @ ''-http'', f_vip = v, f_port = 80, f_transport = Tcp, f_application = Http,
      f_tls = None, f_proxy_protocol = ProxyDisabled, f_access_log = default_access_log,
      f_routing_rules = [\<lparr>rule_host_pattern = None, rule_path_prefix = None, rule_path_case = Insensitive,
        rule_action = Redirect Permanent, rule_request_timeout_seconds = None\<rparr>],
      f_sni_rules = [], f_default_backend = None, f_http2 = Http2Enabled,
      f_connect_timeout_seconds = 5, f_request_timeout_seconds = 60, f_idle_timeout_seconds = 0,
      f_drain_timeout_seconds = 10, f_udp_session_limit = 0\<rparr>"

definition build_website :: "arguments \<Rightarrow> common \<Rightarrow> string \<Rightarrow> building \<Rightarrow> building" where
  "build_website args values v st =
     (let domain = unwrap_or (arg_text args ''domain'') (cm_name values);
          certificate = ''cert-'' @ cm_name values;
          st = add_certificate \<lparr>c_id = certificate, c_sni_names = [domain], c_source = AcmeHttp01,
                 c_validity = None, c_chain = None, c_private_key = None\<rparr> st;
          (backend, st) = add_backend (''pool-'' @ cm_name values) (cm_members values) RoundRobin
                 (Some (http_check ''/'' (Some domain))) PoolingEnabled st;
          st = add_frontend (website_https (cm_name values) v certificate backend) st
      in add_frontend (website_http (cm_name values) v) st)"

definition dns_frontend :: "string \<Rightarrow> string \<Rightarrow> string \<Rightarrow> string \<Rightarrow> transport_protocol \<Rightarrow> frontend" where
  "dns_frontend name v backend ending transport =
     \<lparr>f_id = name @ ''-'' @ ending, f_vip = v, f_port = 53, f_transport = transport, f_application = Raw,
      f_tls = None, f_proxy_protocol = ProxyDisabled, f_access_log = default_access_log,
      f_routing_rules = [], f_sni_rules = [], f_default_backend = Some backend, f_http2 = Http2Enabled,
      f_connect_timeout_seconds = 5, f_request_timeout_seconds = 0, f_idle_timeout_seconds = 0,
      f_drain_timeout_seconds = 10, f_udp_session_limit = 0\<rparr>"

definition build_dns :: "common \<Rightarrow> string \<Rightarrow> building \<Rightarrow> building" where
  "build_dns values v st =
     (let check = \<lparr>hc_probe = DnsQuery ''.'' DnsSoa, hc_interval_ms = 5000, hc_timeout_ms = 2000,
                   hc_healthy_threshold = 2, hc_unhealthy_threshold = 3\<rparr>;
          (backend, st) = add_backend (''pool-'' @ cm_name values)
                 (members_on (cm_members values) ''dns'' 53) ConsistentHash (Some check) PoolingEnabled st
      in fold (\<lambda>(ending, transport). add_frontend (dns_frontend (cm_name values) v backend ending transport))
           [(''udp'', Udp), (''tcp'', Tcp)] st)"

definition exchange_rule :: "string \<Rightarrow> string \<Rightarrow> u32 \<Rightarrow> routing_rule" where
  "exchange_rule path backend timeout =
     \<lparr>rule_host_pattern = None, rule_path_prefix = Some path, rule_path_case = Insensitive,
      rule_action = Proxy backend, rule_request_timeout_seconds = Some timeout\<rparr>"

definition exchange_https :: "string \<Rightarrow> string \<Rightarrow> routing_rule list \<Rightarrow> string \<Rightarrow> frontend" where
  "exchange_https name v rules owa =
     \<lparr>f_id = name @ ''-https'', f_vip = v, f_port = 443, f_transport = Tcp, f_application = Http,
      f_tls = Some \<lparr>tls_certificates = [], tls_default_certificate = None, tls_policy = Balanced\<rparr>,
      f_proxy_protocol = ProxyDisabled, f_access_log = default_access_log, f_routing_rules = rules,
      f_sni_rules = [], f_default_backend = Some owa, f_http2 = Http2Enabled,
      f_connect_timeout_seconds = 5, f_request_timeout_seconds = 60, f_idle_timeout_seconds = 0,
      f_drain_timeout_seconds = 60, f_udp_session_limit = 0\<rparr>"

definition build_exchange :: "arguments \<Rightarrow> common \<Rightarrow> string \<Rightarrow> building \<Rightarrow> building" where
  "build_exchange args values v st =
     (let domain = unwrap_or (arg_text args ''domain'') (cm_name values);
          (owa, st) = add_backend (''pool-'' @ cm_name values @ ''-owa'')
             (members_on (cm_members values) ''owa'' 443) RoundRobin
             (Some (http_check ''/owa/healthcheck.htm'' (Some domain))) PoolingEnabled st;
          (activesync, st) = add_backend (''pool-'' @ cm_name values @ ''-activesync'')
             (members_on (cm_members values) ''activesync'' 443) RoundRobin
             (Some (http_check ''/Microsoft-Server-ActiveSync/healthcheck.htm'' (Some domain))) PoolingEnabled st;
          (ews, st) = add_backend (''pool-'' @ cm_name values @ ''-ews'')
             (members_on (cm_members values) ''ews'' 443) RoundRobin
             (Some (http_check ''/ews/healthcheck.htm'' (Some domain))) PoolingEnabled st;
          (mapi, st) = add_backend (''pool-'' @ cm_name values @ ''-mapi'')
             (members_on (cm_members values) ''mapi'' 443) RoundRobin
             (Some (http_check ''/mapi/healthcheck.htm'' (Some domain))) PoolingDisabled st;
          rules = [exchange_rule ''/Microsoft-Server-ActiveSync'' activesync 3600,
                   exchange_rule ''/mapi'' mapi 3600,
                   exchange_rule ''/ews'' ews 600,
                   exchange_rule ''/owa'' owa 600];
          st = add_frontend (exchange_https (cm_name values) v rules owa) st;
          (smtp, st) = add_backend (''pool-'' @ cm_name values @ ''-smtp'')
             (members_on (cm_members values) ''smtp'' 25) RoundRobin (Some (banner_check ''220'')) PoolingEnabled st;
          st = add_frontend (raw_frontend (cm_name values @ ''-smtp'') v 25 smtp ProxyV2) st;
          (imap, st) = add_backend (''pool-'' @ cm_name values @ ''-imap'')
             (members_on (cm_members values) ''imap'' 143) RoundRobin (Some (banner_check ''* OK'')) PoolingEnabled st
      in add_frontend (raw_frontend (cm_name values @ ''-imap'') v 143 imap ProxyV2) st)"

definition build_smtp_relay :: "common \<Rightarrow> string \<Rightarrow> building \<Rightarrow> building" where
  "build_smtp_relay values v st =
     (let (backend, st) = add_backend (''pool-'' @ cm_name values)
             (members_on (cm_members values) ''smtp'' 25) RoundRobin (Some (banner_check ''220'')) PoolingEnabled st
      in add_frontend (raw_frontend (cm_name values @ ''-smtp'') v 25 backend ProxyV2) st)"

definition build_generic_tcp :: "arguments \<Rightarrow> common \<Rightarrow> string \<Rightarrow> building \<Rightarrow> building" where
  "build_generic_tcp args values v st =
     (let port = unwrap_or (arg_port args ''port'') 80;
          (backend, st) = add_backend (''pool-'' @ cm_name values) (cm_members values) RoundRobin
             (Some \<lparr>hc_probe = TcpConnect, hc_interval_ms = 5000, hc_timeout_ms = 2000,
                    hc_healthy_threshold = 2, hc_unhealthy_threshold = 3\<rparr>) PoolingEnabled st
      in add_frontend (raw_frontend (cm_name values @ ''-tcp'') v port backend ProxyDisabled) st)"

definition build_template :: "template \<Rightarrow> arguments \<Rightarrow> building \<Rightarrow> building" where
  "build_template t args st =
     (let values = gather_common args;
          (v, st) = add_vip values st
      in if t_id t = ''website'' then build_website args values v st
         else if t_id t = ''dns'' then build_dns values v st
         else if t_id t = ''exchange'' then build_exchange args values v st
         else if t_id t = ''smtp_relay'' then build_smtp_relay values v st
         else build_generic_tcp args values v st)"

section \<open>Applying, undoing and saving\<close>

definition apply_template :: "template \<Rightarrow> config \<Rightarrow> arguments \<Rightarrow> (applied, validation_error list) result" where
  "apply_template t c args =
     (case check_arguments t args of
        Inl errors \<Rightarrow> Inl errors
      | Inr _ \<Rightarrow>
          (let (after, created) = build_template t args (c, []) in
           case validate after of
             Inl errors \<Rightarrow> Inl errors
           | Inr _ \<Rightarrow> Inr \<lparr>ap_config = after, ap_created = created\<rparr>))"

definition undo :: "config \<Rightarrow> created list \<Rightarrow> config" where
  "undo c created =
     (let gone = set created in
      c\<lparr>vips := filter (\<lambda>v. (MadeVip, v_id v) \<notin> gone) (vips c),
        frontends := filter (\<lambda>f. (MadeFrontend, f_id f) \<notin> gone) (frontends c),
        backends := filter (\<lambda>b. (MadeBackend, b_id b) \<notin> gone) (backends c),
        certificates := filter (\<lambda>k. (MadeCertificate, c_id k) \<notin> gone) (certificates c)\<rparr>)"

definition strip_certificates :: "frontend \<Rightarrow> frontend" where
  "strip_certificates f = f\<lparr>f_tls := map_option (\<lambda>tls. tls\<lparr>tls_certificates := []\<rparr>) (f_tls f)\<rparr>"

definition wanted_backends :: "frontend \<Rightarrow> string set" where
  "wanted_backends f = set (
     (case f_default_backend f of None \<Rightarrow> [] | Some b \<Rightarrow> [b])
     @ List.map_filter (\<lambda>rule. case rule_action rule of Proxy b \<Rightarrow> Some b | Redirect _ \<Rightarrow> None) (f_routing_rules f)
     @ map sni_backend (f_sni_rules f))"

definition from_frontend :: "config \<Rightarrow> string \<Rightarrow> string \<Rightarrow> (user_template, validation_error list) result" where
  "from_frontend c frontend name =
     (case find (\<lambda>candidate. f_id candidate = frontend) (frontends c) of
        None \<Rightarrow> Inl [with_id ''frontend'' frontend (new_report FrontendUnknownBackend (field root ''frontends''))]
      | Some found \<Rightarrow>
          (let stripped = strip_certificates found;
               wanted = wanted_backends stripped
           in Inr \<lparr>u_id = ''user-'' @ frontend, u_name = name, u_frontend = stripped,
                   u_backends = filter (\<lambda>b. b_id b \<in> wanted) (backends c)\<rparr>))"

section \<open>What building leaves behind\<close>

text \<open>A configuration with objects appended to four of its lists.\<close>

definition adding :: "config \<Rightarrow> vip list \<Rightarrow> frontend list \<Rightarrow> backend list \<Rightarrow> certificate list \<Rightarrow> config" where
  "adding c vs fs bs ks = c\<lparr>vips := vips c @ vs, frontends := frontends c @ fs,
     backends := backends c @ bs, certificates := certificates c @ ks\<rparr>"

definition names_made :: "vip list \<Rightarrow> frontend list \<Rightarrow> backend list \<Rightarrow> certificate list \<Rightarrow> created set" where
  "names_made vs fs bs ks = Pair MadeVip ` v_id ` set vs \<union> Pair MadeFrontend ` f_id ` set fs
     \<union> Pair MadeBackend ` b_id ` set bs \<union> Pair MadeCertificate ` c_id ` set ks"

text \<open>Everything appended is on the list of created objects, and nothing else is.\<close>

definition traced :: "config \<Rightarrow> building \<Rightarrow> bool" where
  "traced c st \<longleftrightarrow> (\<exists>vs fs bs ks. fst st = adding c vs fs bs ks \<and> set (snd st) = names_made vs fs bs ks)"

lemma tracedI: "c' = adding c vs fs bs ks \<Longrightarrow> set cr = names_made vs fs bs ks \<Longrightarrow> traced c (c', cr)"
  unfolding traced_def by auto

lemma traced_start: "traced c (c, [])"
  by (rule tracedI [of _ _ "[]" "[]" "[]" "[]"]) (simp_all add: adding_def names_made_def)

lemma traced_more:
  assumes "traced c st" "set new = names_made vs fs bs ks"
  shows "traced c (adding (fst st) vs fs bs ks, snd st @ new)"
proof -
  obtain vs' fs' bs' ks' where "fst st = adding c vs' fs' bs' ks'" "set (snd st) = names_made vs' fs' bs' ks'"
    using assms(1) unfolding traced_def by blast
  then show ?thesis
    using assms(2) by (intro tracedI [of _ _ "vs' @ vs" "fs' @ fs" "bs' @ bs" "ks' @ ks"])
      (auto simp: adding_def names_made_def image_Un)
qed

lemma traced_vip: "traced c st \<Longrightarrow> traced c (snd (add_vip values st))"
  using traced_more [of c st "[(MadeVip, ''vip-'' @ cm_name values)]" "[last (vips (fst (snd (add_vip values st))))]" "[]" "[]" "[]"]
  by (cases st) (simp add: add_vip_def Let_def adding_def names_made_def)

lemma traced_frontend: "traced c st \<Longrightarrow> traced c (add_frontend f st)"
  using traced_more [of c st "[(MadeFrontend, f_id f)]" "[]" "[f]" "[]" "[]"]
  by (cases st) (simp add: add_frontend_def adding_def names_made_def)

lemma traced_backend: "traced c st \<Longrightarrow> traced c (snd (add_backend i ms alg check pooling st))"
  using traced_more [of c st "[(MadeBackend, i)]" "[]" "[]"
      "[last (backends (fst (snd (add_backend i ms alg check pooling st))))]" "[]"]
  by (cases st) (simp add: add_backend_def adding_def names_made_def)

lemma traced_certificate: "traced c st \<Longrightarrow> traced c (add_certificate k st)"
  using traced_more [of c st "[(MadeCertificate, c_id k)]" "[]" "[]" "[]" "[k]"]
  by (cases st) (simp add: add_certificate_def adding_def names_made_def)

lemmas traced_steps = traced_vip traced_frontend traced_backend traced_certificate

lemma traced_build: "traced c st \<Longrightarrow> traced c (build_template t args st)"
  by (auto simp: build_template_def build_website_def build_dns_def build_exchange_def build_smtp_relay_def
      build_generic_tcp_def Let_def split_beta intro!: traced_steps)

lemma filter_appended:
  assumes "distinct (map g (xs @ ys))"
  shows "filter (\<lambda>x. g x \<notin> g ` set ys) (xs @ ys) = xs"
proof -
  have "filter (\<lambda>x. g x \<notin> g ` set ys) xs = xs" using assms by (intro filter_True) auto
  moreover have "filter (\<lambda>x. g x \<notin> g ` set ys) ys = []" by (simp add: filter_empty_conv)
  ultimately show ?thesis by simp
qed

lemma undo_adding:
  assumes "ids_distinct (adding c vs fs bs ks)" "set cr = names_made vs fs bs ks"
  shows "undo (adding c vs fs bs ks) cr = c"
proof -
  have "(MadeVip, i) \<in> set cr \<longleftrightarrow> i \<in> v_id ` set vs" "(MadeFrontend, i) \<in> set cr \<longleftrightarrow> i \<in> f_id ` set fs"
      "(MadeBackend, i) \<in> set cr \<longleftrightarrow> i \<in> b_id ` set bs" "(MadeCertificate, i) \<in> set cr \<longleftrightarrow> i \<in> c_id ` set ks" for i
    using assms(2) by (auto simp: names_made_def)
  moreover have "distinct (map v_id (vips c @ vs))" "distinct (map f_id (frontends c @ fs))"
      "distinct (map b_id (backends c @ bs))" "distinct (map c_id (certificates c @ ks))"
    using assms(1) by (simp_all add: ids_distinct_def adding_def)
  ultimately show ?thesis
    by (simp only: undo_def Let_def adding_def) (simp add: filter_appended del: filter_append)
qed

section \<open>The arguments a template takes\<close>

lemma check_arguments_ok:
  "check_arguments t args = Inr () \<longleftrightarrow>
     (\<forall>p \<in> set (t_parameters t). \<exists>a. bt_get (p_name p) args = Some a \<and> argument_kind a = p_kind p)
     \<and> fst ` set args \<subseteq> p_name ` set (t_parameters t)"
proof -
  have "check_parameter args p = [] \<longleftrightarrow> (\<exists>a. bt_get (p_name p) args = Some a \<and> argument_kind a = p_kind p)" for p
    by (auto simp: check_parameter_def split: option.split)
  then show ?thesis by (simp add: check_arguments_def Let_def subset_iff split: if_split) blast
qed

lemma apply_template_ok:
  "apply_template t c args = Inr a \<longleftrightarrow> check_arguments t args = Inr () \<and>
     build_template t args (c, []) = (ap_config a, ap_created a) \<and> validate (ap_config a) = Inr ()"
  by (cases a) (auto simp: apply_template_def split: sum.split prod.split)

section \<open>When the result is accepted\<close>

definition present :: "config \<Rightarrow> created set" where
  "present c = names_made (vips c) (frontends c) (backends c) (certificates c)"

text \<open>
  What every builder appends: frontends that stand on the new address and send to the new
  pools, pools without cookies, certificates that need no provider.
\<close>

definition self_contained :: "vip \<Rightarrow> frontend list \<Rightarrow> backend list \<Rightarrow> certificate list \<Rightarrow> bool" where
  "self_contained v fs bs ks \<longleftrightarrow>
     (\<forall>f \<in> set fs. f_vip f = v_id v \<and> pools_of f \<subseteq> b_id ` set bs \<and> (f_port f \<noteq> 0 \<longrightarrow> shape_ok f)
        \<and> (\<forall>tls. f_tls f = Some tls \<longrightarrow> set (tls_certificates tls) \<subseteq> c_id ` set ks \<and> tls_default_certificate tls = None))
     \<and> (\<forall>b \<in> set bs. b_stickiness b = StickinessDisabled \<and>
          (\<forall>check. b_health_check b = Some check \<longrightarrow> hc_timeout_ms check \<le> hc_interval_ms check))
     \<and> (\<forall>k \<in> set ks. c_source k = AcmeHttp01)
     \<and> distinct (map f_id fs) \<and> distinct (map b_id bs) \<and> distinct (map c_id ks) \<and> distinct (map binding fs)"

definition room_for :: "config \<Rightarrow> vip \<Rightarrow> frontend list \<Rightarrow> backend list \<Rightarrow> certificate list \<Rightarrow> bool" where
  "room_for c v fs bs ks \<longleftrightarrow> names_made [v] fs bs ks \<inter> present c = {} \<and> length (vips c) < 255
     \<and> set_option (v_preferred_node v) \<subseteq> n_id ` set (nodes c) \<and> (\<forall>f \<in> set fs. f_port f \<noteq> 0)
     \<and> (\<forall>b \<in> set bs. b_members b \<noteq> [] \<and> distinct (map bm_id (b_members b)) \<and> (\<forall>m \<in> set (b_members b). bm_port m \<noteq> 0))"

lemma in_names_made:
  "(kind, i) \<in> names_made vs fs bs ks \<longleftrightarrow> (case kind of MadeVip \<Rightarrow> i \<in> v_id ` set vs
     | MadeFrontend \<Rightarrow> i \<in> f_id ` set fs | MadeBackend \<Rightarrow> i \<in> b_id ` set bs | MadeCertificate \<Rightarrow> i \<in> c_id ` set ks)"
  by (cases kind) (auto simp: names_made_def)

lemma fresh_iff:
  "names_made [v] fs bs ks \<inter> present c = {} \<longleftrightarrow> v_id v \<notin> v_id ` set (vips c)
     \<and> f_id ` set fs \<inter> f_id ` set (frontends c) = {} \<and> b_id ` set bs \<inter> b_id ` set (backends c) = {}
     \<and> c_id ` set ks \<inter> c_id ` set (certificates c) = {}"
proof -
  have "(\<forall>k. P k) \<longleftrightarrow> P MadeVip \<and> P MadeFrontend \<and> P MadeBackend \<and> P MadeCertificate" for P
    by (metis created_kind.exhaust)
  then show ?thesis
    unfolding disjoint_iff split_paired_All present_def in_names_made by (simp add: disjoint_iff)
qed

lemma adding_needs_room:
  assumes "config_ok (adding c [v] fs bs ks)"
  shows "room_for c v fs bs ks"
proof -
  let ?new = "adding c [v] fs bs ks"
  have "ids_distinct ?new" using assms by (simp add: config_ok_def)
  then have ids: "names_made [v] fs bs ks \<inter> present c = {}" "\<forall>b \<in> set bs. distinct (map bm_id (b_members b))"
    unfolding fresh_iff ids_distinct_def adding_def by (auto simp: Int_commute)
  have "\<forall>b \<in> set bs. pool_ok ?new b" "\<forall>f \<in> set fs. shape_ok f"
    using assms unfolding config_ok_def by (simp_all add: adding_def ball_Un)
  then have "\<forall>b \<in> set bs. b_members b \<noteq> [] \<and> (\<forall>m \<in> set (b_members b). bm_port m \<noteq> 0)" "\<forall>f \<in> set fs. f_port f \<noteq> 0"
    unfolding pool_ok_def shape_ok_def by blast+
  moreover have "length (vips c) < 255" "set_option (v_preferred_node v) \<subseteq> n_id ` set (nodes c)"
    using assms by (simp_all add: config_ok_def adding_def)
  ultimately show ?thesis using ids unfolding room_for_def by blast
qed

lemma adding_references:
  assumes "config_ok c" "self_contained v fs bs ks" "f \<in> set (frontends c @ fs)"
  shows "references_ok (adding c [v] fs bs ks) f \<and> (f_port f \<noteq> 0 \<longrightarrow> shape_ok f)"
proof (cases "f \<in> set fs")
  case True
  then have "f_vip f = v_id v" "pools_of f \<subseteq> b_id ` set bs" "f_port f \<noteq> 0 \<longrightarrow> shape_ok f"
      "\<forall>tls. f_tls f = Some tls \<longrightarrow> set (tls_certificates tls) \<subseteq> c_id ` set ks \<and> tls_default_certificate tls = None"
    using assms(2) unfolding self_contained_def by blast+
  then show ?thesis by (simp add: references_ok_def adding_def image_Un le_supI2)
next
  case False
  then have "references_ok c f \<and> shape_ok f" using assms(1,3) by (simp add: config_ok_def)
  then show ?thesis by (simp add: references_ok_def adding_def image_Un le_supI1)
qed

lemma adding_bindings:
  assumes "config_ok c" "self_contained v fs bs ks" "room_for c v fs bs ks"
  shows "distinct (map binding (frontends c @ fs))"
proof -
  have "f_vip f \<noteq> f_vip g" if "f \<in> set (frontends c)" "g \<in> set fs" for f g
    using assms that unfolding config_ok_def references_ok_def self_contained_def room_for_def fresh_iff by metis
  then have "binding ` set (frontends c) \<inter> binding ` set fs = {}" by (auto simp: binding_def)
  then show ?thesis using assms by (simp add: config_ok_def self_contained_def)
qed

lemma adding_pools:
  assumes "config_ok c" "self_contained v fs bs ks" "room_for c v fs bs ks" "b \<in> set (backends c @ bs)"
  shows "pool_ok (adding c [v] fs bs ks) b"
proof (cases "b \<in> set (backends c)")
  case True
  then have "b_id b \<notin> b_id ` set bs" using assms(3) unfolding room_for_def fresh_iff by blast
  then have "b_id b \<notin> pools_of f" if "f \<in> set fs" for f
    using assms(2) that unfolding self_contained_def by blast
  moreover have "pool_ok c b" using True assms(1) by (simp add: config_ok_def)
  ultimately show ?thesis unfolding pool_ok_def adding_def by (auto simp: ball_Un)
next
  case False
  then have "b \<in> set bs" using assms(4) by simp
  then show ?thesis using assms(2,3) unfolding self_contained_def room_for_def pool_ok_def by simp
qed

lemma adding_ok:
  assumes "config_ok c" "self_contained v fs bs ks"
  shows "config_ok (adding c [v] fs bs ks) \<longleftrightarrow> room_for c v fs bs ks"
proof
  assume room: "room_for c v fs bs ks"
  let ?new = "adding c [v] fs bs ks"
  have "ids_distinct ?new"
    using assms room unfolding config_ok_def ids_distinct_def self_contained_def room_for_def fresh_iff adding_def
    by (auto simp: ball_Un)
  moreover have "distinct (map binding (frontends ?new))"
    using adding_bindings [OF assms room] by (simp add: adding_def)
  moreover have "references_ok ?new f \<and> shape_ok f" if "f \<in> set (frontends ?new)" for f
  proof -
    have "f_port f \<noteq> 0" using that room assms(1)
      by (auto simp: adding_def room_for_def config_ok_def shape_ok_def)
    then show ?thesis using adding_references [OF assms] that by (simp add: adding_def)
  qed
  moreover have "pool_ok ?new b" if "b \<in> set (backends ?new)" for b
    using adding_pools [OF assms room] that by (simp add: adding_def)
  moreover have "length (vips ?new) \<le> 255"
      "\<forall>v \<in> set (vips ?new). set_option (v_preferred_node v) \<subseteq> n_id ` set (nodes ?new)"
      "\<forall>k \<in> set (certificates ?new). \<forall>d. c_source k = AcmeDns01 d \<longrightarrow> d \<in> d_id ` set (dns_providers ?new)"
      "\<forall>d \<in> set (dns_providers ?new). provider_ok d"
    using assms room by (auto simp: adding_def room_for_def config_ok_def self_contained_def)
  ultimately show "config_ok ?new" unfolding config_ok_def by blast
qed (rule adding_needs_room)

section \<open>What the shipped templates make\<close>

text \<open>The objects a template creates, in the order it creates them, by its identity and the name it was given.\<close>

definition makes :: "string \<Rightarrow> string \<Rightarrow> created list" where
  "makes i n = (MadeVip, ''vip-'' @ n) #
     (if i = ''website'' then [(MadeCertificate, ''cert-'' @ n), (MadeBackend, ''pool-'' @ n),
          (MadeFrontend, n @ ''-https''), (MadeFrontend, n @ ''-http'')]
      else if i = ''dns'' then [(MadeBackend, ''pool-'' @ n), (MadeFrontend, n @ ''-udp''), (MadeFrontend, n @ ''-tcp'')]
      else if i = ''exchange'' then [(MadeBackend, ''pool-'' @ n @ ''-owa''), (MadeBackend, ''pool-'' @ n @ ''-activesync''),
          (MadeBackend, ''pool-'' @ n @ ''-ews''), (MadeBackend, ''pool-'' @ n @ ''-mapi''), (MadeFrontend, n @ ''-https''),
          (MadeBackend, ''pool-'' @ n @ ''-smtp''), (MadeFrontend, n @ ''-smtp''),
          (MadeBackend, ''pool-'' @ n @ ''-imap''), (MadeFrontend, n @ ''-imap'')]
      else if i = ''smtp_relay'' then [(MadeBackend, ''pool-'' @ n), (MadeFrontend, n @ ''-smtp'')]
      else [(MadeBackend, ''pool-'' @ n), (MadeFrontend, n @ ''-tcp'')])"

text \<open>Two of the templates send to the members as they were given, the others move them to a port of their own.\<close>

definition keeps_ports :: "string \<Rightarrow> bool" where
  "keeps_ports i \<longleftrightarrow> i \<notin> {''dns'', ''exchange'', ''smtp_relay''}"

definition members_fine :: "string \<Rightarrow> backend_member list \<Rightarrow> bool" where
  "members_fine i ms \<longleftrightarrow> ms \<noteq> [] \<and> distinct (map bm_id ms) \<and> (keeps_ports i \<longrightarrow> (\<forall>m \<in> set ms. bm_port m \<noteq> 0))"

definition pool_fine :: "backend \<Rightarrow> bool" where
  "pool_fine b \<longleftrightarrow> b_members b \<noteq> [] \<and> distinct (map bm_id (b_members b)) \<and> (\<forall>m \<in> set (b_members b). bm_port m \<noteq> 0)"

lemma members_on_fine:
  "port \<noteq> 0 \<Longrightarrow> members_on ms ending port \<noteq> [] \<and> distinct (map bm_id (members_on ms ending port))
     \<and> (\<forall>m \<in> set (members_on ms ending port). bm_port m \<noteq> 0) \<longleftrightarrow> ms \<noteq> [] \<and> distinct (map bm_id ms)"
  by (auto simp: members_on_def distinct_map comp_def inj_on_def)

definition parts :: "string \<Rightarrow> common \<Rightarrow> bool \<Rightarrow> vip \<Rightarrow> config \<Rightarrow> building \<Rightarrow> bool" where
  "parts i values port_fine v c st \<longleftrightarrow> (\<exists>fs bs ks.
     st = (adding c [v] fs bs ks, makes i (cm_name values)) \<and> self_contained v fs bs ks
     \<and> names_made [v] fs bs ks = set (makes i (cm_name values))
     \<and> ((\<forall>f \<in> set fs. f_port f \<noteq> 0) \<longleftrightarrow> port_fine)
     \<and> ((\<forall>b \<in> set bs. pool_fine b) \<longleftrightarrow> members_fine i (cm_members values)))"

lemma partsI:
  "cr = makes i (cm_name values) \<Longrightarrow> self_contained v fs bs ks \<Longrightarrow>
   names_made [v] fs bs ks = set (makes i (cm_name values)) \<Longrightarrow>
   (\<forall>f \<in> set fs. f_port f \<noteq> 0) \<longleftrightarrow> port_fine \<Longrightarrow>
   (\<forall>b \<in> set bs. pool_fine b) \<longleftrightarrow> members_fine i (cm_members values) \<Longrightarrow>
   parts i values port_fine v c (adding c [v] fs bs ks, cr)"
  unfolding parts_def by blast

definition new_vip :: "common \<Rightarrow> vip" where
  "new_vip values = \<lparr>v_id = ''vip-'' @ cm_name values, v_address = cm_address values,
     v_prefix_length = (if is_ipv4 (cm_address values) then 24 else 64),
     v_interface = cm_interface values, v_preferred_node = cm_node values\<rparr>"

definition new_pool :: "string \<Rightarrow> backend_member list \<Rightarrow> lb_algorithm \<Rightarrow> health_check option
    \<Rightarrow> connection_pooling \<Rightarrow> backend" where
  "new_pool i members algorithm check pooling = \<lparr>b_id = i, b_members = members, b_algorithm = algorithm,
     b_health_check = check, b_stickiness = StickinessDisabled, b_connection_pooling = pooling,
     b_connection_pool_size = default_pool_size,
     b_connection_lifetime_seconds = default_connection_lifetime_seconds\<rparr>"

lemma add_vip_adding:
  "add_vip values (c, cr) =
     (''vip-'' @ cm_name values, adding c [new_vip values] [] [] [], cr @ [(MadeVip, ''vip-'' @ cm_name values)])"
  by (simp add: add_vip_def Let_def adding_def new_vip_def)

lemma add_backend_adding:
  "add_backend i ms alg check pooling (adding c vs fs bs ks, cr) =
     (i, adding c vs fs (bs @ [new_pool i ms alg check pooling]) ks, cr @ [(MadeBackend, i)])"
  by (simp add: add_backend_def adding_def new_pool_def)

lemma add_frontend_adding:
  "add_frontend f (adding c vs fs bs ks, cr) = (adding c vs (fs @ [f]) bs ks, cr @ [(MadeFrontend, f_id f)])"
  by (simp add: add_frontend_def adding_def)

lemma add_certificate_adding:
  "add_certificate k (adding c vs fs bs ks, cr) = (adding c vs fs bs (ks @ [k]), cr @ [(MadeCertificate, c_id k)])"
  by (simp add: add_certificate_def adding_def)

lemmas building_simps = add_backend_adding add_frontend_adding add_certificate_adding Let_def prod.case append.simps

lemmas new_frontends = raw_frontend_def website_https_def website_http_def dns_frontend_def exchange_https_def
  exchange_rule_def

lemmas new_object_simps = self_contained_def pools_of_def shape_ok_def binding_def default_access_log_def
  http_check_def banner_check_def names_made_def pool_fine_def members_fine_def keeps_ports_def
  new_vip_def new_pool_def makes_def new_frontends

lemma website_parts:
  "parts ''website'' values True (new_vip values) c (build_website args values (''vip-'' @ cm_name values)
     (adding c [new_vip values] [] [] [], [(MadeVip, ''vip-'' @ cm_name values)]))"
  unfolding build_website_def building_simps by (rule partsI) (auto simp: new_object_simps)

lemma dns_parts:
  "parts ''dns'' values True (new_vip values) c (build_dns values (''vip-'' @ cm_name values)
     (adding c [new_vip values] [] [] [], [(MadeVip, ''vip-'' @ cm_name values)]))"
  unfolding build_dns_def building_simps fold.simps comp_def id_def
  by (rule partsI) (auto simp: new_object_simps members_on_fine)

lemma smtp_relay_parts:
  "parts ''smtp_relay'' values True (new_vip values) c (build_smtp_relay values (''vip-'' @ cm_name values)
     (adding c [new_vip values] [] [] [], [(MadeVip, ''vip-'' @ cm_name values)]))"
  unfolding build_smtp_relay_def building_simps by (rule partsI) (auto simp: new_object_simps members_on_fine)

lemma exchange_parts:
  "parts ''exchange'' values True (new_vip values) c (build_exchange args values (''vip-'' @ cm_name values)
     (adding c [new_vip values] [] [] [], [(MadeVip, ''vip-'' @ cm_name values)]))"
  unfolding build_exchange_def building_simps by (rule partsI) (auto simp: new_object_simps members_on_fine)

lemma generic_tcp_parts:
  "i \<notin> {''website'', ''dns'', ''exchange'', ''smtp_relay''} \<Longrightarrow>
   parts i values (unwrap_or (arg_port args ''port'') 80 \<noteq> 0) (new_vip values) c
     (build_generic_tcp args values (''vip-'' @ cm_name values)
       (adding c [new_vip values] [] [] [], [(MadeVip, ''vip-'' @ cm_name values)]))"
  unfolding build_generic_tcp_def building_simps by (rule partsI) (auto simp: new_object_simps)

definition port_fine :: "string \<Rightarrow> arguments \<Rightarrow> bool" where
  "port_fine i args \<longleftrightarrow> i \<in> {''website'', ''dns'', ''exchange'', ''smtp_relay''} \<or> unwrap_or (arg_port args ''port'') 80 \<noteq> 0"

lemma build_parts:
  "parts (t_id t) (gather_common args) (port_fine (t_id t) args) (new_vip (gather_common args)) c (build_template t args (c, []))"
proof -
  let ?v = "gather_common args"
  consider "t_id t = ''website''" | "t_id t = ''dns''" | "t_id t = ''exchange''" | "t_id t = ''smtp_relay''"
    | "t_id t \<notin> {''website'', ''dns'', ''exchange'', ''smtp_relay''}" by blast
  then show ?thesis
    by cases (simp_all add: build_template_def Let_def add_vip_adding port_fine_def website_parts [simplified] dns_parts [simplified]
        exchange_parts [simplified] smtp_relay_parts [simplified] generic_tcp_parts [simplified])
qed

lemma apply_template_iff:
  assumes "validate c = Inr ()" "check_arguments t args = Inr ()"
  shows "(\<exists>a. apply_template t c args = Inr a) \<longleftrightarrow>
    set (makes (t_id t) (cm_name (gather_common args))) \<inter> present c = {} \<and> length (vips c) < 255
    \<and> set_option (cm_node (gather_common args)) \<subseteq> n_id ` set (nodes c)
    \<and> port_fine (t_id t) args \<and> members_fine (t_id t) (cm_members (gather_common args))"
proof -
  let ?v = "new_vip (gather_common args)" and ?made = "makes (t_id t) (cm_name (gather_common args))"
  obtain fs bs ks where built: "build_template t args (c, []) = (adding c [?v] fs bs ks, ?made)"
      and new: "self_contained ?v fs bs ks" "names_made [?v] fs bs ks = set ?made"
        "(\<forall>f \<in> set fs. f_port f \<noteq> 0) \<longleftrightarrow> port_fine (t_id t) args"
        "(\<forall>b \<in> set bs. pool_fine b) \<longleftrightarrow> members_fine (t_id t) (cm_members (gather_common args))"
    using build_parts [of t args c] unfolding parts_def by blast
  have "(\<exists>a. apply_template t c args = Inr a) \<longleftrightarrow> config_ok (adding c [?v] fs bs ks)"
    unfolding apply_template_ok built using assms(2)
    by (auto simp: validate_ok intro: exI [of _ "\<lparr>ap_config = adding c [?v] fs bs ks, ap_created = ?made\<rparr>"])
  also have "\<dots> \<longleftrightarrow> room_for c ?v fs bs ks"
    using adding_ok new(1) assms(1) by (simp add: validate_ok)
  finally show ?thesis
    using new(2-4) by (simp add: room_for_def pool_fine_def new_vip_def)
qed

lemma apply_template_created:
  "apply_template t c args = Inr a \<Longrightarrow> ap_created a = makes (t_id t) (cm_name (gather_common args))"
  using build_parts [of t args c] by (auto simp: apply_template_ok parts_def)

lemma apply_template_undone:
  assumes "apply_template t c args = Inr a"
  shows "undo (ap_config a) (ap_created a) = c"
proof -
  have "traced c (ap_config a, ap_created a)"
    using assms traced_build [OF traced_start, of c t args] by (simp add: apply_template_ok)
  then obtain vs fs bs ks where "ap_config a = adding c vs fs bs ks" "set (ap_created a) = names_made vs fs bs ks"
    unfolding traced_def by auto
  moreover have "ids_distinct (ap_config a)" using assms by (simp add: apply_template_ok validate_ok config_ok_def)
  ultimately show ?thesis using undo_adding by metis
qed

section \<open>Saved templates\<close>

lemma wanted_backends_pools: "wanted_backends f = pools_of f"
  by (auto simp: wanted_backends_def pools_of_def List.map_filter_def image_iff
      split: option.splits rule_action.splits)

lemma strip_keeps [simp]:
  "pools_of (strip_certificates f) = pools_of f" "f_id (strip_certificates f) = f_id f"
  by (simp_all add: strip_certificates_def pools_of_def)

lemma from_frontend_ok:
  assumes "from_frontend c i name = Inr u"
  obtains f where "f \<in> set (frontends c)" "f_id f = i" "u_frontend u = strip_certificates f"
    "u_backends u = filter (\<lambda>b. b_id b \<in> pools_of f) (backends c)"
proof -
  from assms obtain f where "find (\<lambda>f. f_id f = i) (frontends c) = Some f"
    by (auto simp: from_frontend_def split: option.splits)
  moreover from this have "f \<in> set (frontends c)" "f_id f = i" by (auto simp: find_Some_iff)
  ultimately show ?thesis
    using assms by (intro that [of f]) (auto simp: from_frontend_def Let_def wanted_backends_pools)
qed

text \<open>
  Stripping clears the list of certificates and keeps the default one, which then is not on
  the list: a frontend saved with a default certificate names it still, and no configuration
  that holds the saved frontend is accepted.
\<close>

lemma saved_default_certificate_refused:
  assumes "from_frontend c i name = Inr u" "distinct (map f_id (frontends c))" "f \<in> set (frontends c)" "f_id f = i"
    "f_tls f = Some tls" "tls_default_certificate tls = Some k"
  shows "offers (u_frontend u) k \<and> (u_frontend u \<in> set (frontends c') \<longrightarrow> validate c' \<noteq> Inr ())"
proof -
  obtain g where g: "g \<in> set (frontends c)" "f_id g = i" "u_frontend u = strip_certificates g"
    using assms(1) by (rule from_frontend_ok)
  then have "g = f" using assms(2-4) by (metis distinct_map inj_onD)
  then have stripped: "f_tls (u_frontend u) = Some (tls\<lparr>tls_certificates := []\<rparr>)"
    using g(3) assms(5) by (simp add: strip_certificates_def)
  then have "\<not> references_ok c' (u_frontend u)" using assms(6) by (simp add: references_ok_def)
  then show ?thesis using stripped assms(6) by (auto simp: offers_def validate_ok config_ok_def)
qed

end
