(* ===== verification/Template_Properties.thy ===== *)
theory Template_Properties
  imports Template Config_Properties
begin

text \<open>
  The properties of the templates: applying one succeeds exactly when the configuration has
  room for what it makes, and what it made can be taken out again without a trace.
\<close>

definition sample_members :: "backend_member list" where
  "sample_members = [\<lparr>bm_id = ''a'', bm_address = V4 (Ipv4 10 1 0 1), bm_port = 8080, bm_weight = 1, bm_admin_state = Enabled\<rparr>]"

definition sample_arguments :: arguments where
  "sample_arguments = [(''address'', ArgAddress (V4 (Ipv4 10 0 0 20))), (''interface'', ArgText ''eth0''),
     (''members'', ArgMembers sample_members), (''name'', ArgText ''mail''), (''node'', ArgNode ''n1'')]"

lemma sample_arguments_fit: "check_arguments smtp_relay_template sample_arguments = Inr ()"
  by (simp add: check_arguments_ok sample_arguments_def smtp_relay_template_def make_template_def make_parameter_def bt_get_def)

lemma sample_gathered:
  "gather_common sample_arguments = \<lparr>cm_name = ''mail'', cm_address = V4 (Ipv4 10 0 0 20), cm_interface = ''eth0'',
     cm_node = Some ''n1'', cm_members = sample_members\<rparr>"
  by (simp add: gather_common_def sample_arguments_def arg_text_def arg_address_def arg_node_def arg_members_def
      bt_get_def unwrap_or_def)

lemma sample_room:
  "set (makes (t_id smtp_relay_template) ''mail'') \<inter> present sample_config = {} \<and> length (vips sample_config) < 255
   \<and> ''n1'' \<in> n_id ` set (nodes sample_config) \<and> port_fine (t_id smtp_relay_template) sample_arguments
   \<and> members_fine (t_id smtp_relay_template) sample_members"
  by (simp add: makes_def present_def names_made_def sample_config_def port_fine_def members_fine_def keeps_ports_def
      smtp_relay_template_def make_template_def sample_members_def)



text \<open>
  C27: What applying a template returns is an accepted configuration, and undoing the objects
  it lists as created gives back exactly the configuration it started from: nothing it
  added is missing from the list, and nothing on the list was there before.
\<close>

theorem applied_template_undone:
  assumes "apply_template t c args = Inr a"
  shows "validate (ap_config a) = Inr () \<and> undo (ap_config a) (ap_created a) = c \<and>
    ap_created a = makes (t_id t) (cm_name (gather_common args))"
  using assms apply_template_undone [OF assms] apply_template_created [OF assms] by (simp add: apply_template_ok)

theorem applied_template_undone_witness:
  "\<exists>a. apply_template smtp_relay_template sample_config sample_arguments = Inr a \<and>
     undo (ap_config a) (ap_created a) = sample_config"
proof -
  have "\<exists>a. apply_template smtp_relay_template sample_config sample_arguments = Inr a"
    unfolding apply_template_iff [OF sample_valid sample_arguments_fit] sample_gathered
    using sample_room by simp
  then show ?thesis using applied_template_undone by blast
qed

end
