(* ===== verification/Sqlite.thy ===== *)
theory Sqlite
  imports Store
begin

text \<open>
  \<open>sqlite.rs\<close> and \<open>crypto.rs\<close> of the store crate. The database is a record of tables, each the
  rows in the order of their primary key; a statement is what it does to the tables. SQLite
  itself may refuse any statement: what it does to the next ones is a list the session carries,
  consumed one statement, or one row read, at a time. A transaction that does not commit leaves
  the tables as they were. The cipher, the serialisation library, the random source and the
  clock are parameters, and so is what the file system answers when the store is opened.
\<close>

section \<open>Tables\<close>

record state_row =
  st_schema_version :: int
  st_document :: string
  st_updated_at :: int

record version_row =
  vw_recorded_at :: int
  vw_author :: string
  vw_description :: string
  vw_schema_version :: int
  vw_restored_from :: "int option"
  vw_document :: string

record sealed =
  sl_nonce :: "byte list"
  sl_ciphertext :: "byte list"

record order_row =
  ow_names :: string
  ow_challenge :: string
  ow_order_url :: "string option"
  ow_key_id :: string
  ow_answers :: string
  ow_driven_by :: "string option"
  ow_started_at :: int

text \<open>
  The tables of \<open>SCHEMA\<close>. A table whose identity is checked to be 1 has one row at most. The two
  that count their own rows remember the largest identity they ever held.
\<close>

record tables =
  tb_config_state :: "state_row option"
  tb_config_version :: "(int \<times> version_row) list"
  tb_version_seq :: int
  tb_secret :: "(string \<times> sealed) list"
  tb_join_token :: "(string \<times> join_record) list"
  tb_removed_node :: "(string \<times> unit) list"
  tb_acme_order :: "(string \<times> order_row) list"
  tb_cluster_identity :: "string option"
  tb_audit_log :: "(int \<times> audit_record) list"
  tb_audit_seq :: int
  tb_raft_log :: "(int \<times> string) list"
  tb_raft_marker :: "(string \<times> string) list"
  tb_raft_snapshot :: "(string \<times> byte list) option"

definition empty_tables :: tables where
  "empty_tables = \<lparr>tb_config_state = None, tb_config_version = [], tb_version_seq = 0, tb_secret = [],
     tb_join_token = [], tb_removed_node = [], tb_acme_order = [], tb_cluster_identity = None, tb_audit_log = [],
     tb_audit_seq = 0, tb_raft_log = [], tb_raft_marker = [], tb_raft_snapshot = None\<rparr>"

record store_session =
  db :: tables
  faults :: "string option list"
  poisoned :: bool
  backups :: "(string \<times> tables) list"

text \<open>What the store holds beside its connection, and the libraries it calls.\<close>

record store_env =
  ev_key :: "byte list"
  ev_target :: schema_version
  ev_encrypt :: "byte list \<Rightarrow> byte list \<Rightarrow> byte list \<Rightarrow> byte list \<Rightarrow> (byte list, string) result"
  ev_decrypt :: "byte list \<Rightarrow> byte list \<Rightarrow> byte list \<Rightarrow> byte list \<Rightarrow> (byte list, string) result"
  ev_config_to_string :: "config \<Rightarrow> (string, string) result"
  ev_config_from_str :: "string \<Rightarrow> (config, string) result"
  ev_names_to_string :: "string list \<Rightarrow> (string, string) result"
  ev_names_from_str :: "string \<Rightarrow> (string list, string) result"
  ev_answers_to_string :: "(string \<times> string) list \<Rightarrow> (string, string) result"
  ev_answers_from_str :: "string \<Rightarrow> ((string \<times> string) list, string) result"
  ev_json_to_string :: "json \<Rightarrow> (string, string) result"
  ev_json_from_str :: "string \<Rightarrow> (json, string) result"

section \<open>Statements\<close>

definition storage :: "string \<Rightarrow> string \<Rightarrow> store_error" where
  "storage what e = new_store_error Storage (what @ '': '' @ e)"

definition serialisation :: "string \<Rightarrow> string \<Rightarrow> store_error" where
  "serialisation what e = new_store_error Serialisation (what @ '': '' @ e)"

definition fault :: "string \<Rightarrow> store_session \<Rightarrow> (unit, store_error) result \<times> store_session" where
  "fault what s = (case faults s of
     Some e # rest \<Rightarrow> (Inl (storage what e), s\<lparr>faults := rest\<rparr>)
   | None # rest \<Rightarrow> (Inr (), s\<lparr>faults := rest\<rparr>)
   | [] \<Rightarrow> (Inr (), s))"

definition statement ::
  "string \<Rightarrow> (tables \<Rightarrow> ('a \<times> tables, string) result) \<Rightarrow> store_session \<Rightarrow> ('a, store_error) result \<times> store_session" where
  "statement what f s = run_then (fault what s) (\<lambda>_ s. case f (db s) of
     Inl e \<Rightarrow> (Inl (storage what e), s)
   | Inr (a, t) \<Rightarrow> (Inr a, s\<lparr>db := t\<rparr>))"

text \<open>A statement that yields nothing and breaks no constraint, and one that only looks.\<close>

definition execute :: "string \<Rightarrow> (tables \<Rightarrow> tables) \<Rightarrow> store_session \<Rightarrow> (unit, store_error) result \<times> store_session" where
  "execute what f = statement what (\<lambda>t. Inr ((), f t))"

definition query_row :: "string \<Rightarrow> (tables \<Rightarrow> 'a) \<Rightarrow> store_session \<Rightarrow> ('a, store_error) result \<times> store_session" where
  "query_row what f = statement what (\<lambda>t. Inr (f t, t))"

fun row_loop :: "string \<Rightarrow> ('r \<Rightarrow> 'b \<Rightarrow> ('b, store_error) result) \<Rightarrow> 'r list \<Rightarrow> 'b \<Rightarrow> store_session
    \<Rightarrow> ('b, store_error) result \<times> store_session" where
  "row_loop what f [] acc s = (Inr acc, s)"
| "row_loop what f (r # rs) acc s = run_then (fault what s) (\<lambda>_ s. case f r acc of
     Inl e \<Rightarrow> (Inl e, s)
   | Inr acc \<Rightarrow> row_loop what f rs acc s)"

text \<open>A query prepared, run, and read row by row.\<close>

definition select_rows :: "string \<Rightarrow> string \<Rightarrow> string \<Rightarrow> (tables \<Rightarrow> 'r list)
    \<Rightarrow> ('r \<Rightarrow> 'b \<Rightarrow> ('b, store_error) result) \<Rightarrow> 'b \<Rightarrow> store_session \<Rightarrow> ('b, store_error) result \<times> store_session" where
  "select_rows prepared queried row from_table f acc s =
     run_then (fault prepared s) (\<lambda>_ s.
     run_then (fault queried s) (\<lambda>_ s.
     row_loop row f (from_table (db s)) acc s))"

fun each :: "('a \<Rightarrow> store_session \<Rightarrow> (unit, store_error) result \<times> store_session) \<Rightarrow> 'a list \<Rightarrow> store_session
    \<Rightarrow> (unit, store_error) result \<times> store_session" where
  "each f [] s = (Inr (), s)"
| "each f (x # xs) s = run_then (f x s) (\<lambda>_ s. each f xs s)"

definition transaction :: "string \<Rightarrow> (store_session \<Rightarrow> ('a, store_error) result \<times> store_session) \<Rightarrow> store_session
    \<Rightarrow> ('a, store_error) result \<times> store_session" where
  "transaction committed body s =
     run_then (fault ''a transaction could not be started'' s) (\<lambda>_ s0.
       (case run_then (body s0) (\<lambda>a s. run_then (fault committed s) (\<lambda>_ s. (Inr a, s))) of
          (Inl e, s1) \<Rightarrow> (Inl e, s1\<lparr>db := db s0\<rparr>)
        | (Inr a, s1) \<Rightarrow> (Inr a, s1)))"

definition connection :: "(store_session \<Rightarrow> ('a, store_error) result \<times> store_session) \<Rightarrow> store_session
    \<Rightarrow> ('a, store_error) result \<times> store_session" where
  "connection body s =
     (if poisoned s then (Inl (new_store_error Storage (''the store lock was poisoned by an earlier panic: ''
         @ ''poisoned lock: another task failed inside'')), s)
      else body s)"

text \<open>A pure step that may fail, and an answer of a library carried with its own words.\<close>

definition pure_step :: "('a, store_error) result \<Rightarrow> ('a \<Rightarrow> store_session \<Rightarrow> ('b, store_error) result \<times> store_session)
    \<Rightarrow> store_session \<Rightarrow> ('b, store_error) result \<times> store_session" where
  "pure_step r f s = (case r of Inl e \<Rightarrow> (Inl e, s) | Inr a \<Rightarrow> f a s)"

definition or_error :: "(string \<Rightarrow> store_error) \<Rightarrow> ('a, string) result \<Rightarrow> ('a, store_error) result" where
  "or_error g r = (case r of Inl e \<Rightarrow> Inl (g e) | Inr a \<Rightarrow> Inr a)"

text \<open>\<open>INSERT\<close> under a primary key, and the same where a conflict updates the row.\<close>

definition insert_row :: "string \<Rightarrow> 'k::linorder \<Rightarrow> 'v \<Rightarrow> ('k \<times> 'v) list \<Rightarrow> (('k \<times> 'v) list, string) result" where
  "insert_row key k v m =
     (if bt_get k m = None then Inr (bt_insert k v m) else Inl (''UNIQUE constraint failed: '' @ key))"

section \<open>Sealing\<close>

definition NONCE_LENGTH :: nat where "NONCE_LENGTH = 24"

definition seal :: "store_env \<Rightarrow> (byte list, string) result \<Rightarrow> byte list \<Rightarrow> byte list \<Rightarrow> (sealed, store_error) result" where
  "seal env random associated plaintext =
     and_then (or_error (\<lambda>e. new_store_error Decryption
         (''the operating system refused to provide randomness: '' @ e)) random) (\<lambda>nonce.
     and_then (or_error (\<lambda>e. new_store_error Decryption (''sealing failed: '' @ e))
         (ev_encrypt env (ev_key env) nonce associated plaintext)) (\<lambda>ciphertext.
     Inr \<lparr>sl_nonce = nonce, sl_ciphertext = ciphertext\<rparr>))"

definition open_sealed :: "store_env \<Rightarrow> byte list \<Rightarrow> sealed \<Rightarrow> (byte list, store_error) result" where
  "open_sealed env associated record =
     (if length (sl_nonce record) \<noteq> NONCE_LENGTH
      then Inl (new_store_error Decryption (''a nonce of '' @ decimal (length (sl_nonce record))
        @ '' bytes cannot be used, '' @ decimal NONCE_LENGTH @ '' are required''))
      else or_error (\<lambda>e. new_store_error Decryption (''a stored record did not open: '' @ e))
        (ev_decrypt env (ev_key env) (sl_nonce record) associated (sl_ciphertext record)))"

text \<open>The random source is asked once for every secret that is sealed.\<close>

fun seal_all :: "store_env \<Rightarrow> (string \<Rightarrow> (byte list, string) result) \<Rightarrow> (string \<times> byte list) list
    \<Rightarrow> ((string \<times> sealed) list, store_error) result" where
  "seal_all env random [] = Inr []"
| "seal_all env random ((i, secret) # rest) =
     and_then (seal env (random i) (as_bytes i) secret) (\<lambda>record.
     and_then (seal_all env random rest) (\<lambda>sealed.
     Inr ((i, record) # sealed)))"

section \<open>Reading the state\<close>

definition read_secret_row :: "store_env \<Rightarrow> string \<times> sealed \<Rightarrow> (string \<times> byte list) list
    \<Rightarrow> ((string \<times> byte list) list, store_error) result" where
  "read_secret_row env row held =
     and_then (open_sealed env (as_bytes (fst row)) (snd row)) (\<lambda>plaintext. Inr (bt_insert (fst row) plaintext held))"

definition read_joins :: "store_session \<Rightarrow> ((string \<times> join_record) list, store_error) result \<times> store_session" where
  "read_joins = select_rows ''the join tokens could not be prepared'' ''the join tokens could not be read''
     ''a join token could not be read'' tb_join_token (\<lambda>row held. Inr (bt_insert (fst row) (snd row) held)) []"

definition read_removed :: "store_session \<Rightarrow> (string set, store_error) result \<times> store_session" where
  "read_removed = select_rows ''the removed nodes could not be prepared'' ''the removed nodes could not be read''
     ''a removed node could not be read'' tb_removed_node (\<lambda>row held. Inr (insert (fst row) held)) {}"

definition order_of_row :: "store_env \<Rightarrow> string \<times> order_row \<Rightarrow> (order_record, store_error) result" where
  "order_of_row env row =
     (let certificate = fst row; held = snd row in
      and_then (ok_or (new_store_error Serialisation (certificate
          @ '' names a challenge this build does not know: '' @ ow_challenge held))
          (order_challenge_from_key (ow_challenge held))) (\<lambda>challenge.
      and_then (or_error (serialisation (''the names of '' @ certificate @ '' could not be read''))
          (ev_names_from_str env (ow_names held))) (\<lambda>names.
      and_then (or_error (serialisation (''the challenge answers of '' @ certificate @ '' could not be read''))
          (ev_answers_from_str env (ow_answers held))) (\<lambda>answers.
      Inr \<lparr>or_names = names, or_challenge = challenge, or_order_url = ow_order_url held, or_key = ow_key_id held,
           or_answers = answers, or_driven_by = ow_driven_by held, or_started_at_unix = ow_started_at held\<rparr>))))"

definition read_orders :: "store_env \<Rightarrow> store_session \<Rightarrow> ((string \<times> order_record) list, store_error) result \<times> store_session" where
  "read_orders env = select_rows ''the running orders could not be prepared'' ''the running orders could not be read''
     ''a running order could not be read'' tb_acme_order
     (\<lambda>row held. and_then (order_of_row env row) (\<lambda>record. Inr (bt_insert (fst row) record held))) []"

definition read_store :: "store_env \<Rightarrow> store_session \<Rightarrow> (snapshot option, store_error) result \<times> store_session" where
  "read_store env = connection (\<lambda>s.
     run_then (query_row ''the stored config could not be read''
       (\<lambda>t. map_option st_document (tb_config_state t)) s) (\<lambda>document s.
     case document of
       None \<Rightarrow> (Inr None, s)
     | Some document \<Rightarrow>
         pure_step (or_error (serialisation ''the stored config could not be read back'')
             (ev_config_from_str env document)) (\<lambda>config s.
         run_then (select_rows ''the secret query could not be prepared'' ''the stored secrets could not be read''
             ''a stored secret could not be read'' tb_secret (read_secret_row env) [] s) (\<lambda>secrets s.
         run_then (query_row ''the cluster identity could not be read'' tb_cluster_identity s) (\<lambda>authority s.
         run_then (read_joins s) (\<lambda>joins s.
         run_then (read_removed s) (\<lambda>removed s.
         run_then (read_orders env s) (\<lambda>orders s.
         (Inr (Some \<lparr>sn_config = config, sn_secrets = secrets, sn_cluster = authority, sn_joins = joins,
                     sn_removed = removed, sn_orders = orders\<rparr>), s))))))) s))"

section \<open>Writing the state\<close>

definition write_secret :: "string \<times> sealed \<Rightarrow> store_session \<Rightarrow> (unit, store_error) result \<times> store_session" where
  "write_secret row = statement ''a secret could not be written'' (\<lambda>t.
     and_then (insert_row ''secret.id'' (fst row) (snd row) (tb_secret t)) (\<lambda>m. Inr ((), t\<lparr>tb_secret := m\<rparr>)))"

definition write_join :: "string \<times> join_record \<Rightarrow> store_session \<Rightarrow> (unit, store_error) result \<times> store_session" where
  "write_join row = statement ''a join token could not be written'' (\<lambda>t.
     and_then (insert_row ''join_token.id'' (fst row) (snd row) (tb_join_token t)) (\<lambda>m. Inr ((), t\<lparr>tb_join_token := m\<rparr>)))"

definition write_joins :: "snapshot \<Rightarrow> store_session \<Rightarrow> (unit, store_error) result \<times> store_session" where
  "write_joins snap s =
     run_then (execute ''the previous join tokens could not be replaced'' (\<lambda>t. t\<lparr>tb_join_token := []\<rparr>) s) (\<lambda>_ s.
     each write_join (sn_joins snap) s)"

definition write_removed_node :: "string \<Rightarrow> store_session \<Rightarrow> (unit, store_error) result \<times> store_session" where
  "write_removed_node node = statement ''a removed node could not be written'' (\<lambda>t.
     and_then (insert_row ''removed_node.node'' node () (tb_removed_node t)) (\<lambda>m. Inr ((), t\<lparr>tb_removed_node := m\<rparr>)))"

definition write_removed :: "snapshot \<Rightarrow> store_session \<Rightarrow> (unit, store_error) result \<times> store_session" where
  "write_removed snap s =
     run_then (execute ''the previous removed nodes could not be replaced'' (\<lambda>t. t\<lparr>tb_removed_node := []\<rparr>) s) (\<lambda>_ s.
     each write_removed_node (sorted_list_of_set (sn_removed snap)) s)"

definition row_of_order :: "store_env \<Rightarrow> order_record \<Rightarrow> (order_row, store_error) result" where
  "row_of_order env r =
     and_then (or_error (serialisation ''the names of an order could not be written out'')
         (ev_names_to_string env (or_names r))) (\<lambda>names.
     and_then (or_error (serialisation ''the challenge answers could not be written out'')
         (ev_answers_to_string env (or_answers r))) (\<lambda>answers.
     Inr \<lparr>ow_names = names, ow_challenge = order_challenge_key (or_challenge r), ow_order_url = or_order_url r,
          ow_key_id = or_key r, ow_answers = answers, ow_driven_by = or_driven_by r,
          ow_started_at = or_started_at_unix r\<rparr>))"

definition write_order :: "store_env \<Rightarrow> string \<times> order_record \<Rightarrow> store_session \<Rightarrow> (unit, store_error) result \<times> store_session" where
  "write_order env row = pure_step (row_of_order env (snd row)) (\<lambda>held.
     statement ''a running order could not be written'' (\<lambda>t.
       and_then (insert_row ''acme_order.certificate'' (fst row) held (tb_acme_order t))
         (\<lambda>m. Inr ((), t\<lparr>tb_acme_order := m\<rparr>))))"

definition write_orders :: "store_env \<Rightarrow> snapshot \<Rightarrow> store_session \<Rightarrow> (unit, store_error) result \<times> store_session" where
  "write_orders env snap s =
     run_then (execute ''the previous running orders could not be replaced'' (\<lambda>t. t\<lparr>tb_acme_order := []\<rparr>) s) (\<lambda>_ s.
     each (write_order env) (sn_orders snap) s)"

text \<open>The one row of the configuration, and the one of the authority.\<close>

definition write_state :: "config \<Rightarrow> string \<Rightarrow> int \<Rightarrow> store_session \<Rightarrow> (unit, store_error) result \<times> store_session" where
  "write_state c document now = execute ''the config could not be written'' (\<lambda>t.
     t\<lparr>tb_config_state := Some \<lparr>st_schema_version = uint (schema_version c), st_document = document, st_updated_at = now\<rparr>\<rparr>)"

definition write_identity :: "string \<Rightarrow> store_session \<Rightarrow> (unit, store_error) result \<times> store_session" where
  "write_identity authority = statement ''the cluster identity could not be written'' (\<lambda>t.
     if tb_cluster_identity t = None then Inr ((), t\<lparr>tb_cluster_identity := Some authority\<rparr>)
     else Inl ''UNIQUE constraint failed: cluster_identity.id'')"

definition FULL :: string where "FULL = ''database or disk is full''"

text \<open>A table that counts its rows gives the next one an identity above every one it ever held.\<close>

definition append_version :: "string \<Rightarrow> snapshot \<Rightarrow> change \<Rightarrow> version_id option \<Rightarrow> int \<Rightarrow> store_session
    \<Rightarrow> (version_id, store_error) result \<times> store_session" where
  "append_version document snap change restored now = statement ''the version could not be recorded'' (\<lambda>t.
     if tb_version_seq t \<ge> I64_MAX then Inl FULL
     else (let i = tb_version_seq t + 1 in
       Inr (i, t\<lparr>tb_version_seq := i, tb_config_version := bt_insert i
         \<lparr>vw_recorded_at = now, vw_author = ch_author change, vw_description = ch_description change,
          vw_schema_version = uint (schema_version (sn_config snap)), vw_restored_from = restored,
          vw_document = document\<rparr> (tb_config_version t)\<rparr>)))"

definition insert_audit :: "string \<Rightarrow> audit_record \<Rightarrow> store_session \<Rightarrow> (unit, store_error) result \<times> store_session" where
  "insert_audit what r = statement what (\<lambda>t.
     if tb_audit_seq t \<ge> I64_MAX then Inl FULL
     else (let i = tb_audit_seq t + 1 in
       Inr ((), t\<lparr>tb_audit_seq := i, tb_audit_log := bt_insert i r (tb_audit_log t)\<rparr>)))"

definition PRUNED_ACTION :: string where "PRUNED_ACTION = ''version.pruned''"

definition prune_one :: "change \<Rightarrow> int \<Rightarrow> version_id \<Rightarrow> store_session \<Rightarrow> (unit, store_error) result \<times> store_session" where
  "prune_one change now i s =
     run_then (execute ''an old version could not be removed''
       (\<lambda>t. t\<lparr>tb_config_version := bt_remove i (tb_config_version t)\<rparr>) s) (\<lambda>_ s.
     insert_audit ''the removal could not be recorded''
       \<lparr>ar_recorded_at_unix = now, ar_actor = ch_author change, ar_action = PRUNED_ACTION,
        ar_subject = Some (show_int i), ar_detail = Some (''retention limit '' @ decimal MAX_VERSIONS)\<rparr> s)"

definition prune :: "change \<Rightarrow> int \<Rightarrow> store_session \<Rightarrow> (unit, store_error) result \<times> store_session" where
  "prune change now s =
     run_then (select_rows ''the retention query could not be prepared''
       ''the versions past the limit could not be listed'' ''a version past the limit could not be read''
       (\<lambda>t. drop MAX_VERSIONS (rev (map fst (tb_config_version t)))) (\<lambda>i doomed. Inr (doomed @ [i])) [] s) (\<lambda>doomed s.
     each (prune_one change now) doomed s)"

definition write_marker :: "string \<Rightarrow> string \<times> string \<Rightarrow> store_session \<Rightarrow> (unit, store_error) result \<times> store_session" where
  "write_marker what m = execute what (\<lambda>t. t\<lparr>tb_raft_marker := bt_insert (fst m) (snd m) (tb_raft_marker t)\<rparr>)"

text \<open>What one transaction writes.\<close>

definition write_tables :: "store_env \<Rightarrow> snapshot \<Rightarrow> change \<Rightarrow> version_id option \<Rightarrow> int \<Rightarrow> (string \<times> string) list
    \<Rightarrow> audit_record list \<Rightarrow> string \<Rightarrow> (string \<times> sealed) list \<Rightarrow> store_session \<Rightarrow> (version_id, store_error) result \<times> store_session" where
  "write_tables env snap change restored now markers audit document sealed s =
     run_then (execute ''the previous secrets could not be replaced'' (\<lambda>t. t\<lparr>tb_secret := []\<rparr>) s) (\<lambda>_ s.
     run_then (each write_secret sealed s) (\<lambda>_ s.
     run_then (write_state (sn_config snap) document now s) (\<lambda>_ s.
     run_then (execute ''the previous cluster identity could not be replaced''
         (\<lambda>t. t\<lparr>tb_cluster_identity := None\<rparr>) s) (\<lambda>_ s.
     run_then (each write_identity (case sn_cluster snap of None \<Rightarrow> [] | Some a \<Rightarrow> [a]) s) (\<lambda>_ s.
     run_then (write_joins snap s) (\<lambda>_ s.
     run_then (write_removed snap s) (\<lambda>_ s.
     run_then (write_orders env snap s) (\<lambda>_ s.
     run_then (append_version document snap change restored now s) (\<lambda>version s.
     run_then (prune change now s) (\<lambda>_ s.
     run_then (each (insert_audit ''an audit record could not be written beside the state'') audit s) (\<lambda>_ s.
     run_then (each (write_marker ''a marker could not be written beside the state'') markers s) (\<lambda>_ s.
     (Inr version, s)))))))))))))"

definition write_version :: "store_env \<Rightarrow> (string \<Rightarrow> (byte list, string) result) \<Rightarrow> snapshot \<Rightarrow> change
    \<Rightarrow> version_id option \<Rightarrow> int \<Rightarrow> (string \<times> string) list \<Rightarrow> audit_record list
    \<Rightarrow> store_session \<Rightarrow> (version_id, store_error) result \<times> store_session" where
  "write_version env random snap change restored now markers audit =
     pure_step (or_error (serialisation ''the config could not be written out'')
         (ev_config_to_string env (sn_config snap))) (\<lambda>document.
     pure_step (seal_all env random (sn_secrets snap)) (\<lambda>sealed.
     connection (transaction ''the transaction could not be committed''
       (write_tables env snap change restored now markers audit document sealed))))"

text \<open>The clock: seconds since the epoch, or the error of a clock set before it.\<close>

definition seconds_since_epoch :: "(nat, string) result \<Rightarrow> (int, store_error) result" where
  "seconds_since_epoch elapsed = (case elapsed of
     Inl e \<Rightarrow> Inl (new_store_error Clock (''the system clock is set before the Unix epoch: '' @ e))
   | Inr n \<Rightarrow> if int n \<le> I64_MAX then Inr (int n)
       else Inl (new_store_error Clock (''the system clock is beyond what a timestamp can hold: ''
         @ ''out of range integral type conversion attempted'')))"

definition write_at :: "store_env \<Rightarrow> (string \<Rightarrow> (byte list, string) result) \<Rightarrow> snapshot \<Rightarrow> change \<Rightarrow> int
    \<Rightarrow> store_session \<Rightarrow> (version_id, store_error) result \<times> store_session" where
  "write_at env random snap change now = write_version env random snap change None now [] []"

definition write_store :: "store_env \<Rightarrow> (string \<Rightarrow> (byte list, string) result) \<Rightarrow> (nat, string) result \<Rightarrow> snapshot \<Rightarrow> change
    \<Rightarrow> store_session \<Rightarrow> (version_id, store_error) result \<times> store_session" where
  "write_store env random clock snap change =
     pure_step (seconds_since_epoch clock) (\<lambda>now. write_at env random snap change now)"

definition apply_write :: "store_env \<Rightarrow> (string \<Rightarrow> (byte list, string) result) \<Rightarrow> snapshot \<Rightarrow> change \<Rightarrow> int
    \<Rightarrow> (string \<times> string) list \<Rightarrow> audit_record list \<Rightarrow> store_session \<Rightarrow> (version_id, store_error) result \<times> store_session" where
  "apply_write env random snap change now markers audit = write_version env random snap change None now markers audit"

section \<open>The version log\<close>

text \<open>The error of a column that does not fit its type.\<close>

definition out_of_range :: "nat \<Rightarrow> int \<Rightarrow> string" where
  "out_of_range column n = ''Integer '' @ show_int n @ '' out of range at index '' @ decimal column"

definition u32_column :: "string \<Rightarrow> nat \<Rightarrow> int \<Rightarrow> (u32, store_error) result" where
  "u32_column what column n =
     (if 0 \<le> n \<and> n < 2 ^ 32 then Inr (of_int n) else Inl (storage what (out_of_range column n)))"

definition version_of_row :: "int \<times> version_row \<Rightarrow> (version_record, store_error) result" where
  "version_of_row row =
     and_then (u32_column ''a version record could not be read'' 4 (vw_schema_version (snd row))) (\<lambda>schema.
     Inr \<lparr>vr_id = fst row, vr_recorded_at_unix = vw_recorded_at (snd row), vr_author = vw_author (snd row),
          vr_description = vw_description (snd row), vr_schema_version = schema,
          vr_kind = (case vw_restored_from (snd row) of None \<Rightarrow> WriteChange | Some i \<Rightarrow> RollbackChange i)\<rparr>)"

definition versions :: "store_session \<Rightarrow> (version_record list, store_error) result \<times> store_session" where
  "versions = connection (select_rows ''the version query could not be prepared'' ''the version log could not be read''
     ''a version record could not be read'' (\<lambda>t. rev (tb_config_version t))
     (\<lambda>row records. and_then (version_of_row row) (\<lambda>r. Inr (records @ [r]))) [])"

definition version_config :: "store_env \<Rightarrow> version_id \<Rightarrow> store_session \<Rightarrow> (config option, store_error) result \<times> store_session" where
  "version_config env i = connection (\<lambda>s.
     run_then (query_row ''a version could not be read''
       (\<lambda>t. map_option vw_document (bt_get i (tb_config_version t))) s) (\<lambda>document s.
     case document of
       None \<Rightarrow> (Inr None, s)
     | Some document \<Rightarrow>
         pure_step (or_error (serialisation (''version '' @ show_int i @ '' could not be read back''))
           (ev_config_from_str env document)) (\<lambda>c s. (Inr (Some c), s)) s))"

definition stored_schema :: "int \<Rightarrow> (schema_version, store_error) result" where
  "stored_schema n = (if 0 \<le> n \<and> n < 2 ^ 32 then Inr (of_int n)
     else Inl (new_store_error Serialisation (''a stored schema version of '' @ show_int n @ '' cannot be read'')))"

definition transpose_schema :: "int option \<Rightarrow> (schema_version option, store_error) result" where
  "transpose_schema stored = (case stored of None \<Rightarrow> Inr None | Some n \<Rightarrow> and_then (stored_schema n) (\<lambda>v. Inr (Some v)))"

definition version_schema :: "version_id \<Rightarrow> store_session \<Rightarrow> (schema_version option, store_error) result \<times> store_session" where
  "version_schema i = connection (\<lambda>s.
     run_then (query_row ''a version could not be read''
       (\<lambda>t. map_option vw_schema_version (bt_get i (tb_config_version t))) s) (\<lambda>stored.
     pure_step (transpose_schema stored) (\<lambda>v s. (Inr v, s))))"

definition not_in_log :: "version_id \<Rightarrow> store_error" where
  "not_in_log i = new_store_error UnknownVersion (''version '' @ show_int i @ '' is not in the log'')"

definition roll_back_to :: "store_env \<Rightarrow> (string \<Rightarrow> (byte list, string) result) \<Rightarrow> (nat, string) result
    \<Rightarrow> version_id \<Rightarrow> change \<Rightarrow> store_session \<Rightarrow> (version_id, store_error) result \<times> store_session" where
  "roll_back_to env random clock i change s =
     run_then (version_schema i s) (\<lambda>stored.
     pure_step (ok_or (not_in_log i) stored) (\<lambda>stored s.
     if stored \<noteq> ev_target env then
       (Inl (new_store_error SchemaMismatch (''version '' @ show_int i @ '' was written against schema ''
          @ decimal (unat stored) @ '' and this store reads '' @ decimal (unat (ev_target env)))), s)
     else
       run_then (version_config env i s) (\<lambda>restored.
       pure_step (ok_or (not_in_log i) restored) (\<lambda>restored s.
       run_then (read_store env s) (\<lambda>current.
       pure_step (ok_or (new_store_error UnknownVersion ''there is no current state to roll back from'') current) (\<lambda>current.
       pure_step (seconds_since_epoch clock) (\<lambda>now.
       write_version env random
         (current\<lparr>sn_config := restored\<lparr>certificates := certificates (sn_config current)\<rparr>\<rparr>)
         change (Some i) now [] [])))))))"

definition parse_i64 :: "string \<Rightarrow> int option" where
  "parse_i64 s = (case s of
     [] \<Rightarrow> None
   | c # cs \<Rightarrow> if c = CHR ''-'' then
         (if cs = [] then None else map_option (\<lambda>n. - int n) (digits_value 10 (2 ^ 63 + 1) 0 cs))
       else map_option int (parse_radix 10 (2 ^ 63) s))"

definition pruning_of_row :: "audit_record \<Rightarrow> (pruning_record, store_error) result" where
  "pruning_of_row r =
     and_then (ok_or (new_store_error Serialisation ''a pruning record names no version'')
         (Option.bind (ar_subject r) parse_i64)) (\<lambda>removed.
     Inr \<lparr>pr_recorded_at_unix = ar_recorded_at_unix r, pr_author = ar_actor r, pr_removed = removed\<rparr>)"

definition prunings :: "store_session \<Rightarrow> (pruning_record list, store_error) result \<times> store_session" where
  "prunings = connection (select_rows ''the pruning query could not be prepared''
     ''the pruning records could not be read'' ''a pruning record could not be read''
     (\<lambda>t. filter (\<lambda>r. ar_action r = PRUNED_ACTION) (map snd (rev (tb_audit_log t))))
     (\<lambda>r records. and_then (pruning_of_row r) (\<lambda>p. Inr (records @ [p]))) [])"

section \<open>Everything a peer needs\<close>

definition stored_of_row :: "int \<times> version_row \<Rightarrow> (stored_version, store_error) result" where
  "stored_of_row row =
     and_then (u32_column ''a version could not be exported'' 4 (vw_schema_version (snd row))) (\<lambda>schema.
     Inr \<lparr>sv_id = fst row, sv_recorded_at_unix = vw_recorded_at (snd row), sv_author = vw_author (snd row),
          sv_description = vw_description (snd row), sv_schema_version = schema,
          sv_restored_from = vw_restored_from (snd row), sv_document = vw_document (snd row)\<rparr>)"

definition export_store :: "store_env \<Rightarrow> store_session \<Rightarrow> (full_state, store_error) result \<times> store_session" where
  "export_store env s =
     run_then (read_store env s) (\<lambda>snap.
     connection (\<lambda>s.
     run_then (select_rows ''the version export could not be prepared'' ''the version log could not be exported''
         ''a version could not be exported'' tb_config_version
         (\<lambda>row held. and_then (stored_of_row row) (\<lambda>v. Inr (held @ [v]))) [] s) (\<lambda>vs s.
     run_then (select_rows ''the audit export could not be prepared'' ''the audit log could not be exported''
         ''an audit record could not be exported'' (\<lambda>t. map snd (tb_audit_log t)) (\<lambda>r held. Inr (held @ [r])) [] s) (\<lambda>audit s.
     (Inr \<lparr>fs_snapshot = snap, fs_versions = vs, fs_audit = audit\<rparr>, s)))))"

definition write_stored_version :: "stored_version \<Rightarrow> store_session \<Rightarrow> (unit, store_error) result \<times> store_session" where
  "write_stored_version v = statement ''a version could not be written'' (\<lambda>t.
     and_then (insert_row ''config_version.id'' (sv_id v)
         \<lparr>vw_recorded_at = sv_recorded_at_unix v, vw_author = sv_author v, vw_description = sv_description v,
          vw_schema_version = uint (sv_schema_version v), vw_restored_from = sv_restored_from v,
          vw_document = sv_document v\<rparr> (tb_config_version t)) (\<lambda>m.
     Inr ((), t\<lparr>tb_config_version := m, tb_version_seq := max (tb_version_seq t) (sv_id v)\<rparr>)))"

text \<open>The eight deletions, one statement each.\<close>

definition clearing :: "(tables \<Rightarrow> tables) list" where
  "clearing = [\<lambda>t. t\<lparr>tb_secret := []\<rparr>, \<lambda>t. t\<lparr>tb_config_state := None\<rparr>, \<lambda>t. t\<lparr>tb_config_version := []\<rparr>,
     \<lambda>t. t\<lparr>tb_audit_log := []\<rparr>, \<lambda>t. t\<lparr>tb_cluster_identity := None\<rparr>, \<lambda>t. t\<lparr>tb_join_token := []\<rparr>,
     \<lambda>t. t\<lparr>tb_removed_node := []\<rparr>, \<lambda>t. t\<lparr>tb_acme_order := []\<rparr>]"

definition import_snapshot :: "store_env \<Rightarrow> int \<Rightarrow> snapshot \<Rightarrow> store_session \<Rightarrow> (unit, store_error) result \<times> store_session" where
  "import_snapshot env now held s =
     run_then (each write_identity (case sn_cluster held of None \<Rightarrow> [] | Some a \<Rightarrow> [a]) s) (\<lambda>_ s.
     run_then (write_joins held s) (\<lambda>_ s.
     run_then (write_removed held s) (\<lambda>_ s.
     run_then (write_orders env held s) (\<lambda>_.
     pure_step (or_error (serialisation ''the config could not be written out'')
         (ev_config_to_string env (sn_config held))) (\<lambda>document.
     write_state (sn_config held) document now)))))"

definition import_tables :: "store_env \<Rightarrow> int \<Rightarrow> full_state \<Rightarrow> (string \<times> string) list \<Rightarrow> (string \<times> sealed) list
    \<Rightarrow> store_session \<Rightarrow> (unit, store_error) result \<times> store_session" where
  "import_tables env now state markers sealed s =
     run_then (each (execute ''the previous state could not be replaced'') clearing s) (\<lambda>_ s.
     run_then (each write_secret sealed s) (\<lambda>_ s.
     run_then (each (import_snapshot env now) (case fs_snapshot state of None \<Rightarrow> [] | Some held \<Rightarrow> [held]) s) (\<lambda>_ s.
     run_then (each write_stored_version (fs_versions state) s) (\<lambda>_ s.
     run_then (each (insert_audit ''an audit record could not be written'') (fs_audit state) s) (\<lambda>_ s.
     each (write_marker ''a marker could not be written beside the state'') markers s)))))"

definition import_store :: "store_env \<Rightarrow> (string \<Rightarrow> (byte list, string) result) \<Rightarrow> (nat, string) result
    \<Rightarrow> full_state \<Rightarrow> (string \<times> string) list \<Rightarrow> store_session \<Rightarrow> (unit, store_error) result \<times> store_session" where
  "import_store env random clock state markers =
     pure_step (seconds_since_epoch clock) (\<lambda>now.
     pure_step (seal_all env random (case fs_snapshot state of None \<Rightarrow> [] | Some held \<Rightarrow> sn_secrets held)) (\<lambda>sealed.
     connection (transaction ''the imported state could not be committed''
       (import_tables env now state markers sealed))))"

section \<open>The journal\<close>

definition log_as_i64 :: "u64 \<Rightarrow> (int, store_error) result" where
  "log_as_i64 n = (if uint n \<le> I64_MAX then Inr (uint n)
     else Inl (new_store_error Storage (''a log position of '' @ decimal (unat n) @ '' is beyond what this store holds'')))"

definition log_as_u64 :: "int \<Rightarrow> (u64, store_error) result" where
  "log_as_u64 n = (if 0 \<le> n then Inr (of_int n)
     else Inl (new_store_error Storage (''a stored log position of '' @ show_int n @ '' cannot be read'')))"

definition append_record :: "journal_record \<Rightarrow> store_session \<Rightarrow> (unit, store_error) result \<times> store_session" where
  "append_record r = pure_step (log_as_i64 (jl_index r)) (\<lambda>i.
     execute ''a log record could not be written'' (\<lambda>t. t\<lparr>tb_raft_log := bt_insert i (jl_payload r) (tb_raft_log t)\<rparr>))"

definition journal_append :: "journal_record list \<Rightarrow> store_session \<Rightarrow> (unit, store_error) result \<times> store_session" where
  "journal_append records =
     connection (transaction ''the log records could not be committed'' (each append_record records))"

definition journal_records :: "u64 \<Rightarrow> u64 \<Rightarrow> store_session \<Rightarrow> (journal_record list, store_error) result \<times> store_session" where
  "journal_records start stop = connection (\<lambda>s.
     run_then (fault ''the log query could not be prepared'' s) (\<lambda>_.
     pure_step (log_as_i64 start) (\<lambda>lo.
     pure_step (log_as_i64 stop) (\<lambda>hi s.
     run_then (fault ''the log could not be read'' s) (\<lambda>_ s.
     row_loop ''a log record could not be read''
       (\<lambda>row held. and_then (log_as_u64 (fst row)) (\<lambda>i. Inr (held @ [\<lparr>jl_index = i, jl_payload = snd row\<rparr>])))
       (filter (\<lambda>row. lo \<le> fst row \<and> fst row < hi) (tb_raft_log (db s))) [] s)))))"

definition journal_span :: "store_session \<Rightarrow> ((u64 \<times> u64) option, store_error) result \<times> store_session" where
  "journal_span = connection (\<lambda>s.
     run_then (query_row ''the log bounds could not be read'' (\<lambda>t. case tb_raft_log t of
         [] \<Rightarrow> None | rows \<Rightarrow> Some (fst (hd rows), fst (last rows))) s) (\<lambda>bounds.
     case bounds of
       None \<Rightarrow> (\<lambda>s. (Inr None, s))
     | Some (first, final) \<Rightarrow>
         pure_step (log_as_u64 first) (\<lambda>a. pure_step (log_as_u64 final) (\<lambda>b s. (Inr (Some (a, b)), s)))))"

definition truncate_from :: "u64 \<Rightarrow> store_session \<Rightarrow> (unit, store_error) result \<times> store_session" where
  "truncate_from at = connection (pure_step (log_as_i64 at) (\<lambda>i.
     execute ''the log tail could not be removed'' (\<lambda>t. t\<lparr>tb_raft_log := bt_retain (\<lambda>e. \<not> fst e \<ge> i) (tb_raft_log t)\<rparr>)))"

definition purge_upto :: "u64 \<Rightarrow> store_session \<Rightarrow> (unit, store_error) result \<times> store_session" where
  "purge_upto at = connection (pure_step (log_as_i64 at) (\<lambda>i.
     execute ''the log head could not be removed'' (\<lambda>t. t\<lparr>tb_raft_log := bt_retain (\<lambda>e. \<not> fst e \<le> i) (tb_raft_log t)\<rparr>)))"

definition set_marker :: "string \<Rightarrow> string option \<Rightarrow> store_session \<Rightarrow> (unit, store_error) result \<times> store_session" where
  "set_marker name value = connection (case value of
     Some v \<Rightarrow> write_marker ''a marker could not be written'' (name, v)
   | None \<Rightarrow> execute ''a marker could not be removed'' (\<lambda>t. t\<lparr>tb_raft_marker := bt_remove name (tb_raft_marker t)\<rparr>))"

definition get_marker :: "string \<Rightarrow> store_session \<Rightarrow> (string option, store_error) result \<times> store_session" where
  "get_marker name = connection (query_row ''a marker could not be read'' (\<lambda>t. bt_get name (tb_raft_marker t)))"

definition set_snapshot :: "string \<Rightarrow> byte list \<Rightarrow> store_session \<Rightarrow> (unit, store_error) result \<times> store_session" where
  "set_snapshot meta data = connection (execute ''the snapshot could not be written''
     (\<lambda>t. t\<lparr>tb_raft_snapshot := Some (meta, data)\<rparr>))"

definition get_snapshot :: "store_session \<Rightarrow> ((string \<times> byte list) option, store_error) result \<times> store_session" where
  "get_snapshot = connection (query_row ''the snapshot could not be read'' tb_raft_snapshot)"

section \<open>Bringing the store forward\<close>

definition stored_schema_version :: "store_session \<Rightarrow> (schema_version option, store_error) result \<times> store_session" where
  "stored_schema_version = connection (\<lambda>s.
     run_then (query_row ''the stored schema version could not be read''
       (\<lambda>t. map_option st_schema_version (tb_config_state t)) s) (\<lambda>stored.
     pure_step (transpose_schema stored) (\<lambda>v s. (Inr v, s))))"

definition BACKUP_PREFIX :: string where "BACKUP_PREFIX = ''backup-schema-''"

definition back_up :: "(nat, string) result \<Rightarrow> schema_version \<Rightarrow> store_session \<Rightarrow> (string, store_error) result \<times> store_session" where
  "back_up clock v = pure_step (seconds_since_epoch clock) (\<lambda>stamp.
     let path = BACKUP_PREFIX @ decimal (unat v) @ ''-'' @ show_int stamp @ ''.db'' in
     connection (\<lambda>s. run_then (fault ''the backup could not be written'' s) (\<lambda>_ s.
       (Inr path, s\<lparr>backups := backups s @ [(path, db s)]\<rparr>))))"

definition migrated_document :: "store_env \<Rightarrow> migration list \<Rightarrow> string \<Rightarrow> (string \<times> schema_version, store_error) result" where
  "migrated_document env steps document =
     and_then (or_error (serialisation ''a stored document could not be read for migration'')
         (ev_json_from_str env document)) (\<lambda>value.
     let (reached, value) = migrate_document value steps in
     and_then reached (\<lambda>reached.
     and_then (or_error (serialisation ''a migrated document could not be written out'')
         (ev_json_to_string env value)) (\<lambda>migrated.
     Inr (migrated, reached))))"

definition migrate_row :: "store_env \<Rightarrow> migration list \<Rightarrow> (tables \<Rightarrow> string option)
    \<Rightarrow> (string \<Rightarrow> int \<Rightarrow> tables \<Rightarrow> tables) \<Rightarrow> store_session \<Rightarrow> (unit, store_error) result \<times> store_session" where
  "migrate_row env steps select update s =
     run_then (query_row ''a stored document could not be read'' select s) (\<lambda>document.
     case document of
       None \<Rightarrow> (\<lambda>s. (Inr (), s))
     | Some document \<Rightarrow>
         pure_step (migrated_document env steps document) (\<lambda>(migrated, reached).
         execute ''a migrated document could not be stored'' (update migrated (uint reached))))"

definition state_document :: "tables \<Rightarrow> string option" where
  "state_document t = map_option st_document (tb_config_state t)"

definition set_state_document :: "string \<Rightarrow> int \<Rightarrow> tables \<Rightarrow> tables" where
  "set_state_document document schema t = t\<lparr>tb_config_state :=
     map_option (\<lambda>r. r\<lparr>st_document := document, st_schema_version := schema\<rparr>) (tb_config_state t)\<rparr>"

definition version_document :: "version_id \<Rightarrow> tables \<Rightarrow> string option" where
  "version_document i t = map_option vw_document (bt_get i (tb_config_version t))"

definition set_version_document :: "version_id \<Rightarrow> string \<Rightarrow> int \<Rightarrow> tables \<Rightarrow> tables" where
  "set_version_document i document schema t = t\<lparr>tb_config_version :=
     map (\<lambda>(j, r). (j, if j = i then r\<lparr>vw_document := document, vw_schema_version := schema\<rparr> else r)) (tb_config_version t)\<rparr>"

definition version_ids :: "store_session \<Rightarrow> (version_id list, store_error) result \<times> store_session" where
  "version_ids = select_rows ''the version list could not be prepared'' ''the version list could not be read''
     ''a version id could not be read'' (\<lambda>t. map fst (tb_config_version t)) (\<lambda>i held. Inr (held @ [i])) []"

definition bring_forward :: "store_env \<Rightarrow> (nat, string) result \<Rightarrow> migration list \<Rightarrow> store_session
    \<Rightarrow> (unit, store_error) result \<times> store_session" where
  "bring_forward env clock steps s =
     run_then (stored_schema_version s) (\<lambda>stored s.
     case stored of
       None \<Rightarrow> (Inr (), s)
     | Some stored \<Rightarrow>
         if stored > ev_target env then
           (Inl (new_store_error SchemaMismatch (''the stored config was written against schema '' @ decimal (unat stored)
              @ '' and this build reaches '' @ decimal (unat (ev_target env)))), s)
         else if stored = ev_target env then (Inr (), s)
         else run_then (back_up clock stored s) (\<lambda>_.
           connection (transaction ''the migration could not be committed'' (\<lambda>s.
             run_then (migrate_row env steps state_document set_state_document s) (\<lambda>_ s.
             run_then (version_ids s) (\<lambda>ids s.
             each (\<lambda>i. migrate_row env steps (version_document i) (set_version_document i)) ids s))))))"

section \<open>Opening\<close>

text \<open>
  \<open>master_key.rs\<close> and \<open>open_with_migrations\<close>. What the file system answers is a parameter: one
  answer for each call, an error with its words or what the call gives.
\<close>

definition KEY_LENGTH :: nat where "KEY_LENGTH = 32"
definition KEY_MODE :: nat where "KEY_MODE = 384"
definition MASTER_KEY_FILE :: string where "MASTER_KEY_FILE = ''master.key''"
definition DATABASE_FILE :: string where "DATABASE_FILE = ''config.db''"

definition octal4 :: "nat \<Rightarrow> string" where
  "octal4 n = (let digits = in_base 8 n in replicate (4 - length digits) (CHR ''0'') @ digits)"

record file_answers =
  fa_random :: "(byte list, string) result"
  fa_create :: "(unit, string) result"
  fa_write :: "(unit, string) result"
  fa_flush :: "(unit, string) result"
  fa_open :: "(unit, string) result"
  fa_mode :: "(nat, string) result"
  fa_bytes :: "(byte list, string) result"
  fa_create_directory :: "(unit, string) result"
  fa_restrict_directory :: "(unit, string) result"
  fa_key_exists :: bool
  fa_database_exists :: bool
  fa_connect :: "(unit, string) result"

definition create_key :: "string \<Rightarrow> file_answers \<Rightarrow> (byte list, store_error) result" where
  "create_key path fa =
     and_then (or_error (\<lambda>e. new_store_error DataDirectory
         (''the operating system refused to provide randomness: '' @ e)) (fa_random fa)) (\<lambda>bytes.
     and_then (or_error (\<lambda>e. new_store_error DataDirectory (path @ '' could not be created: '' @ e)) (fa_create fa)) (\<lambda>_.
     and_then (or_error (\<lambda>e. new_store_error DataDirectory (path @ '' could not be written: '' @ e)) (fa_write fa)) (\<lambda>_.
     and_then (or_error (\<lambda>e. new_store_error DataDirectory (path @ '' could not be flushed: '' @ e)) (fa_flush fa)) (\<lambda>_.
     Inr bytes))))"

definition read_master_key :: "string \<Rightarrow> file_answers \<Rightarrow> (byte list, store_error) result" where
  "read_master_key path fa =
     and_then (or_error (\<lambda>e. new_store_error MasterKeyMissing (path @ '' could not be opened: '' @ e)) (fa_open fa)) (\<lambda>_.
     and_then (or_error (\<lambda>e. new_store_error DataDirectory (path @ '' could not be inspected: '' @ e)) (fa_mode fa)) (\<lambda>mode.
     let mode = mode mod 512 in
     if mode mod 64 \<noteq> 0 then
       Inl (new_store_error MasterKeyPermissions (path @ '' carries mode '' @ octal4 mode @ '' and must carry '' @ octal4 KEY_MODE))
     else
       and_then (or_error (\<lambda>e. new_store_error DataDirectory (path @ '' could not be read: '' @ e)) (fa_bytes fa)) (\<lambda>bytes.
       if length bytes \<noteq> KEY_LENGTH then
         Inl (new_store_error MasterKeyMalformed (path @ '' does not hold '' @ decimal KEY_LENGTH @ '' bytes''))
       else Inr bytes)))"

definition prepare_store :: "store_session \<Rightarrow> (unit, store_error) result \<times> store_session" where
  "prepare_store = connection (each fault
     [''write-ahead logging could not be turned on'', ''durable writes could not be turned on'',
      ''the busy timeout could not be set'', ''foreign keys could not be turned on'', ''the schema could not be created''])"

definition store_key :: "string \<Rightarrow> file_answers \<Rightarrow> (byte list, store_error) result" where
  "store_key directory fa =
     (let database = directory @ ''/'' @ DATABASE_FILE; key_path = directory @ ''/'' @ MASTER_KEY_FILE in
      if fa_key_exists fa then read_master_key key_path fa
      else if fa_database_exists fa then
        Inl (new_store_error MasterKeyMissing (database @ '' exists but '' @ key_path
          @ '' does not, so the stored state cannot be opened''))
      else create_key key_path fa)"

definition open_with_migrations :: "store_env \<Rightarrow> string \<Rightarrow> file_answers \<Rightarrow> (nat, string) result \<Rightarrow> migration list
    \<Rightarrow> store_session \<Rightarrow> (store_env, store_error) result \<times> store_session" where
  "open_with_migrations env directory fa clock steps =
     pure_step (or_error (\<lambda>e. new_store_error DataDirectory (directory @ '' could not be created: '' @ e))
         (fa_create_directory fa)) (\<lambda>_.
     pure_step (or_error (\<lambda>e. new_store_error DataDirectory (directory @ '' could not be restricted to its owner: '' @ e))
         (fa_restrict_directory fa)) (\<lambda>_.
     pure_step (store_key directory fa) (\<lambda>key.
     pure_step (or_error (\<lambda>e. new_store_error Storage (directory @ ''/'' @ DATABASE_FILE @ '' could not be opened: '' @ e))
         (fa_connect fa)) (\<lambda>_ s.
     let env = env\<lparr>ev_key := key, ev_target := target_version steps\<rparr> in
     run_then (prepare_store s) (\<lambda>_ s.
     run_then (bring_forward env clock steps s) (\<lambda>_ s. (Inr env, s)))))))"

definition open_store :: "store_env \<Rightarrow> string \<Rightarrow> file_answers \<Rightarrow> (nat, string) result
    \<Rightarrow> store_session \<Rightarrow> (store_env, store_error) result \<times> store_session" where
  "open_store env directory fa clock = open_with_migrations env directory fa clock MIGRATIONS"

end
