(* ===== verification/Sqlite_Laws.thy ===== *)
theory Sqlite_Laws
  imports Sqlite
begin

text \<open>
  What the operations of the store do when they succeed, whatever SQLite refused elsewhere;
  what a store that refuses nothing answers; and that a failure changes no table.
\<close>

section \<open>One statement\<close>

named_theorems calm_run

text \<open>Only the tables differ, apart from what is left of the script of refusals.\<close>

definition now_holds :: "store_session \<Rightarrow> tables \<Rightarrow> store_session \<Rightarrow> bool" where
  "now_holds s t s' \<longleftrightarrow> db s' = t \<and> poisoned s' = poisoned s \<and> backups s' = backups s"

lemma now_holds_trans: "now_holds s t s' \<Longrightarrow> now_holds s' t' s'' \<Longrightarrow> now_holds s t' s''"
  by (simp add: now_holds_def)

lemma fault_Inr: "fault what s = (Inr u, s') \<Longrightarrow> now_holds s (db s) s'"
  by (auto simp: fault_def now_holds_def split: list.splits option.splits)

lemma fault_Inl: "fault what s = (Inl e, s') \<Longrightarrow> db s' = db s"
  by (auto simp: fault_def split: list.splits option.splits)

lemma statement_Inr:
  assumes "statement what f s = (Inr a, s')"
  obtains t where "f (db s) = Inr (a, t)" "now_holds s t s'"
proof -
  from assms obtain u s0 where s0: "fault what s = (Inr u, s0)"
      "(case f (db s0) of Inl e \<Rightarrow> (Inl (storage what e), s0) | Inr (a, t) \<Rightarrow> (Inr a, s0\<lparr>db := t\<rparr>)) = (Inr a, s')"
    unfolding statement_def run_then_Inr by blast
  then obtain t where "f (db s0) = Inr (a, t)" "s' = s0\<lparr>db := t\<rparr>" by (auto split: sum.splits prod.splits)
  then show ?thesis using fault_Inr [OF s0(1)] that by (simp add: now_holds_def)
qed

lemma execute_Inr: "execute what f s = (Inr u, s') \<Longrightarrow> now_holds s (f (db s)) s'"
  unfolding execute_def by (auto elim: statement_Inr)

lemma query_row_Inr: "query_row what f s = (Inr a, s') \<Longrightarrow> a = f (db s) \<and> now_holds s (db s) s'"
  unfolding query_row_def by (auto elim: statement_Inr)

lemma each_Inr_Cons:
  "each f (x # xs) s = (Inr u, s') \<longleftrightarrow> (\<exists>w s1. f x s = (Inr w, s1) \<and> each f xs s1 = (Inr u, s'))"
  by (simp add: run_then_Inr)

lemma pure_step_Inr: "pure_step r f s = (Inr b, s') \<longleftrightarrow> (\<exists>a. r = Inr a \<and> f a s = (Inr b, s'))"
  by (cases r) (simp_all add: pure_step_def)

lemma or_error_Inr: "or_error g r = Inr a \<longleftrightarrow> r = Inr a"
  by (cases r) (simp_all add: or_error_def)

lemma connection_Inr: "connection body s = (Inr a, s') \<longleftrightarrow> \<not> poisoned s \<and> body s = (Inr a, s')"
  by (simp add: connection_def)

lemma transaction_Inr:
  assumes "transaction committed body s = (Inr a, s')"
  obtains s0 s1 where "now_holds s (db s) s0" "body s0 = (Inr a, s1)" "now_holds s1 (db s1) s'"
proof -
  let ?run = "\<lambda>s0. run_then (body s0) (\<lambda>a s. run_then (fault committed s) (\<lambda>_ s. (Inr a, s)))"
  from assms obtain u s0 where s0: "fault ''a transaction could not be started'' s = (Inr u, s0)"
      "(case ?run s0 of (Inl e, s1) \<Rightarrow> (Inl e, s1\<lparr>db := db s0\<rparr>) | (Inr a, s1) \<Rightarrow> (Inr a, s1)) = (Inr a, s')"
    unfolding transaction_def run_then_Inr by blast
  then have "?run s0 = (Inr a, s')" by (auto split: sum.splits prod.splits)
  then obtain s1 v where "body s0 = (Inr a, s1)" "fault committed s1 = (Inr v, s')"
    unfolding run_then_Inr by auto
  then show ?thesis using that [of s0 s1] fault_Inr [OF s0(1)] fault_Inr [of committed s1] by blast
qed

text \<open>A transaction that fails leaves the tables as they were, whatever its body did.\<close>

lemma transaction_Inl: "transaction committed body s = (Inl e, s') \<Longrightarrow> db s' = db s"
  by (auto simp: transaction_def run_then_def now_holds_def split: sum.splits prod.splits
      dest!: fault_Inl fault_Inr)

section \<open>Rows in order\<close>

lemma bt_wf_snoc: "bt_wf (m @ [(k, v)]) \<longleftrightarrow> bt_wf m \<and> (\<forall>e \<in> set m. fst e < k)"
  by (auto simp: bt_wf_def sorted_wrt_append)

lemma bt_insert_last: "\<forall>e \<in> set m. fst e < k \<Longrightarrow> bt_insert k v m = m @ [(k, v)]"
proof (induction m)
  case (Cons e m)
  then show ?case by (cases e) (auto dest: less_asym)
qed simp

lemma bt_get_last: "\<forall>e \<in> set m. fst e < (k :: 'k::linorder) \<Longrightarrow> bt_get k m = None"
  by (auto simp: bt_get_None)

lemma insert_row_last: "\<forall>e \<in> set m. fst e < k \<Longrightarrow> insert_row key k v m = Inr (m @ [(k, v)])"
  by (simp add: insert_row_def bt_get_last bt_insert_last)

text \<open>A loop of insertions fills an empty table with the rows it is given, in their order.\<close>

lemma each_fills:
  assumes step: "\<And>x s s' u. step x s = (Inr u, s') \<Longrightarrow>
      \<exists>m. insert_row key (fst (row x)) (snd (row x)) (get (db s)) = Inr m \<and> now_holds s (put m (db s)) s'"
    and put: "\<And>m m' t. put m (put m' t) = put m t" "\<And>m t. get (put m t) = m" "\<And>t. put (get t) t = t"
    and ran: "each step xs s = (Inr u, s')" and wf: "bt_wf (get (db s) @ map row xs)"
  shows "now_holds s (put (get (db s) @ map row xs) (db s)) s'"
  using ran wf
proof (induction xs arbitrary: s)
  case Nil
  then show ?case by (simp add: now_holds_def put(3))
next
  case (Cons x xs)
  then obtain w s1 where s1: "step x s = (Inr w, s1)" "each step xs s1 = (Inr u, s')"
    unfolding each_Inr_Cons by blast
  have "bt_wf (get (db s) @ [row x])"
    using Cons.prems(2) by (simp add: bt_wf_def sorted_wrt_append)
  then have "\<forall>e \<in> set (get (db s)). fst e < fst (row x)"
    using bt_wf_snoc [of "get (db s)" "fst (row x)" "snd (row x)"] by simp
  then have "insert_row key (fst (row x)) (snd (row x)) (get (db s)) = Inr (get (db s) @ [row x])"
    by (simp add: insert_row_last)
  then have held: "now_holds s (put (get (db s) @ [row x]) (db s)) s1" using step [OF s1(1)] by auto
  then have "get (db s1) = get (db s) @ [row x]" by (simp add: now_holds_def put(2))
  then have "now_holds s1 (put (get (db s) @ map row (x # xs)) (db s1)) s'"
    using Cons.IH [OF s1(2)] Cons.prems(2) by simp
  then show ?case using held put(1) by (simp add: now_holds_def)
qed

section \<open>Writing the parts of a state\<close>

lemma write_secrets_Inr:
  assumes "each write_secret rows s = (Inr u, s')" "tb_secret (db s) = []" "bt_wf rows"
  shows "now_holds s ((db s)\<lparr>tb_secret := rows\<rparr>) s'"
proof -
  have "now_holds s ((db s)\<lparr>tb_secret := tb_secret (db s) @ map (\<lambda>x. x) rows\<rparr>) s'"
    by (rule each_fills [where get = tb_secret and put = "\<lambda>m t. t\<lparr>tb_secret := m\<rparr>" and key = "''secret.id''", OF _ _ _ _ assms(1)])
      (use assms(2,3) in \<open>auto simp: write_secret_def and_then_Inr elim!: statement_Inr\<close>)
  then show ?thesis using assms(2) by simp
qed

lemma write_joins_Inr:
  assumes "write_joins snap s = (Inr u, s')" "bt_wf (sn_joins snap)"
  shows "now_holds s ((db s)\<lparr>tb_join_token := sn_joins snap\<rparr>) s'"
proof -
  from assms(1) obtain w s0 where s0: "now_holds s ((db s)\<lparr>tb_join_token := []\<rparr>) s0"
      "each write_join (sn_joins snap) s0 = (Inr u, s')"
    unfolding write_joins_def run_then_Inr by (blast dest: execute_Inr)
  have "now_holds s0 ((db s0)\<lparr>tb_join_token := tb_join_token (db s0) @ map (\<lambda>x. x) (sn_joins snap)\<rparr>) s'"
    by (rule each_fills [where get = tb_join_token and put = "\<lambda>m t. t\<lparr>tb_join_token := m\<rparr>"
          and key = "''join_token.id''", OF _ _ _ _ s0(2)])
      (use assms(2) s0(1) in \<open>auto simp: write_join_def and_then_Inr now_holds_def elim!: statement_Inr\<close>)
  then show ?thesis using s0(1) by (simp add: now_holds_def)
qed

lemma sorted_rows_wf: "finite A \<Longrightarrow> bt_wf (map (\<lambda>n. (n, ())) (sorted_list_of_set A))"
  by (simp add: bt_wf_def comp_def strict_sorted_iff)

lemma write_removed_Inr:
  assumes "write_removed snap s = (Inr u, s')" "finite (sn_removed snap)"
  shows "now_holds s ((db s)\<lparr>tb_removed_node := map (\<lambda>n. (n, ())) (sorted_list_of_set (sn_removed snap))\<rparr>) s'"
proof -
  from assms(1) obtain w s0 where s0: "now_holds s ((db s)\<lparr>tb_removed_node := []\<rparr>) s0"
      "each write_removed_node (sorted_list_of_set (sn_removed snap)) s0 = (Inr u, s')"
    unfolding write_removed_def run_then_Inr by (blast dest: execute_Inr)
  have "now_holds s0 ((db s0)\<lparr>tb_removed_node := tb_removed_node (db s0) @
      map (\<lambda>n. (n, ())) (sorted_list_of_set (sn_removed snap))\<rparr>) s'"
    by (rule each_fills [where get = tb_removed_node and put = "\<lambda>m t. t\<lparr>tb_removed_node := m\<rparr>"
          and key = "''removed_node.node''", OF _ _ _ _ s0(2)])
      (use sorted_rows_wf [OF assms(2)] s0(1) in \<open>auto simp: write_removed_node_def and_then_Inr now_holds_def elim!: statement_Inr\<close>)
  then show ?thesis using s0(1) by (simp add: now_holds_def)
qed

text \<open>The rows of the orders, as a state encodes them.\<close>

definition order_rows :: "store_env \<Rightarrow> (string \<times> order_record) list \<Rightarrow> (string \<times> order_row) list" where
  "order_rows env orders = map (\<lambda>x. (fst x, projr (row_of_order env (snd x)))) orders"

lemma order_rows_wf: "bt_wf (order_rows env orders) \<longleftrightarrow> bt_wf orders"
  by (simp add: order_rows_def bt_wf_def comp_def)

lemma each_orders_encoded:
  "each (write_order env) orders s = (Inr u, s') \<Longrightarrow> x \<in> set orders \<Longrightarrow> \<exists>row. row_of_order env (snd x) = Inr row"
  by (induction orders arbitrary: s) (auto simp: run_then_Inr write_order_def pure_step_Inr)

lemma write_orders_Inr:
  assumes "write_orders env snap s = (Inr u, s')" "bt_wf (sn_orders snap)"
  shows "now_holds s ((db s)\<lparr>tb_acme_order := order_rows env (sn_orders snap)\<rparr>) s'"
    and "\<forall>x \<in> set (sn_orders snap). \<exists>row. row_of_order env (snd x) = Inr row"
proof -
  from assms(1) obtain w s0 where s0: "now_holds s ((db s)\<lparr>tb_acme_order := []\<rparr>) s0"
      "each (write_order env) (sn_orders snap) s0 = (Inr u, s')"
    unfolding write_orders_def run_then_Inr by (blast dest: execute_Inr)
  have "now_holds s0 ((db s0)\<lparr>tb_acme_order := tb_acme_order (db s0) @
      map (\<lambda>x. (fst x, projr (row_of_order env (snd x)))) (sn_orders snap)\<rparr>) s'"
    by (rule each_fills [where get = tb_acme_order and put = "\<lambda>m t. t\<lparr>tb_acme_order := m\<rparr>"
          and key = "''acme_order.certificate''", OF _ _ _ _ s0(2)])
      (use order_rows_wf [of env "sn_orders snap"] assms(2) s0(1) in
        \<open>auto simp: write_order_def and_then_Inr pure_step_Inr now_holds_def order_rows_def elim!: statement_Inr\<close>)
  then show "now_holds s ((db s)\<lparr>tb_acme_order := order_rows env (sn_orders snap)\<rparr>) s'"
    using s0(1) by (simp add: now_holds_def order_rows_def)
  show "\<forall>x \<in> set (sn_orders snap). \<exists>row. row_of_order env (snd x) = Inr row"
    using each_orders_encoded [OF s0(2)] by blast
qed

lemma write_identity_Inr:
  assumes "each write_identity (case a of None \<Rightarrow> [] | Some x \<Rightarrow> [x]) s = (Inr u, s')" "tb_cluster_identity (db s) = None"
  shows "now_holds s ((db s)\<lparr>tb_cluster_identity := a\<rparr>) s'"
  using assms by (cases a) (auto simp: now_holds_def run_then_Inr write_identity_def elim!: statement_Inr)

lemma seal_all_ids: "seal_all env random secrets = Inr sealed \<Longrightarrow> map fst sealed = map fst secrets"
  by (induction env random secrets arbitrary: sealed rule: seal_all.induct) (auto simp: and_then_Inr)

lemma seal_all_wf: "seal_all env random secrets = Inr sealed \<Longrightarrow> bt_wf sealed \<longleftrightarrow> bt_wf secrets"
  unfolding bt_wf_def by (simp add: seal_all_ids)

section \<open>The logs\<close>

text \<open>Both logs are in the order of their identities, none above the largest ever given.\<close>

definition versions_wf :: "tables \<Rightarrow> bool" where
  "versions_wf t \<longleftrightarrow> bt_wf (tb_config_version t) \<and> (\<forall>e \<in> set (tb_config_version t). fst e \<le> tb_version_seq t)"

definition audit_wf :: "tables \<Rightarrow> bool" where
  "audit_wf t \<longleftrightarrow> bt_wf (tb_audit_log t) \<and> (\<forall>e \<in> set (tb_audit_log t). fst e \<le> tb_audit_seq t)"

fun audited :: "audit_record list \<Rightarrow> tables \<Rightarrow> tables" where
  "audited [] t = t"
| "audited (r # rs) t = audited rs (t\<lparr>tb_audit_seq := tb_audit_seq t + 1,
     tb_audit_log := tb_audit_log t @ [(tb_audit_seq t + 1, r)]\<rparr>)"

lemma audit_wf_snoc:
  "audit_wf t \<Longrightarrow> audit_wf (t\<lparr>tb_audit_seq := tb_audit_seq t + 1, tb_audit_log := tb_audit_log t @ [(tb_audit_seq t + 1, r)]\<rparr>)"
  by (auto simp: audit_wf_def bt_wf_snoc)

lemma audited_log [simp]:
  "audit_wf t \<Longrightarrow> audit_wf (audited rs t)"
  "map snd (tb_audit_log (audited rs t)) = map snd (tb_audit_log t) @ rs"
  by (induction rs arbitrary: t) (simp_all add: audit_wf_snoc)

lemma audited_frame [simp]:
  "tb_config_state (audited rs t) = tb_config_state t" "tb_config_version (audited rs t) = tb_config_version t"
  "tb_version_seq (audited rs t) = tb_version_seq t" "tb_secret (audited rs t) = tb_secret t"
  "tb_join_token (audited rs t) = tb_join_token t" "tb_removed_node (audited rs t) = tb_removed_node t"
  "tb_acme_order (audited rs t) = tb_acme_order t" "tb_cluster_identity (audited rs t) = tb_cluster_identity t"
  "tb_raft_log (audited rs t) = tb_raft_log t" "tb_raft_marker (audited rs t) = tb_raft_marker t"
  "tb_raft_snapshot (audited rs t) = tb_raft_snapshot t"
  by (induction rs arbitrary: t) simp_all

lemma audited_append: "audited (rs @ rs') t = audited rs' (audited rs t)"
  by (induction rs arbitrary: t) simp_all

lemma insert_audit_Inr:
  assumes "insert_audit what r s = (Inr u, s')" "audit_wf (db s)"
  shows "now_holds s (audited [r] (db s)) s'"
proof -
  have "\<forall>e \<in> set (tb_audit_log (db s)). fst e < tb_audit_seq (db s) + 1"
    using assms(2) by (auto simp: audit_wf_def)
  then show ?thesis
    using assms(1) by (auto simp: insert_audit_def Let_def bt_insert_last split: if_splits elim!: statement_Inr)
qed

lemma insert_audits_Inr:
  "each (insert_audit what) rs s = (Inr u, s') \<Longrightarrow> audit_wf (db s) \<Longrightarrow> now_holds s (audited rs (db s)) s'"
proof (induction rs arbitrary: s)
  case (Cons r rs)
  then obtain w s1 where s1: "insert_audit what r s = (Inr w, s1)" "each (insert_audit what) rs s1 = (Inr u, s')"
    unfolding each_Inr_Cons by blast
  have held: "now_holds s (audited [r] (db s)) s1" using insert_audit_Inr [OF s1(1) Cons.prems(2)] .
  then have "audit_wf (db s1)" using audited_log(1) [OF Cons.prems(2), of "[r]"] by (simp add: now_holds_def)
  from Cons.IH [OF s1(2) this] held show ?case by (simp add: now_holds_def)
qed (simp add: now_holds_def)

text \<open>What is past the limit, and what is left when it is gone.\<close>

definition doomed :: "tables \<Rightarrow> version_id list" where
  "doomed t = drop MAX_VERSIONS (rev (map fst (tb_config_version t)))"

definition pruning_note :: "change \<Rightarrow> int \<Rightarrow> version_id \<Rightarrow> audit_record" where
  "pruning_note change now i = \<lparr>ar_recorded_at_unix = now, ar_actor = ch_author change, ar_action = PRUNED_ACTION,
     ar_subject = Some (show_int i), ar_detail = Some (''retention limit '' @ decimal MAX_VERSIONS)\<rparr>"

definition without_versions :: "version_id set \<Rightarrow> tables \<Rightarrow> tables" where
  "without_versions A t = t\<lparr>tb_config_version := filter (\<lambda>e. fst e \<notin> A) (tb_config_version t)\<rparr>"

lemma audited_without: "audited rs (without_versions A t) = without_versions A (audited rs t)"
proof (induction rs arbitrary: t)
  case (Cons r rs)
  then show ?case
    using Cons.IH [of "t\<lparr>tb_audit_seq := tb_audit_seq t + 1, tb_audit_log := tb_audit_log t @ [(tb_audit_seq t + 1, r)]\<rparr>"]
    by (cases t) (simp add: without_versions_def)
qed simp

lemma without_versions_audit [simp]: "audit_wf (without_versions A t) = audit_wf t"
  by (simp add: audit_wf_def without_versions_def)

lemma prune_each_Inr:
  "each (prune_one change now) ids s = (Inr u, s') \<Longrightarrow> audit_wf (db s) \<Longrightarrow>
   now_holds s (without_versions (set ids) (audited (map (pruning_note change now) ids) (db s))) s'"
proof (induction ids arbitrary: s)
  case Nil
  then show ?case by (simp add: now_holds_def without_versions_def)
next
  case (Cons i ids)
  then obtain w s1 where s1: "prune_one change now i s = (Inr w, s1)" "each (prune_one change now) ids s1 = (Inr u, s')"
    unfolding each_Inr_Cons by blast
  then obtain s0 where s0: "now_holds s (without_versions {i} (db s)) s0"
      "insert_audit ''the removal could not be recorded'' (pruning_note change now i) s0 = (Inr w, s1)"
    unfolding prune_one_def pruning_note_def without_versions_def run_then_Inr bt_remove_def bt_retain_def
    by (auto dest!: execute_Inr)
  have held: "now_holds s (without_versions {i} (audited [pruning_note change now i] (db s))) s1"
    using insert_audit_Inr [OF s0(2)] s0(1) Cons.prems(2) by (simp add: now_holds_def audited_without del: audited.simps)
  then have "audit_wf (db s1)" using audited_log(1) [OF Cons.prems(2)] by (simp add: now_holds_def del: audited.simps)
  from Cons.IH [OF s1(2) this] held show ?case
    by (simp add: now_holds_def audited_without audited_append [of "[_]", simplified])
      (simp add: without_versions_def conj_commute)
qed

definition pruned :: "change \<Rightarrow> int \<Rightarrow> tables \<Rightarrow> tables" where
  "pruned change now t = without_versions (set (doomed t)) (audited (map (pruning_note change now) (doomed t)) t)"

lemma row_loop_collects:
  "row_loop what (\<lambda>x held. Inr (held @ [x])) rows acc s = (Inr a, s') \<Longrightarrow> a = acc @ rows \<and> now_holds s (db s) s'"
proof (induction rows arbitrary: acc s)
  case (Cons r rs)
  then obtain u s0 where "fault what s = (Inr u, s0)" "row_loop what (\<lambda>x held. Inr (held @ [x])) rs (acc @ [r]) s0 = (Inr a, s')"
    by (auto simp: run_then_Inr)
  then show ?case using fault_Inr [of what s u s0] Cons.IH by (fastforce simp: now_holds_def)
qed (simp add: now_holds_def)

lemma prune_Inr:
  assumes "prune change now s = (Inr u, s')" "audit_wf (db s)"
  shows "now_holds s (pruned change now (db s)) s'"
proof -
  from assms(1) obtain ids s1 where s1: "each (prune_one change now) ids s1 = (Inr u, s')" "ids = doomed (db s)" "now_holds s (db s) s1"
    unfolding prune_def select_rows_def run_then_Inr doomed_def
    by (auto simp: now_holds_def dest!: fault_Inr row_loop_collects)
  then show ?thesis
    using prune_each_Inr [OF s1(1)] assms(2) by (simp add: now_holds_def pruned_def)
qed

lemma rev_keys_drop:
  assumes "bt_wf m"
  shows "filter (\<lambda>e. fst e \<notin> set (drop n (rev (map fst m)))) m = drop (length m - n) m"
proof -
  have parts: "m = take (length m - n) m @ drop (length m - n) m" by simp
  have "set (drop n (rev (map fst m))) = fst ` set (take (length m - n) m)"
    by (simp add: drop_rev rev_map [symmetric] take_map)
  moreover have "distinct (map fst (take (length m - n) m @ drop (length m - n) m))"
    using bt_wf_distinct [OF assms] by simp
  then have "fst ` set (take (length m - n) m) \<inter> fst ` set (drop (length m - n) m) = {}"
    unfolding map_append distinct_append by simp
  ultimately show ?thesis
    by (subst parts, subst filter_append) (auto simp: filter_empty_conv intro!: filter_True)
qed

lemma pruned_versions:
  "versions_wf t \<Longrightarrow> tb_config_version (pruned change now t) = drop (length (tb_config_version t) - MAX_VERSIONS) (tb_config_version t)"
  by (simp add: pruned_def without_versions_def doomed_def rev_keys_drop versions_wf_def)

lemma pruned_frame [simp]:
  "tb_config_state (pruned change now t) = tb_config_state t" "tb_version_seq (pruned change now t) = tb_version_seq t"
  "tb_secret (pruned change now t) = tb_secret t" "tb_join_token (pruned change now t) = tb_join_token t"
  "tb_removed_node (pruned change now t) = tb_removed_node t" "tb_acme_order (pruned change now t) = tb_acme_order t"
  "tb_cluster_identity (pruned change now t) = tb_cluster_identity t" "tb_raft_log (pruned change now t) = tb_raft_log t"
  "tb_raft_marker (pruned change now t) = tb_raft_marker t" "tb_raft_snapshot (pruned change now t) = tb_raft_snapshot t"
  "audit_wf t \<Longrightarrow> audit_wf (pruned change now t)"
  by (simp_all add: pruned_def without_versions_def audit_wf_def [of "tables.tb_config_version_update _ _"])
    (metis audit_wf_def audited_log(1))

section \<open>A whole write\<close>

text \<open>What the maps and the set of a state are in the source.\<close>

definition snapshot_wf :: "snapshot \<Rightarrow> bool" where
  "snapshot_wf snap \<longleftrightarrow> bt_wf (sn_secrets snap) \<and> bt_wf (sn_joins snap) \<and> finite (sn_removed snap) \<and> bt_wf (sn_orders snap)"

definition with_state :: "store_env \<Rightarrow> snapshot \<Rightarrow> string \<Rightarrow> (string \<times> sealed) list \<Rightarrow> int \<Rightarrow> tables \<Rightarrow> tables" where
  "with_state env snap document sealed now t = t\<lparr>tb_secret := sealed,
     tb_config_state := Some \<lparr>st_schema_version = uint (schema_version (sn_config snap)), st_document = document, st_updated_at = now\<rparr>,
     tb_cluster_identity := sn_cluster snap, tb_join_token := sn_joins snap,
     tb_removed_node := map (\<lambda>n. (n, ())) (sorted_list_of_set (sn_removed snap)),
     tb_acme_order := order_rows env (sn_orders snap)\<rparr>"

definition version_row_of :: "snapshot \<Rightarrow> change \<Rightarrow> version_id option \<Rightarrow> int \<Rightarrow> string \<Rightarrow> version_row" where
  "version_row_of snap change restored now document =
     \<lparr>vw_recorded_at = now, vw_author = ch_author change, vw_description = ch_description change,
      vw_schema_version = uint (schema_version (sn_config snap)), vw_restored_from = restored, vw_document = document\<rparr>"

definition with_version :: "version_row \<Rightarrow> tables \<Rightarrow> tables" where
  "with_version row t = t\<lparr>tb_version_seq := tb_version_seq t + 1,
     tb_config_version := tb_config_version t @ [(tb_version_seq t + 1, row)]\<rparr>"

definition with_markers :: "(string \<times> string) list \<Rightarrow> tables \<Rightarrow> tables" where
  "with_markers ms t = t\<lparr>tb_raft_marker := fold (\<lambda>m. bt_insert (fst m) (snd m)) ms (tb_raft_marker t)\<rparr>"

lemma with_version_wf: "versions_wf t \<Longrightarrow> versions_wf (with_version row t)"
  by (auto simp: versions_wf_def with_version_def bt_wf_snoc)

lemma append_version_Inr:
  assumes "append_version document snap change restored now s = (Inr v, s')" "versions_wf (db s)"
  shows "v = tb_version_seq (db s) + 1" "now_holds s (with_version (version_row_of snap change restored now document) (db s)) s'"
proof -
  have "\<forall>e \<in> set (tb_config_version (db s)). fst e < tb_version_seq (db s) + 1"
    using assms(2) by (auto simp: versions_wf_def)
  then show "v = tb_version_seq (db s) + 1"
      "now_holds s (with_version (version_row_of snap change restored now document) (db s)) s'"
    using assms(1) by (auto simp: append_version_def Let_def bt_insert_last with_version_def version_row_of_def
        split: if_splits elim!: statement_Inr)
qed

lemma write_markers_Inr:
  "each (write_marker what) ms s = (Inr u, s') \<Longrightarrow> now_holds s (with_markers ms (db s)) s'"
proof (induction ms arbitrary: s)
  case (Cons m ms)
  then obtain w s1 where "write_marker what m s = (Inr w, s1)" "each (write_marker what) ms s1 = (Inr u, s')"
    unfolding each_Inr_Cons by blast
  then show ?case using Cons.IH [of s1] execute_Inr [of what]
    by (fastforce simp: write_marker_def now_holds_def with_markers_def)
qed (simp add: now_holds_def with_markers_def)

lemma frames [simp]:
  "versions_wf (with_state env snap document sealed now t) = versions_wf t"
  "audit_wf (with_state env snap document sealed now t) = audit_wf t"
  "audit_wf (with_version row t) = audit_wf t"
  by (simp_all add: versions_wf_def audit_wf_def with_state_def with_version_def)

definition written :: "store_env \<Rightarrow> snapshot \<Rightarrow> change \<Rightarrow> version_id option \<Rightarrow> int \<Rightarrow> (string \<times> string) list
    \<Rightarrow> audit_record list \<Rightarrow> string \<Rightarrow> (string \<times> sealed) list \<Rightarrow> tables \<Rightarrow> tables" where
  "written env snap change restored now markers audit document sealed t =
     with_markers markers (audited audit (pruned change now
       (with_version (version_row_of snap change restored now document) (with_state env snap document sealed now t))))"

text \<open>The first eight steps of a write: the state itself.\<close>

lemma write_parts_Inr:
  assumes "snapshot_wf snap" "bt_wf sealed"
    "execute ''the previous secrets could not be replaced'' (\<lambda>t. t\<lparr>tb_secret := []\<rparr>) s0 = (Inr u1, s1)"
    "each write_secret sealed s1 = (Inr u2, s2)" "write_state (sn_config snap) document now s2 = (Inr u3, s3)"
    "execute ''the previous cluster identity could not be replaced'' (\<lambda>t. t\<lparr>tb_cluster_identity := None\<rparr>) s3 = (Inr u4, s4)"
    "each write_identity (case sn_cluster snap of None \<Rightarrow> [] | Some a \<Rightarrow> [a]) s4 = (Inr u5, s5)"
    "write_joins snap s5 = (Inr u6, s6)" "write_removed snap s6 = (Inr u7, s7)" "write_orders env snap s7 = (Inr u8, s8)"
  shows "now_holds s0 (with_state env snap document sealed now (db s0)) s8"
proof -
  have "now_holds s0 ((db s0)\<lparr>tb_secret := []\<rparr>) s1" using execute_Inr [OF assms(3)] .
  then have s2: "now_holds s0 ((db s0)\<lparr>tb_secret := sealed\<rparr>) s2"
    using write_secrets_Inr [OF assms(4) _ assms(2)] by (simp add: now_holds_def)
  have "now_holds s2 ((db s2)\<lparr>tb_config_state := Some \<lparr>st_schema_version = uint (schema_version (sn_config snap)),
      st_document = document, st_updated_at = now\<rparr>\<rparr>) s3"
    using assms(5) unfolding write_state_def by (rule execute_Inr)
  moreover have s4: "now_holds s3 ((db s3)\<lparr>tb_cluster_identity := None\<rparr>) s4" using execute_Inr [OF assms(6)] .
  moreover have "now_holds s4 ((db s4)\<lparr>tb_cluster_identity := sn_cluster snap\<rparr>) s5"
    using write_identity_Inr [OF assms(7)] s4 by (simp add: now_holds_def)
  moreover have "now_holds s5 ((db s5)\<lparr>tb_join_token := sn_joins snap\<rparr>) s6"
    using write_joins_Inr [OF assms(8)] assms(1) by (simp add: snapshot_wf_def)
  moreover have "now_holds s6 ((db s6)\<lparr>tb_removed_node := map (\<lambda>n. (n, ())) (sorted_list_of_set (sn_removed snap))\<rparr>) s7"
    using write_removed_Inr [OF assms(9)] assms(1) by (simp add: snapshot_wf_def)
  moreover have "now_holds s7 ((db s7)\<lparr>tb_acme_order := order_rows env (sn_orders snap)\<rparr>) s8"
    using write_orders_Inr(1) [OF assms(10)] assms(1) by (simp add: snapshot_wf_def)
  ultimately show ?thesis using s2 by (simp add: now_holds_def with_state_def)
qed

lemma write_tables_Inr:
  assumes ran: "write_tables env snap change restored now markers audit document sealed s = (Inr v, s')"
    and wf: "snapshot_wf snap" "bt_wf sealed" "versions_wf (db s)" "audit_wf (db s)"
  shows "v = tb_version_seq (db s) + 1" "\<forall>x \<in> set (sn_orders snap). \<exists>row. row_of_order env (snd x) = Inr row"
    "now_holds s (written env snap change restored now markers audit document sealed (db s)) s'"
proof -
  from ran obtain s1 s2 s3 s4 s5 s6 s7 s8 s9 s10 s11
    where parts: "execute ''the previous secrets could not be replaced'' (\<lambda>t. t\<lparr>tb_secret := []\<rparr>) s = (Inr (), s1)"
        "each write_secret sealed s1 = (Inr (), s2)" "write_state (sn_config snap) document now s2 = (Inr (), s3)"
        "execute ''the previous cluster identity could not be replaced'' (\<lambda>t. t\<lparr>tb_cluster_identity := None\<rparr>) s3 = (Inr (), s4)"
        "each write_identity (case sn_cluster snap of None \<Rightarrow> [] | Some a \<Rightarrow> [a]) s4 = (Inr (), s5)"
        "write_joins snap s5 = (Inr (), s6)" "write_removed snap s6 = (Inr (), s7)" "write_orders env snap s7 = (Inr (), s8)"
      and logs: "append_version document snap change restored now s8 = (Inr v, s9)" "prune change now s9 = (Inr (), s10)"
        "each (insert_audit ''an audit record could not be written beside the state'') audit s10 = (Inr (), s11)"
        "each (write_marker ''a marker could not be written beside the state'') markers s11 = (Inr (), s')"
    by (auto simp: write_tables_def run_then_Inr)
  have state: "now_holds s (with_state env snap document sealed now (db s)) s8"
    using write_parts_Inr [OF wf(1,2) parts] .
  from state have wf8: "versions_wf (db s8)" "audit_wf (db s8)" using wf(3,4) by (simp_all add: now_holds_def)
  have s9: "now_holds s8 (with_version (version_row_of snap change restored now document) (db s8)) s9"
    using append_version_Inr(2) [OF logs(1) wf8(1)] .
  then have wf9: "audit_wf (db s9)" using wf8 by (simp add: now_holds_def)
  have s10: "now_holds s9 (pruned change now (db s9)) s10" using prune_Inr [OF logs(2) wf9] .
  then have "audit_wf (db s10)" using wf9 by (simp add: now_holds_def)
  then have "now_holds s10 (audited audit (db s10)) s11" using insert_audits_Inr [OF logs(3)] by blast
  moreover have "now_holds s11 (with_markers markers (db s11)) s'" using write_markers_Inr [OF logs(4)] .
  ultimately show "now_holds s (written env snap change restored now markers audit document sealed (db s)) s'"
    using state s9 s10 by (simp add: now_holds_def written_def)
  show "v = tb_version_seq (db s) + 1"
    using append_version_Inr(1) [OF logs(1) wf8(1)] state by (simp add: now_holds_def with_state_def)
  show "\<forall>x \<in> set (sn_orders snap). \<exists>row. row_of_order env (snd x) = Inr row"
    using write_orders_Inr(2) [OF parts(8)] wf(1) by (simp add: snapshot_wf_def)
qed

lemma write_version_Inr:
  assumes "write_version env random snap change restored now markers audit s = (Inr v, s')"
    "snapshot_wf snap" "versions_wf (db s)" "audit_wf (db s)"
  obtains document sealed where "ev_config_to_string env (sn_config snap) = Inr document"
    "seal_all env random (sn_secrets snap) = Inr sealed" "v = tb_version_seq (db s) + 1"
    "\<forall>x \<in> set (sn_orders snap). \<exists>row. row_of_order env (snd x) = Inr row" "\<not> poisoned s"
    "now_holds s (written env snap change restored now markers audit document sealed (db s)) s'"
proof -
  from assms(1) obtain document sealed where pure: "ev_config_to_string env (sn_config snap) = Inr document"
      "seal_all env random (sn_secrets snap) = Inr sealed" "\<not> poisoned s"
    and body: "transaction ''the transaction could not be committed''
       (write_tables env snap change restored now markers audit document sealed) s = (Inr v, s')"
    unfolding write_version_def pure_step_Inr or_error_Inr connection_Inr by blast
  have sealed_wf: "bt_wf sealed" using seal_all_wf [OF pure(2)] assms(2) by (simp add: snapshot_wf_def)
  from body obtain s0 s1 where s0: "now_holds s (db s) s0" and s1: "now_holds s1 (db s1) s'"
      and ran: "write_tables env snap change restored now markers audit document sealed s0 = (Inr v, s1)"
    by (rule transaction_Inr)
  from write_tables_Inr [OF ran assms(2) sealed_wf] s0 s1 assms(3,4) show ?thesis
    using that [OF pure(1,2) _ _ pure(3)] by (simp add: now_holds_def)
qed

section \<open>A store that refuses nothing\<close>

lemma fault_calm [calm_run]: "faults s = [] \<Longrightarrow> fault what s = (Inr (), s)"
  by (simp add: fault_def)

lemma query_row_calm [calm_run]: "faults s = [] \<Longrightarrow> query_row what f s = (Inr (f (db s)), s)"
  by (simp add: query_row_def statement_def fault_calm)

lemma connection_calm [calm_run]: "\<not> poisoned s \<Longrightarrow> connection body s = body s"
  by (simp add: connection_def)

fun collect :: "('r \<Rightarrow> 'b \<Rightarrow> ('b, store_error) result) \<Rightarrow> 'r list \<Rightarrow> 'b \<Rightarrow> ('b, store_error) result" where
  "collect f [] acc = Inr acc"
| "collect f (r # rs) acc = and_then (f r acc) (collect f rs)"

lemma row_loop_calm: "faults s = [] \<Longrightarrow> row_loop what f rows acc s = (collect f rows acc, s)"
  by (induction rows arbitrary: acc) (simp_all add: fault_calm and_then_def split: sum.split)

lemma select_rows_calm [calm_run]:
  "faults s = [] \<Longrightarrow> select_rows prepared queried row from_table f acc s = (collect f (from_table (db s)) acc, s)"
  by (simp add: select_rows_def fault_calm row_loop_calm)

lemma pure_step_Inr_calm [calm_run]: "pure_step (Inr a) f s = f a s"
  by (simp add: pure_step_def)

lemma collect_rows:
  "bt_wf (acc @ map row xs) \<Longrightarrow> (\<And>x held. x \<in> set xs \<Longrightarrow> f x held = Inr (bt_insert (fst (row x)) (snd (row x)) held)) \<Longrightarrow>
   collect f xs acc = Inr (acc @ map row xs)"
proof (induction xs arbitrary: acc)
  case (Cons x xs)
  have "bt_wf (acc @ [row x])" using Cons.prems(1) by (simp add: bt_wf_def sorted_wrt_append)
  then have "bt_insert (fst (row x)) (snd (row x)) acc = acc @ [row x]"
    using bt_wf_snoc [of acc "fst (row x)" "snd (row x)"] bt_insert_last by (metis prod.collapse)
  then show ?case using Cons.IH [of "acc @ [row x]"] Cons.prems by simp
qed simp

lemma collect_append: "(\<And>x held. x \<in> set xs \<Longrightarrow> f x held = Inr (held @ [g x])) \<Longrightarrow> collect f xs acc = Inr (acc @ map g xs)"
  by (induction xs arbitrary: acc) simp_all

lemma collect_set: "collect (\<lambda>row held. Inr (insert (fst row) held)) rows acc = Inr (fst ` set rows \<union> acc)"
  by (induction rows arbitrary: acc) simp_all

section \<open>What is written is read\<close>

text \<open>
  What is relied on of the cipher and of the serialisation library: each undoes what it did.
\<close>

definition libraries_faithful :: "store_env \<Rightarrow> bool" where
  "libraries_faithful env \<longleftrightarrow>
     (\<forall>k n a m c. ev_encrypt env k n a m = Inr c \<longrightarrow> ev_decrypt env k n a c = Inr m)
     \<and> (\<forall>c d. ev_config_to_string env c = Inr d \<longrightarrow> ev_config_from_str env d = Inr c)
     \<and> (\<forall>ns d. ev_names_to_string env ns = Inr d \<longrightarrow> ev_names_from_str env d = Inr ns)
     \<and> (\<forall>m d. ev_answers_to_string env m = Inr d \<longrightarrow> ev_answers_from_str env d = Inr m)"

text \<open>The random source fills a buffer of the length of a nonce.\<close>

definition fills_nonces :: "(string \<Rightarrow> (byte list, string) result) \<Rightarrow> bool" where
  "fills_nonces random \<longleftrightarrow> (\<forall>i nonce. random i = Inr nonce \<longrightarrow> length nonce = NONCE_LENGTH)"

lemma seal_open:
  "libraries_faithful env \<Longrightarrow> seal env random associated plaintext = Inr record \<Longrightarrow>
   (\<And>nonce. random = Inr nonce \<Longrightarrow> length nonce = NONCE_LENGTH) \<Longrightarrow> open_sealed env associated record = Inr plaintext"
  by (auto simp: seal_def open_sealed_def and_then_Inr or_error_Inr libraries_faithful_def)

lemma collect_secrets:
  assumes "libraries_faithful env" "fills_nonces random"
  shows "seal_all env random secrets = Inr sealed \<Longrightarrow> bt_wf (acc @ secrets) \<Longrightarrow>
    collect (read_secret_row env) sealed acc = Inr (acc @ secrets)"
proof (induction secrets arbitrary: sealed acc)
  case (Cons x secrets)
  obtain i b where x: "x = (i, b)" by (cases x)
  from Cons.prems(1) obtain sl rest where sealed: "seal env (random i) (as_bytes i) b = Inr sl"
      "seal_all env random secrets = Inr rest" "sealed = (i, sl) # rest"
    by (auto simp: x and_then_Inr)
  have "open_sealed env (as_bytes i) sl = Inr b"
    using seal_open [OF assms(1) sealed(1)] assms(2) by (simp add: fills_nonces_def)
  moreover have "bt_wf (acc @ [(i, b)])" using Cons.prems(2) by (simp add: x bt_wf_def sorted_wrt_append)
  then have "bt_insert i b acc = acc @ [(i, b)]" by (simp add: bt_wf_snoc bt_insert_last)
  ultimately show ?case using Cons.IH [OF sealed(2), of "acc @ [(i, b)]"] Cons.prems(2)
    by (simp add: sealed(3) x read_secret_row_def)
qed simp

lemma or_error_simps [simp]: "or_error g (Inl e) = Inl (g e)" "or_error g (Inr a) = Inr a"
  by (simp_all add: or_error_def)

lemma challenge_back [simp]: "order_challenge_from_key (order_challenge_key c) = Some c"
  by (cases c) (simp_all add: order_challenge_from_key_def)

lemma order_row_back:
  assumes "libraries_faithful env" "row_of_order env r = Inr row"
  shows "order_of_row env (i, row) = Inr r"
proof -
  from assms(2) obtain names answers where "ev_names_to_string env (or_names r) = Inr names"
      "ev_answers_to_string env (or_answers r) = Inr answers"
      "row = \<lparr>ow_names = names, ow_challenge = order_challenge_key (or_challenge r), ow_order_url = or_order_url r,
          ow_key_id = or_key r, ow_answers = answers, ow_driven_by = or_driven_by r, ow_started_at = or_started_at_unix r\<rparr>"
    by (auto simp: row_of_order_def and_then_Inr or_error_Inr)
  then show ?thesis using assms(1) by (simp add: libraries_faithful_def order_of_row_def)
qed

text \<open>The tables hold a state.\<close>

definition holds_state :: "store_env \<Rightarrow> snapshot \<Rightarrow> tables \<Rightarrow> bool" where
  "holds_state env snap t \<longleftrightarrow>
     (\<exists>row. tb_config_state t = Some row \<and> ev_config_from_str env (st_document row) = Inr (sn_config snap))
     \<and> collect (read_secret_row env) (tb_secret t) [] = Inr (sn_secrets snap)
     \<and> tb_cluster_identity t = sn_cluster snap \<and> tb_join_token t = sn_joins snap \<and> bt_wf (sn_joins snap)
     \<and> fst ` set (tb_removed_node t) = sn_removed snap
     \<and> tb_acme_order t = order_rows env (sn_orders snap) \<and> bt_wf (sn_orders snap)
     \<and> (\<forall>x \<in> set (sn_orders snap). \<exists>row. row_of_order env (snd x) = Inr row)"

lemma read_store_holds:
  assumes "libraries_faithful env" "holds_state env snap (db s)" "faults s = []" "\<not> poisoned s"
  shows "read_store env s = (Inr (Some snap), s)"
proof -
  obtain row where row: "tb_config_state (db s) = Some row" "ev_config_from_str env (st_document row) = Inr (sn_config snap)"
    using assms(2) by (auto simp: holds_state_def)
  have joins: "collect (\<lambda>row held. Inr (bt_insert (fst row) (snd row) held)) (sn_joins snap) [] = Inr (sn_joins snap)"
    using collect_rows [of "[]" "\<lambda>x. x" "sn_joins snap"] assms(2) by (simp add: holds_state_def)
  have undone: "order_of_row env (fst x, projr (row_of_order env (snd x))) = Inr (snd x)" if "x \<in> set (sn_orders snap)" for x
    using assms(1,2) that order_row_back [of env "snd x"] by (force simp: holds_state_def)
  have "collect (\<lambda>row held. and_then (order_of_row env row) (\<lambda>record. Inr (bt_insert (fst row) record held)))
      (order_rows env (sn_orders snap)) [] = Inr ([] @ map (\<lambda>x. (fst x, projr (order_of_row env x))) (order_rows env (sn_orders snap)))"
    by (rule collect_rows) (use assms(2) undone in \<open>auto simp: holds_state_def order_rows_def bt_wf_def comp_def\<close>)
  moreover have "map (\<lambda>x. (fst x, projr (order_of_row env x))) (order_rows env (sn_orders snap)) = sn_orders snap"
    using undone by (auto simp: order_rows_def intro!: map_idI)
  ultimately show ?thesis
    using assms(2-4) row joins
    by (simp add: read_store_def calm_run read_joins_def read_removed_def read_orders_def holds_state_def
        or_error_def collect_set)
qed

lemma written_holds:
  assumes "libraries_faithful env" "fills_nonces random" "snapshot_wf snap"
    "ev_config_to_string env (sn_config snap) = Inr document" "seal_all env random (sn_secrets snap) = Inr sealed"
    "\<forall>x \<in> set (sn_orders snap). \<exists>row. row_of_order env (snd x) = Inr row"
  shows "holds_state env snap (written env snap change restored now markers audit document sealed t)"
  using assms collect_secrets [OF assms(1,2,5), of "[]"]
  by (auto simp: holds_state_def written_def with_markers_def with_version_def with_state_def libraries_faithful_def snapshot_wf_def image_image)

section \<open>Reading, whatever is refused\<close>

definition calm :: "store_session \<Rightarrow> store_session" where
  "calm s = s\<lparr>faults := [], poisoned := False\<rparr>"

lemma calm_simps [simp]: "faults (calm s) = []" "\<not> poisoned (calm s)" "db (calm s) = db s" "backups (calm s) = backups s"
  by (simp_all add: calm_def)

lemma row_loop_Inr:
  "row_loop what f rows acc s = (Inr a, s') \<Longrightarrow> collect f rows acc = Inr a \<and> now_holds s (db s) s'"
proof (induction rows arbitrary: acc s)
  case (Cons r rs)
  then obtain u s0 acc' where "fault what s = (Inr u, s0)" "f r acc = Inr acc'" "row_loop what f rs acc' s0 = (Inr a, s')"
    by (cases "f r acc") (auto simp: run_then_Inr)
  then show ?case using fault_Inr [of what s u s0] Cons.IH by (fastforce simp: now_holds_def)
qed (simp add: now_holds_def)

lemma select_rows_Inr:
  assumes "select_rows prepared queried row from_table f acc s = (Inr a, s')"
  shows "collect f (from_table (db s)) acc = Inr a \<and> now_holds s (db s) s'"
proof -
  from assms obtain s0 s1 where "now_holds s (db s) s0" "now_holds s0 (db s0) s1"
      "row_loop row f (from_table (db s1)) acc s1 = (Inr a, s')"
    unfolding select_rows_def run_then_Inr by (blast dest: fault_Inr)
  then show ?thesis using row_loop_Inr [of row f "from_table (db s1)" acc s1 a s'] by (simp add: now_holds_def)
qed

lemma collect_keeps: "(\<And>r x y. P x \<Longrightarrow> f r x = Inr y \<Longrightarrow> P y) \<Longrightarrow> P acc \<Longrightarrow> collect f rows acc = Inr a \<Longrightarrow> P a"
  by (induction rows arbitrary: acc) (auto simp: and_then_Inr)

text \<open>A read that succeeds gives what a store that refuses nothing gives, and changes nothing.\<close>

lemma read_store_Inr:
  assumes "read_store env s = (Inr r, s')"
  shows "now_holds s (db s) s'" and "read_store env (calm s) = (Inr r, calm s)"
    and "r = Some snap \<Longrightarrow> snapshot_wf snap"
proof -
  have "now_holds s (db s) s' \<and> read_store env (calm s) = (Inr r, calm s) \<and> (\<forall>snap. r = Some snap \<longrightarrow> snapshot_wf snap)"
  proof (cases "tb_config_state (db s)")
    case None
    then show ?thesis
      using assms by (auto simp: read_store_def connection_Inr run_then_Inr calm_run dest!: query_row_Inr)
  next
    case (Some row)
    with assms obtain s0 s1 s2 s3 s4 config secrets authority joins removed orders
      where "now_holds s (db s) s0" "ev_config_from_str env (st_document row) = Inr config"
        and secrets: "collect (read_secret_row env) (tb_secret (db s0)) [] = Inr secrets" "now_holds s0 (db s0) s1"
        and "authority = tb_cluster_identity (db s1)" "now_holds s1 (db s1) s2"
        and joins: "collect (\<lambda>row held. Inr (bt_insert (fst row) (snd row) held)) (tb_join_token (db s2)) [] = Inr joins" "now_holds s2 (db s2) s3"
        and removed: "collect (\<lambda>row held. Inr (insert (fst row) held)) (tb_removed_node (db s3)) {} = Inr removed" "now_holds s3 (db s3) s4"
        and orders: "collect (\<lambda>row held. and_then (order_of_row env row) (\<lambda>r. Inr (bt_insert (fst row) r held))) (tb_acme_order (db s4)) [] = Inr orders"
          "now_holds s4 (db s4) s'"
        and "r = Some \<lparr>sn_config = config, sn_secrets = secrets, sn_cluster = authority, sn_joins = joins,
          sn_removed = removed, sn_orders = orders\<rparr>"
      by (auto simp: read_store_def connection_Inr run_then_Inr pure_step_Inr or_error_Inr read_joins_def read_removed_def
          read_orders_def now_holds_def dest!: query_row_Inr select_rows_Inr)
    moreover have "bt_wf secrets"
      by (rule collect_keeps [of bt_wf, OF _ _ secrets(1)]) (auto simp: read_secret_row_def and_then_Inr bt_insert_wf bt_wf_def [of "[]"])
    moreover have "bt_wf joins"
      by (rule collect_keeps [of bt_wf, OF _ _ joins(1)]) (auto simp: bt_insert_wf bt_wf_def [of "[]"])
    moreover have "finite removed" by (rule collect_keeps [of finite, OF _ _ removed(1)]) auto
    moreover have "bt_wf orders"
      by (rule collect_keeps [of bt_wf, OF _ _ orders(1)]) (auto simp: and_then_Inr bt_insert_wf bt_wf_def [of "[]"])
    ultimately show ?thesis using Some
      by (auto simp: read_store_def calm_run read_joins_def read_removed_def read_orders_def now_holds_def snapshot_wf_def)
  qed
  then show "now_holds s (db s) s'" "read_store env (calm s) = (Inr r, calm s)" "r = Some snap \<Longrightarrow> snapshot_wf snap" by blast+
qed

end
