(* ===== verification/Sqlite_Runs.thy ===== *)
theory Sqlite_Runs
  imports Sqlite_Laws
begin

text \<open>
  Runs of the store: any of its operations, one after the other, each meeting whatever SQLite
  refuses. A failed operation changes no table, every operation keeps the logs in order, and
  the identities given to versions only grow.
\<close>

section \<open>What operations keep\<close>

definition keeps :: "(tables \<Rightarrow> bool) \<Rightarrow> (store_session \<Rightarrow> ('a, store_error) result \<times> store_session) \<Rightarrow> bool" where
  "keeps P op \<longleftrightarrow> (\<forall>s. P (db s) \<longrightarrow> P (db (snd (op s))))"

lemma keepsI: "(\<And>s. P (db s) \<Longrightarrow> P (db (snd (op s)))) \<Longrightarrow> keeps P op"
  by (simp add: keeps_def)

named_theorems keeping

lemma keeps_fault [keeping, intro]: "keeps P (fault what)"
  by (rule keepsI) (auto simp: fault_def split: list.split option.split)

lemma keeps_run_then [keeping]:
  assumes "keeps P op" "\<And>a. keeps P (k a)"
  shows "keeps P (\<lambda>s. run_then (op s) k)"
proof (rule keepsI)
  fix s :: store_session assume "P (db s)"
  then have "P (db (snd (op s)))" using assms(1) by (simp add: keeps_def)
  then show "P (db (snd (run_then (op s) k)))"
    using assms(2) by (cases "op s"; cases "fst (op s)") (simp_all add: keeps_def)
qed

lemma keeps_statement [keeping]:
  assumes "\<And>t a t'. P t \<Longrightarrow> f t = Inr (a, t') \<Longrightarrow> P t'"
  shows "keeps P (statement what f)"
  unfolding statement_def
proof (rule keeps_run_then [OF keeps_fault], rule keepsI)
  fix s :: store_session assume "P (db s)"
  then show "P (db (snd (case f (db s) of Inl e \<Rightarrow> (Inl (storage what e), s) | Inr (a, t) \<Rightarrow> (Inr a, s\<lparr>db := t\<rparr>))))"
    using assms by (cases "f (db s)") (auto split: prod.split)
qed

lemma keeps_execute [keeping]: "(\<And>t. P t \<Longrightarrow> P (f t)) \<Longrightarrow> keeps P (execute what f)"
  unfolding execute_def by (rule keeps_statement) auto

lemma keeps_query_row [keeping]: "keeps P (query_row what f)"
  unfolding query_row_def by (rule keeps_statement) auto

lemma keeps_return [keeping]: "keeps P (\<lambda>s. (r, s))" "keeps P (Pair r)"
  by (simp_all add: keeps_def)

lemma keeps_row_loop [keeping]: "keeps P (row_loop what f rows acc)"
proof (induction rows arbitrary: acc)
  case (Cons r rs)
  have "keeps P (\<lambda>s. run_then (fault what s) (\<lambda>_ s. case f r acc of Inl e \<Rightarrow> (Inl e, s) | Inr acc \<Rightarrow> row_loop what f rs acc s))"
    by (rule keeps_run_then) (use Cons in \<open>cases "f r acc"; auto intro: keeps_return\<close>)+
  then show ?case by (simp add: keeps_def)
qed (simp add: keeps_def)

lemma keeps_select_rows [keeping]: "keeps P (select_rows prepared queried row from_table f acc)"
proof -
  have "keeps P (\<lambda>s. row_loop row f (from_table (db s)) acc s)"
    using keeps_row_loop [of P row f _ acc] by (simp add: keeps_def)
  then show ?thesis unfolding select_rows_def by (intro keeps_run_then keeps_fault)
qed

lemma keeps_each [keeping]: "(\<And>x. keeps P (f x)) \<Longrightarrow> keeps P (each f xs)"
proof (induction xs)
  case (Cons x xs)
  have "keeps P (\<lambda>s. run_then (f x s) (\<lambda>_ s. each f xs s))" using Cons by (intro keeps_run_then) blast+
  then show ?case by (simp add: keeps_def)
qed (simp add: keeps_def)

lemma keeps_pure_step [keeping]: "(\<And>a. keeps P (f a)) \<Longrightarrow> keeps P (pure_step r f)"
  by (cases r) (simp_all add: keeps_def pure_step_def)

lemma keeps_connection [keeping]: "keeps P body \<Longrightarrow> keeps P (connection body)"
  by (simp add: keeps_def connection_def)

lemma keeps_transaction [keeping]:
  assumes "keeps P body"
  shows "keeps P (transaction committed body)"
proof (rule keepsI)
  fix s :: store_session assume P: "P (db s)"
  show "P (db (snd (transaction committed body s)))"
  proof (cases "fst (transaction committed body s)")
    case (Inl e)
    then show ?thesis using transaction_Inl [of committed body s e] P by (metis prod.collapse)
  next
    case (Inr a)
    then obtain s0 s1 where "now_holds s (db s) s0" "body s0 = (Inr a, s1)" "now_holds s1 (db s1) (snd (transaction committed body s))"
      using transaction_Inr [of committed body s a] by (metis prod.collapse)
    then show ?thesis using assms P by (metis keeps_def now_holds_def snd_conv)
  qed
qed

lemma keeps_option [keeping]: "(\<And>x. a = Some x \<Longrightarrow> keeps P (f x)) \<Longrightarrow> (a = None \<Longrightarrow> keeps P g) \<Longrightarrow> keeps P (case a of None \<Rightarrow> g | Some x \<Rightarrow> f x)"
  by (cases a) simp_all

lemma keeps_option_at [keeping]:
  "(\<And>x. keeps P (f x)) \<Longrightarrow> keeps P g \<Longrightarrow> keeps P (\<lambda>s. case a of None \<Rightarrow> g s | Some x \<Rightarrow> f x s)"
  by (cases a) simp_all

lemma keeps_if [keeping]: "keeps P f \<Longrightarrow> keeps P g \<Longrightarrow> keeps P (\<lambda>s. if b then f s else g s)"
  by (cases b) simp_all

section \<open>The order of the logs\<close>

text \<open>The logs are in order, and at least so many versions were ever given an identity.\<close>

definition logs_wf :: "int \<Rightarrow> tables \<Rightarrow> bool" where
  "logs_wf n t \<longleftrightarrow> versions_wf t \<and> audit_wf t \<and> n \<le> tb_version_seq t"

lemma insert_row_bt: "insert_row key k v m = Inr m' \<Longrightarrow> m' = bt_insert k v m"
  by (simp add: insert_row_def split: if_splits)

lemma bt_insert_below: "(\<forall>e \<in> set (bt_insert k v m). fst e \<le> n) \<longleftrightarrow> k \<le> n \<and> (\<forall>e \<in> set m. fst e \<le> n)"
proof -
  have "fst ` set (bt_insert k v m) = insert k (fst ` set m)" using bt_insert_keys [of k v m] by simp
  then have "(\<forall>x \<in> fst ` set (bt_insert k v m). x \<le> n) \<longleftrightarrow> (\<forall>x \<in> insert k (fst ` set m). x \<le> n)" by simp
  then show ?thesis by simp
qed

lemma below_mono: "\<forall>e \<in> set m. fst e \<le> n \<Longrightarrow> n \<le> (n' :: int) \<Longrightarrow> \<forall>e \<in> set m. fst e \<le> n'"
  by force

lemma logs_wf_version:
  assumes "logs_wf n t" "tb_version_seq t \<le> q" "i \<le> q"
  shows "logs_wf n (t\<lparr>tb_version_seq := q, tb_config_version := bt_insert i row (tb_config_version t)\<rparr>)"
  using assms below_mono [OF _ assms(2), of "tb_config_version t"]
  by (simp add: logs_wf_def versions_wf_def audit_wf_def bt_insert_wf bt_insert_below)

lemma logs_wf_audit:
  assumes "logs_wf n t"
  shows "logs_wf n (t\<lparr>tb_audit_seq := tb_audit_seq t + 1, tb_audit_log := bt_insert (tb_audit_seq t + 1) r (tb_audit_log t)\<rparr>)"
  using assms below_mono [of "tb_audit_log t" "tb_audit_seq t" "tb_audit_seq t + 1"]
  by (simp add: logs_wf_def versions_wf_def audit_wf_def bt_insert_wf bt_insert_below)

lemma keeps_stored_version: "keeps (logs_wf n) (write_stored_version v)"
  unfolding write_stored_version_def
proof (rule keeps_statement, unfold and_then_Inr, elim exE conjE)
  fix t :: tables and a t' m
  assume "logs_wf n t" "Inr ((), t\<lparr>tb_config_version := m, tb_version_seq := max (tb_version_seq t) (sv_id v)\<rparr>) = Inr (a, t')"
    "insert_row ''config_version.id'' (sv_id v) \<lparr>vw_recorded_at = sv_recorded_at_unix v, vw_author = sv_author v,
      vw_description = sv_description v, vw_schema_version = uint (sv_schema_version v), vw_restored_from = sv_restored_from v,
      vw_document = sv_document v\<rparr> (tb_config_version t) = Inr m"
  then show "logs_wf n t'"
    using logs_wf_version [of n t "max (tb_version_seq t) (sv_id v)" "sv_id v"] insert_row_bt
    by (cases t) fastforce
qed

lemma keeps_insert_audit: "keeps (logs_wf n) (insert_audit what r)"
  unfolding insert_audit_def by (rule keeps_statement) (auto simp: Let_def logs_wf_audit split: if_splits)

lemma keeps_append_version: "keeps (logs_wf n) (append_version document snap change restored now)"
  unfolding append_version_def
  by (rule keeps_statement) (auto simp: Let_def split: if_splits intro!: logs_wf_version)

lemma logs_wf_other [simp]:
  "logs_wf n (t\<lparr>tb_secret := a\<rparr>) = logs_wf n t" "logs_wf n (t\<lparr>tb_config_state := b\<rparr>) = logs_wf n t"
  "logs_wf n (t\<lparr>tb_join_token := c\<rparr>) = logs_wf n t" "logs_wf n (t\<lparr>tb_removed_node := d\<rparr>) = logs_wf n t"
  "logs_wf n (t\<lparr>tb_acme_order := e\<rparr>) = logs_wf n t" "logs_wf n (t\<lparr>tb_cluster_identity := f\<rparr>) = logs_wf n t"
  "logs_wf n (t\<lparr>tb_raft_log := g\<rparr>) = logs_wf n t" "logs_wf n (t\<lparr>tb_raft_marker := h\<rparr>) = logs_wf n t"
  "logs_wf n (t\<lparr>tb_raft_snapshot := i\<rparr>) = logs_wf n t"
  by (simp_all add: logs_wf_def versions_wf_def audit_wf_def)

lemma logs_wf_cleared [simp]:
  "logs_wf n t \<Longrightarrow> logs_wf n (t\<lparr>tb_config_version := []\<rparr>)" "logs_wf n t \<Longrightarrow> logs_wf n (t\<lparr>tb_audit_log := []\<rparr>)"
  by (simp_all add: logs_wf_def versions_wf_def audit_wf_def bt_wf_def)

lemma logs_wf_removed: "logs_wf n t \<Longrightarrow> logs_wf n (t\<lparr>tb_config_version := bt_remove i (tb_config_version t)\<rparr>)"
  by (simp add: logs_wf_def versions_wf_def audit_wf_def bt_remove_def bt_retain_wf bt_retain_def)
    (simp add: bt_wf_def sorted_wrt_filter sorted_wrt_map)

lemma keeps_parts [keeping]:
  "keeps (logs_wf n) (write_secret row)" "keeps (logs_wf n) (write_join j)" "keeps (logs_wf n) (write_removed_node node)"
  "keeps (logs_wf n) (write_order env o1)" "keeps (logs_wf n) (write_state c document now)"
  "keeps (logs_wf n) (write_identity authority)" "keeps (logs_wf n) (write_marker what m)"
  unfolding write_secret_def write_join_def write_removed_node_def write_order_def write_state_def write_identity_def write_marker_def
  by (auto intro!: keeping simp: and_then_Inr split: if_splits)

lemma keeps_groups [keeping]:
  "keeps (logs_wf n) (write_joins snap)" "keeps (logs_wf n) (write_removed snap)" "keeps (logs_wf n) (write_orders env snap)"
  unfolding write_joins_def [abs_def] write_removed_def [abs_def] write_orders_def [abs_def]
  by (auto intro!: keeping)

lemma keeps_prune: "keeps (logs_wf n) (prune change now)"
  unfolding prune_def [abs_def] prune_one_def [abs_def]
  by (intro keeping keeps_insert_audit) (rule logs_wf_removed)

lemma keeps_write_version: "keeps (logs_wf n) (write_version env random snap change restored now markers audit)"
  unfolding write_version_def write_tables_def [abs_def]
  by (intro keeping keeps_append_version keeps_prune keeps_insert_audit) simp_all

lemma keeps_clearing: "keeps (logs_wf n) (each (execute what) clearing)"
  unfolding clearing_def each.simps by (intro keeping) simp_all

lemma keeps_import: "keeps (logs_wf n) (import_store env random clock state markers)"
  unfolding import_store_def import_tables_def [abs_def] import_snapshot_def [abs_def]
  by (intro keeping keeps_clearing keeps_stored_version keeps_insert_audit)

lemma keeps_read: "keeps P (read_store env)"
  unfolding read_store_def read_joins_def read_removed_def read_orders_def
  by (intro keeping)

lemma keeps_roll_back: "keeps (logs_wf n) (roll_back_to env random clock i change)"
  unfolding roll_back_to_def [abs_def] version_schema_def version_config_def
  by (intro keeping keeps_read keeps_write_version)

lemma bt_wf_same_keys: "map fst m = map fst m' \<Longrightarrow> bt_wf m = bt_wf m'"
  by (simp add: bt_wf_def)

lemma logs_wf_document: "logs_wf n t \<Longrightarrow> logs_wf n (set_version_document i document schema t)"
proof -
  let ?f = "\<lambda>(j, r). (j, if j = i then r\<lparr>vw_document := document, vw_schema_version := schema\<rparr> else r)"
  have "map fst (map ?f m) = map fst m" for m :: "(int \<times> version_row) list" by (induction m) auto
  then have "bt_wf (map ?f (tb_config_version t)) = bt_wf (tb_config_version t)"
    by (rule bt_wf_same_keys)
  then show "logs_wf n t \<Longrightarrow> ?thesis"
    by (auto simp: logs_wf_def versions_wf_def audit_wf_def set_version_document_def)
qed

lemma keeps_bring_forward: "keeps (logs_wf n) (bring_forward env clock steps)"
proof -
  have row: "keeps (logs_wf n) (migrate_row env steps select update)" if "\<And>d v t. logs_wf n t \<Longrightarrow> logs_wf n (update d v t)" for select update
    unfolding migrate_row_def [abs_def] by (intro keeping) (use that in \<open>auto split: prod.split intro!: keeping\<close>)
  have "keeps (logs_wf n) (\<lambda>s. (Inr path, s\<lparr>backups := backups s @ [(path, db s)]\<rparr>))" for path by (simp add: keeps_def)
  then show ?thesis
    unfolding bring_forward_def [abs_def] stored_schema_version_def back_up_def Let_def version_ids_def
    by (intro keeping row) (simp_all add: set_state_document_def logs_wf_document)
qed

section \<open>A failure changes nothing\<close>

definition intact :: "(store_session \<Rightarrow> ('a, store_error) result \<times> store_session) \<Rightarrow> bool" where
  "intact op \<longleftrightarrow> (\<forall>s e s'. op s = (Inl e, s') \<longrightarrow> db s' = db s)"

named_theorems unchanged

lemma intact_transaction [unchanged]: "intact (transaction committed body)"
  by (simp add: intact_def transaction_Inl)

lemma intact_connection [unchanged]: "intact body \<Longrightarrow> intact (connection body)"
  by (simp add: intact_def connection_def)

lemma intact_pure_step [unchanged]: "(\<And>a. intact (f a)) \<Longrightarrow> intact (pure_step r f)"
  by (cases r) (simp_all add: intact_def pure_step_def)

lemma intact_return [unchanged]: "intact (\<lambda>s. (r, s))" "intact (Pair r)"
  by (simp_all add: intact_def)

lemma intact_run_then:
  assumes "\<And>t. keeps ((=) t) op" "\<And>a. intact (k a)"
  shows "intact (\<lambda>s. run_then (op s) k)"
  unfolding intact_def
proof (intro allI impI)
  fix s e s' assume "run_then (op s) k = (Inl e, s')"
  moreover have "db (snd (op s)) = db s" using assms(1) [of "db s"] by (simp add: keeps_def)
  ultimately show "db s' = db s" using assms(2) by (cases "op s"; cases "fst (op s)") (auto simp: intact_def)
qed

lemma intact_statement: "intact (statement what f)"
  unfolding statement_def
  by (rule intact_run_then [OF keeps_fault]) (auto simp: intact_def split: sum.splits)

lemma intact_execute [unchanged]: "intact (execute what f)"
  unfolding execute_def by (rule intact_statement)

lemma intact_option_at [unchanged]:
  "(\<And>x. intact (f x)) \<Longrightarrow> intact g \<Longrightarrow> intact (\<lambda>s. case a of None \<Rightarrow> g s | Some x \<Rightarrow> f x s)"
  by (cases a) simp_all

lemma intact_if [unchanged]: "intact f \<Longrightarrow> intact g \<Longrightarrow> intact (\<lambda>s. if b then f s else g s)"
  by (cases b) simp_all

lemma intact_write_version: "intact (write_version env random snap change restored now markers audit)"
  unfolding write_version_def by (intro unchanged)

lemma intact_import: "intact (import_store env random clock state markers)"
  unfolding import_store_def by (intro unchanged)

lemma intact_roll_back: "intact (roll_back_to env random clock i change)"
  unfolding roll_back_to_def [abs_def] version_schema_def version_config_def
  by (intro unchanged intact_run_then keeping keeps_read intact_write_version)

lemma intact_bring_forward: "intact (bring_forward env clock steps)"
proof -
  have "keeps ((=) t) (\<lambda>s. (Inr path, s\<lparr>backups := backups s @ [(path, db s)]\<rparr>))" for path t by (simp add: keeps_def)
  then show ?thesis
    unfolding bring_forward_def [abs_def] stored_schema_version_def back_up_def Let_def
    by (intro unchanged intact_run_then keeping)
qed

section \<open>Runs\<close>

datatype store_op =
    WriteOp "string \<Rightarrow> (byte list, string) result" snapshot change int "(string \<times> string) list" "audit_record list"
  | RollBackOp "string \<Rightarrow> (byte list, string) result" "(nat, string) result" version_id change
  | ImportOp "string \<Rightarrow> (byte list, string) result" "(nat, string) result" full_state "(string \<times> string) list"
  | AppendOp "journal_record list"
  | TruncateOp u64
  | PurgeOp u64
  | MarkerOp string "string option"
  | SnapshotOp string "byte list"
  | MigrateOp "(nat, string) result" "migration list"

definition giving :: "('a \<Rightarrow> version_id option) \<Rightarrow> ('a, store_error) result \<times> store_session
    \<Rightarrow> (version_id option, store_error) result \<times> store_session" where
  "giving g r = (map_sum id g (fst r), snd r)"

fun run_op :: "store_env \<Rightarrow> store_op \<Rightarrow> store_session \<Rightarrow> (version_id option, store_error) result \<times> store_session" where
  "run_op env (WriteOp random snap change now markers audit) s = giving Some (apply_write env random snap change now markers audit s)"
| "run_op env (RollBackOp random clock i change) s = giving Some (roll_back_to env random clock i change s)"
| "run_op env (ImportOp random clock state markers) s = giving (\<lambda>_. None) (import_store env random clock state markers s)"
| "run_op env (AppendOp records) s = giving (\<lambda>_. None) (journal_append records s)"
| "run_op env (TruncateOp at) s = giving (\<lambda>_. None) (truncate_from at s)"
| "run_op env (PurgeOp at) s = giving (\<lambda>_. None) (purge_upto at s)"
| "run_op env (MarkerOp name v) s = giving (\<lambda>_. None) (set_marker name v s)"
| "run_op env (SnapshotOp meta data) s = giving (\<lambda>_. None) (set_snapshot meta data s)"
| "run_op env (MigrateOp clock steps) s = giving (\<lambda>_. None) (bring_forward env clock steps s)"

text \<open>The identities a run gives to versions, in the order it gives them.\<close>

fun run_ops :: "store_env \<Rightarrow> store_op list \<Rightarrow> store_session \<Rightarrow> version_id list \<times> store_session" where
  "run_ops env [] s = ([], s)"
| "run_ops env (op # ops) s =
     (let (r, s1) = run_op env op s; (ids, s2) = run_ops env ops s1
      in (case r of Inr (Some v) \<Rightarrow> v # ids | _ \<Rightarrow> ids, s2))"

text \<open>The states handed in are made of maps and sets.\<close>

fun op_wf :: "store_op \<Rightarrow> bool" where
  "op_wf (WriteOp _ snap _ _ _ _) = snapshot_wf snap"
| "op_wf _ = True"

lemma intact_journal:
  "intact (journal_append rs)" "intact (truncate_from at)" "intact (purge_upto at)" "intact (set_snapshot meta data)"
  unfolding journal_append_def truncate_from_def purge_upto_def set_snapshot_def
  by ((intro unchanged)+)

lemma intact_set_marker: "intact (set_marker name v)"
  by (cases v) (auto simp: set_marker_def write_marker_def intro!: unchanged)

lemma giving_simps:
  "giving g r = (Inl e, s') \<longleftrightarrow> r = (Inl e, s')" "giving g r = (Inr x, s') \<longleftrightarrow> (\<exists>a. r = (Inr a, s') \<and> x = g a)"
  by (cases r; cases "fst r"; auto simp: giving_def)+

lemma run_op_intact: "run_op env op s = (Inl e, s') \<Longrightarrow> db s' = db s"
  using intact_write_version intact_roll_back intact_import intact_bring_forward intact_journal intact_set_marker
  by (cases op) (auto simp: apply_write_def intact_def giving_simps)

lemma keeps_journal:
  "keeps (logs_wf n) (journal_append rs)" "keeps (logs_wf n) (truncate_from at)" "keeps (logs_wf n) (purge_upto at)"
  "keeps (logs_wf n) (set_snapshot meta data)" "keeps (logs_wf n) (set_marker name v)"
  unfolding journal_append_def append_record_def truncate_from_def purge_upto_def set_snapshot_def set_marker_def
  by (auto intro!: keeping)

lemma run_op_keeps: "keeps (logs_wf n) (run_op env op)"
  using keeps_write_version keeps_roll_back keeps_import keeps_bring_forward keeps_journal
  by (cases op) (auto simp: apply_write_def keeps_def giving_def)

lemma roll_back_Inr:
  assumes "roll_back_to env random clock i change s = (Inr v, s')"
  obtains row restored current now s1 where "bt_get i (tb_config_version (db s)) = Some row"
    "ev_config_from_str env (vw_document row) = Inr restored" "read_store env (calm s) = (Inr (Some current), calm s)"
    "snapshot_wf current" "seconds_since_epoch clock = Inr now" "now_holds s (db s) s1" "vw_schema_version row = uint (ev_target env)"
    "write_version env random (current\<lparr>sn_config := restored\<lparr>certificates := certificates (sn_config current)\<rparr>\<rparr>)
       change (Some i) now [] [] s1 = (Inr v, s')"
proof -
  from assms obtain stored s0 restored s2 current s3 now
    where s0: "version_schema i s = (Inr (Some stored), s0)" "stored = ev_target env"
      and s2: "version_config env i s0 = (Inr (Some restored), s2)"
      and s3: "read_store env s2 = (Inr (Some current), s3)" "seconds_since_epoch clock = Inr now"
        "write_version env random (current\<lparr>sn_config := restored\<lparr>certificates := certificates (sn_config current)\<rparr>\<rparr>)
          change (Some i) now [] [] s3 = (Inr v, s')"
    by (auto simp: roll_back_to_def run_then_Inr pure_step_Inr ok_or_Inr split: if_splits)
  from s0 obtain row where row: "bt_get i (tb_config_version (db s)) = Some row" "now_holds s (db s) s0"
      "stored_schema (vw_schema_version row) = Inr stored"
    unfolding version_schema_def connection_Inr run_then_Inr pure_step_Inr
    by (cases "bt_get i (tb_config_version (db s))")
      (auto simp: transpose_schema_def and_then_Inr now_holds_def split: option.splits dest!: query_row_Inr)
  from s2 row have document: "ev_config_from_str env (vw_document row) = Inr restored" "now_holds s (db s) s2"
    unfolding version_config_def connection_Inr run_then_Inr pure_step_Inr
    by (auto simp: pure_step_Inr or_error_Inr now_holds_def split: option.splits dest!: query_row_Inr)
  have "read_store env (calm s) = (Inr (Some current), calm s)"
    using read_store_Inr(2) [OF s3(1)] document(2) by (cases s; cases s2) (simp add: now_holds_def calm_def)
  moreover have "now_holds s (db s) s3" using read_store_Inr(1) [OF s3(1)] document(2) by (simp add: now_holds_def)
  moreover have "vw_schema_version row = uint (ev_target env)"
    using row(3) s0(2) by (auto simp: stored_schema_def word_of_int_inverse split: if_splits)
  ultimately show ?thesis
    using that row(1) document(1) read_store_Inr(3) [OF s3(1) refl] s3(2,3) by blast
qed

section \<open>Identities only grow\<close>

lemma written_seq [simp]:
  "tb_version_seq (written env snap change restored now markers audit document sealed t) = tb_version_seq t + 1"
  by (simp add: written_def with_markers_def with_version_def with_state_def)

lemma write_version_id:
  assumes "write_version env random snap change restored now markers audit s = (Inr v, s')" "snapshot_wf snap" "logs_wf n (db s)"
  shows "v = tb_version_seq (db s) + 1 \<and> tb_version_seq (db s') = v"
proof -
  have "versions_wf (db s)" "audit_wf (db s)" using assms(3) by (simp_all add: logs_wf_def)
  from write_version_Inr [OF assms(1,2) this] show ?thesis by (metis now_holds_def written_seq)
qed

lemma run_op_version:
  assumes "run_op env op s = (Inr (Some v), s')" "op_wf op" "logs_wf n (db s)"
  shows "v = tb_version_seq (db s) + 1 \<and> tb_version_seq (db s') = v"
  using assms(1)
proof (cases op)
  case (WriteOp random snap change now markers audit)
  then show ?thesis using assms write_version_id by (auto simp: giving_simps apply_write_def)
next
  case (RollBackOp random clock i change)
  then have "roll_back_to env random clock i change s = (Inr v, s')" using assms(1) by (simp add: giving_simps)
  then obtain current restored now s1 where s1: "snapshot_wf current" "now_holds s (db s) s1"
      "write_version env random (current\<lparr>sn_config := restored\<lparr>certificates := certificates (sn_config current)\<rparr>\<rparr>)
         change (Some i) now [] [] s1 = (Inr v, s')"
    by (rule roll_back_Inr)
  then show ?thesis using write_version_id [OF s1(3), of n] assms(3) by (simp add: snapshot_wf_def now_holds_def)
qed (auto simp: giving_simps)

lemma run_op_logs: "run_op env op s = (r, s') \<Longrightarrow> logs_wf n (db s) \<Longrightarrow> logs_wf n (db s')"
  using run_op_keeps [of n env op] by (auto simp: keeps_def)

lemma run_ops_grow:
  "run_ops env ops s = (ids, s') \<Longrightarrow> \<forall>op \<in> set ops. op_wf op \<Longrightarrow> logs_wf (tb_version_seq (db s)) (db s) \<Longrightarrow>
   sorted_wrt (<) ids \<and> (\<forall>v \<in> set ids. tb_version_seq (db s) < v) \<and> logs_wf (tb_version_seq (db s)) (db s')"
proof (induction ops arbitrary: s ids)
  case (Cons op ops)
  obtain r s1 where s1: "run_op env op s = (r, s1)" by fastforce
  obtain ids' where ids': "run_ops env ops s1 = (ids', s')" "ids = (case r of Inr (Some v) \<Rightarrow> v # ids' | _ \<Rightarrow> ids')"
    using Cons.prems(1) s1 by (auto split: prod.splits)
  have kept: "logs_wf (tb_version_seq (db s)) (db s1)" using run_op_logs [OF s1 Cons.prems(3)] .
  then have "logs_wf (tb_version_seq (db s1)) (db s1)" by (simp add: logs_wf_def)
  from Cons.IH [OF ids'(1) _ this] Cons.prems(2)
  have IH: "sorted_wrt (<) ids'" "\<forall>v \<in> set ids'. tb_version_seq (db s1) < v" "logs_wf (tb_version_seq (db s1)) (db s')" by auto
  have mono: "tb_version_seq (db s) \<le> tb_version_seq (db s1)" using kept by (simp add: logs_wf_def)
  show ?case
  proof (cases "\<exists>v. r = Inr (Some v)")
    case True
    then obtain v where "r = Inr (Some v)" by blast
    moreover from this have "v = tb_version_seq (db s) + 1 \<and> tb_version_seq (db s1) = v"
      using run_op_version [of env op s v s1] s1 Cons.prems(2,3) by simp
    ultimately show ?thesis using ids'(2) IH mono by (force simp: logs_wf_def)
  next
    case False
    then have "ids = ids'" using ids'(2) by (auto split: sum.splits option.splits)
    then show ?thesis using IH mono by (force simp: logs_wf_def)
  qed
qed simp

section \<open>A peer that catches up\<close>

definition row_of_version :: "stored_version \<Rightarrow> int \<times> version_row" where
  "row_of_version v = (sv_id v, \<lparr>vw_recorded_at = sv_recorded_at_unix v, vw_author = sv_author v,
     vw_description = sv_description v, vw_schema_version = uint (sv_schema_version v),
     vw_restored_from = sv_restored_from v, vw_document = sv_document v\<rparr>)"

definition highest :: "stored_version list \<Rightarrow> int \<Rightarrow> int" where
  "highest vs q = fold (\<lambda>v q. max q (sv_id v)) vs q"

lemma stored_versions_Inr:
  "each write_stored_version vs s = (Inr u, s') \<Longrightarrow> bt_wf (tb_config_version (db s) @ map row_of_version vs) \<Longrightarrow>
   now_holds s ((db s)\<lparr>tb_config_version := tb_config_version (db s) @ map row_of_version vs,
     tb_version_seq := highest vs (tb_version_seq (db s))\<rparr>) s'"
proof (induction vs arbitrary: s)
  case (Cons v vs)
  then obtain w s1 where s1: "write_stored_version v s = (Inr w, s1)" "each write_stored_version vs s1 = (Inr u, s')"
    unfolding each_Inr_Cons by blast
  have "bt_wf (tb_config_version (db s) @ [row_of_version v])"
    using Cons.prems(2) by (simp add: bt_wf_def sorted_wrt_append)
  then have "\<forall>e \<in> set (tb_config_version (db s)). fst e < sv_id v"
    by (simp add: row_of_version_def bt_wf_snoc)
  then have "insert_row ''config_version.id'' (sv_id v) (snd (row_of_version v)) (tb_config_version (db s))
      = Inr (tb_config_version (db s) @ [row_of_version v])"
    by (simp add: insert_row_last row_of_version_def)
  then have "now_holds s ((db s)\<lparr>tb_config_version := tb_config_version (db s) @ [row_of_version v],
      tb_version_seq := max (tb_version_seq (db s)) (sv_id v)\<rparr>) s1"
    using s1(1) by (auto simp: write_stored_version_def and_then_Inr row_of_version_def elim!: statement_Inr)
  then show ?case using Cons.IH [OF s1(2)] Cons.prems(2) by (simp add: now_holds_def highest_def)
qed (simp add: now_holds_def highest_def)

definition cleared :: "tables \<Rightarrow> tables" where
  "cleared t = t\<lparr>tb_secret := [], tb_config_state := None, tb_config_version := [], tb_audit_log := [],
     tb_cluster_identity := None, tb_join_token := [], tb_removed_node := [], tb_acme_order := []\<rparr>"

lemma clearing_Inr: "each (execute what) clearing s = (Inr u, s') \<Longrightarrow> now_holds s (cleared (db s)) s'"
  by (auto simp: clearing_def run_then_Inr cleared_def now_holds_def dest!: execute_Inr)

text \<open>The state an import leaves, before the logs.\<close>

definition imported_state :: "store_env \<Rightarrow> snapshot option \<Rightarrow> string \<Rightarrow> (string \<times> sealed) list \<Rightarrow> int \<Rightarrow> tables \<Rightarrow> tables" where
  "imported_state env snap document sealed now t = (case snap of
     None \<Rightarrow> (cleared t)\<lparr>tb_secret := sealed\<rparr>
   | Some held \<Rightarrow> (cleared t)\<lparr>tb_secret := sealed, tb_cluster_identity := sn_cluster held, tb_join_token := sn_joins held,
       tb_removed_node := map (\<lambda>n. (n, ())) (sorted_list_of_set (sn_removed held)),
       tb_acme_order := order_rows env (sn_orders held),
       tb_config_state := Some \<lparr>st_schema_version = uint (schema_version (sn_config held)), st_document = document, st_updated_at = now\<rparr>\<rparr>)"

lemma import_snapshot_Inr:
  assumes "import_snapshot env now held s = (Inr u, s')" "snapshot_wf held" "tb_cluster_identity (db s) = None"
  obtains document where "ev_config_to_string env (sn_config held) = Inr document"
    "\<forall>x \<in> set (sn_orders held). \<exists>row. row_of_order env (snd x) = Inr row"
    "now_holds s ((db s)\<lparr>tb_cluster_identity := sn_cluster held, tb_join_token := sn_joins held,
       tb_removed_node := map (\<lambda>n. (n, ())) (sorted_list_of_set (sn_removed held)),
       tb_acme_order := order_rows env (sn_orders held),
       tb_config_state := Some \<lparr>st_schema_version = uint (schema_version (sn_config held)), st_document = document, st_updated_at = now\<rparr>\<rparr>) s'"
proof -
  from assms(1) obtain s1 s2 s3 s4 document where
      s1: "each write_identity (case sn_cluster held of None \<Rightarrow> [] | Some a \<Rightarrow> [a]) s = (Inr (), s1)"
      and steps: "write_joins held s1 = (Inr (), s2)" "write_removed held s2 = (Inr (), s3)" "write_orders env held s3 = (Inr (), s4)"
      and document: "ev_config_to_string env (sn_config held) = Inr document"
      and state: "write_state (sn_config held) document now s4 = (Inr u, s')"
    by (auto simp: import_snapshot_def run_then_Inr pure_step_Inr or_error_Inr)
  have wf: "bt_wf (sn_joins held)" "finite (sn_removed held)" "bt_wf (sn_orders held)"
    using assms(2) by (simp_all add: snapshot_wf_def)
  show ?thesis
    using that [OF document write_orders_Inr(2) [OF steps(3) wf(3)]] write_identity_Inr [OF s1 assms(3)]
      write_joins_Inr [OF steps(1) wf(1)] write_removed_Inr [OF steps(2) wf(2)] write_orders_Inr(1) [OF steps(3) wf(3)]
      execute_Inr [OF state [unfolded write_state_def]]
    by (simp add: now_holds_def)
qed

definition full_wf :: "full_state \<Rightarrow> bool" where
  "full_wf state \<longleftrightarrow> (\<forall>snap. fs_snapshot state = Some snap \<longrightarrow> snapshot_wf snap) \<and> sorted_wrt (<) (map sv_id (fs_versions state))"

definition imported :: "store_env \<Rightarrow> full_state \<Rightarrow> (string \<times> string) list \<Rightarrow> string \<Rightarrow> (string \<times> sealed) list \<Rightarrow> int \<Rightarrow> tables \<Rightarrow> tables" where
  "imported env state markers document sealed now t = with_markers markers (audited (fs_audit state)
     ((imported_state env (fs_snapshot state) document sealed now t)
        \<lparr>tb_config_version := map row_of_version (fs_versions state),
         tb_version_seq := highest (fs_versions state) (tb_version_seq t)\<rparr>))"

lemma imported_state_frame:
  "tb_config_version (imported_state env snap document sealed now t) = []"
  "tb_version_seq (imported_state env snap document sealed now t) = tb_version_seq t"
  "tb_audit_log (imported_state env snap document sealed now t) = []"
  by (simp_all add: imported_state_def cleared_def split: option.split)

lemma rows_wf: "bt_wf (map row_of_version vs) \<longleftrightarrow> sorted_wrt (<) (map sv_id vs)"
  by (simp add: bt_wf_def row_of_version_def comp_def)

lemma import_state_Inr:
  assumes ran: "each (execute ''the previous state could not be replaced'') clearing s0 = (Inr (), s1)"
    "each write_secret sealed s1 = (Inr (), s2)"
    "each (import_snapshot env now) (case fs_snapshot state of None \<Rightarrow> [] | Some held \<Rightarrow> [held]) s2 = (Inr (), s3)"
    and wf: "full_wf state" "bt_wf sealed"
  obtains document where "now_holds s0 (imported_state env (fs_snapshot state) document sealed now (db s0)) s3"
    "\<And>snap. fs_snapshot state = Some snap \<Longrightarrow> ev_config_to_string env (sn_config snap) = Inr document \<and>
       (\<forall>x \<in> set (sn_orders snap). \<exists>row. row_of_order env (snd x) = Inr row)"
proof -
  have s1: "now_holds s0 (cleared (db s0)) s1" using clearing_Inr [OF ran(1)] .
  then have s2: "now_holds s0 ((cleared (db s0))\<lparr>tb_secret := sealed\<rparr>) s2"
    using write_secrets_Inr [OF ran(2) _ wf(2)] by (simp add: now_holds_def cleared_def)
  show ?thesis
  proof (cases "fs_snapshot state")
    case None
    then show ?thesis using that s2 ran(3) by (simp add: imported_state_def)
  next
    case (Some held)
    have held: "import_snapshot env now held s2 = (Inr (), s3)" "snapshot_wf held" "tb_cluster_identity (db s2) = None"
      using ran(3) wf(1) s2 Some by (auto simp: run_then_Inr full_wf_def now_holds_def cleared_def)
    from import_snapshot_Inr [OF held] obtain document where "ev_config_to_string env (sn_config held) = Inr document"
        "\<forall>x \<in> set (sn_orders held). \<exists>row. row_of_order env (snd x) = Inr row"
        "now_holds s0 (imported_state env (fs_snapshot state) document sealed now (db s0)) s3"
      using s2 by (auto simp: now_holds_def imported_state_def Some)
    then show ?thesis using that Some by simp
  qed
qed

lemma import_Inr:
  assumes "import_store env random clock state markers s = (Inr u, s')" "full_wf state"
  obtains now document sealed where
    "seal_all env random (case fs_snapshot state of None \<Rightarrow> [] | Some held \<Rightarrow> sn_secrets held) = Inr sealed"
    "now_holds s (imported env state markers document sealed now (db s)) s'"
    "\<And>snap. fs_snapshot state = Some snap \<Longrightarrow> ev_config_to_string env (sn_config snap) = Inr document \<and>
       (\<forall>x \<in> set (sn_orders snap). \<exists>row. row_of_order env (snd x) = Inr row)"
proof -
  from assms(1) obtain now sealed where sealed: "seal_all env random (case fs_snapshot state of None \<Rightarrow> [] | Some held \<Rightarrow> sn_secrets held) = Inr sealed"
      and body: "transaction ''the imported state could not be committed'' (import_tables env now state markers sealed) s = (Inr u, s')"
    unfolding import_store_def pure_step_Inr connection_Inr by blast
  have "bt_wf (case fs_snapshot state of None \<Rightarrow> [] | Some held \<Rightarrow> sn_secrets held)"
    using assms(2) by (auto simp: full_wf_def snapshot_wf_def bt_wf_def split: option.split)
  then have sealed_wf: "bt_wf sealed" using seal_all_wf [OF sealed] by simp
  from body obtain s0 s6 where s0: "now_holds s (db s) s0" and s6: "now_holds s6 (db s6) s'"
      and ran: "import_tables env now state markers sealed s0 = (Inr u, s6)"
    by (rule transaction_Inr)
  from ran obtain s1 s2 s3 s4 s5 where
      parts: "each (execute ''the previous state could not be replaced'') clearing s0 = (Inr (), s1)" "each write_secret sealed s1 = (Inr (), s2)"
        "each (import_snapshot env now) (case fs_snapshot state of None \<Rightarrow> [] | Some held \<Rightarrow> [held]) s2 = (Inr (), s3)"
      and logs: "each write_stored_version (fs_versions state) s3 = (Inr (), s4)"
        "each (insert_audit ''an audit record could not be written'') (fs_audit state) s4 = (Inr (), s5)"
        "each (write_marker ''a marker could not be written beside the state'') markers s5 = (Inr u, s6)"
    by (auto simp: import_tables_def run_then_Inr)
  from import_state_Inr [OF parts assms(2) sealed_wf] obtain document
    where state: "now_holds s0 (imported_state env (fs_snapshot state) document sealed now (db s0)) s3"
      and encoded: "\<And>snap. fs_snapshot state = Some snap \<Longrightarrow> ev_config_to_string env (sn_config snap) = Inr document \<and>
        (\<forall>x \<in> set (sn_orders snap). \<exists>row. row_of_order env (snd x) = Inr row)" by blast
  have s4: "now_holds s3 ((db s3)\<lparr>tb_config_version := map row_of_version (fs_versions state),
      tb_version_seq := highest (fs_versions state) (tb_version_seq (db s3))\<rparr>) s4"
    using stored_versions_Inr [OF logs(1)] state assms(2) by (simp add: now_holds_def imported_state_frame rows_wf full_wf_def)
  then have "audit_wf (db s4)" using state by (simp add: now_holds_def audit_wf_def imported_state_frame bt_wf_def)
  then have "now_holds s (imported env state markers document sealed now (db s)) s'"
    using insert_audits_Inr [OF logs(2)] write_markers_Inr [OF logs(3)] s0 s4 s6 state
    by (simp add: now_holds_def imported_def imported_state_frame)
  then show ?thesis using that sealed encoded by blast
qed

lemma stored_of_row_back: "stored_of_row (row_of_version v) = Inr v"
proof -
  have "0 \<le> uint (sv_schema_version v)" "uint (sv_schema_version v) < 2 ^ 32" "of_int (uint (sv_schema_version v)) = sv_schema_version v"
    using uint_lt2p [of "sv_schema_version v"] by simp_all
  then show ?thesis by (simp add: stored_of_row_def row_of_version_def u32_column_def)
qed

lemma export_calm:
  assumes "read_store env s = (Inr snap, s)" "faults s = []" "\<not> poisoned s" "tb_config_version (db s) = map row_of_version vs"
  shows "export_store env s = (Inr \<lparr>fs_snapshot = snap, fs_versions = vs, fs_audit = map snd (tb_audit_log (db s))\<rparr>, s)"
proof -
  have "collect (\<lambda>row held. and_then (stored_of_row row) (\<lambda>v. Inr (held @ [v]))) (map row_of_version vs) [] =
      Inr ([] @ map (\<lambda>x. projr (stored_of_row x)) (map row_of_version vs))"
    by (rule collect_append) (auto simp: stored_of_row_back)
  moreover have "collect (\<lambda>r held. Inr (held @ [r])) (map snd (tb_audit_log (db s))) [] = Inr ([] @ map (\<lambda>x. x) (map snd (tb_audit_log (db s))))"
    by (rule collect_append) simp
  ultimately show ?thesis
    using assms by (simp add: export_store_def calm_run stored_of_row_back comp_def)
qed

lemma imported_exported:
  assumes "import_store env random clock state markers s = (Inr u, s')" "full_wf state" "libraries_faithful env" "fills_nonces random"
  shows "export_store env (calm s') = (Inr state, calm s')"
proof -
  from import_Inr [OF assms(1,2)] obtain now document sealed where
      sealed: "seal_all env random (case fs_snapshot state of None \<Rightarrow> [] | Some held \<Rightarrow> sn_secrets held) = Inr sealed"
      and held: "db s' = imported env state markers document sealed now (db s)"
      and encoded: "\<And>snap. fs_snapshot state = Some snap \<Longrightarrow> ev_config_to_string env (sn_config snap) = Inr document \<and>
        (\<forall>x \<in> set (sn_orders snap). \<exists>row. row_of_order env (snd x) = Inr row)"
    unfolding now_holds_def by metis
  have "read_store env (calm s') = (Inr (fs_snapshot state), calm s')"
  proof (cases "fs_snapshot state")
    case None
    then have "tb_config_state (db s') = None" by (simp add: held imported_def with_markers_def imported_state_def cleared_def)
    then show ?thesis using None by (simp add: read_store_def calm_run)
  next
    case (Some snap)
    then have "holds_state env snap (db s')"
      using assms(2-4) sealed encoded collect_secrets [OF assms(3,4), of "sn_secrets snap" sealed "[]"]
      by (auto simp: holds_state_def held imported_def with_markers_def imported_state_def libraries_faithful_def
          full_wf_def snapshot_wf_def image_image)
    then show ?thesis using read_store_holds [OF assms(3), of snap "calm s'"] Some by simp
  qed
  moreover have "map snd (tb_audit_log (db s')) = fs_audit state"
    by (simp add: held imported_def with_markers_def imported_state_frame)
  moreover have "tb_config_version (db s') = map row_of_version (fs_versions state)"
    by (simp add: held imported_def with_markers_def)
  ultimately show ?thesis using export_calm [of env "calm s'"] by simp
qed

section \<open>Writes and rollbacks, read back\<close>

lemma written_reads:
  assumes "write_version env random snap change restored now markers audit s = (Inr v, s')" "snapshot_wf snap" "logs_wf n (db s)"
    "libraries_faithful env" "fills_nonces random"
  shows "read_store env (calm s') = (Inr (Some snap), calm s')"
proof -
  have "versions_wf (db s)" "audit_wf (db s)" using assms(3) by (simp_all add: logs_wf_def)
  from write_version_Inr [OF assms(1,2) this] obtain document sealed where
      "ev_config_to_string env (sn_config snap) = Inr document" "seal_all env random (sn_secrets snap) = Inr sealed"
      "\<forall>x \<in> set (sn_orders snap). \<exists>row. row_of_order env (snd x) = Inr row"
      "db s' = written env snap change restored now markers audit document sealed (db s)"
    unfolding now_holds_def by metis
  then have "holds_state env snap (db s')" using written_holds [OF assms(4,5,2)] by simp
  then show ?thesis using read_store_holds [OF assms(4), of snap "calm s'"] by simp
qed

lemma rolled_back_reads:
  assumes "roll_back_to env random clock i change s = (Inr v, s')" "logs_wf n (db s)"
    "libraries_faithful env" "fills_nonces random"
  obtains row restored current where "bt_get i (tb_config_version (db s)) = Some row"
    "ev_config_from_str env (vw_document row) = Inr restored" "read_store env (calm s) = (Inr (Some current), calm s)"
    "read_store env (calm s') = (Inr (Some (current\<lparr>sn_config := restored\<lparr>certificates := certificates (sn_config current)\<rparr>\<rparr>)), calm s')"
proof -
  from roll_back_Inr [OF assms(1)] obtain row restored current now s1 where
      found: "bt_get i (tb_config_version (db s)) = Some row" "ev_config_from_str env (vw_document row) = Inr restored"
        "read_store env (calm s) = (Inr (Some current), calm s)"
      and wf: "snapshot_wf current" "now_holds s (db s) s1"
      and ran: "write_version env random (current\<lparr>sn_config := restored\<lparr>certificates := certificates (sn_config current)\<rparr>\<rparr>)
        change (Some i) now [] [] s1 = (Inr v, s')" by metis
  have "logs_wf n (db s1)" using wf(2) assms(2) by (simp add: now_holds_def)
  from written_reads [OF ran _ this assms(3,4)] wf(1) show ?thesis using that found by (simp add: snapshot_wf_def)
qed

text \<open>
  The nodes of the configuration are rolled back with everything else, so a node removed since
  is listed among them again while the refusal list still names it.
\<close>

lemma rollback_lists_removed_node:
  assumes "roll_back_to env random clock i change s = (Inr v, s')" "logs_wf n (db s)"
    "libraries_faithful env" "fills_nonces random" "bt_get i (tb_config_version (db s)) = Some row"
    "ev_config_from_str env (vw_document row) = Inr restored" "node \<in> set (nodes restored)"
    "read_store env (calm s) = (Inr (Some current), calm s)" "n_id node \<in> sn_removed current"
  shows "\<exists>after. read_store env (calm s') = (Inr (Some after), calm s') \<and> node \<in> set (nodes (sn_config after)) \<and> n_id node \<in> sn_removed after"
proof (rule rolled_back_reads [OF assms(1-4)])
  fix row' restored' current'
  assume "bt_get i (tb_config_version (db s)) = Some row'" "ev_config_from_str env (vw_document row') = Inr restored'"
    "read_store env (calm s) = (Inr (Some current'), calm s)"
    "read_store env (calm s') = (Inr (Some (current'\<lparr>sn_config := restored'\<lparr>certificates := certificates (sn_config current')\<rparr>\<rparr>)), calm s')"
  moreover from this have "restored' = restored" "current' = current" using assms(5,6,8) by simp_all
  ultimately show ?thesis using assms(7,9) by simp
qed

text \<open>
  A store that has given out more identities than the history it imports keeps counting from
  its own, so the next version gets another identity here than on the peer it came from.
\<close>

lemma highest_below: "\<forall>v \<in> set vs. sv_id v \<le> q \<Longrightarrow> highest vs q = q"
  by (induction vs) (simp_all add: highest_def)

lemma imported_history_diverges:
  assumes "import_store env random clock state markers s = (Inr u, s')" "full_wf state" "logs_wf n (db s)"
    "\<forall>v \<in> set (fs_versions state). sv_id v \<le> tb_version_seq (db s)" "snapshot_wf snap"
    "write_version env random snap change restored now markers' audit s' = (Inr mine, s'')"
    "tb_version_seq (db peer) < tb_version_seq (db s)" "logs_wf n (db peer)"
    "write_version env' random' snap change restored now markers' audit peer = (Inr theirs, peer')"
  shows "theirs < mine"
proof -
  from import_Inr [OF assms(1,2)] obtain document sealed now' where
      "db s' = imported env state markers document sealed now' (db s)" unfolding now_holds_def by metis
  then have "tb_version_seq (db s') = tb_version_seq (db s)"
    by (simp add: imported_def with_markers_def highest_below [OF assms(4)])
  moreover have "logs_wf n (db s')"
    using keeps_import [of n env random clock state markers] assms(1,3) by (metis keeps_def snd_conv)
  ultimately have "mine = tb_version_seq (db s) + 1" using write_version_id [OF assms(6,5)] by metis
  then show ?thesis using write_version_id [OF assms(9,5,8)] assms(7) by simp
qed

text \<open>The end of an unbounded range does not fit a log position: such a read always fails.\<close>

lemma unbounded_read_fails: "\<exists>e. fst (journal_records start (- 1) s) = Inl e"
proof -
  have "\<not> uint (- 1 :: u64) \<le> I64_MAX" by (simp add: I64_MAX_def unsigned_minus_1_eq_mask mask_eq_exp_minus_1)
  then have stop: "\<exists>e. log_as_i64 (- 1) = Inl e" by (simp add: log_as_i64_def)
  show ?thesis
    by (cases "fault ''the log query could not be prepared'' s"; cases "fst (fault ''the log query could not be prepared'' s)";
        cases "log_as_i64 start")
      (use stop in \<open>auto simp: journal_records_def connection_def pure_step_def\<close>)
qed

section \<open>Opening\<close>

text \<open>A database is never opened with a key that is missing, readable by others or of the wrong length.\<close>

lemma opened_key:
  assumes "open_with_migrations env directory fa clock steps s = (Inr env', s')"
  shows "ev_target env' = target_version steps \<and> (fa_database_exists fa \<longrightarrow> fa_key_exists fa) \<and>
    (fa_key_exists fa \<longrightarrow> (\<exists>mode. fa_mode fa = Inr mode \<and> mode mod 64 = 0) \<and> fa_bytes fa = Inr (ev_key env') \<and> length (ev_key env') = 32)"
proof -
  from assms obtain key where "store_key directory fa = Inr key" "env' = env\<lparr>ev_key := key, ev_target := target_version steps\<rparr>"
    by (auto simp: open_with_migrations_def pure_step_Inr run_then_Inr Let_def)
  moreover have "m mod 512 mod 64 = m mod 64" for m :: nat by (simp add: mod_mod_cancel)
  ultimately show ?thesis
    by (auto simp: store_key_def read_master_key_def and_then_Inr or_error_Inr Let_def KEY_LENGTH_def split: if_splits)
qed

end
