(* ===== verification/Store_Properties.thy ===== *)
theory Store_Properties
  imports Sqlite_Runs Config_Properties
begin

text \<open>
  The properties of the store: what is written is read, a failure changes nothing, versions
  keep their identities, a rollback restores a configuration and nothing else, and a peer
  that catches up holds what it was sent.
\<close>

section \<open>A store at concrete values\<close>

definition sample_env :: store_env where
  "sample_env = \<lparr>ev_key = replicate 32 7, ev_target = SCHEMA_CURRENT,
     ev_encrypt = (\<lambda>k n a m. Inr (a @ m)), ev_decrypt = (\<lambda>k n a c. Inr (drop (length a) c)),
     ev_config_to_string = (\<lambda>c. if c = sample_config then Inr ''sample'' else Inl ''unknown''),
     ev_config_from_str = (\<lambda>d. if d = ''sample'' then Inr sample_config else Inl ''unknown''),
     ev_names_to_string = (\<lambda>ns. if ns = [] then Inr ''[]'' else Inl ''unknown''), ev_names_from_str = (\<lambda>d. Inr []),
     ev_answers_to_string = (\<lambda>m. if m = [] then Inr ''{}'' else Inl ''unknown''), ev_answers_from_str = (\<lambda>d. Inr []),
     ev_json_to_string = (\<lambda>j. Inl ''unknown''), ev_json_from_str = (\<lambda>d. Inl ''unknown'')\<rparr>"

definition sample_random :: "string \<Rightarrow> (byte list, string) result" where
  "sample_random i = Inr (replicate 24 9)"

definition sample_snapshot :: snapshot where
  "sample_snapshot = \<lparr>sn_config = sample_config, sn_secrets = [(''a.key'', [1, 2, 3])], sn_cluster = Some ''authority'',
     sn_joins = [], sn_removed = {''n9''}, sn_orders = []\<rparr>"

definition sample_session :: store_session where
  "sample_session = \<lparr>db = empty_tables, faults = [], poisoned = False, backups = []\<rparr>"

definition sample_change :: change where
  "sample_change = \<lparr>ch_author = ''op'', ch_description = ''first''\<rparr>"

lemma sample_libraries: "libraries_faithful sample_env" "fills_nonces sample_random"
  by (simp_all add: libraries_faithful_def sample_env_def fills_nonces_def sample_random_def NONCE_LENGTH_def)

lemma sample_wf: "snapshot_wf sample_snapshot" "logs_wf 0 (db sample_session)"
  by (simp_all add: snapshot_wf_def sample_snapshot_def bt_wf_def logs_wf_def versions_wf_def audit_wf_def
      sample_session_def empty_tables_def)

lemma statement_calm [calm_run]: "faults s = [] \<Longrightarrow> statement what f s = (case f (db s) of
     Inl e \<Rightarrow> (Inl (storage what e), s) | Inr (a, t) \<Rightarrow> (Inr a, s\<lparr>db := t\<rparr>))"
  by (simp add: statement_def fault_calm)

lemma sample_written: "\<exists>s. write_version sample_env sample_random sample_snapshot sample_change None 5 [] [] sample_session = (Inr 1, s)"
  by (simp add: write_version_def write_tables_def transaction_def calm_run sample_session_def sample_env_def sample_snapshot_def
      sample_random_def seal_def execute_def write_secret_def write_state_def write_identity_def write_joins_def write_removed_def
      write_removed_node_def write_orders_def append_version_def prune_def insert_row_def bt_get_def empty_tables_def
      I64_MAX_def MAX_VERSIONS_def Let_def)

section \<open>Properties\<close>

text \<open>
  C20: A state that was written is the state that is read back, whole: the configuration, every
  secret opened again, the authority, the join tokens, the removed nodes and the orders.
\<close>

theorem written_state_read_back:
  assumes "write_version env random snap change restored now markers audit s = (Inr v, s')" "snapshot_wf snap" "logs_wf n (db s)"
    "libraries_faithful env" "fills_nonces random"
  shows "read_store env (calm s') = (Inr (Some snap), calm s')"
  using assms by (rule written_reads)

theorem written_state_read_back_witness:
  "\<exists>s. read_store sample_env (calm s) = (Inr (Some sample_snapshot), calm s)"
proof -
  obtain s where "write_version sample_env sample_random sample_snapshot sample_change None 5 [] [] sample_session = (Inr 1, s)"
    using sample_written by blast
  from written_state_read_back [OF this sample_wf sample_libraries] show ?thesis by blast
qed

text \<open>
  C21: An operation of the store that fails, whichever statement SQLite refused and however far
  the operation had got, leaves every table as it was.
\<close>

theorem failed_operation_changes_nothing:
  assumes "run_op env op s = (Inl e, s')"
  shows "db s' = db s"
  using assms by (rule run_op_intact)

theorem failed_operation_changes_nothing_witness:
  "db (snd (run_op sample_env (MarkerOp ''vote'' (Some ''1'')) (sample_session\<lparr>faults := [Some ''disk I/O error'']\<rparr>))) = empty_tables"
proof -
  let ?s = "sample_session\<lparr>faults := [Some ''disk I/O error'']\<rparr>"
  have "run_op sample_env (MarkerOp ''vote'' (Some ''1'')) ?s =
      (Inl (storage ''a marker could not be written'' ''disk I/O error''), sample_session)"
    by (simp add: sample_session_def giving_def set_marker_def connection_def write_marker_def execute_def statement_def fault_def)
  from failed_operation_changes_nothing [OF this] this show ?thesis by (simp add: sample_session_def)
qed

text \<open>
  C22: Through any operations, whatever fails among them, the identities given to versions grow:
  no identity is given twice, and none is at or below one the store ever held.
\<close>

theorem version_identities_grow:
  assumes "run_ops env ops s = (ids, s')" "\<forall>op \<in> set ops. op_wf op" "logs_wf (tb_version_seq (db s)) (db s)"
  shows "sorted_wrt (<) ids \<and> (\<forall>v \<in> set ids. tb_version_seq (db s) < v) \<and> logs_wf (tb_version_seq (db s)) (db s')"
  using assms by (rule run_ops_grow)

theorem version_identities_grow_witness:
  "sorted_wrt (<) (fst (run_ops sample_env [WriteOp sample_random sample_snapshot sample_change 5 [] [], PurgeOp 4] sample_session))"
proof -
  let ?ops = "[WriteOp sample_random sample_snapshot sample_change 5 [] [], PurgeOp 4]"
  have "run_ops sample_env ?ops sample_session = (fst (run_ops sample_env ?ops sample_session), snd (run_ops sample_env ?ops sample_session))"
    by simp
  moreover have "\<forall>op \<in> set ?ops. op_wf op" using sample_wf(1) by simp
  moreover have "logs_wf (tb_version_seq (db sample_session)) (db sample_session)"
    using sample_wf(2) by (simp add: logs_wf_def)
  ultimately show ?thesis using version_identities_grow by blast
qed

text \<open>
  C23: A write appends one version with the next identity and keeps the newest hundred; each
  version that goes leaves a note in the audit log, before the rows the write brought along.
\<close>

theorem history_keeps_newest:
  assumes "write_version env random snap change restored now markers audit s = (Inr v, s')" "snapshot_wf snap" "logs_wf n (db s)"
  shows "\<exists>row. ev_config_to_string env (sn_config snap) = Inr (vw_document row) \<and> vw_restored_from row = restored \<and>
    (let log = tb_config_version (db s) @ [(v, row)]; over = length log - 100 in
      tb_config_version (db s') = drop over log \<and> length (tb_config_version (db s')) \<le> 100 \<and>
      map snd (tb_audit_log (db s')) = map snd (tb_audit_log (db s))
        @ map (pruning_note change now) (rev (map fst (take over log))) @ audit)"
proof -
  have wf: "versions_wf (db s)" "audit_wf (db s)" using assms(3) by (simp_all add: logs_wf_def)
  from write_version_Inr [OF assms(1,2) wf] obtain document sealed where
      document: "ev_config_to_string env (sn_config snap) = Inr document" "v = tb_version_seq (db s) + 1"
      and held: "db s' = written env snap change restored now markers audit document sealed (db s)"
    unfolding now_holds_def by metis
  let ?row = "version_row_of snap change restored now document"
  let ?t = "with_version ?row (with_state env snap document sealed now (db s))"
  have log: "tb_config_version ?t = tb_config_version (db s) @ [(v, ?row)]"
    using document(2) by (simp add: with_version_def with_state_def)
  have "versions_wf ?t" using wf(1) by (intro with_version_wf) simp
  then have "tb_config_version (db s') = drop (length (tb_config_version ?t) - 100) (tb_config_version ?t)"
    by (simp add: held written_def with_markers_def pruned_versions MAX_VERSIONS_def)
  moreover have "doomed ?t = rev (map fst (take (length (tb_config_version ?t) - 100) (tb_config_version ?t)))"
    by (simp add: doomed_def MAX_VERSIONS_def drop_rev rev_map [symmetric] take_map)
  then have "map snd (tb_audit_log (db s')) = map snd (tb_audit_log (db s))
      @ map (pruning_note change now) (rev (map fst (take (length (tb_config_version ?t) - 100) (tb_config_version ?t)))) @ audit"
    by (simp add: held written_def with_markers_def pruned_def without_versions_def)
      (simp add: with_version_def with_state_def)
  ultimately show ?thesis
    using document(1) log by (intro exI [of _ ?row]) (simp add: Let_def version_row_of_def)
qed

theorem history_keeps_newest_witness: "\<exists>(s :: store_session) row. tb_config_version (db s) = [(1, row)] \<and> vw_document row = ''sample''"
proof -
  obtain s where s: "write_version sample_env sample_random sample_snapshot sample_change None 5 [] [] sample_session = (Inr 1, s)"
    using sample_written by blast
  from history_keeps_newest [OF s sample_wf] obtain row where
      "ev_config_to_string sample_env sample_config = Inr (vw_document row)" "tb_config_version (db s) = [(1, row)]"
    by (auto simp: Let_def sample_session_def empty_tables_def sample_snapshot_def)
  then show ?thesis by (intro exI [of _ s] exI [of _ row]) (simp add: sample_env_def split: if_splits)
qed

text \<open>
  C24: A rollback restores the configuration of a version that is in the log, except for the
  certificates; the secrets, the authority, the join tokens, the removed nodes and the orders
  stay what they were.
\<close>

theorem rollback_restores_configuration:
  assumes "roll_back_to env random clock i change s = (Inr v, s')" "logs_wf n (db s)" "libraries_faithful env" "fills_nonces random"
  shows "\<exists>row restored current. bt_get i (tb_config_version (db s)) = Some row \<and>
    ev_config_from_str env (vw_document row) = Inr restored \<and> read_store env (calm s) = (Inr (Some current), calm s) \<and>
    read_store env (calm s') = (Inr (Some (current\<lparr>sn_config := restored\<lparr>certificates := certificates (sn_config current)\<rparr>\<rparr>)), calm s')"
  using rolled_back_reads [OF assms] by metis

definition sample_row :: version_row where
  "sample_row = \<lparr>vw_recorded_at = 5, vw_author = ''op'', vw_description = ''first'', vw_schema_version = 1,
     vw_restored_from = None, vw_document = ''sample''\<rparr>"

definition sample_held :: store_session where
  "sample_held = sample_session\<lparr>db := empty_tables\<lparr>tb_config_state := Some \<lparr>st_schema_version = 1, st_document = ''sample'', st_updated_at = 5\<rparr>,
     tb_config_version := [(1, sample_row)], tb_version_seq := 1\<rparr>\<rparr>"

lemmas write_eval = write_version_def write_tables_def transaction_def calm_run execute_def write_secret_def write_state_def
  write_identity_def write_joins_def write_removed_def write_removed_node_def write_orders_def append_version_def prune_def
  insert_row_def bt_get_def I64_MAX_def MAX_VERSIONS_def Let_def

theorem rollback_restores_configuration_witness:
  "\<exists>s current. read_store sample_env (calm s) = (Inr (Some current), calm s) \<and> sn_config current = sample_config"
proof -
  have "\<exists>s. roll_back_to sample_env sample_random (Inr 9) 1 sample_change sample_held = (Inr 2, s)"
    by (simp add: roll_back_to_def version_schema_def version_config_def transpose_schema_def stored_schema_def read_store_def
        read_joins_def read_removed_def read_orders_def write_eval sample_held_def sample_session_def empty_tables_def
        sample_row_def sample_env_def SCHEMA_CURRENT_def seconds_since_epoch_def)
  then obtain s where s: "roll_back_to sample_env sample_random (Inr 9) 1 sample_change sample_held = (Inr 2, s)" by blast
  have "logs_wf 0 (db sample_held)"
    by (simp add: logs_wf_def versions_wf_def audit_wf_def bt_wf_def sample_held_def sample_session_def empty_tables_def)
  from rollback_restores_configuration [OF s this sample_libraries]
  show ?thesis by (force simp: sample_held_def sample_session_def empty_tables_def bt_get_def sample_row_def sample_env_def
      read_store_def read_joins_def read_removed_def read_orders_def calm_run)
qed

text \<open>
  C25: A peer that imports what another node exported exports exactly the same: the state, every
  version under its identity and the audit log, whatever it held before.
\<close>

theorem import_then_export:
  assumes "import_store env random clock state markers s = (Inr u, s')" "full_wf state" "libraries_faithful env" "fills_nonces random"
  shows "export_store env (calm s') = (Inr state, calm s')"
  using assms by (rule imported_exported)

definition sample_full :: full_state where
  "sample_full = \<lparr>fs_snapshot = Some sample_snapshot, fs_versions = [\<lparr>sv_id = 4, sv_recorded_at_unix = 5, sv_author = ''op'',
     sv_description = ''first'', sv_schema_version = 1, sv_restored_from = None, sv_document = ''sample''\<rparr>], fs_audit = []\<rparr>"

theorem import_then_export_witness:
  "\<exists>s. export_store sample_env (calm s) = (Inr sample_full, calm s)"
proof -
  have "\<exists>s. import_store sample_env sample_random (Inr 9) sample_full [] sample_held = (Inr (), s)"
    by (simp add: import_store_def import_tables_def import_snapshot_def clearing_def write_eval sample_held_def sample_session_def
        empty_tables_def sample_full_def sample_snapshot_def sample_env_def sample_random_def seal_def seconds_since_epoch_def
        write_stored_version_def)
  then obtain s where s: "import_store sample_env sample_random (Inr 9) sample_full [] sample_held = (Inr (), s)" by blast
  have "full_wf sample_full" using sample_wf(1) by (simp add: full_wf_def sample_full_def)
  from import_then_export [OF s this sample_libraries] show ?thesis by blast
qed

end
