(* ===== verification/Spec2Isabelle.thy ===== *)
theory Spec2Isabelle
  imports Wire_Properties Vrrp_Properties Agent_Properties Dataplane_Properties Config_Properties
    Traffic_Properties Certificate_Properties Acme_Properties Template_Properties Store_Properties
begin

text \<open>
  \<open>ek-ek\<close>: a load balancer that runs as two processes on every node. This development
  models the part of it that decides.

  \<^bold>\<open>The program.\<close> \<open>node-agent\<close> (\<open>crates/ek-ek-agent\<close>) starts and watches the traffic path and
  runs the virtual router (\<open>crates/ek-ek-vrrp\<close>), which elects the node that carries the
  virtual addresses; the supervision tells the router over a channel when the traffic path
  is down. \<open>data-plane\<close> (\<open>crates/ek-ek-dataplane\<close>) takes the traffic: it routes a request
  to a pool, chooses a healthy member and forwards. Both read the configuration types of
  \<open>crates/ek-ek-config\<close>.

  \<^bold>\<open>Foundations.\<close>
  \<^item> \<open>Prelude\<close>: machine integers as words, byte order, checked access, addresses with their
    order, I/O errors, instants and durations as nanoseconds (a duration in the code cannot
    overflow at the values the program uses, and is a natural number here).
  \<^item> \<open>Text\<close>: the operations of Rust strings the sources use, on strings of bytes.
  \<^item> \<open>Checksum\<close>: the Internet checksum, with the locale \<open>internet_checksum\<close> that the VRRP,
    ICMP and ICMPv6 checksums interpret.
  \<^item> \<open>Btree_Map\<close>: \<open>BTreeMap\<close> as a sorted association list, with the locale
    \<open>ordered_map\<close> and its walk clockwise from a key, which the hash ring rests on.

  \<^bold>\<open>The virtual router.\<close>
  \<^item> \<open>Packet\<close>, \<open>Header\<close>, \<open>Echo\<close>, \<open>Announce\<close>, \<open>Netlink\<close>, \<open>Interface\<close>: \<open>packet.rs\<close>,
    \<open>header.rs\<close>, \<open>echo.rs\<close> and \<open>ping.rs\<close>, \<open>announce.rs\<close>, \<open>address.rs\<close>, \<open>route.rs\<close> and
    \<open>netlink.rs\<close>, \<open>interface.rs\<close>. Bytes in and out, either byte order.
  \<^item> \<open>Vrrp_State\<close>: \<open>state.rs\<close>, the machine as a record and each method as a function to
    actions and a machine; events, runs and reachable machines; the locale \<open>claim_order\<close>,
    interpreted on the comparison of priorities and addresses, decides elections.
  \<^item> \<open>Gateway\<close>, \<open>Carrier\<close>, \<open>Router\<close>: \<open>gateway.rs\<close>, \<open>carrier.rs\<close> and \<open>frame.rs\<close>,
    \<open>router.rs\<close> and \<open>socket.rs\<close>. The operating system is a record of functions over a
    world; \<open>kernel_ok\<close>, \<open>quiet_ok\<close> and \<open>runs_dry\<close> state what its documentation promises.
  \<^item> \<open>Router_Role\<close>, \<open>Router_Round\<close>: every operation keeps the addresses of a master on the
    interface, and every round returns. The receive loops are partial functions into
    option; the bound is the number of datagrams waiting, which each read lowers.
  \<^item> \<open>Kernel\<close>: a concrete operating system that satisfies all of these promises.

  \<^bold>\<open>The agent.\<close> \<open>Supervise\<close> is \<open>supervise.rs\<close>; \<open>Agent\<close> is the loop of \<open>run.rs\<close>, the thread of
  the router and the plan of \<open>vrrp.rs\<close>. The several readings of the clock before the loop
  are one moment here.

  \<^bold>\<open>The configuration.\<close> \<open>Backends\<close>, \<open>Frontends\<close> and \<open>Config\<close> hold the types of
  \<open>crates/ek-ek-config\<close>. \<open>Matrix\<close> is \<open>matrix.rs\<close>: the number of every virtual address and
  the order of its nodes. \<open>Validation\<close> and \<open>Inspection\<close> are \<open>validation.rs\<close>: the thirteen
  checks are shown to be silent exactly for \<open>config_ok\<close>, the specification of a well-formed
  configuration, and the warnings follow. \<open>Template\<close> is \<open>template.rs\<close>: what a template makes of
  a configuration, when the result is accepted, and that undoing it leaves no trace.

  \<^bold>\<open>The traffic path.\<close>
  \<^item> \<open>Hashring\<close>, \<open>Health\<close>, \<open>Balance\<close>, \<open>Route\<close>, \<open>Sticky\<close>, \<open>Policy\<close>, \<open>Pool\<close>,
    \<open>Proxyproto\<close>, \<open>Clienthello\<close>, \<open>Udp\<close>, \<open>Certs\<close>, \<open>Challenge\<close>, \<open>Requestid\<close>, \<open>Live\<close>: the files
    of the same names. A lock that a panic poisoned is a flag. The locale \<open>lru_table\<close> is
    what a client of the UDP sessions relies on, interpreted on the table and on the
    forwarding of datagrams.
  \<^item> \<open>Proxy\<close>: \<open>proxy.rs\<close>, the callbacks of one request over what requests share; the
    inductive relation \<open>traffic\<close> lets requests overlap, and the open counts are an invariant
    of it by rule induction.
  \<^item> \<open>Udpproxy\<close>: \<open>udpproxy.rs\<close>, the loop of one frontend as a step on the event it meets.
  \<^item> \<open>Ipc\<close> and \<open>Log_Records\<close>: the messages between the processes and the access record.

  \<^bold>\<open>Certificates.\<close> \<open>crates/ek-ek-tls\<close> obtains what the traffic path serves.
  \<^item> \<open>Failure\<close>: \<open>error.rs\<close>, with the sequencing of results the crate is written in.
  \<^item> \<open>Dns_Wire\<close>, \<open>Tsig\<close>, \<open>Cloudflare\<close>, \<open>Dns\<close>: the files of \<open>dns/\<close>. What is written is read
    back, a signed answer is accepted and an accepted one proves the key, and waiting for a
    record ends.
  \<^item> \<open>Jws\<close>, \<open>Order\<close>, \<open>Acme\<close>: \<open>jws.rs\<close>, \<open>order.rs\<close>, \<open>acme.rs\<close> with \<open>attempt.rs\<close> and \<open>csr.rs\<close>. The
    flow is a record and an answer moves it down a well-founded order, one answer apart; the
    loop of an attempt is a partial function into option, shown to return, and the inductive
    relation \<open>driving\<close> holds the states it goes through.
  \<^item> \<open>Renewal\<close>, \<open>Inspect\<close>: \<open>renewal.rs\<close>, \<open>record.rs\<close>, \<open>metrics.rs\<close>, \<open>inspect.rs\<close>.

  \<^bold>\<open>The store.\<close> \<open>crates/ek-ek-store\<close> keeps the state the nodes agree on.
  \<^item> \<open>Store\<close>: the types of the state, the comparison of configurations and the migrations.
  \<^item> \<open>Sqlite\<close>: \<open>sqlite.rs\<close>, \<open>crypto.rs\<close> and \<open>master_key.rs\<close>. The database is a record of tables, a
    statement a function on them, and a list in the session says which of the next statements
    SQLite refuses. \<open>Sqlite_Laws\<close> has what each operation does when it succeeds and what a read
    gives; \<open>Sqlite_Runs\<close> what any sequence of operations keeps, by rules for the ways in which
    operations are composed.

  \<^bold>\<open>Properties.\<close> \<open>Vrrp_Properties\<close> (elections, timers, what packets can do),
  \<open>Agent_Properties\<close> (the router thread on its operating system, supervision),
  \<open>Wire_Properties\<close> (packets, netlink), \<open>Dataplane_Properties\<close> (choosing, health, routing,
  server names), \<open>Config_Properties\<close> (validation, the matrix, warnings),
  \<open>Traffic_Properties\<close> (whole requests, handshakes, UDP clients), \<open>Certificate_Properties\<close>
  (challenge records), \<open>Acme_Properties\<close> (orders, renewal, uploads, comparison),
  \<open>Template_Properties\<close> and \<open>Store_Properties\<close>. Each is numbered, and each
  with hypotheses has a witness at concrete values.

  \<^bold>\<open>Parameters.\<close> The operating system, HMAC, SHA-256, OpenSSL, base64, JSON, the HTTP library and
  its client, the cipher of the store, Unicode lower-casing and semaphores are not in the sources: they are arguments of the
  definitions that use them.

  \<^bold>\<open>Not modelled.\<close> The services and streams of the traffic path, TLS handshakes, sockets and
  threads themselves, SQLite and the consensus library,
  argument parsing, and the text of log records beyond their fields.
\<close>

end
